(* ===== verification/Prelude.thy ===== *)
theory Prelude
  imports Main "HOL-Library.Word" "HOL-Library.AList"
begin

text \<open>
  Shared vocabulary of the development: the exceptions the Python code raises (as the left
  summand of every fallible operation), \<open>dict.fromkeys\<close> de-duplication, and the four table
  primitives (select, update, delete, projection to one owner's rows) to which every SQL
  statement of the api is translated, with the rewrite rules the component proofs share.
\<close>

named_theorems tenant_simps \<open>rules that push a projection to one owner through a statement\<close>

section \<open>Exceptions\<close>

datatype py_exn =
    HTTPException nat string
  | ValueError
  | KeyError
  | IndexError
  | OverflowError
  | OSError
  | IntegrityError
  | MultipleResultsFound
  | NoResultFound
  | ConversionError
  | DriveError
  | DriveAuthError
  | OAuthUnconfiguredError
  | InvalidTag
  | MilvusException
  | RemoteInferenceError
  | MissingInferenceKeyError
  | TimeoutError
  | CancelledError
  | TypeError
  | RuntimeError
  | APIError
  | ClientError
  | AttributeError
  | MissingGreenlet
  | HTTPXError
  | RedisError
  | DataError
  | OperationalError

type_synonym 'a result = "py_exn + 'a"

text \<open>The status a client sees: anything but an \<open>HTTPException\<close> leaves a handler as a 500.\<close>

fun status_of :: "py_exn \<Rightarrow> nat" where
  "status_of (HTTPException s _) = s"
| "status_of OAuthUnconfiguredError = 503"
| "status_of MissingInferenceKeyError = 503"
| "status_of RemoteInferenceError = 502"
| "status_of _ = 500"

text \<open>\<open>except RemoteInferenceError\<close> also catches its subclass.\<close>

definition remote_inference :: "py_exn \<Rightarrow> bool" where
  "remote_inference e \<longleftrightarrow> e \<in> {RemoteInferenceError, MissingInferenceKeyError}"

lemma remote_inference_simps [simp]: "remote_inference RemoteInferenceError" "remote_inference MissingInferenceKeyError"
  by (simp_all add: remote_inference_def)

fun is_ok :: "'a result \<Rightarrow> bool" where
  "is_ok (Inl _) = False"
| "is_ok (Inr _) = True"

section \<open>De-duplication in first-occurrence order\<close>

text \<open>\<open>list(dict.fromkeys(xs))\<close>: the distinct elements, each at its first position.\<close>

fun fromkeys :: "'a list \<Rightarrow> 'a list" where
  "fromkeys [] = []"
| "fromkeys (x # xs) = x # filter (\<lambda>y. y \<noteq> x) (fromkeys xs)"

lemma set_fromkeys [simp]: "set (fromkeys xs) = set xs"
  by (induction xs) auto

lemma distinct_fromkeys [simp]: "distinct (fromkeys xs)"
  by (induction xs) auto

lemma fromkeys_Nil_iff [simp]: "fromkeys xs = [] \<longleftrightarrow> xs = []"
  by (cases xs) auto

lemma fromkeys_distinct [simp]: "distinct xs \<Longrightarrow> fromkeys xs = xs"
  by (induction xs) (auto simp: filter_id_conv)

lemma fromkeys_filter: "fromkeys (filter P xs) = filter P (fromkeys xs)"
proof (induction xs)
  case (Cons x xs)
  have "filter P (filter (\<lambda>y. y \<noteq> x) (fromkeys xs)) = filter (\<lambda>y. y \<noteq> x) (filter P (fromkeys xs))"
    by (simp add: conj_commute)
  moreover have "filter (\<lambda>y. P y \<and> y \<noteq> x) (fromkeys xs) = filter P (fromkeys xs)" if "\<not> P x"
    using that by (intro filter_cong) auto
  ultimately show ?case using Cons.IH by auto
qed simp

section \<open>Table primitives\<close>

definition select_where :: "('r \<Rightarrow> bool) \<Rightarrow> 'r list \<Rightarrow> 'r list" where
  "select_where p t = filter p t"

definition update_where :: "('r \<Rightarrow> bool) \<Rightarrow> ('r \<Rightarrow> 'r) \<Rightarrow> 'r list \<Rightarrow> 'r list" where
  "update_where p f t = map (\<lambda>r. if p r then f r else r) t"

definition delete_where :: "('r \<Rightarrow> bool) \<Rightarrow> 'r list \<Rightarrow> 'r list" where
  "delete_where p t = filter (\<lambda>r. \<not> p r) t"

text \<open>The rows of one owner: the tenant's slice of a table.\<close>

definition owned_rows :: "('r \<Rightarrow> 'u) \<Rightarrow> 'u \<Rightarrow> 'r list \<Rightarrow> 'r list" where
  "owned_rows own u t = filter (\<lambda>r. own r = u) t"

text \<open>\<open>result.scalar_one_or_none()\<close> and \<open>result.one()\<close>.\<close>

fun scalar_one_or_none :: "'r list \<Rightarrow> 'r option result" where
  "scalar_one_or_none [] = Inr None"
| "scalar_one_or_none [r] = Inr (Some r)"
| "scalar_one_or_none _ = Inl MultipleResultsFound"

fun one_row :: "'r list \<Rightarrow> 'r result" where
  "one_row [] = Inl NoResultFound"
| "one_row [r] = Inr r"
| "one_row _ = Inl MultipleResultsFound"

lemma scalar_Some_conv: "scalar_one_or_none rs = Inr (Some r) \<longleftrightarrow> rs = [r]"
  by (cases rs rule: scalar_one_or_none.cases) auto

lemma scalar_None_conv [simp]: "scalar_one_or_none rs = Inr None \<longleftrightarrow> rs = []"
  by (cases rs rule: scalar_one_or_none.cases) auto

lemma scalar_Inl_conv: "scalar_one_or_none rs = Inl e \<longleftrightarrow> 1 < length rs \<and> e = MultipleResultsFound"
  by (cases rs rule: scalar_one_or_none.cases) auto

lemma one_row_Inr_conv: "one_row rs = Inr r \<longleftrightarrow> rs = [r]"
  by (cases rs rule: one_row.cases) auto

lemma set_select_where [simp]: "set (select_where p t) = {r \<in> set t. p r}"
  by (simp add: select_where_def)

lemma set_delete_where [simp]: "set (delete_where p t) = {r \<in> set t. \<not> p r}"
  by (auto simp: delete_where_def)

lemma set_owned_rows [simp]: "set (owned_rows own u t) = {r \<in> set t. own r = u}"
  by (simp add: owned_rows_def)

lemma set_update_where: "set (update_where p f t) = (\<lambda>r. if p r then f r else r) ` set t"
  by (simp add: update_where_def)

lemmas [tenant_simps] = Let_def case_prod_beta

lemma owned_rows_idem [tenant_simps]: "owned_rows own u (owned_rows own u t) = owned_rows own u t"
  by (simp add: owned_rows_def)

lemma owned_rows_append [tenant_simps]:
  "owned_rows own u (t @ rs) = owned_rows own u t @ owned_rows own u rs"
  by (simp add: owned_rows_def)

lemma owned_rows_all [tenant_simps]:
  "\<forall>r \<in> set rs. own r = u \<Longrightarrow> owned_rows own u rs = rs"
  by (simp add: owned_rows_def filter_id_conv)

lemma owned_rows_none [tenant_simps]:
  "\<forall>r \<in> set rs. own r \<noteq> u \<Longrightarrow> owned_rows own u rs = []"
  by (simp add: owned_rows_def filter_empty_conv)

lemma select_owned [tenant_simps]:
  "\<forall>r. p r \<longrightarrow> own r = u \<Longrightarrow> select_where p (owned_rows own u t) = select_where p t"
  by (auto simp: select_where_def owned_rows_def intro: filter_cong)

lemma update_owned [tenant_simps]:
  "\<forall>r. p r \<longrightarrow> own r = u \<Longrightarrow> \<forall>r. own (f r) = own r \<Longrightarrow>
   owned_rows own u (update_where p f t) = update_where p f (owned_rows own u t)"
  by (induction t) (auto simp: update_where_def owned_rows_def)

lemma update_other:
  "\<forall>r. p r \<longrightarrow> own r \<noteq> v \<Longrightarrow> \<forall>r. own (f r) = own r \<Longrightarrow>
   owned_rows own v (update_where p f t) = owned_rows own v t"
  by (induction t) (auto simp: update_where_def owned_rows_def)

lemma delete_owned_any: "owned_rows own u (delete_where p t) = delete_where p (owned_rows own u t)"
  by (simp add: delete_where_def owned_rows_def conj_commute)

lemma delete_owned [tenant_simps]:
  "\<forall>r. p r \<longrightarrow> own r = u \<Longrightarrow> owned_rows own u (delete_where p t) = delete_where p (owned_rows own u t)"
  by (rule delete_owned_any)

lemma delete_other:
  "\<forall>r. p r \<longrightarrow> own r \<noteq> v \<Longrightarrow> owned_rows own v (delete_where p t) = owned_rows own v t"
  by (auto simp: delete_where_def owned_rows_def intro: filter_cong)

lemmas tenant_frame = update_other delete_other

lemma update_where_none: "(\<And>r. r \<in> set t \<Longrightarrow> \<not> p r) \<Longrightarrow> update_where p f t = t"
  by (simp add: update_where_def map_idI)

lemma map_update_where:
  "(\<And>r. g (f r) = g r) \<Longrightarrow> map g (update_where p f t) = map g t"
  by (simp add: update_where_def)

text \<open>An update that keeps its own condition returns the rows a later select finds.\<close>

lemma select_where_update:
  "\<forall>r. p (f r) = p r \<Longrightarrow> select_where p (update_where p f t) = map f (select_where p t)"
  by (induction t) (auto simp: select_where_def update_where_def)

lemma select_where_update_none:
  "\<forall>r. \<not> p (f r) \<Longrightarrow> select_where p (update_where p f t) = []"
  by (induction t) (auto simp: select_where_def update_where_def)

text \<open>An update of other rows, to other rows, is invisible to a select.\<close>

lemma select_where_update_other:
  "\<forall>r. p r \<longrightarrow> \<not> q r \<and> \<not> q (f r) \<Longrightarrow> select_where q (update_where p f t) = select_where q t"
  by (induction t) (auto simp: select_where_def update_where_def)

lemma select_where_append [simp]: "select_where q (t @ rs) = select_where q t @ select_where q rs"
  by (simp add: select_where_def)

lemma select_where_single [simp]: "select_where q [r] = (if q r then [r] else [])"
  by (simp add: select_where_def)

text \<open>With distinct keys, a lookup by key finds at most one row.\<close>

lemma distinct_key_select:
  assumes "distinct (map key t)"
  shows "length (filter (\<lambda>r. key r = k \<and> q r) t) \<le> 1"
  using assms
proof (induction t)
  case (Cons a t)
  show ?case
  proof (cases "key a = k")
    case True
    with Cons.prems have "filter (\<lambda>r. key r = k \<and> q r) t = []"
      by (auto simp: filter_empty_conv) (metis imageI)
    then show ?thesis by simp
  next
    case False
    with Cons show ?thesis by simp
  qed
qed simp

lemma distinct_key_lookup:
  assumes "distinct (map key t)" and "r \<in> set t" and "q r"
  shows "filter (\<lambda>x. key x = key r \<and> q x) t = [r]"
proof -
  let ?f = "filter (\<lambda>x. key x = key r \<and> q x) t"
  have mem: "r \<in> set ?f" using assms(2,3) by simp
  moreover have "length ?f \<le> 1" using assms(1) by (rule distinct_key_select)
  ultimately show ?thesis by (cases ?f) auto
qed

lemma distinct_map_filter_key: "distinct (map key t) \<Longrightarrow> distinct (map key (filter q t))"
  by (rule distinct_map_filter)

end
