(* ===== verification/Py_Base.thy ===== *)
theory Py_Base
  imports Prelude
begin

text \<open>
  The parts of Python's standard library the modelled code leans on, written out: \<open>str\<close>
  methods (\<open>strip\<close>, \<open>replace\<close>, \<open>join\<close>, \<open>startswith\<close>, \<open>find\<close>), decimal printing,
  \<open>int(s, base)\<close>, and \<open>uuid.UUID\<close> with its parser and printer. A Python \<open>str\<close> is a
  \<^typ>\<open>string\<close> read as a sequence of code points below 256; \<open>Chunking\<close> uses lists of
  arbitrary code points instead, because UTF-8 lengths matter there.
\<close>

type_synonym uuid = "128 word"
type_synonym timestamp = int

section \<open>Strings\<close>

text \<open>Code points below 256 for which \<open>str.isspace()\<close> holds.\<close>

definition is_space :: "char \<Rightarrow> bool" where
  "is_space c = (let n = of_char c :: nat in
     (9 \<le> n \<and> n \<le> 13) \<or> (28 \<le> n \<and> n \<le> 32) \<or> n = 133 \<or> n = 160)"

definition lstrip_by :: "(char \<Rightarrow> bool) \<Rightarrow> string \<Rightarrow> string" where
  "lstrip_by P s = dropWhile P s"

definition rstrip_by :: "(char \<Rightarrow> bool) \<Rightarrow> string \<Rightarrow> string" where
  "rstrip_by P s = rev (dropWhile P (rev s))"

definition strip_by :: "(char \<Rightarrow> bool) \<Rightarrow> string \<Rightarrow> string" where
  "strip_by P s = rstrip_by P (lstrip_by P s)"

definition py_strip :: "string \<Rightarrow> string" where
  "py_strip s = strip_by is_space s"

fun join :: "string \<Rightarrow> string list \<Rightarrow> string" where
  "join sep [] = []"
| "join sep [s] = s"
| "join sep (s # t # ss) = s @ sep @ join sep (t # ss)"

text \<open>\<open>str.lower\<close> on ASCII letters.\<close>

definition lower_char :: "char \<Rightarrow> char" where
  "lower_char c = (let n = of_char c :: nat in if 65 \<le> n \<and> n \<le> 90 then char_of (n + 32) else c)"

definition startswith :: "string \<Rightarrow> string \<Rightarrow> bool" where
  "startswith s p = (take (length p) s = p)"

text \<open>\<open>needle in s\<close>.\<close>

definition contains :: "string \<Rightarrow> string \<Rightarrow> bool" where
  "contains s needle = list_ex (\<lambda>i. startswith (drop i s) needle) [0..<Suc (length s)]"

text \<open>\<open>s.replace(old, new)\<close> for a non-empty \<open>old\<close>: leftmost, non-overlapping.\<close>

function replace_all :: "string \<Rightarrow> string \<Rightarrow> string \<Rightarrow> string" where
  "replace_all old new [] = []"
| "replace_all old new (c # cs) =
     (if old \<noteq> [] \<and> startswith (c # cs) old
      then new @ replace_all old new (drop (length old) (c # cs))
      else c # replace_all old new cs)"
  by pat_completeness auto
termination
  by (relation "measure (\<lambda>(old, new, s). length s)") auto

lemma replace_all_absent:
  "c \<in> set old \<Longrightarrow> c \<notin> set s \<Longrightarrow> replace_all old new s = s"
proof (induction old new s rule: replace_all.induct)
  case (2 old new d ds)
  have "\<not> startswith (d # ds) old"
    using 2(3,4) by (auto simp: startswith_def) (metis in_set_takeD set_ConsD)
  then show ?case using 2 by auto
qed simp

lemma strip_by_id:
  "(\<And>c. c \<in> set s \<Longrightarrow> \<not> P c) \<Longrightarrow> strip_by P s = s"
proof -
  assume none: "\<And>c. c \<in> set s \<Longrightarrow> \<not> P c"
  have "dropWhile P s = s" using none by (cases s) auto
  moreover have "dropWhile P (rev s) = rev s" using none by (cases "rev s") (auto simp: rev_eq_Cons_iff)
  ultimately show ?thesis by (simp add: strip_by_def lstrip_by_def rstrip_by_def)
qed

lemma length_strip_by: "length (strip_by P s) \<le> length s"
  unfolding strip_by_def lstrip_by_def rstrip_by_def
  by (metis length_dropWhile_le length_rev order_trans)

lemma set_strip_by: "set (strip_by P s) \<subseteq> set s"
  by (auto simp: strip_by_def lstrip_by_def rstrip_by_def dest!: set_dropWhileD)

text \<open>The UTF-8 length of a string of code points below 256.\<close>

definition utf8_len :: "string \<Rightarrow> nat" where
  "utf8_len s = sum_list (map (\<lambda>c. if (of_char c :: nat) < 128 then 1 else 2) s)"

lemma utf8_len_append [simp]: "utf8_len (s @ t) = utf8_len s + utf8_len t"
  by (simp add: utf8_len_def)

lemma length_le_utf8_len: "length s \<le> utf8_len s"
  by (induction s) (auto simp: utf8_len_def)

section \<open>Integers as text\<close>

definition digit_char :: "nat \<Rightarrow> char" where
  "digit_char d = char_of (if d < 10 then 48 + d else 87 + d)"

definition digit_val :: "nat \<Rightarrow> char \<Rightarrow> nat option" where
  "digit_val base c = (let n = of_char c :: nat;
      v = (if 48 \<le> n \<and> n \<le> 57 then n - 48
           else if 97 \<le> n \<and> n \<le> 122 then n - 87
           else if 65 \<le> n \<and> n \<le> 90 then n - 55 else 99)
    in if v < base then Some v else None)"

fun nat_str :: "nat \<Rightarrow> string" where
  "nat_str n = (if n < 10 then [digit_char n] else nat_str (n div 10) @ [digit_char (n mod 10)])"

declare nat_str.simps [simp del]

definition int_str :: "int \<Rightarrow> string" where
  "int_str i = (if i < 0 then CHR ''-'' # nat_str (nat (- i)) else nat_str (nat i))"

text \<open>The digit loop of \<open>int(s, base)\<close>: single underscores only between digits.\<close>

fun int_digits :: "nat \<Rightarrow> bool \<Rightarrow> nat \<Rightarrow> string \<Rightarrow> nat option" where
  "int_digits base prev acc [] = (if prev then Some acc else None)"
| "int_digits base prev acc (c # cs) =
     (if c = CHR ''_'' then (if prev then int_digits base False acc cs else None)
      else case digit_val base c of
             None \<Rightarrow> None
           | Some d \<Rightarrow> int_digits base True (acc * base + d) cs)"

definition int_space :: "char \<Rightarrow> bool" where
  "int_space c = (let n = of_char c :: nat in (9 \<le> n \<and> n \<le> 13) \<or> n = 32 \<or> n = 133 \<or> n = 160)"

definition drop_radix :: "nat \<Rightarrow> string \<Rightarrow> string" where
  "drop_radix base s =
     (if base = 16 \<and> (startswith s ''0x'' \<or> startswith s ''0X'')
      then (let t = drop 2 s in if startswith t ''_'' then drop 1 t else t) else s)"

definition py_int :: "nat \<Rightarrow> string \<Rightarrow> int option" where
  "py_int base s =
     (let t = strip_by int_space s;
          neg = startswith t ''-'';
          body = (if neg \<or> startswith t ''+'' then drop 1 t else t)
      in case int_digits base False 0 (drop_radix base body) of
           None \<Rightarrow> None
         | Some n \<Rightarrow> Some (if neg then - int n else int n))"

lemma of_char_digit_char:
  "d < 16 \<Longrightarrow> (of_char (digit_char d) :: nat) = (if d < 10 then 48 + d else 87 + d)"
  by (simp add: digit_char_def)

lemma digit_val_digit_char: "d < base \<Longrightarrow> base \<le> 16 \<Longrightarrow> digit_val base (digit_char d) = Some d"
  by (simp add: digit_val_def of_char_digit_char Let_def)

lemma digit_char_not_sep:
  assumes "d < 16"
  shows "digit_char d \<noteq> CHR ''_''" "digit_char d \<noteq> CHR ''-''" "digit_char d \<noteq> CHR ''+''"
    "digit_char d \<noteq> CHR '':''" "digit_char d \<noteq> CHR '',''" "digit_char d \<noteq> CHR ''u''"
    "digit_char d \<noteq> CHR ''x''" "digit_char d \<noteq> CHR ''X''" "digit_char d \<noteq> CHR ''{''"
    "digit_char d \<noteq> CHR ''}''" "digit_char d \<noteq> CHR '' ''" "digit_char d \<noteq> CHR ''[''"
    "digit_char d \<noteq> CHR '']''" "\<not> int_space (digit_char d)"
  using of_char_digit_char [OF assms] assms
  by (auto simp: int_space_def Let_def split: if_splits)

lemma set_nat_str: "c \<in> set (nat_str n) \<Longrightarrow> \<exists>d<10. c = digit_char d"
proof (induction n rule: nat_str.induct)
  case (1 n)
  show ?case
  proof (cases "n < 10")
    case True
    then show ?thesis using 1(2) by (subst (asm) nat_str.simps) auto
  next
    case False
    have "c \<in> set (nat_str (n div 10)) \<or> c = digit_char (n mod 10)"
      using 1(2) False by (subst (asm) nat_str.simps) auto
    then show ?thesis using 1(1) False by (metis mod_less_divisor zero_less_numeral)
  qed
qed

lemma nat_str_ne [simp]: "nat_str n \<noteq> []"
  by (subst nat_str.simps) simp

lemma int_digits_map:
  "\<forall>d \<in> set ds. d < base \<Longrightarrow> base \<le> 16 \<Longrightarrow> prev \<or> ds \<noteq> [] \<Longrightarrow>
   int_digits base prev acc (map digit_char ds) = Some (foldl (\<lambda>a d. a * base + d) acc ds)"
proof (induction ds arbitrary: prev acc)
  case (Cons d ds)
  have "digit_char d \<noteq> CHR ''_''" using Cons.prems by (intro digit_char_not_sep(1)) auto
  with Cons show ?case by (simp add: digit_val_digit_char)
qed simp

text \<open>A printed number is a non-empty list of digits whose value is the number.\<close>

lemma nat_str_digits:
  "\<exists>ds. nat_str n = map digit_char ds \<and> ds \<noteq> [] \<and> (\<forall>d \<in> set ds. d < 10) \<and>
        foldl (\<lambda>a d. a * 10 + d) 0 ds = n"
proof (induction n rule: nat_str.induct)
  case (1 n)
  show ?case
  proof (cases "n < 10")
    case True
    then show ?thesis by (intro exI [of _ "[n]"]) (simp add: nat_str.simps)
  next
    case False
    with 1 obtain ds where "nat_str (n div 10) = map digit_char ds" "ds \<noteq> []"
      "\<forall>d \<in> set ds. d < 10" "foldl (\<lambda>a d. a * 10 + d) 0 ds = n div 10" by blast
    then show ?thesis using False
      by (intro exI [of _ "ds @ [n mod 10]"]) (simp add: nat_str.simps [of n])
  qed
qed

lemma nat_str_inject [simp]: "nat_str m = nat_str n \<longleftrightarrow> m = n"
proof
  assume eq: "nat_str m = nat_str n"
  have val: "int_digits 10 False 0 (nat_str k) = Some k" for k
  proof -
    obtain ds where ds: "nat_str k = map digit_char ds" "ds \<noteq> []" "\<forall>d \<in> set ds. d < 10"
      "foldl (\<lambda>a d. a * 10 + d) 0 ds = k" using nat_str_digits [of k] by blast
    have "int_digits 10 False 0 (map digit_char ds) = Some (foldl (\<lambda>a d. a * 10 + d) 0 ds)"
      by (rule int_digits_map) (use ds in auto)
    with ds show ?thesis by simp
  qed
  have "Some m = Some n" using val [of m] val [of n] unfolding eq by (rule trans [OF sym])
  then show "m = n" by simp
qed simp

section \<open>UUIDs\<close>

text \<open>\<open>'%032x' % n\<close> and \<open>str(uuid)\<close>: 32 lower-case hex digits in groups 8-4-4-4-12.\<close>

fun hex_digits :: "nat \<Rightarrow> nat \<Rightarrow> nat list" where
  "hex_digits 0 n = []"
| "hex_digits (Suc k) n = hex_digits k (n div 16) @ [n mod 16]"

definition str_uuid :: "uuid \<Rightarrow> string" where
  "str_uuid u = (let h = map digit_char (hex_digits 32 (unat u)) in
     take 8 h @ ''-'' @ take 4 (drop 8 h) @ ''-'' @ take 4 (drop 12 h) @ ''-'' @
     take 4 (drop 16 h) @ ''-'' @ drop 20 h)"

text \<open>\<open>uuid.UUID(s)\<close>: \<open>None\<close> stands for the \<open>ValueError\<close>.\<close>

definition parse_uuid :: "string \<Rightarrow> uuid option" where
  "parse_uuid s =
     (let h = filter (\<lambda>c. c \<noteq> CHR ''-'')
                (strip_by (\<lambda>c. c \<in> set ''{}'')
                   (replace_all ''uuid:'' [] (replace_all ''urn:'' [] s)))
      in if length h \<noteq> 32 then None
         else case py_int 16 h of
                None \<Rightarrow> None
              | Some i \<Rightarrow> if 0 \<le> i \<and> i < 2 ^ 128 then Some (word_of_int i) else None)"

lemma hex_digits_bound: "d \<in> set (hex_digits k n) \<Longrightarrow> d < 16"
  by (induction k n rule: hex_digits.induct) auto

lemma length_hex_digits [simp]: "length (hex_digits k n) = k"
  by (induction k n rule: hex_digits.induct) auto

lemma foldl_hex_digits: "n < 16 ^ k \<Longrightarrow> foldl (\<lambda>a d. a * 16 + d) 0 (hex_digits k n) = n"
proof (induction k n rule: hex_digits.induct)
  case (2 k n)
  have "n div 16 < 16 ^ k" using 2(2) by (simp add: less_mult_imp_div_less mult.commute)
  then show ?case using 2(1) by simp
qed simp

lemma set_str_uuid: "c \<in> set (str_uuid u) \<Longrightarrow> c = CHR ''-'' \<or> (\<exists>d<16. c = digit_char d)"
  by (auto simp: str_uuid_def Let_def dest!: in_set_takeD in_set_dropD)
     (blast dest: hex_digits_bound)+

lemma filter_str_uuid:
  "filter (\<lambda>c. c \<noteq> CHR ''-'') (str_uuid u) = map digit_char (hex_digits 32 (unat u))"
proof -
  let ?h = "map digit_char (hex_digits 32 (unat u))"
  have nd: "c \<noteq> CHR ''-''" if "c \<in> set ?h" for c
    using that by (auto dest: hex_digits_bound digit_char_not_sep(2))
  have keep: "filter (\<lambda>c. c \<noteq> CHR ''-'') xs = xs" if "set xs \<subseteq> set ?h" for xs
    using that nd by (auto simp: filter_id_conv)
  have sub: "set (take a (drop b ?h)) \<subseteq> set ?h" for a b
    by (meson set_drop_subset set_take_subset subset_trans)
  have f: "filter (\<lambda>c. c \<noteq> CHR ''-'') (str_uuid u) =
     take 8 (drop 0 ?h) @ take 4 (drop 8 ?h) @ take 4 (drop 12 ?h) @ take 4 (drop 16 ?h) @ drop 20 ?h"
    unfolding str_uuid_def Let_def filter_append
    using keep [OF sub [of 8 0]] keep [OF sub [of 4 8]] keep [OF sub [of 4 12]] keep [OF sub [of 4 16]]
      keep [OF set_drop_subset [of 20 ?h]] by simp
  have "drop 16 ?h = take 4 (drop 16 ?h) @ drop 20 ?h"
    using append_take_drop_id [of 4 "drop 16 ?h"] by simp
  moreover have "drop 12 ?h = take 4 (drop 12 ?h) @ drop 16 ?h"
    using append_take_drop_id [of 4 "drop 12 ?h"] by simp
  moreover have "drop 8 ?h = take 4 (drop 8 ?h) @ drop 12 ?h"
    using append_take_drop_id [of 4 "drop 8 ?h"] by simp
  moreover have "?h = take 8 ?h @ drop 8 ?h" by simp
  ultimately show ?thesis using f by (metis drop0)
qed

lemma two_elements: "1 < length xs \<Longrightarrow> \<exists>a b cs. xs = a # b # cs"
  by (cases xs; cases "tl xs") auto

text \<open>Parsing what was printed gives the identifier back.\<close>

lemma parse_str_uuid [simp]: "parse_uuid (str_uuid u) = Some u"
proof -
  let ?ds = "hex_digits 32 (unat u)"
  have nou: "CHR ''u'' \<notin> set (str_uuid u)"
    using set_str_uuid digit_char_not_sep(6) by force
  have nobr: "c \<notin> set ''{}''" if "c \<in> set (str_uuid u)" for c
    using set_str_uuid [OF that] digit_char_not_sep(9,10) by fastforce
  have rep: "replace_all ''uuid:'' [] (replace_all ''urn:'' [] (str_uuid u)) = str_uuid u"
    using replace_all_absent [of "CHR ''u''" "''urn:''" "str_uuid u" "[]"]
      replace_all_absent [of "CHR ''u''" "''uuid:''" "str_uuid u" "[]"] nou by simp
  have strip: "strip_by (\<lambda>c. c \<in> set ''{}'') (str_uuid u) = str_uuid u"
    by (rule strip_by_id) (use nobr in blast)
  have b16: "d < 16" if "d \<in> set ?ds" for d using that by (rule hex_digits_bound)
  have nsp: "strip_by int_space (map digit_char ?ds) = map digit_char ?ds"
    by (rule strip_by_id) (auto dest: b16 digit_char_not_sep(14))
  obtain a b cs where ds: "?ds = a # b # cs"
    using two_elements [of ?ds] by auto
  have ab: "a < 16" "b < 16" using b16 ds by auto
  have "unat u < 2 ^ 128" using unsigned_less [of u] by simp
  then have lt: "unat u < 16 ^ 32" by simp
  have dig: "int_digits 16 False 0 (map digit_char ?ds) = Some (unat u)"
    using int_digits_map [of ?ds 16 False 0] b16 foldl_hex_digits [OF lt] ds by auto
  have "drop_radix 16 (map digit_char ?ds) = map digit_char ?ds"
    using digit_char_not_sep(7,8) [OF ab(2)] ds by (auto simp: drop_radix_def startswith_def)
  moreover have "\<not> startswith (map digit_char ?ds) ''-''" "\<not> startswith (map digit_char ?ds) ''+''"
    using digit_char_not_sep(2,3) [OF ab(1)] ds by (auto simp: startswith_def)
  ultimately have "py_int 16 (map digit_char ?ds) = Some (int (unat u))"
    using dig by (simp add: py_int_def nsp Let_def)
  moreover have "uint u < 2 ^ 128" using uint_lt2p [of u] by simp
  ultimately show ?thesis
    unfolding parse_uuid_def Let_def rep strip filter_str_uuid by simp
qed

lemma str_uuid_inject [simp]: "str_uuid u = str_uuid v \<longleftrightarrow> u = v"
  by (metis option.inject parse_str_uuid)

text \<open>\<open>[uuid.UUID(s) for s in ss]\<close>.\<close>

fun parse_uuids :: "string list \<Rightarrow> uuid list result" where
  "parse_uuids [] = Inr []"
| "parse_uuids (s # ss) =
     (case parse_uuid s of
        None \<Rightarrow> Inl ValueError
      | Some u \<Rightarrow> (case parse_uuids ss of Inl e \<Rightarrow> Inl e | Inr us \<Rightarrow> Inr (u # us)))"

lemma parse_uuids_str [simp]: "parse_uuids (map str_uuid us) = Inr us"
  by (induction us) auto

end
