(* ===== verification/Doc_Text.thy ===== *)
theory Doc_Text
  imports Py_Base
begin

text \<open>
  The document body: JSON values, their canonical serialisation (\<open>json.dumps(...,
  ensure_ascii=False)\<close>) with its byte size and cap, and the plain-text projection
  \<open>derive_content_text\<close> of \<open>api/documents.py\<close>: the iterative post-order walk over an
  explicit frame stack, proved to terminate, to compute the recursive projection, and never to
  be longer than the serialised body it is derived from.
\<close>

section \<open>JSON\<close>

text \<open>
  A \<open>dict\<close> is its item list in insertion order (keys distinct, as \<open>json.loads\<close> makes
  them). A float is kept as the text \<open>json.dumps\<close> prints for it, \<open>NaN\<close> and the infinities included.
\<close>

datatype json =
    JNull
  | JBool bool
  | JInt int
  | JFloat string
  | JStr string
  | JArr "json list"
  | JObj "(string \<times> json) list"

definition newline :: string where
  "newline = [CHR 0x0A]"

lemma size_JObj_mem: "(k, v) \<in> set kvs \<Longrightarrow> size v < size (JObj kvs)"
  by (induction kvs) auto

lemma size_list_JArr [simp]: "size_list size xs < size (JArr xs)"
  by simp

lemma size_list_mem: "x \<in> set xs \<Longrightarrow> size x < size_list size xs"
  by (induction xs) auto

section \<open>The projection\<close>

text \<open>\<open>_node_children\<close>: the child list of a container, \<open>None\<close> for a leaf or scalar.\<close>

fun node_children :: "json \<Rightarrow> json list option" where
  "node_children (JObj node) =
     (if map_of node ''type'' = Some (JStr ''text'') then None
      else case map_of node ''content'' of Some (JArr children) \<Rightarrow> Some children | _ \<Rightarrow> None)"
| "node_children (JArr children) = Some children"
| "node_children _ = None"

text \<open>\<open>_node_text\<close>: a text node's own string, nothing for any other node.\<close>

fun node_text :: "json \<Rightarrow> string" where
  "node_text (JObj node) =
     (if map_of node ''type'' = Some (JStr ''text'')
      then case map_of node ''text'' of Some (JStr s) \<Rightarrow> s | _ \<Rightarrow> [] else [])"
| "node_text _ = []"

lemma size_node_children: "node_children j = Some gk \<Longrightarrow> size_list size gk + 1 \<le> size j"
proof (induction j rule: node_children.induct)
  case (1 node)
  then have "map_of node ''content'' = Some (JArr gk)"
    by (auto split: if_splits option.splits json.splits)
  then have "size (JArr gk) < size (JObj node)"
    by (intro size_JObj_mem) (rule map_of_SomeD)
  then show ?case by simp
qed auto

text \<open>The dataclass \<open>_Frame\<close>: one container mid-walk.\<close>

record frame =
  children :: "json list"
  parts :: "string list"
  cursor :: nat

definition frame_size :: "frame \<Rightarrow> nat" where
  "frame_size f = size_list size (drop (cursor f) (children f)) + 1"

lemma size_list_drop:
  "i < length xs \<Longrightarrow> size_list size (drop i xs) = size (xs ! i) + 1 + size_list size (drop (Suc i) xs)"
  by (subst Cons_nth_drop_Suc [symmetric]) auto

text \<open>
  The \<open>while True\<close> loop of \<open>derive_content_text\<close>; \<open>frame\<close> is \<open>stack[-1]\<close> and
  \<open>below\<close> the rest of the stack, so the stack is never empty inside the loop.
\<close>

function walk :: "frame \<Rightarrow> frame list \<Rightarrow> string" where
  "walk frame below =
     (if cursor frame < length (children frame)
      then let child = children frame ! cursor frame;
               frame' = frame\<lparr>cursor := cursor frame + 1\<rparr>
           in case node_children child of
                None \<Rightarrow>
                  let part = node_text child
                  in walk (if part \<noteq> [] then frame'\<lparr>parts := parts frame @ [part]\<rparr> else frame') below
              | Some grandkids \<Rightarrow>
                  walk \<lparr>children = grandkids, parts = [], cursor = 0\<rparr> (frame' # below)
      else let folded = join newline (parts frame)
           in case below of
                [] \<Rightarrow> folded
              | parent # rest \<Rightarrow>
                  walk (if folded \<noteq> [] then parent\<lparr>parts := parts parent @ [folded]\<rparr> else parent) rest)"
  by pat_completeness auto

termination
proof (relation "measure (\<lambda>(f, fs). sum_list (map frame_size (f # fs)))", goal_cases)
  case 1 show ?case by simp
next
  case (2 f fs)
  then show ?case by (auto simp: frame_size_def size_list_drop)
next
  case (3 f fs child f' gk)
  then have "size_list size gk + 1 \<le> size (children f ! cursor f)" by (auto dest: size_node_children)
  with 3 show ?case by (auto simp: frame_size_def size_list_drop)
next
  case (4 f fs)
  then show ?case by (auto simp: frame_size_def)
qed

declare walk.simps [simp del]

definition derive_content_text :: "json \<Rightarrow> string" where
  "derive_content_text content =
     (case node_children content of
        None \<Rightarrow> node_text content
      | Some children' \<Rightarrow> walk \<lparr>children = children', parts = [], cursor = 0\<rparr> [])"

text \<open>
  The specification: the recursive form the docstring names, a container being the
  newline-join of its children's non-empty projections.
\<close>

function content_text_spec :: "json \<Rightarrow> string" where
  "content_text_spec j =
     (case node_children j of
        None \<Rightarrow> node_text j
      | Some gk \<Rightarrow> join newline (filter (\<lambda>s. s \<noteq> []) (map content_text_spec gk)))"
  by pat_completeness auto
termination
proof (relation "measure size", goal_cases)
  case (2 j gk c)
  then show ?case using size_node_children [of j gk] size_list_mem [of c gk] by simp
qed simp

declare content_text_spec.simps [simp del]

abbreviation nonempty :: "string list \<Rightarrow> string list" where
  "nonempty ss \<equiv> filter (\<lambda>s. s \<noteq> []) ss"

text \<open>What a suspended frame, and a stack of them, will fold to.\<close>

definition frame_result :: "frame \<Rightarrow> string list \<Rightarrow> string" where
  "frame_result f new =
     join newline (parts f @ nonempty new @
       nonempty (map content_text_spec (drop (cursor f) (children f))))"

fun unwind :: "string \<Rightarrow> frame list \<Rightarrow> string" where
  "unwind s [] = s"
| "unwind s (f # fs) = unwind (frame_result f [s]) fs"

lemma frame_result_step:
  assumes "cursor f < length (children f)"
  shows "frame_result f [] =
         frame_result (f\<lparr>cursor := cursor f + 1\<rparr>) [content_text_spec (children f ! cursor f)]"
  using assms by (simp add: frame_result_def Cons_nth_drop_Suc [symmetric])

lemma frame_result_push:
  "frame_result f [s] = frame_result (if s \<noteq> [] then f\<lparr>parts := parts f @ [s]\<rparr> else f) []"
  by (simp add: frame_result_def)

lemma walk_unwind: "walk f below = unwind (frame_result f []) below"
proof (induction f below rule: walk.induct)
  case (1 f below)
  show ?case
  proof (cases "cursor f < length (children f)")
    case left: True
    let ?child = "children f ! cursor f" and ?f' = "f\<lparr>cursor := cursor f + 1\<rparr>"
    show ?thesis
    proof (cases "node_children ?child")
      case None
      have "content_text_spec ?child = node_text ?child"
        by (simp add: content_text_spec.simps None)
      then show ?thesis
        using "1.IH"(1) [OF left refl refl None refl] left None
          frame_result_step [OF left] frame_result_push [of ?f' "node_text ?child"]
        by (cases "node_text ?child = []") (simp_all add: walk.simps [of f below] Let_def)
    next
      case (Some gk)
      have "content_text_spec ?child = frame_result \<lparr>children = gk, parts = [], cursor = 0\<rparr> []"
        by (simp add: content_text_spec.simps [of ?child] Some frame_result_def)
      then show ?thesis
        using "1.IH"(2) [OF left refl refl Some] left Some frame_result_step [OF left]
        by (simp add: walk.simps [of f below] Let_def)
    qed
  next
    case exhausted: False
    have fold: "frame_result f [] = join newline (parts f)"
      using exhausted by (simp add: frame_result_def)
    show ?thesis
    proof (cases below)
      case Nil
      then show ?thesis using exhausted fold by (simp add: walk.simps [of f "[]"])
    next
      case (Cons parent rest)
      then show ?thesis
        using "1.IH"(3) [OF exhausted refl Cons] exhausted fold frame_result_push [of parent "join newline (parts f)"]
        by (cases "join newline (parts f) = []") (simp_all add: walk.simps [of f "parent # rest"] Let_def)
    qed
  qed
qed

lemma derive_eq_spec: "derive_content_text content = content_text_spec content"
proof (cases "node_children content")
  case None
  then show ?thesis by (simp add: derive_content_text_def content_text_spec.simps)
next
  case (Some gk)
  then show ?thesis
    by (simp add: derive_content_text_def walk_unwind frame_result_def content_text_spec.simps)
qed

text \<open>
  C38: the iterative walk returns, for every JSON value and every nesting depth, exactly the
  recursive projection (equivalence of the optimised routine with its specification;
  the walk is total, so it also returns).
\<close>

theorem derive_content_text_correct: "derive_content_text content = content_text_spec content"
  by (rule derive_eq_spec)

section \<open>What Postgres can store\<close>

text \<open>
  A \<open>text\<close> value cannot hold U+0000 and a \<open>jsonb\<close> value neither that nor a float that is not a
  number; the statement that tries is refused.
\<close>

definition text_storable :: "string \<Rightarrow> bool" where
  "text_storable s \<longleftrightarrow> CHR 0x00 \<notin> set s"

fun jsonb_storable :: "json \<Rightarrow> bool" where
  "jsonb_storable (JStr s) \<longleftrightarrow> text_storable s"
| "jsonb_storable (JFloat t) \<longleftrightarrow> t \<notin> {''NaN'', ''Infinity'', ''-Infinity''}"
| "jsonb_storable (JArr js) \<longleftrightarrow> list_all jsonb_storable js"
| "jsonb_storable (JObj kvs) \<longleftrightarrow> list_all (\<lambda>(k, v). text_storable k \<and> jsonb_storable v) kvs"
| "jsonb_storable _ \<longleftrightarrow> True"

lemma text_storable_append [simp]: "text_storable (s @ t) \<longleftrightarrow> text_storable s \<and> text_storable t"
  by (auto simp: text_storable_def)

lemma text_storable_Nil [simp]: "text_storable []"
  by (simp add: text_storable_def)

lemma text_storable_join: "text_storable sep \<Longrightarrow> \<forall>s \<in> set ss. text_storable s \<Longrightarrow> text_storable (join sep ss)"
  by (induction sep ss rule: join.induct) (auto simp: text_storable_def)

lemma storable_node_text: "jsonb_storable j \<Longrightarrow> text_storable (node_text j)"
proof (induction j rule: node_text.induct)
  case (1 node)
  have str: "text_storable s" if "map_of node ''text'' = Some (JStr s)" for s
    using 1 map_of_SomeD [OF that] by (auto simp: list_all_iff)
  have "text_storable (case map_of node ''text'' of Some (JStr s) \<Rightarrow> s | _ \<Rightarrow> [])"
  proof (cases "map_of node ''text''")
    case (Some v)
    then show ?thesis using str by (cases v) simp_all
  qed simp
  then show ?case by simp
qed simp_all

lemma storable_node_children: "jsonb_storable j \<Longrightarrow> node_children j = Some gk \<Longrightarrow> g \<in> set gk \<Longrightarrow> jsonb_storable g"
proof (induction j rule: node_children.induct)
  case (1 node)
  then have "map_of node ''content'' = Some (JArr gk)"
    by (auto split: if_splits option.splits json.splits)
  from map_of_SomeD [OF this] show ?case using 1 by (auto simp: list_all_iff)
qed (simp_all add: list_all_iff)

text \<open>The projection of a storable body is storable.\<close>

lemma storable_content_text: "jsonb_storable j \<Longrightarrow> text_storable (derive_content_text j)"
  unfolding derive_eq_spec
proof (induction j rule: content_text_spec.induct)
  case (1 j)
  show ?case
  proof (cases "node_children j")
    case None
    then show ?thesis using storable_node_text [OF 1(2)] by (simp add: content_text_spec.simps)
  next
    case (Some gk)
    have nl: "text_storable newline" by (simp add: text_storable_def newline_def)
    have "\<forall>s \<in> set (nonempty (map content_text_spec gk)). text_storable s"
      using 1(1) [OF Some] storable_node_children [OF 1(2) Some] by auto
    then show ?thesis using text_storable_join [OF nl] by (simp add: content_text_spec.simps [of j] Some)
  qed
qed

section \<open>Serialised size and the cap\<close>

text \<open>\<open>json.encoder\<close> with \<open>ensure_ascii=False\<close>: only the quote, the backslash and the
  control characters below 32 are escaped.\<close>

definition esc_char :: "char \<Rightarrow> string" where
  "esc_char c = (let n = of_char c :: nat in
     if n = 34 then [CHR 0x5C, CHR 0x22]
     else if n = 92 then [CHR 0x5C, CHR 0x5C]
     else if n = 8 then [CHR 0x5C, CHR ''b'']
     else if n = 12 then [CHR 0x5C, CHR ''f'']
     else if n = 10 then [CHR 0x5C, CHR ''n'']
     else if n = 13 then [CHR 0x5C, CHR ''r'']
     else if n = 9 then [CHR 0x5C, CHR ''t'']
     else if n < 32 then [CHR 0x5C] @ ''u'' @ map digit_char (hex_digits 4 n)
     else [c])"

definition json_quote :: "string \<Rightarrow> string" where
  "json_quote s = [CHR 0x22] @ concat (map esc_char s) @ [CHR 0x22]"

function dumps :: "json \<Rightarrow> string" where
  "dumps JNull = ''null''"
| "dumps (JBool b) = (if b then ''true'' else ''false'')"
| "dumps (JInt i) = int_str i"
| "dumps (JFloat r) = r"
| "dumps (JStr s) = json_quote s"
| "dumps (JArr xs) = ''['' @ join '', '' (map dumps xs) @ '']''"
| "dumps (JObj kvs) =
     ''{'' @ join '', '' (map (\<lambda>kv. json_quote (fst kv) @ '': '' @ dumps (snd kv)) kvs) @ ''}''"
  by pat_completeness auto
termination
proof (relation "measure size", goal_cases)
  case (2 xs x)
  then show ?case using size_list_mem [of x xs] by simp
next
  case (3 kvs kv)
  then show ?case using size_JObj_mem [of "fst kv" "snd kv" kvs] by simp
qed simp

definition MAX_CONTENT_BYTES :: nat where
  "MAX_CONTENT_BYTES = 2 * 1024 * 1024"

definition content_byte_size :: "json \<Rightarrow> nat" where
  "content_byte_size content = utf8_len (dumps content)"

definition require_content_within_cap :: "json \<Rightarrow> unit result" where
  "require_content_within_cap content =
     (if MAX_CONTENT_BYTES < content_byte_size content
      then Inl (HTTPException 413 (''Document content exceeds '' @ nat_str MAX_CONTENT_BYTES @ '' bytes.''))
      else Inr ())"

lemma utf8_len_esc_char: "utf8_len [c] \<le> utf8_len (esc_char c)"
  by (auto simp: esc_char_def utf8_len_def Let_def)

lemma utf8_len_escaped: "utf8_len s \<le> utf8_len (concat (map esc_char s))"
proof (induction s)
  case (Cons c s)
  have "utf8_len (c # s) = utf8_len [c] + utf8_len s" by (simp add: utf8_len_def)
  then show ?case using Cons.IH utf8_len_esc_char [of c] by simp
qed simp

lemma utf8_len_json_quote: "utf8_len s + 2 \<le> utf8_len (json_quote s)"
  using utf8_len_escaped [of s] by (simp add: json_quote_def) (simp add: utf8_len_def)

lemma utf8_len_join:
  "utf8_len (join sep ss) = sum_list (map utf8_len ss) + utf8_len sep * (length ss - 1)"
  by (induction sep ss rule: join.induct) (auto simp: algebra_simps utf8_len_def)

lemma utf8_len_join_nonempty:
  assumes "\<And>x. x \<in> set xs \<Longrightarrow> utf8_len (f x) \<le> utf8_len (g x)" and "1 \<le> utf8_len sep"
  shows "utf8_len (join newline (nonempty (map f xs))) \<le> utf8_len (join sep (map g xs))"
proof -
  have "sum_list (map utf8_len (nonempty (map f xs))) = sum_list (map utf8_len (map f xs))"
    by (induction xs) (auto simp: utf8_len_def)
  also have "\<dots> \<le> sum_list (map utf8_len (map g xs))"
    unfolding map_map o_def by (rule sum_list_mono) (rule assms(1))
  finally have texts: "sum_list (map utf8_len (nonempty (map f xs))) \<le> sum_list (map utf8_len (map g xs))" .
  have "length (nonempty (map f xs)) \<le> length (map g xs)"
    using length_filter_le [of _ "map f xs"] by simp
  then have "utf8_len newline * (length (nonempty (map f xs)) - 1) \<le> 1 * (length (map g xs) - 1)"
    by (simp add: newline_def utf8_len_def del: length_map)
  also have "\<dots> \<le> utf8_len sep * (length (map g xs) - 1)"
    using assms(2) by (rule mult_le_mono1)
  finally show ?thesis unfolding utf8_len_join by (rule add_mono [OF texts])
qed

lemma utf8_len_join_mem: "s \<in> set ss \<Longrightarrow> utf8_len s \<le> utf8_len (join sep ss)"
  by (induction sep ss rule: join.induct) auto

lemma utf8_len_infix: "utf8_len s \<le> utf8_len (a @ s @ b)"
  by simp

lemma utf8_len_member:
  assumes "(k, v) \<in> set kvs"
  shows "utf8_len (dumps v) \<le> utf8_len (dumps (JObj kvs))"
proof -
  let ?item = "\<lambda>kv. json_quote (fst kv) @ '': '' @ dumps (snd kv)"
  have "utf8_len (dumps v) \<le> utf8_len (?item (k, v))"
    using utf8_len_infix [of "dumps v" "json_quote k @ '': ''" "[]"] by simp
  also have "\<dots> \<le> utf8_len (join '', '' (map ?item kvs))"
    by (rule utf8_len_join_mem) (use assms in \<open>auto intro: rev_image_eqI\<close>)
  also have "\<dots> \<le> utf8_len (dumps (JObj kvs))"
    unfolding dumps.simps(7) by (rule utf8_len_infix)
  finally show ?thesis .
qed

lemma utf8_len_node_text: "utf8_len (node_text j) \<le> utf8_len (dumps j)"
proof (cases "node_text j = []")
  case True
  then show ?thesis by (simp add: utf8_len_def)
next
  case False
  then obtain node s where j: "j = JObj node" and "map_of node ''text'' = Some (JStr s)" and
    s: "node_text j = s"
    by (cases j rule: node_text.cases) (auto split: if_splits option.splits json.splits)
  then have "utf8_len (dumps (JStr s)) \<le> utf8_len (dumps (JObj node))"
    by (intro utf8_len_member) (rule map_of_SomeD)
  then show ?thesis
    unfolding j [symmetric] dumps.simps(5) s using utf8_len_json_quote [of s] by linarith
qed

lemma utf8_len_children:
  assumes "node_children j = Some gk"
  shows "utf8_len (join '', '' (map dumps gk)) \<le> utf8_len (dumps j)"
proof -
  have arr: "utf8_len (join '', '' (map dumps gk)) \<le> utf8_len (dumps (JArr gk))"
    unfolding dumps.simps(6) by (rule utf8_len_infix)
  consider "j = JArr gk" | node where "j = JObj node" "map_of node ''content'' = Some (JArr gk)"
    using assms by (cases j rule: node_children.cases)
      (auto split: if_splits option.splits json.splits)
  then show ?thesis
  proof cases
    case 1
    then show ?thesis using arr by simp
  next
    case 2
    then have "utf8_len (dumps (JArr gk)) \<le> utf8_len (dumps (JObj node))"
      by (intro utf8_len_member) (rule map_of_SomeD)
    with arr 2 show ?thesis by simp
  qed
qed

text \<open>
  The stored plain-text projection is never longer (in UTF-8 bytes) than the serialised
  body, so a body accepted by the 413 cap also bounds the derived \<open>content_text\<close>.
\<close>

theorem content_text_bounded: "utf8_len (derive_content_text content) \<le> content_byte_size content"
  unfolding derive_eq_spec content_byte_size_def
proof (induction content rule: content_text_spec.induct)
  case (1 j)
  show ?case
  proof (cases "node_children j")
    case None
    then show ?thesis by (simp add: content_text_spec.simps utf8_len_node_text)
  next
    case (Some gk)
    have "utf8_len (join newline (nonempty (map content_text_spec gk))) \<le> utf8_len (join '', '' (map dumps gk))"
      by (rule utf8_len_join_nonempty) (use 1 Some in \<open>auto simp: utf8_len_def\<close>)
    also have "\<dots> \<le> utf8_len (dumps j)" using Some by (rule utf8_len_children)
    finally show ?thesis by (simp add: content_text_spec.simps Some)
  qed
qed

end
