(* ===== verification/Db_Models.thy ===== *)
theory Db_Models
  imports Doc_Text Complex_Main
begin

text \<open>
  The Postgres schema of \<open>worker/db/models.py\<close>: one record per ORM class, one list of rows per
  table, and the database as the record of all tables. Columns keep their names behind a table
  prefix. \<open>user_library\<close> and the tables after it carry the owner column the api's tenant gate
  filters by; \<open>global_books\<close> and \<open>chunks\<close> are shared between tenants. Generated columns
  (\<open>chunks.tsv\<close>) and the unused \<open>highlights\<close> table are left out. Timestamps are
  microseconds, dates are proleptic ordinals, ciphertexts are byte strings.
\<close>

section \<open>Rows\<close>

record user_row =
  usr_user_id :: uuid
  usr_email :: string
  usr_password_hash :: string
  usr_created_at :: timestamp

record global_book =
  gb_book_id :: uuid
  gb_isbn :: "string option"
  gb_title :: string
  gb_author :: "string option"
  gb_minhash_signature :: "nat list"
  gb_text_pointer :: "string option"
  gb_created_at :: timestamp

record chunk_row =
  chk_chunk_id :: uuid
  chk_book_id :: uuid
  chk_chunk_index :: int
  chk_content :: string
  chk_parent_section :: "string option"
  chk_filename :: string
  chk_created_at :: timestamp

record user_library_entry =
  ul_entry_id :: uuid
  ul_user_id :: uuid
  ul_book_id :: uuid
  ul_category :: "string option"
  ul_added_at :: timestamp

record upload_task =
  ut_task_id :: uuid
  ut_user_id :: uuid
  ut_book_id :: "uuid option"
  ut_filename :: string
  ut_created_at :: timestamp

record reading_position =
  rp_position_id :: uuid
  rp_user_id :: uuid
  rp_book_id :: uuid
  rp_chunk_index :: int
  rp_offset_ratio :: "rat option"
  rp_updated_at :: timestamp

record collection =
  co_collection_id :: uuid
  co_user_id :: uuid
  co_name :: string
  co_description :: "string option"
  co_created_at :: timestamp

record collection_book =
  cb_collection_book_id :: uuid
  cb_collection_id :: uuid
  cb_book_id :: uuid
  cb_user_id :: uuid
  cb_added_at :: timestamp

record document =
  doc_document_id :: uuid
  doc_user_id :: uuid
  doc_title :: string
  doc_content :: json
  doc_content_text :: string
  doc_schema_version :: int
  doc_scope_book_ids :: "string list"
  doc_scope_collection_ids :: "string list"
  doc_deleted_at :: "timestamp option"
  doc_created_at :: timestamp
  doc_updated_at :: timestamp

record sermon_doc_revision =
  rev_revision_id :: uuid
  rev_document_id :: uuid
  rev_user_id :: uuid
  rev_content :: json
  rev_content_text :: string
  rev_schema_version :: int
  rev_source :: string
  rev_created_at :: timestamp

record oauth_connection =
  oc_id :: uuid
  oc_user_id :: uuid
  oc_provider :: string
  oc_provider_account_email :: string
  oc_refresh_token_ciphertext :: string
  oc_access_token_ciphertext :: "string option"
  oc_token_expiry :: "timestamp option"
  oc_scopes :: string
  oc_created_at :: timestamp
  oc_updated_at :: timestamp

record editor_link =
  el_id :: uuid
  el_document_id :: uuid
  el_user_id :: uuid
  el_provider :: string
  el_provider_file_id :: string
  el_web_url :: string
  el_state :: string
  el_last_remote_version :: "string option"
  el_created_at :: timestamp
  el_updated_at :: timestamp

record sermon_event =
  se_event_id :: uuid
  se_user_id :: uuid
  se_event_date :: int
  se_title :: string
  se_series :: "string option"
  se_document_id :: "uuid option"
  se_created_at :: timestamp
  se_updated_at :: timestamp

record search_history_row =
  sh_history_id :: uuid
  sh_user_id :: uuid
  sh_query :: string
  sh_scope_book_ids :: "string list"
  sh_scope_collection_ids :: "string list"
  sh_result :: json
  sh_created_at :: timestamp

section \<open>The database\<close>

record db =
  users :: "user_row list"
  global_books :: "global_book list"
  chunks :: "chunk_row list"
  user_library :: "user_library_entry list"
  upload_tasks :: "upload_task list"
  reading_positions :: "reading_position list"
  collections :: "collection list"
  collection_books :: "collection_book list"
  documents :: "document list"
  sermon_doc_revisions :: "sermon_doc_revision list"
  oauth_connections :: "oauth_connection list"
  editor_links :: "editor_link list"
  sermon_events :: "sermon_event list"
  search_history :: "search_history_row list"

text \<open>
  What one tenant can reach: her own rows of every owned table, and the shared tables.
\<close>

definition tenant_view :: "uuid \<Rightarrow> db \<Rightarrow> db" where
  "tenant_view u d = d\<lparr>users := owned_rows usr_user_id u (users d),
     user_library := owned_rows ul_user_id u (user_library d),
     upload_tasks := owned_rows ut_user_id u (upload_tasks d),
     reading_positions := owned_rows rp_user_id u (reading_positions d),
     collections := owned_rows co_user_id u (collections d),
     collection_books := owned_rows cb_user_id u (collection_books d),
     documents := owned_rows doc_user_id u (documents d),
     sermon_doc_revisions := owned_rows rev_user_id u (sermon_doc_revisions d),
     oauth_connections := owned_rows oc_user_id u (oauth_connections d),
     editor_links := owned_rows el_user_id u (editor_links d),
     sermon_events := owned_rows se_user_id u (sermon_events d),
     search_history := owned_rows sh_user_id u (search_history d)\<rparr>"

lemma users_tenant_view [tenant_simps]:
  "users (tenant_view u d) = owned_rows usr_user_id u (users d)"
  by (simp add: tenant_view_def)

lemma tenant_view_users_update [tenant_simps]:
  "tenant_view u (d\<lparr>users := x\<rparr>) = (tenant_view u d)\<lparr>users := owned_rows usr_user_id u x\<rparr>"
  by (simp add: tenant_view_def)

lemma global_books_tenant_view [tenant_simps]: "global_books (tenant_view u d) = global_books d"
  by (simp add: tenant_view_def)

lemma chunks_tenant_view [tenant_simps]: "chunks (tenant_view u d) = chunks d"
  by (simp add: tenant_view_def)

lemma user_library_tenant_view [tenant_simps]:
  "user_library (tenant_view u d) = owned_rows ul_user_id u (user_library d)"
  by (simp add: tenant_view_def)

lemma tenant_view_user_library_update [tenant_simps]:
  "tenant_view u (d\<lparr>user_library := x\<rparr>) = (tenant_view u d)\<lparr>user_library := owned_rows ul_user_id u x\<rparr>"
  by (simp add: tenant_view_def)

lemma upload_tasks_tenant_view [tenant_simps]:
  "upload_tasks (tenant_view u d) = owned_rows ut_user_id u (upload_tasks d)"
  by (simp add: tenant_view_def)

lemma tenant_view_upload_tasks_update [tenant_simps]:
  "tenant_view u (d\<lparr>upload_tasks := x\<rparr>) = (tenant_view u d)\<lparr>upload_tasks := owned_rows ut_user_id u x\<rparr>"
  by (simp add: tenant_view_def)

lemma reading_positions_tenant_view [tenant_simps]:
  "reading_positions (tenant_view u d) = owned_rows rp_user_id u (reading_positions d)"
  by (simp add: tenant_view_def)

lemma tenant_view_reading_positions_update [tenant_simps]:
  "tenant_view u (d\<lparr>reading_positions := x\<rparr>) = (tenant_view u d)\<lparr>reading_positions := owned_rows rp_user_id u x\<rparr>"
  by (simp add: tenant_view_def)

lemma collections_tenant_view [tenant_simps]:
  "collections (tenant_view u d) = owned_rows co_user_id u (collections d)"
  by (simp add: tenant_view_def)

lemma tenant_view_collections_update [tenant_simps]:
  "tenant_view u (d\<lparr>collections := x\<rparr>) = (tenant_view u d)\<lparr>collections := owned_rows co_user_id u x\<rparr>"
  by (simp add: tenant_view_def)

lemma collection_books_tenant_view [tenant_simps]:
  "collection_books (tenant_view u d) = owned_rows cb_user_id u (collection_books d)"
  by (simp add: tenant_view_def)

lemma tenant_view_collection_books_update [tenant_simps]:
  "tenant_view u (d\<lparr>collection_books := x\<rparr>) = (tenant_view u d)\<lparr>collection_books := owned_rows cb_user_id u x\<rparr>"
  by (simp add: tenant_view_def)

lemma documents_tenant_view [tenant_simps]:
  "documents (tenant_view u d) = owned_rows doc_user_id u (documents d)"
  by (simp add: tenant_view_def)

lemma tenant_view_documents_update [tenant_simps]:
  "tenant_view u (d\<lparr>documents := x\<rparr>) = (tenant_view u d)\<lparr>documents := owned_rows doc_user_id u x\<rparr>"
  by (simp add: tenant_view_def)

lemma sermon_doc_revisions_tenant_view [tenant_simps]:
  "sermon_doc_revisions (tenant_view u d) = owned_rows rev_user_id u (sermon_doc_revisions d)"
  by (simp add: tenant_view_def)

lemma tenant_view_sermon_doc_revisions_update [tenant_simps]:
  "tenant_view u (d\<lparr>sermon_doc_revisions := x\<rparr>) = (tenant_view u d)\<lparr>sermon_doc_revisions := owned_rows rev_user_id u x\<rparr>"
  by (simp add: tenant_view_def)

lemma oauth_connections_tenant_view [tenant_simps]:
  "oauth_connections (tenant_view u d) = owned_rows oc_user_id u (oauth_connections d)"
  by (simp add: tenant_view_def)

lemma tenant_view_oauth_connections_update [tenant_simps]:
  "tenant_view u (d\<lparr>oauth_connections := x\<rparr>) = (tenant_view u d)\<lparr>oauth_connections := owned_rows oc_user_id u x\<rparr>"
  by (simp add: tenant_view_def)

lemma editor_links_tenant_view [tenant_simps]:
  "editor_links (tenant_view u d) = owned_rows el_user_id u (editor_links d)"
  by (simp add: tenant_view_def)

lemma tenant_view_editor_links_update [tenant_simps]:
  "tenant_view u (d\<lparr>editor_links := x\<rparr>) = (tenant_view u d)\<lparr>editor_links := owned_rows el_user_id u x\<rparr>"
  by (simp add: tenant_view_def)

lemma sermon_events_tenant_view [tenant_simps]:
  "sermon_events (tenant_view u d) = owned_rows se_user_id u (sermon_events d)"
  by (simp add: tenant_view_def)

lemma tenant_view_sermon_events_update [tenant_simps]:
  "tenant_view u (d\<lparr>sermon_events := x\<rparr>) = (tenant_view u d)\<lparr>sermon_events := owned_rows se_user_id u x\<rparr>"
  by (simp add: tenant_view_def)

lemma search_history_tenant_view [tenant_simps]:
  "search_history (tenant_view u d) = owned_rows sh_user_id u (search_history d)"
  by (simp add: tenant_view_def)

lemma tenant_view_search_history_update [tenant_simps]:
  "tenant_view u (d\<lparr>search_history := x\<rparr>) = (tenant_view u d)\<lparr>search_history := owned_rows sh_user_id u x\<rparr>"
  by (simp add: tenant_view_def)

lemma tenant_view_idem [tenant_simps]: "tenant_view u (tenant_view u d) = tenant_view u d"
  by (simp add: tenant_view_def owned_rows_idem)

text \<open>The empty database, the start of every concrete run.\<close>

definition empty_db :: db where
  "empty_db = \<lparr>users = [], global_books = [], chunks = [], user_library = [], upload_tasks = [], reading_positions = [], collections = [], collection_books = [], documents = [], sermon_doc_revisions = [], oauth_connections = [], editor_links = [], sermon_events = [], search_history = []\<rparr>"

end
