(* ===== verification/Tenancy.thy ===== *)
theory Tenancy
  imports Db_Models
begin

text \<open>
  The two contracts every route of the api promises. \<open>tenant_step\<close> is the unwinding
  contract of a multi-tenant operation (its answer and its effect on the caller's slice depend
  on that slice only, and it leaves every other slice alone); inside it non-interference of
  whole request histories is proved once. \<open>owned_gate\<close> is the contract of the per-id
  ownership gates: a row is returned only for a parsed identifier the caller owns, every other
  case is one fixed error; the absence of an existence oracle follows.
\<close>

section \<open>Request histories\<close>

text \<open>Requests are served in order; each yields the requester and the answer.\<close>

fun serve :: "('u \<Rightarrow> 'op \<Rightarrow> 's \<Rightarrow> 'out \<times> 's) \<Rightarrow> ('u \<times> 'op) list \<Rightarrow> 's \<Rightarrow> ('u \<times> 'out) list \<times> 's" where
  "serve step [] s = ([], s)"
| "serve step ((u, op) # reqs) s =
     (let (out, s') = step u op s; (outs, s'') = serve step reqs s' in ((u, out) # outs, s''))"

definition only_of :: "'u \<Rightarrow> ('u \<times> 'a) list \<Rightarrow> ('u \<times> 'a) list" where
  "only_of v xs = filter (\<lambda>(u, _). u = v) xs"

lemma only_of_simps [simp]:
  "only_of v [] = []"
  "only_of v ((u, a) # xs) = (if u = v then (u, a) # only_of v xs else only_of v xs)"
  by (simp_all add: only_of_def)

text \<open>Every request is admissible (\<open>ok\<close>) in the state that serves it.\<close>

fun served_ok ::
  "('u \<Rightarrow> 'op \<Rightarrow> 's \<Rightarrow> 'out \<times> 's) \<Rightarrow> ('op \<Rightarrow> 's \<Rightarrow> bool) \<Rightarrow> ('u \<times> 'op) list \<Rightarrow> 's \<Rightarrow> bool" where
  "served_ok step ok [] s = True"
| "served_ok step ok ((u, op) # reqs) s = (ok op s \<and> served_ok step ok reqs (snd (step u op s)))"

lemma served_ok_always: "served_ok step (\<lambda>_ _. True) reqs s"
  by (induction reqs arbitrary: s) auto

text \<open>An invariant of admissible steps holds wherever an admissible history leads.\<close>

lemma served_invariant:
  assumes "\<And>u op s. I s \<Longrightarrow> ok op s \<Longrightarrow> I (snd (step u op s))"
  shows "I s \<Longrightarrow> served_ok step ok reqs s \<Longrightarrow> served_ok step (\<lambda>_. I) reqs s \<and> I (snd (serve step reqs s))"
  by (induction reqs arbitrary: s) (auto simp: case_prod_beta assms)

locale tenant_step =
  fixes view :: "'u \<Rightarrow> 's \<Rightarrow> 's"
    and step :: "'u \<Rightarrow> 'op \<Rightarrow> 's \<Rightarrow> 'out \<times> 's"
    and ok :: "'op \<Rightarrow> 's \<Rightarrow> bool"
  assumes local_step: "ok op s \<Longrightarrow> step u op (view u s) = map_prod id (view u) (step u op s)"
    and frame: "ok op s \<Longrightarrow> u \<noteq> v \<Longrightarrow> view v (snd (step u op s)) = view v s"
begin

text \<open>Serving everybody, seen by one tenant, is serving that tenant alone on her slice.\<close>

lemma noninterference:
  "served_ok step ok reqs s \<Longrightarrow>
   serve step (only_of v reqs) (view v s) = map_prod (only_of v) (view v) (serve step reqs s)"
proof (induction reqs arbitrary: s)
  case (Cons req reqs)
  obtain u op where req: "req = (u, op)" by (cases req)
  have ok: "ok op s" and rest: "served_ok step ok reqs (snd (step u op s))"
    using Cons.prems by (simp_all add: req)
  note IH = Cons.IH [OF rest]
  show ?case
  proof (cases "u = v")
    case True
    then show ?thesis using IH local_step [OF ok, of u] by (simp add: req case_prod_beta)
  next
    case False
    then show ?thesis using IH frame [OF ok False] by (simp add: req case_prod_beta map_prod_def)
  qed
qed simp

lemma same_slice_same_answers:
  assumes "served_ok step ok reqs s" "served_ok step ok reqs' t"
    and "view v s = view v t" "only_of v reqs = only_of v reqs'"
  shows "only_of v (fst (serve step reqs s)) = only_of v (fst (serve step reqs' t))"
  using noninterference [OF assms(1), of v] noninterference [OF assms(2), of v] assms(3,4)
  by (metis fst_map_prod)

end

section \<open>Handlers of one tenant\<close>

text \<open>
  The same contract for one handler on the database: it sees the caller's slice only and, in
  states satisfying \<open>P\<close>, writes the caller's slice only. A step all of whose handlers are
  scoped is a \<open>tenant_step\<close>.
\<close>

definition scoped_if :: "(db \<Rightarrow> bool) \<Rightarrow> uuid \<Rightarrow> (db \<Rightarrow> 'a \<times> db) \<Rightarrow> bool" where
  "scoped_if P u h \<longleftrightarrow> (\<forall>d. P d \<longrightarrow> h (tenant_view u d) = map_prod id (tenant_view u) (h d)) \<and>
     (\<forall>d w. P d \<longrightarrow> u \<noteq> w \<longrightarrow> tenant_view w (snd (h d)) = tenant_view w d)"

abbreviation scoped :: "uuid \<Rightarrow> (db \<Rightarrow> 'a \<times> db) \<Rightarrow> bool" where
  "scoped u h \<equiv> scoped_if (\<lambda>_. True) u h"

lemma scoped_ifI:
  "(\<And>d. P d \<Longrightarrow> h (tenant_view u d) = map_prod id (tenant_view u) (h d)) \<Longrightarrow>
   (\<And>d w. P d \<Longrightarrow> u \<noteq> w \<Longrightarrow> tenant_view w (snd (h d)) = tenant_view w d) \<Longrightarrow> scoped_if P u h"
  by (simp add: scoped_if_def)

lemma scopedI:
  "(\<And>d. h (tenant_view u d) = map_prod id (tenant_view u) (h d)) \<Longrightarrow>
   (\<And>d w. u \<noteq> w \<Longrightarrow> tenant_view w (snd (h d)) = tenant_view w d) \<Longrightarrow> scoped_if P u h"
  by (simp add: scoped_if_def)

lemma scopedD:
  "scoped u h \<Longrightarrow> h (tenant_view u d) = map_prod id (tenant_view u) (h d)"
  "scoped u h \<Longrightarrow> u \<noteq> w \<Longrightarrow> tenant_view w (snd (h d)) = tenant_view w d"
  by (simp_all add: scoped_if_def)

lemma scoped_ifD:
  "scoped_if P u h \<Longrightarrow> P d \<Longrightarrow> h (tenant_view u d) = map_prod id (tenant_view u) (h d)"
  "scoped_if P u h \<Longrightarrow> P d \<Longrightarrow> u \<noteq> w \<Longrightarrow> tenant_view w (snd (h d)) = tenant_view w d"
  by (simp_all add: scoped_if_def)

lemma scoped_weaken: "scoped u h \<Longrightarrow> scoped_if P u h"
  by (auto simp: scoped_if_def)

lemma scoped_out: "scoped_if P u h \<Longrightarrow> scoped_if P u (\<lambda>d. map_prod f id (h d))"
  by (simp add: scoped_if_def prod.map_comp)

lemma scoped_read: "(\<And>d. f (tenant_view u d) = f d) \<Longrightarrow> scoped_if P u (\<lambda>d. (f d, d))"
  by (simp add: scoped_if_def)

lemma scoped_step:
  assumes "\<And>u op. scoped_if (ok op) u (step u op)"
  shows "tenant_step tenant_view step ok"
  by unfold_locales (rule scoped_ifD [OF assms], assumption+)+

section \<open>Ownership gates\<close>

locale owned_gate =
  fixes gate :: "string \<Rightarrow> uuid \<Rightarrow> db \<Rightarrow> 'row result"
    and owns :: "uuid \<Rightarrow> uuid \<Rightarrow> db \<Rightarrow> bool"
    and row_id :: "'row \<Rightarrow> uuid"
    and not_found :: py_exn
  assumes garbage: "parse_uuid raw = None \<Longrightarrow> gate raw u d = Inl not_found"
    and missing: "parse_uuid raw = Some i \<Longrightarrow> \<not> owns i u d \<Longrightarrow> gate raw u d = Inl not_found"
    and hit: "parse_uuid raw = Some i \<Longrightarrow> gate raw u d = Inr r \<Longrightarrow> owns i u d \<and> row_id r = i"
begin

text \<open>An identifier the caller cannot reach: not a UUID, or no row of hers.\<close>

lemma refused:
  "(\<And>i. parse_uuid raw = Some i \<Longrightarrow> \<not> owns i u d) \<Longrightarrow> gate raw u d = Inl not_found"
  using garbage missing by (cases "parse_uuid raw") auto

lemma no_oracle:
  "(\<And>i. parse_uuid raw = Some i \<Longrightarrow> \<not> owns i u d) \<Longrightarrow>
   (\<And>i. parse_uuid raw' = Some i \<Longrightarrow> \<not> owns i u d') \<Longrightarrow> gate raw u d = gate raw' u d'"
  by (simp add: refused)

lemma admitted: "gate raw u d = Inr r \<Longrightarrow> parse_uuid raw = Some (row_id r) \<and> owns (row_id r) u d"
  using hit garbage by (cases "parse_uuid raw") fastforce+

end

end
