(* ===== verification/Documents.thy ===== *)
theory Documents
  imports Tenancy
begin

text \<open>
  \<open>api/documents.py\<close>: create, list, read, optimistic-concurrency PATCH, soft delete, restore,
  and the docx export/import round trip, each handler with all its early returns. The request
  models' field constraints are the \<open>validate_\<close> functions (a violation is FastAPI's 422).
  \<open>now\<close> is the transaction timestamp Postgres' \<open>now()\<close> reads, fresh identifiers are
  arguments, libmagic's sniff and the pandoc/Node conversions are parameters.
\<close>

section \<open>Constants and request models\<close>

definition SCHEMA_VERSION :: int where "SCHEMA_VERSION = 1"
definition PREVIEW_CHARS :: nat where "PREVIEW_CHARS = 280"
definition SCOPE_BOOK_IDS_CAP :: nat where "SCOPE_BOOK_IDS_CAP = 10000"
definition SCOPE_COLLECTION_IDS_CAP :: nat where "SCOPE_COLLECTION_IDS_CAP = 500"

text \<open>\<open>extra\<close> lists the body keys the model does not declare (\<open>extra="forbid"\<close>).\<close>

record document_create =
  dc_title :: string
  dc_content :: json
  dc_scope_book_ids :: "uuid list"
  dc_scope_collection_ids :: "uuid list"
  dc_extra :: "string list"

record document_update =
  du_base_updated_at :: timestamp
  du_title :: "string option"
  du_content :: "json option"
  du_scope_book_ids :: "uuid list option"
  du_scope_collection_ids :: "uuid list option"
  du_extra :: "string list"

record document_summary =
  ds_document_id :: uuid
  ds_title :: string
  ds_preview :: string
  ds_schema_version :: int
  ds_created_at :: timestamp
  ds_updated_at :: timestamp

record document_response =
  dr_document_id :: uuid
  dr_title :: string
  dr_content :: json
  dr_content_text :: string
  dr_schema_version :: int
  dr_scope_book_ids :: "uuid list"
  dr_scope_collection_ids :: "uuid list"
  dr_created_at :: timestamp
  dr_updated_at :: timestamp

definition unprocessable :: py_exn where
  "unprocessable = HTTPException 422 ''Unprocessable Entity''"

fun is_object :: "json \<Rightarrow> bool" where
  "is_object (JObj _) = True"
| "is_object _ = False"

definition title_ok :: "string \<Rightarrow> bool" where
  "title_ok t \<longleftrightarrow> 1 \<le> length t \<and> length t \<le> 512"

definition validate_document_create :: "document_create \<Rightarrow> bool" where
  "validate_document_create p \<longleftrightarrow>
     dc_extra p = [] \<and> title_ok (dc_title p) \<and> is_object (dc_content p) \<and>
     length (dc_scope_book_ids p) \<le> SCOPE_BOOK_IDS_CAP \<and>
     length (dc_scope_collection_ids p) \<le> SCOPE_COLLECTION_IDS_CAP"

definition validate_document_update :: "document_update \<Rightarrow> bool" where
  "validate_document_update p \<longleftrightarrow>
     du_extra p = [] \<and>
     (case du_title p of None \<Rightarrow> True | Some t \<Rightarrow> title_ok t) \<and>
     (case du_content p of None \<Rightarrow> True | Some c \<Rightarrow> is_object c) \<and>
     (case du_scope_book_ids p of None \<Rightarrow> True | Some xs \<Rightarrow> length xs \<le> SCOPE_BOOK_IDS_CAP) \<and>
     (case du_scope_collection_ids p of None \<Rightarrow> True | Some xs \<Rightarrow> length xs \<le> SCOPE_COLLECTION_IDS_CAP)"

section \<open>Statements\<close>

definition newest_first :: "('r \<Rightarrow> timestamp) \<Rightarrow> 'r list \<Rightarrow> 'r list" where
  "newest_first key rs = sort_key (\<lambda>r. - key r) rs"

definition doc_list_stmt :: "uuid \<Rightarrow> db \<Rightarrow> document list" where
  "doc_list_stmt u d = newest_first doc_updated_at
     (select_where (\<lambda>r. doc_user_id r = u \<and> doc_deleted_at r = None) (documents d))"

definition owned_active_stmt :: "uuid \<Rightarrow> uuid \<Rightarrow> db \<Rightarrow> document list" where
  "owned_active_stmt i u d =
     select_where (\<lambda>r. doc_document_id r = i \<and> doc_user_id r = u \<and> doc_deleted_at r = None) (documents d)"

definition owned_any_stmt :: "uuid \<Rightarrow> uuid \<Rightarrow> db \<Rightarrow> document list" where
  "owned_any_stmt i u d =
     select_where (\<lambda>r. doc_document_id r = i \<and> doc_user_id r = u) (documents d)"

definition owned_book_ids_stmt :: "uuid list \<Rightarrow> uuid \<Rightarrow> db \<Rightarrow> uuid list" where
  "owned_book_ids_stmt ids u d =
     map ul_book_id (select_where (\<lambda>r. ul_book_id r \<in> set ids \<and> ul_user_id r = u) (user_library d))"

definition owned_collection_ids_stmt :: "uuid list \<Rightarrow> uuid \<Rightarrow> db \<Rightarrow> uuid list" where
  "owned_collection_ids_stmt ids u d =
     map co_collection_id
       (select_where (\<lambda>r. co_collection_id r \<in> set ids \<and> co_user_id r = u) (collections d))"

definition clamp_scope_book_ids :: "uuid list \<Rightarrow> uuid \<Rightarrow> db \<Rightarrow> string list" where
  "clamp_scope_book_ids ids u d =
     (let deduped = fromkeys ids
      in if deduped = [] then []
         else let owned = owned_book_ids_stmt deduped u d
              in map str_uuid (filter (\<lambda>b. b \<in> set owned) deduped))"

definition clamp_scope_collection_ids :: "uuid list \<Rightarrow> uuid \<Rightarrow> db \<Rightarrow> string list" where
  "clamp_scope_collection_ids ids u d =
     (let deduped = fromkeys ids
      in if deduped = [] then []
         else let owned = owned_collection_ids_stmt deduped u d
              in map str_uuid (filter (\<lambda>c. c \<in> set owned) deduped))"

definition doc_delete_stmt :: "uuid \<Rightarrow> uuid \<Rightarrow> timestamp \<Rightarrow> db \<Rightarrow> uuid list \<times> db" where
  "doc_delete_stmt i u now d =
     (let p = (\<lambda>r. doc_document_id r = i \<and> doc_user_id r = u \<and> doc_deleted_at r = None)
      in (map doc_document_id (select_where p (documents d)),
          d\<lparr>documents := update_where p (\<lambda>r. r\<lparr>doc_deleted_at := Some now\<rparr>) (documents d)\<rparr>))"

text \<open>The \<open>values\<close> dict of a PATCH or import: \<open>None\<close> is an absent key.\<close>

record document_values =
  dv_title :: "string option"
  dv_content :: "json option"
  dv_content_text :: "string option"
  dv_scope_book_ids :: "string list option"
  dv_scope_collection_ids :: "string list option"

definition no_values :: document_values where
  "no_values = \<lparr>dv_title = None, dv_content = None, dv_content_text = None,
     dv_scope_book_ids = None, dv_scope_collection_ids = None\<rparr>"

definition set_or :: "'a option \<Rightarrow> 'a \<Rightarrow> 'a" where
  "set_or v old = (case v of None \<Rightarrow> old | Some x \<Rightarrow> x)"

definition apply_values :: "document_values \<Rightarrow> timestamp \<Rightarrow> document \<Rightarrow> document" where
  "apply_values v now r = r\<lparr>
     doc_title := set_or (dv_title v) (doc_title r),
     doc_content := set_or (dv_content v) (doc_content r),
     doc_content_text := set_or (dv_content_text v) (doc_content_text r),
     doc_scope_book_ids := set_or (dv_scope_book_ids v) (doc_scope_book_ids r),
     doc_scope_collection_ids := set_or (dv_scope_collection_ids v) (doc_scope_collection_ids r),
     doc_updated_at := now\<rparr>"

definition values_storable :: "document_values \<Rightarrow> bool" where
  "values_storable v \<longleftrightarrow>
     (case dv_title v of None \<Rightarrow> True | Some t \<Rightarrow> text_storable t) \<and>
     (case dv_content v of None \<Rightarrow> True | Some c \<Rightarrow> jsonb_storable c) \<and>
     (case dv_content_text v of None \<Rightarrow> True | Some t \<Rightarrow> text_storable t)"

text \<open>A value Postgres refuses fails the statement (a driver error, here \<open>DataError\<close>).\<close>

definition doc_update_stmt ::
  "uuid \<Rightarrow> uuid \<Rightarrow> document_values \<Rightarrow> timestamp \<Rightarrow> db \<Rightarrow> document list result \<times> db" where
  "doc_update_stmt i u values now d =
     (if \<not> values_storable values then (Inl DataError, d)
      else let p = (\<lambda>r. doc_document_id r = i \<and> doc_user_id r = u \<and> doc_deleted_at r = None)
      in (Inr (map (apply_values values now) (select_where p (documents d))),
          d\<lparr>documents := update_where p (apply_values values now) (documents d)\<rparr>))"

definition doc_insert_stmt :: "document \<Rightarrow> db \<Rightarrow> unit result \<times> db" where
  "doc_insert_stmt row d =
     (if \<not> (text_storable (doc_title row) \<and> jsonb_storable (doc_content row) \<and> text_storable (doc_content_text row))
      then (Inl DataError, d)
      else (Inr (), d\<lparr>documents := documents d @ [row]\<rparr>))"

section \<open>Gate and response\<close>

definition doc_not_found :: py_exn where
  "doc_not_found = HTTPException 404 ''Document not found.''"

definition require_owned_document :: "string \<Rightarrow> uuid \<Rightarrow> db \<Rightarrow> document result" where
  "require_owned_document document_id u d =
     (case parse_uuid document_id of
        None \<Rightarrow> Inl doc_not_found
      | Some i \<Rightarrow>
          (case scalar_one_or_none (owned_active_stmt i u d) of
             Inl e \<Rightarrow> Inl e
           | Inr None \<Rightarrow> Inl doc_not_found
           | Inr (Some r) \<Rightarrow> Inr r))"

definition doc_to_response :: "document \<Rightarrow> document_response result" where
  "doc_to_response r =
     (case parse_uuids (doc_scope_book_ids r) of
        Inl e \<Rightarrow> Inl e
      | Inr books \<Rightarrow>
          (case parse_uuids (doc_scope_collection_ids r) of
             Inl e \<Rightarrow> Inl e
           | Inr cols \<Rightarrow>
               Inr \<lparr>dr_document_id = doc_document_id r, dr_title = doc_title r,
                    dr_content = doc_content r, dr_content_text = doc_content_text r,
                    dr_schema_version = doc_schema_version r, dr_scope_book_ids = books,
                    dr_scope_collection_ids = cols, dr_created_at = doc_created_at r,
                    dr_updated_at = doc_updated_at r\<rparr>))"

section \<open>Handlers\<close>

definition create_document ::
  "document_create \<Rightarrow> uuid \<Rightarrow> timestamp \<Rightarrow> uuid \<Rightarrow> db \<Rightarrow> document_response result \<times> db" where
  "create_document p u now new_id d =
     (if \<not> validate_document_create p then (Inl unprocessable, d)
      else case require_content_within_cap (dc_content p) of
        Inl e \<Rightarrow> (Inl e, d)
      | Inr _ \<Rightarrow>
          let row = \<lparr>doc_document_id = new_id, doc_user_id = u, doc_title = dc_title p,
                doc_content = dc_content p, doc_content_text = derive_content_text (dc_content p),
                doc_schema_version = SCHEMA_VERSION,
                doc_scope_book_ids = clamp_scope_book_ids (dc_scope_book_ids p) u d,
                doc_scope_collection_ids = clamp_scope_collection_ids (dc_scope_collection_ids p) u d,
                doc_deleted_at = None, doc_created_at = now, doc_updated_at = now\<rparr>
          in (case doc_insert_stmt row d of
                (Inl e, d') \<Rightarrow> (Inl e, d')
              | (Inr _, d') \<Rightarrow> (doc_to_response row, d')))"

definition list_documents :: "uuid \<Rightarrow> db \<Rightarrow> document_summary list" where
  "list_documents u d =
     map (\<lambda>r. \<lparr>ds_document_id = doc_document_id r, ds_title = doc_title r,
                ds_preview = take PREVIEW_CHARS (doc_content_text r),
                ds_schema_version = doc_schema_version r, ds_created_at = doc_created_at r,
                ds_updated_at = doc_updated_at r\<rparr>)
       (doc_list_stmt u d)"

definition get_document :: "string \<Rightarrow> uuid \<Rightarrow> db \<Rightarrow> document_response result" where
  "get_document document_id u d =
     (case require_owned_document document_id u d of Inl e \<Rightarrow> Inl e | Inr r \<Rightarrow> doc_to_response r)"

text \<open>
  \<open>update_document\<close>, in its two database round trips: the gate SELECT with every check and
  the value set (\<open>patch_check\<close>), then the UPDATE and commit (\<open>patch_write\<close>).
\<close>

definition patch_check ::
  "string \<Rightarrow> document_update \<Rightarrow> uuid \<Rightarrow> db \<Rightarrow> (uuid \<times> document_values) result" where
  "patch_check document_id p u d =
     (if \<not> validate_document_update p then Inl unprocessable
      else if du_title p = None \<and> du_content p = None \<and> du_scope_book_ids p = None
              \<and> du_scope_collection_ids p = None
      then Inl (HTTPException 422 ''PATCH must set at least one of title, content, scope_book_ids, scope_collection_ids.'')
      else case (case du_content p of None \<Rightarrow> Inr () | Some c \<Rightarrow> require_content_within_cap c) of
        Inl e \<Rightarrow> Inl e
      | Inr _ \<Rightarrow>
          (case require_owned_document document_id u d of
             Inl e \<Rightarrow> Inl e
           | Inr r \<Rightarrow>
               if doc_updated_at r \<noteq> du_base_updated_at p
               then Inl (HTTPException 409 ''Document was modified since base_updated_at; reload and retry.'')
               else Inr (doc_document_id r,
                 \<lparr>dv_title = du_title p, dv_content = du_content p,
                  dv_content_text = map_option derive_content_text (du_content p),
                  dv_scope_book_ids = map_option (\<lambda>ids. clamp_scope_book_ids ids u d) (du_scope_book_ids p),
                  dv_scope_collection_ids =
                    map_option (\<lambda>ids. clamp_scope_collection_ids ids u d) (du_scope_collection_ids p)\<rparr>)))"

definition patch_write ::
  "uuid \<Rightarrow> document_values \<Rightarrow> uuid \<Rightarrow> timestamp \<Rightarrow> db \<Rightarrow> document_response result \<times> db" where
  "patch_write i values u now d =
     (case doc_update_stmt i u values now d of
        (Inl e, _) \<Rightarrow> (Inl e, d)
      | (Inr rows, d') \<Rightarrow>
          (case one_row rows of
             Inl e \<Rightarrow> (Inl e, d)
           | Inr r \<Rightarrow> (doc_to_response r, d')))"

definition update_document ::
  "string \<Rightarrow> document_update \<Rightarrow> uuid \<Rightarrow> timestamp \<Rightarrow> db \<Rightarrow> document_response result \<times> db" where
  "update_document document_id p u now d =
     (case patch_check document_id p u d of
        Inl e \<Rightarrow> (Inl e, d)
      | Inr (i, values) \<Rightarrow> patch_write i values u now d)"

definition delete_document :: "string \<Rightarrow> uuid \<Rightarrow> timestamp \<Rightarrow> db \<Rightarrow> unit result \<times> db" where
  "delete_document document_id u now d =
     (case parse_uuid document_id of
        None \<Rightarrow> (Inl doc_not_found, d)
      | Some i \<Rightarrow>
          let (ids, d') = doc_delete_stmt i u now d
          in case scalar_one_or_none ids of
               Inl e \<Rightarrow> (Inl e, d)
             | Inr None \<Rightarrow> (Inl doc_not_found, d)
             | Inr (Some _) \<Rightarrow> (Inr (), d'))"

definition restore_document :: "string \<Rightarrow> uuid \<Rightarrow> db \<Rightarrow> document_response result \<times> db" where
  "restore_document document_id u d =
     (case parse_uuid document_id of
        None \<Rightarrow> (Inl doc_not_found, d)
      | Some i \<Rightarrow>
          (case scalar_one_or_none (owned_any_stmt i u d) of
             Inl e \<Rightarrow> (Inl e, d)
           | Inr None \<Rightarrow> (Inl doc_not_found, d)
           | Inr (Some r) \<Rightarrow>
               if doc_deleted_at r = None then (doc_to_response r, d)
               else (doc_to_response (r\<lparr>doc_deleted_at := None\<rparr>),
                     d\<lparr>documents := update_where (\<lambda>x. doc_document_id x = i \<and> doc_user_id x = u)
                          (\<lambda>x. x\<lparr>doc_deleted_at := None\<rparr>) (documents d)\<rparr>)))"

section \<open>Word export and import\<close>

text \<open>
  What the two docx routes rely on outside the repository's Python: libmagic's verdict on a
  byte prefix, and the pandoc and Node legs of \<open>worker.convert\<close> in each direction.
\<close>

record docx_externals =
  magic_from_buffer :: "string \<Rightarrow> string"
  convert_to_docx :: "json \<Rightarrow> string result"
  convert_from_docx :: "string \<Rightarrow> json result"

definition DOCX_MIME :: string where
  "DOCX_MIME = ''application/vnd.openxmlformats-officedocument.wordprocessingml.document''"

definition DOCX_SNIFF_BYTES :: nat where "DOCX_SNIFF_BYTES = 8192"
definition IMPORT_CHUNK_BYTES :: nat where "IMPORT_CHUNK_BYTES = 1024 * 1024"

definition filename_safe :: "char \<Rightarrow> bool" where
  "filename_safe c = (let n = of_char c :: nat in
     (48 \<le> n \<and> n \<le> 57) \<or> (65 \<le> n \<and> n \<le> 90) \<or> (97 \<le> n \<and> n \<le> 122) \<or> c \<in> set ''._-'')"

text \<open>\<open>_FILENAME_SANITIZE.sub("_", s)\<close>: every other character becomes an underscore.\<close>

definition sanitize_sub :: "string \<Rightarrow> string" where
  "sanitize_sub s = map (\<lambda>c. if filename_safe c then c else CHR ''_'') s"

definition export_filename :: "string \<Rightarrow> string" where
  "export_filename title =
     (let cleaned = strip_by (\<lambda>c. c = CHR ''_'') (sanitize_sub title);
          base = (if cleaned \<noteq> [] then cleaned else ''sermon'')
      in base @ ''.docx'')"

definition revision_insert_stmt ::
  "document \<Rightarrow> uuid \<Rightarrow> string \<Rightarrow> uuid \<Rightarrow> timestamp \<Rightarrow> db \<Rightarrow> db" where
  "revision_insert_stmt prior u source new_id now d =
     d\<lparr>sermon_doc_revisions := sermon_doc_revisions d @
        [\<lparr>rev_revision_id = new_id, rev_document_id = doc_document_id prior, rev_user_id = u,
          rev_content = doc_content prior, rev_content_text = doc_content_text prior,
          rev_schema_version = doc_schema_version prior, rev_source = source,
          rev_created_at = now\<rparr>]\<rparr>"

definition sniff_docx :: "docx_externals \<Rightarrow> string \<Rightarrow> unit result" where
  "sniff_docx ext head =
     (let mime = magic_from_buffer ext (take DOCX_SNIFF_BYTES head)
      in if mime \<noteq> DOCX_MIME
         then Inl (HTTPException 415 (''Unsupported upload content (sniffed '' @ [CHR 0x27] @ mime @ [CHR 0x27] @ ''); expected a .docx.''))
         else Inr ())"

definition upload_too_large :: "nat \<Rightarrow> py_exn" where
  "upload_too_large max_bytes = HTTPException 413 (''Upload exceeds '' @ nat_str max_bytes @ '' bytes.'')"

function read_loop :: "nat \<Rightarrow> string \<Rightarrow> string \<Rightarrow> string result" where
  "read_loop max_bytes buf body =
     (let chunk = take IMPORT_CHUNK_BYTES body
      in if chunk = [] then Inr buf
         else let buf' = buf @ chunk
              in if max_bytes < length buf' then Inl (upload_too_large max_bytes)
                 else read_loop max_bytes buf' (drop IMPORT_CHUNK_BYTES body))"
  by pat_completeness auto
termination
  by (relation "measure (\<lambda>(m, b, body). length body)") (auto simp: IMPORT_CHUNK_BYTES_def)

declare read_loop.simps [simp del]

definition read_capped_upload :: "nat \<Rightarrow> string \<Rightarrow> string result" where
  "read_capped_upload max_bytes body = read_loop max_bytes [] body"

definition export_document_docx ::
  "docx_externals \<Rightarrow> string \<Rightarrow> uuid \<Rightarrow> db \<Rightarrow> (string \<times> string) result" where
  "export_document_docx ext document_id u d =
     (case require_owned_document document_id u d of
        Inl e \<Rightarrow> Inl e
      | Inr r \<Rightarrow>
          (case convert_to_docx ext (doc_content r) of
             Inl e \<Rightarrow> Inl (if e = ConversionError then HTTPException 502 ''Document export failed.'' else e)
           | Inr docx_bytes \<Rightarrow> Inr (export_filename (doc_title r), docx_bytes)))"

definition content_values :: "json \<Rightarrow> document_values" where
  "content_values content = no_values\<lparr>dv_content := Some content,
     dv_content_text := Some (derive_content_text content)\<rparr>"

text \<open>Snapshot the row as loaded, then overwrite it, in one transaction: both or neither.\<close>

definition snapshot_and_overwrite ::
  "document \<Rightarrow> json \<Rightarrow> string \<Rightarrow> uuid \<Rightarrow> uuid \<Rightarrow> timestamp \<Rightarrow> db \<Rightarrow> document result \<times> db" where
  "snapshot_and_overwrite r content source u rev_id now d =
     (case doc_update_stmt (doc_document_id r) u (content_values content) now
             (revision_insert_stmt r u source rev_id now d) of
        (Inl e, _) \<Rightarrow> (Inl e, d)
      | (Inr rows, d') \<Rightarrow> (case one_row rows of Inl e \<Rightarrow> (Inl e, d) | Inr row \<Rightarrow> (Inr row, d')))"

text \<open>The \<open>try\<close> block of the import, from the gate to the commit.\<close>

definition import_body ::
  "docx_externals \<Rightarrow> string \<Rightarrow> string \<Rightarrow> uuid \<Rightarrow> uuid \<Rightarrow> timestamp \<Rightarrow> db \<Rightarrow> document result \<times> db" where
  "import_body ext document_id staged u rev_id now d =
     (case require_owned_document document_id u d of
        Inl e \<Rightarrow> (Inl e, d)
      | Inr r \<Rightarrow>
          (case convert_from_docx ext staged of
             Inl e \<Rightarrow> (Inl (if e = ConversionError then HTTPException 502 ''Document import failed.'' else e), d)
           | Inr content_json \<Rightarrow>
               (case require_content_within_cap content_json of
                  Inl e \<Rightarrow> (Inl e, d)
                | Inr _ \<Rightarrow> snapshot_and_overwrite r content_json ''import'' u rev_id now d)))"

text \<open>
  The whole route over the upload directory's subdirectories and the database; \<open>subdir\<close> is the
  per-import UUID, removed again by the \<open>finally\<close>.
\<close>

definition import_document_docx ::
  "docx_externals \<Rightarrow> string \<Rightarrow> string \<Rightarrow> uuid \<Rightarrow> uuid \<Rightarrow> uuid \<Rightarrow> timestamp \<Rightarrow>
   uuid list \<times> db \<Rightarrow> document_response result \<times> uuid list \<times> db" where
  "import_document_docx ext document_id body u subdir rev_id now st =
     (let (fs, d) = st in
      case read_capped_upload MAX_CONTENT_BYTES body of
        Inl e \<Rightarrow> (Inl e, fs, d)
      | Inr raw \<Rightarrow>
          (case sniff_docx ext raw of
             Inl e \<Rightarrow> (Inl e, fs, d)
           | Inr _ \<Rightarrow>
               if subdir \<in> set fs then (Inl OSError, fs, d)
               else let fs' = subdir # fs;
                        (out, d') = import_body ext document_id raw u rev_id now d;
                        fs'' = filter (\<lambda>s. s \<noteq> subdir) fs'
                    in (case out of Inl e \<Rightarrow> Inl e | Inr row \<Rightarrow> doc_to_response row, fs'', d')))"

text \<open>The two tables an overwrite can touch.\<close>

lemma snapshot_and_overwrite_touches:
  assumes "snapshot_and_overwrite r c src u i now d = (res, d')"
  shows "\<exists>ds rs. d' = d\<lparr>sermon_doc_revisions := rs, documents := ds\<rparr>"
proof -
  have self: "\<exists>ds rs. d = d\<lparr>sermon_doc_revisions := rs, documents := ds\<rparr>"
    by (intro exI [of _ "documents d"] exI [of _ "sermon_doc_revisions d"]) simp
  show ?thesis
  proof (cases "values_storable (content_values c)")
    case True
    then show ?thesis using assms self
      by (auto simp: snapshot_and_overwrite_def doc_update_stmt_def revision_insert_stmt_def Let_def split: sum.splits)
  qed (use assms self in \<open>simp add: snapshot_and_overwrite_def doc_update_stmt_def\<close>)
qed

section \<open>Tenant scoping of the statements\<close>

lemma doc_stmts_tenant_view [tenant_simps]:
  "doc_list_stmt u (tenant_view u d) = doc_list_stmt u d"
  "owned_active_stmt i u (tenant_view u d) = owned_active_stmt i u d"
  "owned_any_stmt i u (tenant_view u d) = owned_any_stmt i u d"
  "owned_book_ids_stmt ids u (tenant_view u d) = owned_book_ids_stmt ids u d"
  "owned_collection_ids_stmt cids u (tenant_view u d) = owned_collection_ids_stmt cids u d"
  by (simp_all add: doc_list_stmt_def owned_active_stmt_def owned_any_stmt_def
      owned_book_ids_stmt_def owned_collection_ids_stmt_def tenant_simps)

lemma doc_clamps_tenant_view [tenant_simps]:
  "clamp_scope_book_ids ids u (tenant_view u d) = clamp_scope_book_ids ids u d"
  "clamp_scope_collection_ids ids u (tenant_view u d) = clamp_scope_collection_ids ids u d"
  by (simp_all add: clamp_scope_book_ids_def clamp_scope_collection_ids_def tenant_simps)

lemma require_owned_document_tenant_view [tenant_simps]:
  "require_owned_document raw u (tenant_view u d) = require_owned_document raw u d"
  by (simp add: require_owned_document_def tenant_simps cong: option.case_cong)

lemma apply_values_keys [simp]:
  "doc_user_id (apply_values v now r) = doc_user_id r"
  "doc_document_id (apply_values v now r) = doc_document_id r"
  "doc_deleted_at (apply_values v now r) = doc_deleted_at r"
  "doc_updated_at (apply_values v now r) = now"
  "doc_title (apply_values v now r) = set_or (dv_title v) (doc_title r)"
  "doc_content (apply_values v now r) = set_or (dv_content v) (doc_content r)"
  "doc_content_text (apply_values v now r) = set_or (dv_content_text v) (doc_content_text r)"
  "doc_scope_book_ids (apply_values v now r) = set_or (dv_scope_book_ids v) (doc_scope_book_ids r)"
  "doc_scope_collection_ids (apply_values v now r) =
     set_or (dv_scope_collection_ids v) (doc_scope_collection_ids r)"
  by (simp_all add: apply_values_def)

lemma doc_update_stmt_tenant_view [tenant_simps]:
  "doc_update_stmt i u v now (tenant_view u d) = map_prod id (tenant_view u) (doc_update_stmt i u v now d)"
  by (simp add: doc_update_stmt_def Let_def tenant_simps)

lemma doc_insert_stmt_tenant_view:
  "doc_user_id row = u \<Longrightarrow> doc_insert_stmt row (tenant_view u d) = map_prod id (tenant_view u) (doc_insert_stmt row d)"
  by (simp add: doc_insert_stmt_def tenant_simps)

lemma doc_insert_stmt_frame:
  "doc_user_id row = u \<Longrightarrow> u \<noteq> w \<Longrightarrow> tenant_view w (snd (doc_insert_stmt row d)) = tenant_view w d"
  by (simp add: doc_insert_stmt_def tenant_simps)

lemma doc_update_stmt_frame [tenant_simps]:
  "u \<noteq> w \<Longrightarrow> tenant_view w (snd (doc_update_stmt i u v now d)) = tenant_view w d"
  by (simp add: doc_update_stmt_def Let_def tenant_simps tenant_frame)

lemma doc_delete_stmt_tenant_view [tenant_simps]:
  "doc_delete_stmt i u now (tenant_view u d) = map_prod id (tenant_view u) (doc_delete_stmt i u now d)"
  by (simp add: doc_delete_stmt_def Let_def tenant_simps)

lemma doc_delete_stmt_frame [tenant_simps]:
  "u \<noteq> w \<Longrightarrow> tenant_view w (snd (doc_delete_stmt i u now d)) = tenant_view w d"
  by (simp add: doc_delete_stmt_def Let_def tenant_simps tenant_frame)

lemma revision_insert_tenant_view [tenant_simps]:
  "revision_insert_stmt r u src i now (tenant_view u d) = tenant_view u (revision_insert_stmt r u src i now d)"
  by (simp add: revision_insert_stmt_def tenant_simps)

lemma revision_insert_frame [tenant_simps]:
  "u \<noteq> w \<Longrightarrow> tenant_view w (revision_insert_stmt r u src i now d) = tenant_view w d"
  by (simp add: revision_insert_stmt_def tenant_simps)

section \<open>Every handler is scoped to its caller\<close>

lemma create_document_scoped: "scoped u (create_document p u now i)"
proof (rule scopedI)
  show "create_document p u now i (tenant_view u d) = map_prod id (tenant_view u) (create_document p u now i d)" for d
    by (simp add: create_document_def doc_insert_stmt_def tenant_simps Let_def split: sum.split)
  show "tenant_view w (snd (create_document p u now i d)) = tenant_view w d" if "u \<noteq> w" for d w
    using that by (simp add: create_document_def doc_insert_stmt_def tenant_simps Let_def split: sum.split)
qed

lemma patch_write_scoped: "scoped u (patch_write i v u now)"
proof (rule scopedI)
  show "patch_write i v u now (tenant_view u d) = map_prod id (tenant_view u) (patch_write i v u now d)" for d
    by (cases "doc_update_stmt i u v now d"; cases "fst (doc_update_stmt i u v now d)")
      (simp_all add: patch_write_def tenant_simps split: sum.split)
  show "tenant_view w (snd (patch_write i v u now d)) = tenant_view w d" if "u \<noteq> w" for d w
    using doc_update_stmt_frame [OF that, of i v now d]
    by (auto simp: patch_write_def split: prod.split sum.split)
qed

lemma update_document_scoped: "scoped u (update_document raw p u now)"
proof (rule scopedI)
  note patch_wr = scopedD [OF patch_write_scoped]
  have chk: "patch_check raw p u (tenant_view u d) = patch_check raw p u d" for d
    by (simp add: patch_check_def tenant_simps cong: sum.case_cong if_cong)
  show "update_document raw p u now (tenant_view u d) = map_prod id (tenant_view u) (update_document raw p u now d)" for d
    by (simp add: update_document_def chk patch_wr split: sum.split)
  show "tenant_view w (snd (update_document raw p u now d)) = tenant_view w d" if "u \<noteq> w" for d w
    using that by (simp add: update_document_def patch_wr split: sum.split)
qed

lemma delete_document_scoped: "scoped u (delete_document raw u now)"
proof (rule scopedI)
  show "delete_document raw u now (tenant_view u d) = map_prod id (tenant_view u) (delete_document raw u now d)" for d
    by (simp add: delete_document_def tenant_simps split: sum.split option.split)
  show "tenant_view w (snd (delete_document raw u now d)) = tenant_view w d" if "u \<noteq> w" for d w
    using that by (simp add: delete_document_def tenant_simps split: sum.split option.split)
qed

lemma restore_document_scoped: "scoped u (restore_document raw u)"
proof (rule scopedI)
  show "restore_document raw u (tenant_view u d) = map_prod id (tenant_view u) (restore_document raw u d)" for d
    by (simp add: restore_document_def tenant_simps split: sum.split option.split)
  show "tenant_view w (snd (restore_document raw u d)) = tenant_view w d" if "u \<noteq> w" for d w
    using that by (simp add: restore_document_def tenant_simps tenant_frame split: sum.split option.split)
qed

lemma snapshot_and_overwrite_scoped: "scoped u (snapshot_and_overwrite r c src u i now)"
proof (rule scopedI)
  let ?upd = "\<lambda>d. doc_update_stmt (doc_document_id r) u (content_values c) now (revision_insert_stmt r u src i now d)"
  show "snapshot_and_overwrite r c src u i now (tenant_view u d) =
        map_prod id (tenant_view u) (snapshot_and_overwrite r c src u i now d)" for d
    by (cases "?upd d"; cases "fst (?upd d)")
      (simp_all add: snapshot_and_overwrite_def tenant_simps split: sum.split)
  show "tenant_view w (snd (snapshot_and_overwrite r c src u i now d)) = tenant_view w d"
    if "u \<noteq> w" for d w
  proof -
    have "tenant_view w (snd (?upd d)) = tenant_view w d" using that by (simp add: tenant_simps)
    then show ?thesis by (auto simp: snapshot_and_overwrite_def split: prod.split sum.split)
  qed
qed

lemma import_body_scoped: "scoped u (import_body ext raw bytes u i now)"
proof (rule scopedI)
  note snap = scopedD [OF snapshot_and_overwrite_scoped]
  show "import_body ext raw bytes u i now (tenant_view u d) =
        map_prod id (tenant_view u) (import_body ext raw bytes u i now d)" for d
    by (simp add: import_body_def tenant_simps snap split: sum.split)
  show "tenant_view w (snd (import_body ext raw bytes u i now d)) = tenant_view w d"
    if "u \<noteq> w" for d w
    using that by (simp add: import_body_def tenant_simps snap split: sum.split)
qed

section \<open>The documents resource as one step\<close>

datatype doc_op =
    DocCreate document_create uuid
  | DocList
  | DocGet string
  | DocPatch string document_update
  | DocDelete string
  | DocRestore string
  | DocExport string
  | DocImport string string uuid uuid

datatype doc_out =
    DocOut "document_response result"
  | DocSummaries "document_summary list"
  | DocUnit "unit result"
  | DocFile "(string \<times> string) result"

fun doc_step ::
  "docx_externals \<Rightarrow> uuid \<Rightarrow> timestamp \<times> doc_op \<Rightarrow> db \<Rightarrow> doc_out \<times> db" where
  "doc_step ext u (now, DocCreate p new_id) = (\<lambda>d. map_prod DocOut id (create_document p u now new_id d))"
| "doc_step ext u (now, DocList) = (\<lambda>d. (DocSummaries (list_documents u d), d))"
| "doc_step ext u (now, DocGet raw) = (\<lambda>d. (DocOut (get_document raw u d), d))"
| "doc_step ext u (now, DocPatch raw p) = (\<lambda>d. map_prod DocOut id (update_document raw p u now d))"
| "doc_step ext u (now, DocDelete raw) = (\<lambda>d. map_prod DocUnit id (delete_document raw u now d))"
| "doc_step ext u (now, DocRestore raw) = (\<lambda>d. map_prod DocOut id (restore_document raw u d))"
| "doc_step ext u (now, DocExport raw) = (\<lambda>d. (DocFile (export_document_docx ext raw u d), d))"
| "doc_step ext u (now, DocImport raw body subdir rev_id) =
     (\<lambda>d. map_prod DocOut snd (import_document_docx ext raw body u subdir rev_id now ([], d)))"

lemma doc_step_scoped: "scoped u (doc_step ext u op)"
proof -
  obtain now x where op: "op = (now, x)" by (cases op)
  show ?thesis
  proof (cases x)
    case (DocImport raw body subdir rev_id)
    show ?thesis
      by (rule scopedI) (simp_all add: op DocImport import_document_docx_def tenant_simps
          scopedD [OF import_body_scoped] split: sum.split)
  qed (simp_all add: op scoped_out scoped_read create_document_scoped update_document_scoped
      delete_document_scoped restore_document_scoped list_documents_def get_document_def
      export_document_docx_def tenant_simps)
qed

interpretation docs: tenant_step tenant_view "doc_step ext" "\<lambda>_ _. True"
  by (rule scoped_step) (rule doc_step_scoped)

end
