(* ===== verification/Documents_Correct.thy ===== *)
theory Documents_Correct
  imports Documents
begin

text \<open>
  What makes the documents resource correct: the ownership gate gives no existence oracle, the
  stored rows stay well formed under every operation, the optimistic-concurrency check and its
  lost-update window, the scope clamp, the soft-delete round trip, the streaming size cap, and
  the snapshot-first import.
\<close>

section \<open>The gate\<close>

lemma owned_active_mem:
  assumes "owned_active_stmt i u d = [r]"
  shows "r \<in> set (documents d)" "doc_document_id r = i" "doc_user_id r = u" "doc_deleted_at r = None"
proof -
  have "r \<in> set (owned_active_stmt i u d)" using assms by simp
  then show "r \<in> set (documents d)" "doc_document_id r = i" "doc_user_id r = u" "doc_deleted_at r = None"
    by (simp_all add: owned_active_stmt_def)
qed

lemma gate_Inr:
  assumes "require_owned_document raw u d = Inr r"
  shows "parse_uuid raw = Some (doc_document_id r)"
    and "owned_active_stmt (doc_document_id r) u d = [r]"
proof -
  obtain i where i: "parse_uuid raw = Some i" "owned_active_stmt i u d = [r]"
    using assms by (auto simp: require_owned_document_def scalar_Some_conv split: sum.splits option.splits)
  moreover from this(2) have "doc_document_id r = i" by (rule owned_active_mem)
  ultimately show "parse_uuid raw = Some (doc_document_id r)"
    and "owned_active_stmt (doc_document_id r) u d = [r]" by simp_all
qed

interpretation doc_gate: owned_gate require_owned_document
  "\<lambda>i u d. owned_active_stmt i u d \<noteq> []" doc_document_id doc_not_found
proof
  show "require_owned_document raw u d = Inl doc_not_found" if "parse_uuid raw = None" for raw u d
    using that by (simp add: require_owned_document_def)
  show "require_owned_document raw u d = Inl doc_not_found"
    if "parse_uuid raw = Some i" "\<not> owned_active_stmt i u d \<noteq> []" for raw i u d
    using that by (simp add: require_owned_document_def)
  show "owned_active_stmt i u d \<noteq> [] \<and> doc_document_id r = i"
    if "parse_uuid raw = Some i" "require_owned_document raw u d = Inr r" for raw i u d r
    using gate_Inr [OF that(2)] that(1) by simp
qed

lemma owned_active_at_most_one:
  "distinct (map doc_document_id (documents d)) \<Longrightarrow> length (owned_active_stmt i u d) \<le> 1"
  unfolding owned_active_stmt_def select_where_def by (rule distinct_key_select)

lemma owned_any_at_most_one:
  "distinct (map doc_document_id (documents d)) \<Longrightarrow> length (owned_any_stmt i u d) \<le> 1"
  unfolding owned_any_stmt_def select_where_def by (rule distinct_key_select)

text \<open>Under primary-key uniqueness the gate decides membership.\<close>

lemma gate_cases:
  assumes "distinct (map doc_document_id (documents d))"
  obtains "require_owned_document raw u d = Inl doc_not_found"
  | r where "require_owned_document raw u d = Inr r"
proof -
  have "require_owned_document raw u d = Inl doc_not_found \<or> (\<exists>r. require_owned_document raw u d = Inr r)"
  proof (cases "parse_uuid raw")
    case None
    then show ?thesis by (simp add: require_owned_document_def)
  next
    case (Some i)
    then show ?thesis using owned_active_at_most_one [OF assms, of i u]
      by (cases "owned_active_stmt i u d" rule: scalar_one_or_none.cases)
         (auto simp: require_owned_document_def)
  qed
  then show thesis using that by blast
qed

section \<open>Well-formed rows\<close>

definition uuid_strs :: "string list \<Rightarrow> bool" where
  "uuid_strs ss = list_all (\<lambda>s. case parse_uuid s of None \<Rightarrow> False | Some i \<Rightarrow> s = str_uuid i) ss"

definition doc_row_ok :: "document \<Rightarrow> bool" where
  "doc_row_ok r \<longleftrightarrow> title_ok (doc_title r) \<and>
     doc_content_text r = derive_content_text (doc_content r) \<and>
     content_byte_size (doc_content r) \<le> MAX_CONTENT_BYTES \<and>
     uuid_strs (doc_scope_book_ids r) \<and> uuid_strs (doc_scope_collection_ids r)"

definition revision_ok :: "sermon_doc_revision \<Rightarrow> bool" where
  "revision_ok r \<longleftrightarrow> rev_content_text r = derive_content_text (rev_content r)"

definition docs_wf :: "db \<Rightarrow> bool" where
  "docs_wf d \<longleftrightarrow> distinct (map doc_document_id (documents d)) \<and>
     list_all doc_row_ok (documents d) \<and> list_all revision_ok (sermon_doc_revisions d)"

fun doc_fresh :: "doc_op \<Rightarrow> db \<Rightarrow> bool" where
  "doc_fresh (DocCreate p new_id) d = (new_id \<notin> doc_document_id ` set (documents d))"
| "doc_fresh _ d = True"

lemma uuid_strs_map [simp]: "uuid_strs (map str_uuid us)"
  by (simp add: uuid_strs_def list_all_iff)

lemma uuid_strs_conv: "uuid_strs ss \<Longrightarrow> \<exists>us. ss = map str_uuid us"
proof (induction ss)
  case (Cons s ss)
  then obtain us where "ss = map str_uuid us" by (auto simp: uuid_strs_def)
  moreover obtain u where "s = str_uuid u"
    using Cons.prems by (auto simp: uuid_strs_def split: option.splits)
  ultimately show ?case by (intro exI [of _ "u # us"]) simp
qed simp

lemma uuid_strs_clamp [simp]:
  "uuid_strs (clamp_scope_book_ids ids u d)" "uuid_strs (clamp_scope_collection_ids cids u d)"
  by (auto simp: clamp_scope_book_ids_def clamp_scope_collection_ids_def Let_def) (simp add: uuid_strs_def)+

lemma doc_to_response_ok: "doc_row_ok r \<Longrightarrow> \<exists>resp. doc_to_response r = Inr resp"
  by (auto simp: doc_row_ok_def doc_to_response_def dest!: uuid_strs_conv)

lemma cap_ok: "require_content_within_cap c = Inr x \<longleftrightarrow> content_byte_size c \<le> MAX_CONTENT_BYTES"
  by (auto simp: require_content_within_cap_def)

text \<open>What a value set may contain so that applying it keeps a row well formed.\<close>

definition values_ok :: "document_values \<Rightarrow> bool" where
  "values_ok v \<longleftrightarrow>
     (case dv_title v of None \<Rightarrow> True | Some t \<Rightarrow> title_ok t) \<and>
     (case dv_content v of None \<Rightarrow> dv_content_text v = None
      | Some c \<Rightarrow> content_byte_size c \<le> MAX_CONTENT_BYTES \<and> dv_content_text v = Some (derive_content_text c)) \<and>
     (case dv_scope_book_ids v of None \<Rightarrow> True | Some ss \<Rightarrow> uuid_strs ss) \<and>
     (case dv_scope_collection_ids v of None \<Rightarrow> True | Some ss \<Rightarrow> uuid_strs ss)"

lemma set_or_simps [simp]: "set_or None x = x" "set_or (Some y) x = y"
  by (simp_all add: set_or_def)

lemma apply_values_ok: "values_ok v \<Longrightarrow> doc_row_ok r \<Longrightarrow> doc_row_ok (apply_values v now r)"
  by (auto simp: values_ok_def doc_row_ok_def set_or_def split: option.splits)

lemma docs_wf_update:
  assumes "docs_wf d" "\<And>r. doc_row_ok r \<Longrightarrow> doc_row_ok (f r)" "\<And>r. doc_document_id (f r) = doc_document_id r"
  shows "docs_wf (d\<lparr>documents := update_where p f (documents d)\<rparr>)"
  using assms by (auto simp: docs_wf_def map_update_where list_all_iff set_update_where)

lemma docs_wf_update_stmt:
  "docs_wf d \<Longrightarrow> values_ok v \<Longrightarrow> docs_wf (snd (doc_update_stmt i u v now d))"
  by (auto simp: doc_update_stmt_def Let_def intro!: docs_wf_update apply_values_ok)

lemma values_storable_content [simp]:
  "values_storable (content_values c) \<longleftrightarrow> jsonb_storable c"
  by (auto simp: values_storable_def content_values_def no_values_def storable_content_text)

text \<open>What a PATCH asks Postgres to store.\<close>

definition patch_storable :: "document_update \<Rightarrow> bool" where
  "patch_storable p \<longleftrightarrow> (case du_title p of None \<Rightarrow> True | Some t \<Rightarrow> text_storable t) \<and>
     (case du_content p of None \<Rightarrow> True | Some c \<Rightarrow> jsonb_storable c)"

lemma patch_check_storable:
  assumes "patch_check raw p u d = Inr (i, v)"
  shows "values_storable v = patch_storable p"
proof -
  have "dv_title v = du_title p" "dv_content v = du_content p"
    "dv_content_text v = map_option derive_content_text (du_content p)"
    using assms by (auto simp: patch_check_def split: if_splits sum.splits)
  then show ?thesis
    by (cases "du_content p") (auto simp: values_storable_def patch_storable_def storable_content_text)
qed

lemma patch_check_ok:
  assumes "patch_check raw p u d = Inr (i, v)"
  shows "values_ok v" and
    "\<exists>r. require_owned_document raw u d = Inr r \<and> i = doc_document_id r \<and>
         doc_updated_at r = du_base_updated_at p"
  using assms
  by (auto simp: patch_check_def values_ok_def validate_document_update_def cap_ok
      split: if_splits sum.splits option.splits)

lemma doc_update_stmt_one:
  assumes "owned_active_stmt i u d = [r]" and "values_storable v"
  shows "fst (doc_update_stmt i u v now d) = Inr [apply_values v now r]"
  using assms by (simp add: doc_update_stmt_def Let_def owned_active_stmt_def)

lemma patch_write_one:
  assumes "owned_active_stmt i u d = [r]" and "values_storable v"
  shows "patch_write i v u now d = (doc_to_response (apply_values v now r), snd (doc_update_stmt i u v now d))"
  using doc_update_stmt_one [OF assms, of now] by (cases "doc_update_stmt i u v now d") (simp add: patch_write_def)

lemma doc_update_stmt_refused:
  "\<not> values_storable v \<Longrightarrow> doc_update_stmt i u v now d = (Inl DataError, d)"
  by (simp add: doc_update_stmt_def)

lemma docs_wf_distinct: "docs_wf d \<Longrightarrow> distinct (map doc_document_id (documents d))"
  by (simp add: docs_wf_def)

lemma docs_wf_row: "docs_wf d \<Longrightarrow> r \<in> set (documents d) \<Longrightarrow> doc_row_ok r"
  by (simp add: docs_wf_def list_all_iff)

lemma docs_wf_revision:
  "docs_wf d \<Longrightarrow> r \<in> set (documents d) \<Longrightarrow> docs_wf (revision_insert_stmt r u src i now d)"
  by (auto simp: docs_wf_def revision_insert_stmt_def revision_ok_def doc_row_ok_def list_all_iff)

text \<open>An error a client can be sent by design: never an unhandled exception, never a 500.\<close>

definition expected_error :: "py_exn \<Rightarrow> bool" where
  "expected_error e \<longleftrightarrow> status_of e \<in> {404, 409, 413, 415, 422, 502}"

lemma expected_errors [simp]:
  "expected_error doc_not_found" "expected_error unprocessable" "expected_error (upload_too_large n)"
  "expected_error (HTTPException 409 m)" "expected_error (HTTPException 415 m)"
  "expected_error (HTTPException 502 m)" "expected_error (HTTPException 404 m)"
  "expected_error (HTTPException 422 m)" "expected_error (HTTPException 413 m)"
  by (simp_all add: expected_error_def doc_not_found_def unprocessable_def upload_too_large_def)

text \<open>
  The answer to a request: an error by design, or the driver's error when the request asks for
  something Postgres cannot store, which is then the only way it can end past the checks.
\<close>

definition answer_ok :: "bool \<Rightarrow> 'a result \<Rightarrow> bool" where
  "answer_ok storable out \<longleftrightarrow>
     (case out of Inl e \<Rightarrow> expected_error e \<or> \<not> storable \<and> e = DataError | Inr _ \<Rightarrow> storable)"

lemma answer_ok_simps [simp]:
  "answer_ok st (Inr x) \<longleftrightarrow> st" "answer_ok st (Inl e) \<longleftrightarrow> expected_error e \<or> \<not> st \<and> e = DataError"
  by (simp_all add: answer_ok_def)

lemma cap_error: "require_content_within_cap c = Inl e \<Longrightarrow> expected_error e"
  by (auto simp: require_content_within_cap_def split: if_splits)

lemma doc_response_answer_ok [simp]: "doc_row_ok r \<Longrightarrow> answer_ok st (doc_to_response r) \<longleftrightarrow> st"
  using doc_to_response_ok [of r] by fastforce

text \<open>A handler result that keeps the tables well formed, answers as designed, and leaves them alone on an error.\<close>

definition good_doc :: "bool \<Rightarrow> db \<Rightarrow> 'a result \<times> db \<Rightarrow> bool" where
  "good_doc st d h \<longleftrightarrow> answer_ok st (fst h) \<and> docs_wf (snd h) \<and> (is_ok (fst h) \<or> snd h = d)"

lemma good_doc_simps [simp]:
  "good_doc st d (Inl e, d') \<longleftrightarrow> (expected_error e \<or> \<not> st \<and> e = DataError) \<and> docs_wf d \<and> d' = d"
  "good_doc st d (Inr x, d') \<longleftrightarrow> st \<and> docs_wf d'"
  by (auto simp: good_doc_def)

lemma good_doc_response [simp]: "doc_row_ok r \<Longrightarrow> good_doc st d (doc_to_response r, d') \<longleftrightarrow> st \<and> docs_wf d'"
  using doc_to_response_ok [of r] by auto

lemma create_document_good:
  assumes wf: "docs_wf d" and new: "i \<notin> doc_document_id ` set (documents d)"
  shows "good_doc (text_storable (dc_title p) \<and> jsonb_storable (dc_content p)) d (create_document p u now i d)"
proof -
  consider (refused) e where "create_document p u now i d = (Inl e, d)" "expected_error e"
    | (row) r where "doc_row_ok r" "doc_document_id r = i" "doc_title r = dc_title p" "doc_content r = dc_content p"
      "doc_content_text r = derive_content_text (dc_content p)"
      "create_document p u now i d = (case doc_insert_stmt r d of (Inl e, d') \<Rightarrow> (Inl e, d')
         | (Inr _, d') \<Rightarrow> (doc_to_response r, d'))"
  proof (cases "validate_document_create p \<and> content_byte_size (dc_content p) \<le> MAX_CONTENT_BYTES")
    case False
    then show thesis
      by (intro refused [of "if validate_document_create p then projl (require_content_within_cap (dc_content p)) else unprocessable"])
        (auto simp: create_document_def require_content_within_cap_def)
  next
    case True
    then show thesis
      by (intro row) (auto simp: create_document_def require_content_within_cap_def Let_def doc_row_ok_def validate_document_create_def)
  qed
  then show ?thesis
  proof cases
    case row
    have "docs_wf (d\<lparr>documents := documents d @ [r]\<rparr>)" using wf new row(1,2) by (auto simp: docs_wf_def)
    then show ?thesis using wf row by (auto simp: doc_insert_stmt_def storable_content_text)
  qed (use wf in simp)
qed

lemma update_document_good:
  assumes wf: "docs_wf d"
  shows "good_doc (patch_storable p) d (update_document raw p u now d)"
proof (cases "patch_check raw p u d")
  case (Inl e)
  moreover have "expected_error e"
    using Inl by (cases rule: gate_cases [OF docs_wf_distinct [OF wf], of raw u])
      (auto simp: patch_check_def cap_error split: if_splits option.splits sum.splits)
  ultimately show ?thesis by (simp add: update_document_def wf)
next
  case (Inr iv)
  obtain i v where iv: "iv = (i, v)" by (cases iv)
  note chk = patch_check_ok [OF Inr [unfolded iv]] and storable = patch_check_storable [OF Inr [unfolded iv]]
  from chk(2) obtain r where r: "require_owned_document raw u d = Inr r" "i = doc_document_id r" by blast
  have act: "owned_active_stmt i u d = [r]" using gate_Inr(2) [OF r(1)] r(2) by simp
  show ?thesis
  proof (cases "values_storable v")
    case True
    have "doc_row_ok (apply_values v now r)"
      using chk(1) docs_wf_row [OF wf owned_active_mem(1) [OF act]] by (rule apply_values_ok)
    moreover have "docs_wf (snd (doc_update_stmt i u v now d))"
      using wf chk(1) by (rule docs_wf_update_stmt)
    ultimately show ?thesis using True storable
      by (simp add: update_document_def Inr iv patch_write_one [OF act True])
  next
    case False
    then show ?thesis using storable wf
      by (simp add: update_document_def Inr iv patch_write_def doc_update_stmt_refused)
  qed
qed

lemma delete_document_good:
  assumes wf: "docs_wf d"
  shows "good_doc True d (delete_document raw u now d)"
proof (cases "parse_uuid raw")
  case (Some i)
  have "length (fst (doc_delete_stmt i u now d)) \<le> 1"
    using owned_active_at_most_one [OF docs_wf_distinct [OF wf], of i u]
    by (simp add: doc_delete_stmt_def Let_def owned_active_stmt_def)
  moreover have "docs_wf (snd (doc_delete_stmt i u now d))"
    unfolding doc_delete_stmt_def Let_def snd_conv
    by (rule docs_wf_update [OF wf]) (auto simp: doc_row_ok_def)
  ultimately show ?thesis using wf
    by (cases "fst (doc_delete_stmt i u now d)" rule: scalar_one_or_none.cases)
       (auto simp: delete_document_def Some case_prod_beta Let_def)
qed (simp add: delete_document_def wf)

lemma restore_document_good:
  assumes wf: "docs_wf d"
  shows "good_doc True d (restore_document raw u d)"
proof (cases "parse_uuid raw")
  case (Some i)
  have "r \<in> set (documents d)" if "owned_any_stmt i u d = [r]" for r
    using arg_cong [OF that, of set] by (auto simp: owned_any_stmt_def)
  then have ok: "doc_row_ok r" if "owned_any_stmt i u d = [r]" for r
    using docs_wf_row [OF wf] that by blast
  have wf': "docs_wf (d\<lparr>documents := update_where (\<lambda>x. doc_document_id x = i \<and> doc_user_id x = u)
                          (\<lambda>x. x\<lparr>doc_deleted_at := None\<rparr>) (documents d)\<rparr>)"
    by (rule docs_wf_update [OF wf]) (auto simp: doc_row_ok_def)
  have ok': "doc_row_ok (r\<lparr>doc_deleted_at := None\<rparr>)" if "owned_any_stmt i u d = [r]" for r
    using ok [OF that] by (simp add: doc_row_ok_def)
  show ?thesis using owned_any_at_most_one [OF docs_wf_distinct [OF wf], of i u] wf wf'
    by (cases "owned_any_stmt i u d" rule: scalar_one_or_none.cases)
       (auto simp: restore_document_def Some dest: ok ok')
qed (simp add: restore_document_def wf)

lemma snapshot_and_overwrite_good:
  assumes wf: "docs_wf d" and act: "owned_active_stmt (doc_document_id r) u d = [r]"
    and cap: "content_byte_size c \<le> MAX_CONTENT_BYTES" and storable: "jsonb_storable c"
  shows "snapshot_and_overwrite r c src u i now d =
         (Inr (apply_values (content_values c) now r),
          snd (doc_update_stmt (doc_document_id r) u (content_values c) now (revision_insert_stmt r u src i now d)))"
    and "docs_wf (snd (snapshot_and_overwrite r c src u i now d))"
    and "doc_row_ok (apply_values (content_values c) now r)"
proof -
  let ?d = "revision_insert_stmt r u src i now d"
  have docs: "documents ?d = documents d" by (simp add: revision_insert_stmt_def)
  have vals: "values_ok (content_values c)" using cap by (simp add: values_ok_def content_values_def no_values_def)
  note mem = owned_active_mem(1) [OF act]
  have "owned_active_stmt (doc_document_id r) u ?d = [r]" using act docs by (simp add: owned_active_stmt_def)
  from doc_update_stmt_one [OF this] storable
  have one: "fst (doc_update_stmt (doc_document_id r) u (content_values c) now ?d) =
      Inr [apply_values (content_values c) now r]" by simp
  show eq: "snapshot_and_overwrite r c src u i now d =
         (Inr (apply_values (content_values c) now r),
          snd (doc_update_stmt (doc_document_id r) u (content_values c) now ?d))"
    using one by (cases "doc_update_stmt (doc_document_id r) u (content_values c) now ?d") (simp add: snapshot_and_overwrite_def)
  show "docs_wf (snd (snapshot_and_overwrite r c src u i now d))"
    unfolding eq snd_conv by (intro docs_wf_update_stmt docs_wf_revision wf vals mem)
  show "doc_row_ok (apply_values (content_values c) now r)"
    using vals docs_wf_row [OF wf mem] by (rule apply_values_ok)
qed

lemma snapshot_and_overwrite_refused:
  "\<not> jsonb_storable c \<Longrightarrow> snapshot_and_overwrite r c src u i now d = (Inl DataError, d)"
  by (simp add: snapshot_and_overwrite_def doc_update_stmt_refused)

text \<open>
  The converters raise nothing but \<open>ConversionError\<close>, as \<open>worker.convert\<close> documents. A converted
  document is storable: XML has no U+0000, and \<open>JSON.stringify\<close> prints no number but a finite one.
\<close>

definition converters_ok :: "docx_externals \<Rightarrow> bool" where
  "converters_ok ext \<longleftrightarrow> (\<forall>c e. convert_to_docx ext c = Inl e \<longrightarrow> e = ConversionError) \<and>
     (\<forall>b e. convert_from_docx ext b = Inl e \<longrightarrow> e = ConversionError) \<and>
     (\<forall>b c. convert_from_docx ext b = Inr c \<longrightarrow> jsonb_storable c)"

lemma import_body_cases:
  assumes wf: "docs_wf d" and conv: "converters_ok ext"
  obtains e where "import_body ext raw staged u i now d = (Inl e, d)" "expected_error e"
  | r c where "require_owned_document raw u d = Inr r" "convert_from_docx ext staged = Inr c"
      "content_byte_size c \<le> MAX_CONTENT_BYTES" "jsonb_storable c"
      "import_body ext raw staged u i now d = snapshot_and_overwrite r c ''import'' u i now d"
proof (cases rule: gate_cases [OF docs_wf_distinct [OF wf], of raw u])
  case 1
  then show thesis by (intro that(1) [of doc_not_found]) (simp_all add: import_body_def)
next
  case (2 r)
  show thesis
  proof (cases "convert_from_docx ext staged")
    case (Inl e)
    with conv have "e = ConversionError" by (simp add: converters_ok_def)
    with Inl 2 show thesis
      by (intro that(1) [of "HTTPException 502 ''Document import failed.''"]) (simp_all add: import_body_def)
  next
    case (Inr c)
    show thesis
    proof (cases "require_content_within_cap c")
      case (Inl e)
      with Inr 2 show thesis by (intro that(1) [of e]) (simp_all add: import_body_def cap_error)
    next
      case cap: (Inr x)
      then have "content_byte_size c \<le> MAX_CONTENT_BYTES" by (simp add: cap_ok)
      with Inr 2 show thesis
        using conv by (intro that(2) [of r c]) (simp_all add: import_body_def require_content_within_cap_def converters_ok_def)
    qed
  qed
qed

lemma import_body_good:
  assumes wf: "docs_wf d" and conv: "converters_ok ext"
  shows "docs_wf (snd (import_body ext raw staged u i now d)) \<and>
    (case fst (import_body ext raw staged u i now d) of
       Inl e \<Rightarrow> expected_error e \<and> snd (import_body ext raw staged u i now d) = d | Inr r \<Rightarrow> doc_row_ok r)"
  proof (cases rule: import_body_cases [OF wf conv, of raw staged u i now])
    case (1 e)
    then show ?thesis by (simp add: wf)
  next
    case (2 r c)
    note good = snapshot_and_overwrite_good [OF wf gate_Inr(2) [OF 2(1)] 2(3,4)]
    show ?thesis unfolding 2(5) using good(2,3) by (simp add: good(1))
  qed

lemma read_loop_spec:
  "length buf \<le> m \<Longrightarrow>
   read_loop m buf body = (if length buf + length body \<le> m then Inr (buf @ body) else Inl (upload_too_large m))"
proof (induction m buf body rule: read_loop.induct)
  case (1 m buf body)
  have pos: "0 < IMPORT_CHUNK_BYTES" by (simp add: IMPORT_CHUNK_BYTES_def)
  show ?case
  proof (cases "body = []")
    case True
    then show ?thesis using 1 by (simp add: read_loop.simps [of m buf "[]"])
  next
    case False
    then have chunk: "take IMPORT_CHUNK_BYTES body \<noteq> []" using pos by simp
    let ?buf = "buf @ take IMPORT_CHUNK_BYTES body"
    show ?thesis
    proof (cases "m < length ?buf")
      case True
      then have "\<not> length buf + length body \<le> m" by simp
      then show ?thesis using True chunk by (simp add: read_loop.simps [of m buf body])
    next
      case fits: False
      have "read_loop m ?buf (drop IMPORT_CHUNK_BYTES body) =
            (if length ?buf + length (drop IMPORT_CHUNK_BYTES body) \<le> m
             then Inr (?buf @ drop IMPORT_CHUNK_BYTES body) else Inl (upload_too_large m))"
        by (rule "1.IH" [OF refl chunk refl fits]) (use fits in simp)
      moreover have "length ?buf + length (drop IMPORT_CHUNK_BYTES body) = length buf + length body" by simp
      ultimately show ?thesis using fits chunk by (simp add: read_loop.simps [of m buf body])
    qed
  qed
qed

lemma read_capped_upload_eq:
  "read_capped_upload m body = (if length body \<le> m then Inr body else Inl (upload_too_large m))"
  by (simp add: read_capped_upload_def read_loop_spec)

lemma sniff_error: "sniff_docx ext b = Inl e \<Longrightarrow> expected_error e"
  by (auto simp: sniff_docx_def Let_def split: if_splits)

lemma import_document_docx_good:
  assumes wf: "docs_wf d" and conv: "converters_ok ext"
  shows "good_doc True d (map_prod id snd (import_document_docx ext raw body u subdir i now ([], d)))"
proof (cases "read_capped_upload MAX_CONTENT_BYTES body")
  case (Inl e)
  then show ?thesis using wf
    by (auto simp: import_document_docx_def read_capped_upload_eq split: if_splits)
next
  case (Inr bytes)
  show ?thesis
  proof (cases "sniff_docx ext bytes")
    case (Inl e)
    then show ?thesis using Inr wf by (simp add: import_document_docx_def sniff_error)
  next
    case sniff: (Inr x)
    obtain out d' where body: "import_body ext raw bytes u i now d = (out, d')"
      by (cases "import_body ext raw bytes u i now d")
    have run: "map_prod id snd (import_document_docx ext raw body u subdir i now ([], d)) =
        (case out of Inl e \<Rightarrow> Inl e | Inr row \<Rightarrow> doc_to_response row, d')"
      using Inr sniff body by (simp add: import_document_docx_def)
    show ?thesis unfolding run using import_body_good [OF wf conv, of raw bytes u i now] wf
      by (cases out) (auto simp: body)
  qed
qed

lemma get_document_good: "docs_wf d \<Longrightarrow> answer_ok True (get_document raw u d)"
  by (cases rule: gate_cases [OF docs_wf_distinct, of d raw u])
     (auto simp: get_document_def dest!: gate_Inr(2) owned_active_mem(1) docs_wf_row)

lemma export_document_good:
  "docs_wf d \<Longrightarrow> converters_ok ext \<Longrightarrow> answer_ok True (export_document_docx ext raw u d)"
  by (cases rule: gate_cases [OF docs_wf_distinct, of d raw u])
     (auto simp: export_document_docx_def converters_ok_def split: sum.split)

fun out_error :: "doc_out \<Rightarrow> py_exn option" where
  "out_error (DocOut (Inl e)) = Some e"
| "out_error (DocUnit (Inl e)) = Some e"
| "out_error (DocFile (Inl e)) = Some e"
| "out_error _ = None"

text \<open>A request asks for nothing Postgres cannot store.\<close>

fun op_storable :: "doc_op \<Rightarrow> bool" where
  "op_storable (DocCreate p _) \<longleftrightarrow> text_storable (dc_title p) \<and> jsonb_storable (dc_content p)"
| "op_storable (DocPatch _ p) \<longleftrightarrow> patch_storable p"
| "op_storable _ \<longleftrightarrow> True"

definition step_good :: "bool \<Rightarrow> db \<Rightarrow> doc_out \<times> db \<Rightarrow> bool" where
  "step_good st d h \<longleftrightarrow> docs_wf (snd h) \<and>
     (case out_error (fst h) of
        None \<Rightarrow> st
      | Some e \<Rightarrow> (expected_error e \<or> \<not> st \<and> e = DataError) \<and> snd h = d)"

lemma good_step:
  "good_doc st d h \<Longrightarrow> step_good st d (map_prod DocOut id h)"
  "good_doc st d k \<Longrightarrow> step_good st d (map_prod DocUnit id k)"
  "docs_wf d \<Longrightarrow> answer_ok True r \<Longrightarrow> step_good True d (DocOut r, d)"
  "docs_wf d \<Longrightarrow> answer_ok True f \<Longrightarrow> step_good True d (DocFile f, d)"
  subgoal by (cases h; cases "fst h") (auto simp: step_good_def)
  subgoal by (cases k; cases "fst k") (auto simp: step_good_def)
  subgoal by (cases r) (auto simp: step_good_def)
  subgoal by (cases f) (auto simp: step_good_def)
  done

lemma doc_step_good:
  assumes wf: "docs_wf d" and conv: "converters_ok ext" and fresh: "doc_fresh op d"
  shows "step_good (op_storable op) d (doc_step ext u (now, op) d)"
proof (cases op)
  case (DocCreate p i)
  then show ?thesis using good_step(1) [OF create_document_good [OF wf, of i p u now]] fresh by simp
next
  case (DocImport raw body subdir i)
  have "map_prod DocOut snd x = map_prod DocOut id (map_prod id snd x)" for x :: "document_response result \<times> uuid list \<times> db"
    by (cases x) simp
  then show ?thesis using good_step(1) [OF import_document_docx_good [OF wf conv, of raw body u subdir i now]] DocImport
    by simp
next
  case DocList
  then show ?thesis using wf by (simp add: step_good_def)
qed (use wf good_step(1) [OF update_document_good [OF wf]] good_step(2) [OF delete_document_good [OF wf]]
      good_step(1) [OF restore_document_good [OF wf]] good_step(3) [OF wf get_document_good [OF wf]]
      good_step(4) [OF wf export_document_good [OF wf conv]] in simp_all)

section \<open>Concrete data for the witnesses\<close>

definition demo_body :: json where
  "demo_body = JObj [(''type'', JStr ''doc''), (''content'', JArr [JObj [(''type'', JStr ''text''), (''text'', JStr ''Amen'')]])]"

definition demo_doc :: document where
  "demo_doc = \<lparr>doc_document_id = 7, doc_user_id = 1, doc_title = ''Grace'', doc_content = JObj [],
     doc_content_text = [], doc_schema_version = 1, doc_scope_book_ids = [],
     doc_scope_collection_ids = [], doc_deleted_at = None, doc_created_at = 10, doc_updated_at = 10\<rparr>"

definition demo_db :: db where
  "demo_db = empty_db\<lparr>documents := [demo_doc]\<rparr>"

definition demo_patch :: "timestamp \<Rightarrow> string \<Rightarrow> document_update" where
  "demo_patch base title = \<lparr>du_base_updated_at = base, du_title = Some title, du_content = None,
     du_scope_book_ids = None, du_scope_collection_ids = None, du_extra = []\<rparr>"

definition demo_ext :: docx_externals where
  "demo_ext = \<lparr>magic_from_buffer = (\<lambda>b. if startswith b ''PK'' then DOCX_MIME else ''text/plain''),
     convert_to_docx = (\<lambda>j. Inr ''PK''),
     convert_from_docx = (\<lambda>b. if b = ''PK'' then Inr demo_body else Inl ConversionError)\<rparr>"

lemma demo_body_size: "\<not> MAX_CONTENT_BYTES < content_byte_size demo_body"
  by (simp add: content_byte_size_def MAX_CONTENT_BYTES_def demo_body_def json_quote_def
      esc_char_def utf8_len_def Let_def)

lemma demo_db_wf: "docs_wf demo_db"
  by (simp add: docs_wf_def demo_db_def demo_doc_def empty_db_def doc_row_ok_def title_ok_def
      derive_content_text_def content_byte_size_def utf8_len_def MAX_CONTENT_BYTES_def uuid_strs_def)

lemma demo_body_storable: "jsonb_storable demo_body"
  by (simp add: demo_body_def text_storable_def)

lemma demo_ext_ok: "converters_ok demo_ext"
  using demo_body_storable by (simp add: converters_ok_def demo_ext_def)

lemma demo_active: "owned_active_stmt i u demo_db = (if i = 7 \<and> u = 1 then [demo_doc] else [])"
  by (auto simp: owned_active_stmt_def demo_db_def demo_doc_def empty_db_def select_where_def)

lemma demo_gate: "require_owned_document (str_uuid 7) 1 demo_db = Inr demo_doc"
  by (simp add: require_owned_document_def demo_active)

lemma demo_check:
  "title_ok t \<Longrightarrow> patch_check (str_uuid 7) (demo_patch 10 t) 1 demo_db =
   Inr (7, no_values\<lparr>dv_title := Some t\<rparr>)"
  by (simp add: patch_check_def demo_patch_def validate_document_update_def demo_gate no_values_def)
     (simp add: demo_doc_def)

lemma demo_first_patch:
  assumes "title_ok t" and "text_storable t"
  shows "is_ok (fst (update_document (str_uuid 7) (demo_patch 10 t) 1 n demo_db))"
proof -
  have act: "owned_active_stmt 7 1 demo_db = [demo_doc]" by (simp add: demo_active)
  have row: "doc_row_ok demo_doc"
    using docs_wf_row [OF demo_db_wf] owned_active_mem(1) [OF act] by blast
  have "values_storable (no_values\<lparr>dv_title := Some t\<rparr>)" using assms(2) by (simp add: values_storable_def no_values_def)
  note patch_write_one [OF act this]
  moreover have "doc_row_ok (apply_values (no_values\<lparr>dv_title := Some t\<rparr>) n demo_doc)"
    by (rule apply_values_ok [OF _ row]) (simp add: values_ok_def no_values_def assms(1))
  ultimately show ?thesis
    by (auto simp: update_document_def demo_check assms dest: doc_to_response_ok)
qed

section \<open>Properties\<close>



text \<open>
  No existence oracle. For a path id that is not a UUID, names nothing, names another
  tenant's document or a soft-deleted one, GET, DELETE, the export and every well-formed PATCH
  answer with the same 404, and nothing is written.
\<close>

theorem documents_no_oracle:
  assumes "\<forall>i. parse_uuid raw = Some i \<longrightarrow> owned_active_stmt i u d = []"
  shows "get_document raw u d = Inl doc_not_found \<and>
    export_document_docx ext raw u d = Inl doc_not_found \<and>
    delete_document raw u now d = (Inl doc_not_found, d) \<and>
    (is_ok (patch_check raw' p u' d') \<longrightarrow> update_document raw p u now d = (Inl doc_not_found, d))"
proof -
  have gate: "require_owned_document raw u d = Inl doc_not_found"
    by (rule doc_gate.refused) (use assms in simp)
  have "delete_document raw u now d = (Inl doc_not_found, d)"
    using assms by (simp add: delete_document_def doc_delete_stmt_def owned_active_stmt_def split: option.split)
  moreover have "update_document raw p u now d = (Inl doc_not_found, d)" if "is_ok (patch_check raw' p u' d')"
    using that by (auto simp: update_document_def patch_check_def gate split: if_splits option.splits sum.splits)
  ultimately show ?thesis by (simp add: get_document_def export_document_docx_def gate)
qed

theorem documents_no_oracle_witness:
  "get_document (str_uuid 7) 2 demo_db = Inl doc_not_found \<and>
   export_document_docx demo_ext (str_uuid 7) 2 demo_db = Inl doc_not_found \<and>
   delete_document (str_uuid 7) 2 20 demo_db = (Inl doc_not_found, demo_db) \<and>
   update_document (str_uuid 7) (demo_patch 10 ''x'') 2 20 demo_db = (Inl doc_not_found, demo_db)"
proof -
  have none: "\<forall>i. parse_uuid (str_uuid 7) = Some i \<longrightarrow> owned_active_stmt i 2 demo_db = []"
    by (simp add: demo_active)
  have ok: "is_ok (patch_check (str_uuid 7) (demo_patch 10 ''x'') 1 demo_db)"
    by (simp add: demo_check title_ok_def)
  show ?thesis
    using documents_no_oracle [OF none, of demo_ext 20 "str_uuid 7" "demo_patch 10 ''x''" 1 demo_db] ok
    by blast
qed

text \<open>
  C10: optimistic concurrency between complete requests. After a PATCH succeeded at time
  \<open>now\<close>, the stored \<open>updated_at\<close> is \<open>now\<close>, so any valid PATCH whose base is another
  timestamp (in particular the base the first one used) is a 409 and writes nothing, while
  the base the first response carries is accepted.
\<close>

theorem patch_then_patch:
  assumes wf: "docs_wf d"
    and first: "update_document raw p u now d = (Inr resp, d')"
    and valid: "is_ok (patch_check raw q u d0)"
  shows "dr_updated_at resp = now \<and>
    update_document raw q u now' d' =
      (if du_base_updated_at q \<noteq> now
       then (Inl (HTTPException 409 ''Document was modified since base_updated_at; reload and retry.''), d')
       else patch_write (dr_document_id resp) (snd (projr (patch_check raw q u d'))) u now' d') \<and>
    is_ok (patch_check raw q u d') = (du_base_updated_at q = now)"
proof -
  from first obtain i v where chk: "patch_check raw p u d = Inr (i, v)"
    and wr: "patch_write i v u now d = (Inr resp, d')"
    by (auto simp: update_document_def split: sum.splits prod.splits)
  from patch_check_ok(2) [OF chk] obtain r where gate: "require_owned_document raw u d = Inr r"
    and i: "i = doc_document_id r" by blast
  note act = gate_Inr(2) [OF gate]
  let ?r' = "apply_values v now r"
  have storable: "values_storable v" using wr by (auto simp: patch_write_def doc_update_stmt_def split: if_splits)
  note written = patch_write_one [OF act [folded i] storable, of now]
  have rows: "fst (doc_update_stmt i u v now d) = Inr [?r']" by (rule doc_update_stmt_one [OF act [folded i] storable])
  have resp: "doc_to_response ?r' = Inr resp" and d': "d' = snd (doc_update_stmt i u v now d)"
    using wr by (simp_all add: written)
  have upd: "dr_updated_at resp = now \<and> dr_document_id resp = i"
    using resp i by (auto simp: doc_to_response_def split: sum.splits)
  have "owned_active_stmt i u d' = [?r']"
    using rows d' storable by (simp add: doc_update_stmt_def Let_def owned_active_stmt_def select_where_update)
  then have gate': "require_owned_document raw u d' = Inr ?r'"
    using gate_Inr(1) [OF gate] i by (simp add: require_owned_document_def)
  show ?thesis using valid upd i
    by (auto simp: update_document_def patch_check_def gate' split: if_splits option.splits sum.splits)
qed

theorem patch_then_patch_witness:
  "update_document (str_uuid 7) (demo_patch 10 ''B'') 1 30
     (snd (update_document (str_uuid 7) (demo_patch 10 ''A'') 1 20 demo_db)) =
   (Inl (HTTPException 409 ''Document was modified since base_updated_at; reload and retry.''),
    snd (update_document (str_uuid 7) (demo_patch 10 ''A'') 1 20 demo_db))"
proof -
  let ?h = "update_document (str_uuid 7) (demo_patch 10 ''A'') 1 20 demo_db"
  have "is_ok (fst ?h)" by (rule demo_first_patch) (simp_all add: title_ok_def text_storable_def)
  then have "fst ?h = Inr (projr (fst ?h))" by (cases "fst ?h") simp_all
  then have first: "?h = (Inr (projr (fst ?h)), snd ?h)" by (metis prod.collapse)
  have valid: "is_ok (patch_check (str_uuid 7) (demo_patch 10 ''B'') 1 demo_db)"
    by (simp add: demo_check title_ok_def)
  show ?thesis
    using patch_then_patch [OF demo_db_wf first valid, of 30] by (simp add: demo_patch_def)
qed

text \<open>
  C11: the concurrency check and the write are two statements, and the UPDATE does not repeat the
  \<open>updated_at\<close> predicate: two storable PATCHes from the same base whose checks both run before either
  write are both answered 200, and the later write replaces the earlier one's body (a lost
  update the sequential 409 does not prevent).
\<close>

theorem patch_interleaving_loses_update:
  assumes wf: "docs_wf d"
    and a: "patch_check raw p u d = Inr (i, v)"
    and b: "patch_check raw q u d = Inr (j, w)"
    and body: "du_content q = Some c" and storable: "patch_storable p" "patch_storable q"
  shows "is_ok (fst (patch_write i v u n1 d)) \<and>
    is_ok (fst (patch_write j w u n2 (snd (patch_write i v u n1 d)))) \<and>
    map doc_content (owned_active_stmt i u (snd (patch_write j w u n2 (snd (patch_write i v u n1 d))))) = [c]"
proof -
  from patch_check_ok(2) [OF a] obtain r where r: "require_owned_document raw u d = Inr r" "i = doc_document_id r"
    by blast
  from patch_check_ok(2) [OF b] r have j: "j = i" by simp
  note act = gate_Inr(2) [OF r(1), folded r(2)]
  let ?d1 = "snd (doc_update_stmt i u v n1 d)" and ?r1 = "apply_values v n1 r"
  let ?r2 = "apply_values w n2 ?r1"
  have row: "doc_row_ok r" by (rule docs_wf_row [OF wf owned_active_mem(1) [OF act]])
  have ok1: "doc_row_ok ?r1" by (rule apply_values_ok [OF patch_check_ok(1) [OF a] row])
  have ok2: "doc_row_ok ?r2" by (rule apply_values_ok [OF patch_check_ok(1) [OF b] ok1])
  have wf1: "docs_wf ?d1" by (rule docs_wf_update_stmt [OF wf patch_check_ok(1) [OF a]])
  have sto: "values_storable v" "values_storable w"
    using patch_check_storable [OF a] patch_check_storable [OF b] storable by simp_all
  have upd: "owned_active_stmt i u (snd (doc_update_stmt i u v' n d')) =
             map (apply_values v' n) (owned_active_stmt i u d')" if "values_storable v'" for v' n d'
    using that by (simp add: doc_update_stmt_def Let_def owned_active_stmt_def select_where_update)
  have act1: "owned_active_stmt i u ?d1 = [?r1]" using upd [OF sto(1)] act by simp
  note w1 = patch_write_one [OF act sto(1), of n1] and w2 = patch_write_one [OF act1 sto(2), of n2]
  have "dv_content w = Some c" using b body by (auto simp: patch_check_def split: if_splits option.splits sum.splits)
  then show ?thesis
    using doc_to_response_ok [OF ok1] doc_to_response_ok [OF ok2] by (auto simp: w1 w2 j upd [OF sto(1)] upd [OF sto(2)] act)
qed

definition demo_body_patch :: document_update where
  "demo_body_patch = (demo_patch 10 ''B'')\<lparr>du_content := Some demo_body\<rparr>"

theorem patch_interleaving_loses_update_witness:
  "\<exists>v w. is_ok (fst (patch_write 7 v 1 20 demo_db)) \<and>
    is_ok (fst (patch_write 7 w 1 30 (snd (patch_write 7 v 1 20 demo_db)))) \<and>
    map doc_content (owned_active_stmt 7 1 (snd (patch_write 7 w 1 30 (snd (patch_write 7 v 1 20 demo_db))))) = [demo_body]"
proof -
  have cap: "require_content_within_cap demo_body = Inr ()"
    by (simp add: require_content_within_cap_def demo_body_size)
  have a: "patch_check (str_uuid 7) (demo_patch 10 ''A'') 1 demo_db = Inr (7, no_values\<lparr>dv_title := Some ''A''\<rparr>)"
    by (simp add: demo_check title_ok_def)
  have b: "patch_check (str_uuid 7) demo_body_patch 1 demo_db =
    Inr (7, no_values\<lparr>dv_title := Some ''B'', dv_content := Some demo_body,
      dv_content_text := Some (derive_content_text demo_body)\<rparr>)"
    by (simp add: patch_check_def demo_body_patch_def demo_patch_def validate_document_update_def demo_gate
        no_values_def title_ok_def cap) (simp add: demo_doc_def demo_body_def)
  show ?thesis
    by (intro exI, rule patch_interleaving_loses_update [OF demo_db_wf a b])
       (use demo_body_storable in \<open>simp_all add: demo_body_patch_def demo_patch_def patch_storable_def text_storable_def\<close>)
qed

text \<open>
  The scope clamp. What is stored is the request in its own order, duplicates dropped,
  restricted to the caller's library (books) and her own collections: a foreign or unknown id
  never survives and an owned one always does.
\<close>

theorem scope_clamp:
  "clamp_scope_book_ids ids u d =
     map str_uuid (filter (\<lambda>b. \<exists>e \<in> set (user_library d). ul_user_id e = u \<and> ul_book_id e = b) (fromkeys ids)) \<and>
   clamp_scope_collection_ids cids u d =
     map str_uuid (filter (\<lambda>c. \<exists>e \<in> set (collections d). co_user_id e = u \<and> co_collection_id e = c) (fromkeys cids)) \<and>
   distinct (clamp_scope_book_ids ids u d) \<and> distinct (clamp_scope_collection_ids cids u d)"
proof -
  have b: "clamp_scope_book_ids ids u d =
     map str_uuid (filter (\<lambda>b. \<exists>e \<in> set (user_library d). ul_user_id e = u \<and> ul_book_id e = b) (fromkeys ids))"
    by (auto simp: clamp_scope_book_ids_def Let_def owned_book_ids_stmt_def intro!: arg_cong [of _ _ "map str_uuid"] filter_cong)
  have c: "clamp_scope_collection_ids cids u d =
     map str_uuid (filter (\<lambda>c. \<exists>e \<in> set (collections d). co_user_id e = u \<and> co_collection_id e = c) (fromkeys cids))"
    by (auto simp: clamp_scope_collection_ids_def Let_def owned_collection_ids_stmt_def intro!: arg_cong [of _ _ "map str_uuid"] filter_cong)
  have inj: "inj_on str_uuid A" for A by (simp add: inj_on_def)
  show ?thesis unfolding b c by (simp add: distinct_map inj)
qed

text \<open>
  Soft delete is undone exactly by restore. Deleting an active document of the caller
  succeeds, makes it a 404 for GET and for a second DELETE, and a restore answers the original
  document and gives back the original database; restoring an active document changes nothing.
\<close>

theorem delete_restore_roundtrip:
  assumes wf: "docs_wf d" and gate: "require_owned_document raw u d = Inr r"
  shows "\<exists>d'. delete_document raw u now d = (Inr (), d') \<and>
    get_document raw u d' = Inl doc_not_found \<and>
    delete_document raw u now' d' = (Inl doc_not_found, d') \<and>
    restore_document raw u d' = (doc_to_response r, d) \<and>
    restore_document raw u d = (doc_to_response r, d)"
proof -
  note raw = gate_Inr(1) [OF gate] and act = gate_Inr(2) [OF gate]
  let ?i = "doc_document_id r"
  let ?p = "\<lambda>x. doc_document_id x = ?i \<and> doc_user_id x = u \<and> doc_deleted_at x = None"
  let ?q = "\<lambda>x. doc_document_id x = ?i \<and> doc_user_id x = u"
  let ?del = "update_where ?p (\<lambda>x. x\<lparr>doc_deleted_at := Some now\<rparr>)"
  define d' where "d' = d\<lparr>documents := ?del (documents d)\<rparr>"
  have r: "r \<in> set (documents d)" "doc_user_id r = u" "doc_deleted_at r = None"
    using owned_active_mem [OF act] by auto
  have uniq: "x = r" if "x \<in> set (documents d)" "doc_document_id x = ?i" for x
    using docs_wf_distinct [OF wf] that r(1) by (auto simp: distinct_map inj_on_def)
  have none: "owned_active_stmt ?i u d' = []"
    by (simp add: d'_def owned_active_stmt_def select_where_update_none)
  have only: "filter ?q (documents d) = [r]"
    using distinct_key_lookup [OF docs_wf_distinct [OF wf] r(1), of "\<lambda>x. doc_user_id x = u"] r(2) by simp
  have any: "owned_any_stmt ?i u d = [r]" using only by (simp add: owned_any_stmt_def select_where_def)
  have sel: "filter ?q (?del xs) = map (\<lambda>x. if ?p x then x\<lparr>doc_deleted_at := Some now\<rparr> else x) (filter ?q xs)" for xs
    by (induction xs) (auto simp: update_where_def)
  have "filter ?q (?del (documents d)) = [r\<lparr>doc_deleted_at := Some now\<rparr>]"
    unfolding sel only using r(2,3) by simp
  then have any': "owned_any_stmt ?i u d' = [r\<lparr>doc_deleted_at := Some now\<rparr>]"
    by (simp add: owned_any_stmt_def select_where_def d'_def)
  have undo: "update_where ?q (\<lambda>x. x\<lparr>doc_deleted_at := None\<rparr>) (?del (documents d)) = documents d"
    unfolding update_where_def map_map by (rule map_idI) (use r(3) in \<open>auto dest!: uniq\<close>)
  have del: "delete_document raw u now d = (Inr (), d')"
    using act by (simp add: delete_document_def raw doc_delete_stmt_def Let_def owned_active_stmt_def d'_def)
  have "get_document raw u d' = Inl doc_not_found" "delete_document raw u now' d' = (Inl doc_not_found, d')"
    using none by (simp_all add: get_document_def require_owned_document_def raw delete_document_def
        doc_delete_stmt_def Let_def owned_active_stmt_def)
  moreover have "doc_to_response (r\<lparr>doc_deleted_at := None\<rparr>) = doc_to_response r"
    by (simp add: doc_to_response_def cong: sum.case_cong)
  then have "restore_document raw u d' = (doc_to_response r, d)"
    using undo by (simp add: restore_document_def raw any') (simp add: d'_def)
  moreover have "restore_document raw u d = (doc_to_response r, d)"
    using r(3) by (simp add: restore_document_def raw any)
  ultimately show ?thesis using del by blast
qed

theorem delete_restore_roundtrip_witness:
  "\<exists>d'. delete_document (str_uuid 7) 1 20 demo_db = (Inr (), d') \<and>
    get_document (str_uuid 7) 1 d' = Inl doc_not_found \<and>
    delete_document (str_uuid 7) 1 21 d' = (Inl doc_not_found, d') \<and>
    restore_document (str_uuid 7) 1 d' = (doc_to_response demo_doc, demo_db) \<and>
    restore_document (str_uuid 7) 1 demo_db = (doc_to_response demo_doc, demo_db)"
  by (rule delete_restore_roundtrip [OF demo_db_wf demo_gate])

text \<open>
  The streaming size cap. Read in chunks of 1 MiB with the running total checked after each,
  the body is accepted exactly when it fits and is then returned byte for byte; otherwise 413.
\<close>

theorem upload_cap:
  "read_capped_upload max_bytes body =
     (if length body \<le> max_bytes then Inr body else Inl (upload_too_large max_bytes))"
  by (rule read_capped_upload_eq)

text \<open>
  C2: the import is snapshot-first and all-or-nothing, and never leaves the staged upload
  behind. A successful import has appended exactly one revision, holding the content and
  projection the caller's document had before, tagged \<open>import\<close> and owned by the caller, and the
  document now holds the converted body with a re-derived projection; a failed one has changed
  no row. In both cases the upload directory is as it was.
\<close>

theorem import_snapshot_first:
  assumes wf: "docs_wf d" and conv: "converters_ok ext" and new: "subdir \<notin> set fs"
    and run: "import_document_docx ext raw body u subdir rev_id now (fs, d) = (out, fs', d')"
  shows "fs' = fs \<and>
    (case out of
       Inl e \<Rightarrow> d' = d \<and> expected_error e
     | Inr resp \<Rightarrow>
         (\<exists>r c. require_owned_document raw u d = Inr r \<and> convert_from_docx ext body = Inr c \<and>
            length body \<le> MAX_CONTENT_BYTES \<and>
            sermon_doc_revisions d' = sermon_doc_revisions d @
              [\<lparr>rev_revision_id = rev_id, rev_document_id = doc_document_id r, rev_user_id = u,
                rev_content = doc_content r, rev_content_text = doc_content_text r,
                rev_schema_version = doc_schema_version r, rev_source = ''import'', rev_created_at = now\<rparr>] \<and>
            map doc_content (owned_active_stmt (doc_document_id r) u d') = [c] \<and>
            dr_content resp = c \<and> dr_content_text resp = derive_content_text c))"
proof -
  have clean: "filter (\<lambda>s. s \<noteq> subdir) (subdir # fs) = fs" using new by (auto simp: filter_id_conv)
  consider (edge) e where "out = Inl e" "fs' = fs" "d' = d" "expected_error e"
    | (body) "length body \<le> MAX_CONTENT_BYTES" "fs' = fs"
        "d' = snd (import_body ext raw body u rev_id now d)"
        "out = (case fst (import_body ext raw body u rev_id now d) of Inl e \<Rightarrow> Inl e | Inr row \<Rightarrow> doc_to_response row)"
    using run new clean sniff_error [of ext body]
    by (cases "sniff_docx ext body")
       (auto simp: import_document_docx_def read_capped_upload_eq case_prod_beta Let_def split: if_splits)
  then show ?thesis
  proof cases
    case edge
    then show ?thesis by simp
  next
    case body
    show ?thesis
    proof (cases rule: import_body_cases [OF wf conv, of raw body u rev_id now])
      case (1 e)
      with body show ?thesis by simp
    next
      case (2 r c)
      note act = gate_Inr(2) [OF 2(1)]
      note snap = snapshot_and_overwrite_good [OF wf act 2(3,4)]
      let ?row = "apply_values (content_values c) now r"
      obtain resp where resp: "doc_to_response ?row = Inr resp" using doc_to_response_ok [OF snap(3)] by blast
      have d': "d' = snd (doc_update_stmt (doc_document_id r) u (content_values c) now
                  (revision_insert_stmt r u ''import'' rev_id now d))"
        using body(3) 2(5) snap(1) by simp
      have new: "owned_active_stmt (doc_document_id r) u d' = [?row]"
        using act 2(4) unfolding d'
        by (simp add: doc_update_stmt_def Let_def owned_active_stmt_def revision_insert_stmt_def select_where_update)
      have vals: "dr_content resp = c \<and> dr_content_text resp = derive_content_text c"
        using resp by (auto simp: doc_to_response_def content_values_def split: sum.splits)
      have revs: "sermon_doc_revisions d' = sermon_doc_revisions (revision_insert_stmt r u ''import'' rev_id now d)"
        unfolding d' by (simp add: doc_update_stmt_def Let_def)
      show ?thesis using body 2 snap(1) resp new vals revs
        by (auto simp: content_values_def revision_insert_stmt_def)
    qed
  qed
qed

theorem import_snapshot_first_witness:
  "fst (snd (import_document_docx demo_ext (str_uuid 7) ''PK'' 1 5 6 30 ([], demo_db))) = [] \<and>
   (case fst (import_document_docx demo_ext (str_uuid 7) ''PK'' 1 5 6 30 ([], demo_db)) of
      Inl e \<Rightarrow> False | Inr resp \<Rightarrow> dr_content resp = demo_body)"
proof -
  let ?h = "import_document_docx demo_ext (str_uuid 7) ''PK'' 1 5 6 30 ([], demo_db)"
  have act: "owned_active_stmt (doc_document_id demo_doc) 1 demo_db = [demo_doc]"
    by (simp add: demo_active) (simp add: demo_doc_def)
  have cap: "content_byte_size demo_body \<le> MAX_CONTENT_BYTES" using demo_body_size by simp
  have snap: "fst (snapshot_and_overwrite demo_doc demo_body ''import'' 1 6 30 demo_db) =
     Inr (apply_values (content_values demo_body) 30 demo_doc)"
    by (simp add: snapshot_and_overwrite_good(1) [OF demo_db_wf act cap demo_body_storable])
  obtain resp where "doc_to_response (apply_values (content_values demo_body) 30 demo_doc) = Inr resp"
    using doc_to_response_ok [OF snapshot_and_overwrite_good(3) [OF demo_db_wf act cap demo_body_storable]] by blast
  then have ok: "is_ok (doc_to_response (apply_values (content_values demo_body) 30 demo_doc))" by simp
  have "is_ok (fst ?h)"
    using ok snap demo_body_size
    by (simp add: import_document_docx_def read_capped_upload_eq MAX_CONTENT_BYTES_def sniff_docx_def Let_def
        demo_ext_def startswith_def DOCX_SNIFF_BYTES_def import_body_def demo_gate
        require_content_within_cap_def case_prod_beta)
  moreover have "?h = (fst ?h, fst (snd ?h), snd (snd ?h))" by simp
  note import_snapshot_first [OF demo_db_wf demo_ext_ok _ this]
  ultimately show ?thesis by (cases "fst ?h") (auto simp: demo_ext_def)
qed

end
