(* ===== verification/Collections.thy ===== *)
theory Collections
  imports Tenancy
begin

text \<open>
  \<open>api/collections_routes.py\<close>: named groups of library books. Membership carries the owner
  column a second time (the denormalised tenant gate), additions are clamped to the caller's
  library and idempotent (ON CONFLICT DO NOTHING), deleting a collection cascades to its
  membership rows. The three-state PATCH fields are \<open>option option\<close>: absent, null, a value.
\<close>

section \<open>Requests and responses\<close>

definition NAME_MAX_LENGTH :: nat where "NAME_MAX_LENGTH = 255"
definition DESCRIPTION_MAX_LENGTH :: nat where "DESCRIPTION_MAX_LENGTH = 2000"
definition BOOK_IDS_CAP :: nat where "BOOK_IDS_CAP = 10000"

definition unprocessable_entity :: py_exn where
  "unprocessable_entity = HTTPException 422 ''Unprocessable Entity''"

record collection_create =
  cc_name :: string
  cc_description :: "string option"
  cc_extra :: "string list"

record collection_update =
  cu_name :: "string option option"
  cu_description :: "string option option"
  cu_extra :: "string list"

record collection_books_request =
  cbr_book_ids :: "uuid list"
  cbr_extra :: "string list"

record collection_response =
  cr_collection_id :: uuid
  cr_name :: string
  cr_description :: "string option"
  cr_created_at :: timestamp
  cr_book_ids :: "uuid list"

definition coll_name_ok :: "string \<Rightarrow> bool" where
  "coll_name_ok s \<longleftrightarrow> 1 \<le> length s \<and> length s \<le> NAME_MAX_LENGTH"

definition coll_description_ok :: "string option \<Rightarrow> bool" where
  "coll_description_ok s \<longleftrightarrow> (case s of None \<Rightarrow> True | Some t \<Rightarrow> length t \<le> DESCRIPTION_MAX_LENGTH)"

definition validate_collection_create :: "collection_create \<Rightarrow> bool" where
  "validate_collection_create p \<longleftrightarrow>
     cc_extra p = [] \<and> coll_name_ok (cc_name p) \<and> coll_description_ok (cc_description p)"

definition validate_collection_update :: "collection_update \<Rightarrow> bool" where
  "validate_collection_update p \<longleftrightarrow> cu_extra p = [] \<and>
     (case cu_name p of Some (Some n) \<Rightarrow> coll_name_ok n | _ \<Rightarrow> True) \<and>
     (case cu_description p of Some s \<Rightarrow> coll_description_ok s | None \<Rightarrow> True)"

definition validate_books_request :: "collection_books_request \<Rightarrow> bool" where
  "validate_books_request p \<longleftrightarrow> cbr_extra p = [] \<and>
     1 \<le> length (cbr_book_ids p) \<and> length (cbr_book_ids p) \<le> BOOK_IDS_CAP"

section \<open>Statements\<close>

definition coll_list_stmt :: "uuid \<Rightarrow> db \<Rightarrow> collection list" where
  "coll_list_stmt u d =
     sort_key (\<lambda>r. - co_created_at r) (select_where (\<lambda>r. co_user_id r = u) (collections d))"

definition owned_collection_stmt :: "uuid \<Rightarrow> uuid \<Rightarrow> db \<Rightarrow> collection list" where
  "owned_collection_stmt i u d =
     select_where (\<lambda>r. co_collection_id r = i \<and> co_user_id r = u) (collections d)"

definition owned_collections_in_stmt :: "uuid list \<Rightarrow> uuid \<Rightarrow> db \<Rightarrow> uuid list" where
  "owned_collections_in_stmt ids u d = map co_collection_id
     (select_where (\<lambda>r. co_collection_id r \<in> set ids \<and> co_user_id r = u) (collections d))"

definition member_book_ids_stmt :: "uuid list \<Rightarrow> uuid \<Rightarrow> db \<Rightarrow> uuid list" where
  "member_book_ids_stmt ids u d = map cb_book_id
     (select_where (\<lambda>m. cb_collection_id m \<in> set ids \<and> cb_user_id m = u) (collection_books d))"

definition memberships_stmt :: "uuid \<Rightarrow> db \<Rightarrow> (uuid \<times> uuid) list" where
  "memberships_stmt u d = map (\<lambda>m. (cb_collection_id m, cb_book_id m))
     (select_where (\<lambda>m. cb_user_id m = u) (collection_books d))"

definition library_subset_stmt :: "uuid list \<Rightarrow> uuid \<Rightarrow> db \<Rightarrow> uuid list" where
  "library_subset_stmt ids u d = map ul_book_id
     (select_where (\<lambda>e. ul_book_id e \<in> set ids \<and> ul_user_id e = u) (user_library d))"

text \<open>\<open>fresh\<close> supplies the random row id of each inserted book.\<close>

definition insert_member :: "uuid \<Rightarrow> uuid \<Rightarrow> (uuid \<Rightarrow> uuid) \<Rightarrow> timestamp \<Rightarrow>
    uuid \<Rightarrow> collection_book list \<Rightarrow> collection_book list" where
  "insert_member i u fresh now b t =
     (if \<exists>m \<in> set t. cb_collection_id m = i \<and> cb_book_id m = b then t
      else t @ [\<lparr>cb_collection_book_id = fresh b, cb_collection_id = i, cb_book_id = b,
                 cb_user_id = u, cb_added_at = now\<rparr>])"

definition add_books_stmt :: "uuid \<Rightarrow> uuid \<Rightarrow> uuid list \<Rightarrow> (uuid \<Rightarrow> uuid) \<Rightarrow> timestamp \<Rightarrow> db \<Rightarrow> db" where
  "add_books_stmt i u books fresh now d =
     d\<lparr>collection_books := fold (insert_member i u fresh now) books (collection_books d)\<rparr>"

definition remove_books_stmt :: "uuid \<Rightarrow> uuid \<Rightarrow> uuid list \<Rightarrow> db \<Rightarrow> db" where
  "remove_books_stmt i u books d =
     d\<lparr>collection_books := delete_where
        (\<lambda>m. cb_collection_id m = i \<and> cb_user_id m = u \<and> cb_book_id m \<in> set books) (collection_books d)\<rparr>"

definition coll_update_stmt :: "uuid \<Rightarrow> uuid \<Rightarrow> string option option \<Rightarrow> string option option \<Rightarrow>
    db \<Rightarrow> collection list \<times> db" where
  "coll_update_stmt i u name description d =
     (let p = (\<lambda>r. co_collection_id r = i \<and> co_user_id r = u);
          f = (\<lambda>r. r\<lparr>co_name := (case name of Some (Some n) \<Rightarrow> n | _ \<Rightarrow> co_name r),
                     co_description := (case description of Some s \<Rightarrow> s | None \<Rightarrow> co_description r)\<rparr>)
      in (map f (select_where p (collections d)),
          d\<lparr>collections := update_where p f (collections d)\<rparr>))"

text \<open>The DELETE with the foreign key's ON DELETE CASCADE.\<close>

definition coll_delete_stmt :: "uuid \<Rightarrow> uuid \<Rightarrow> db \<Rightarrow> uuid list \<times> db" where
  "coll_delete_stmt i u d =
     (let p = (\<lambda>r. co_collection_id r = i \<and> co_user_id r = u);
          gone = map co_collection_id (select_where p (collections d))
      in (gone, d\<lparr>collections := delete_where p (collections d),
                  collection_books := delete_where (\<lambda>m. cb_collection_id m \<in> set gone) (collection_books d)\<rparr>))"

section \<open>Handlers\<close>

definition collection_not_found :: py_exn where
  "collection_not_found = HTTPException 404 ''Collection not found.''"

definition coll_to_response :: "collection \<Rightarrow> uuid list \<Rightarrow> collection_response" where
  "coll_to_response c books = \<lparr>cr_collection_id = co_collection_id c, cr_name = co_name c,
     cr_description = co_description c, cr_created_at = co_created_at c, cr_book_ids = books\<rparr>"

definition require_owned_collection :: "string \<Rightarrow> uuid \<Rightarrow> db \<Rightarrow> collection result" where
  "require_owned_collection raw u d =
     (case parse_uuid raw of
        None \<Rightarrow> Inl collection_not_found
      | Some i \<Rightarrow>
          (case scalar_one_or_none (owned_collection_stmt i u d) of
             Inl e \<Rightarrow> Inl e
           | Inr None \<Rightarrow> Inl collection_not_found
           | Inr (Some c) \<Rightarrow> Inr c))"

definition collection_book_ids :: "uuid \<Rightarrow> uuid \<Rightarrow> db \<Rightarrow> uuid list" where
  "collection_book_ids i u d = member_book_ids_stmt [i] u d"

definition create_collection ::
  "collection_create \<Rightarrow> uuid \<Rightarrow> timestamp \<Rightarrow> uuid \<Rightarrow> db \<Rightarrow> collection_response result \<times> db" where
  "create_collection p u now new_id d =
     (if \<not> validate_collection_create p then (Inl unprocessable_entity, d)
      else let c = \<lparr>co_collection_id = new_id, co_user_id = u, co_name = cc_name p,
                    co_description = cc_description p, co_created_at = now\<rparr>
           in (Inr (coll_to_response c []), d\<lparr>collections := collections d @ [c]\<rparr>))"

text \<open>\<open>by_collection.setdefault(collection_id, []).append(book_id)\<close> over the membership scan.\<close>

definition group_memberships :: "(uuid \<times> uuid) list \<Rightarrow> uuid \<Rightarrow> uuid list option" where
  "group_memberships ms = foldl (\<lambda>by (c, b).
     by(c \<mapsto> (case by c of None \<Rightarrow> [] | Some bs \<Rightarrow> bs) @ [b])) Map.empty ms"

definition list_collections :: "uuid \<Rightarrow> db \<Rightarrow> collection_response list" where
  "list_collections u d =
     (let by = group_memberships (memberships_stmt u d)
      in map (\<lambda>c. coll_to_response c (case by (co_collection_id c) of None \<Rightarrow> [] | Some bs \<Rightarrow> bs))
           (coll_list_stmt u d))"

definition get_collection :: "string \<Rightarrow> uuid \<Rightarrow> db \<Rightarrow> collection_response result" where
  "get_collection raw u d =
     (case require_owned_collection raw u d of
        Inl e \<Rightarrow> Inl e
      | Inr c \<Rightarrow> Inr (coll_to_response c (collection_book_ids (co_collection_id c) u d)))"

definition update_collection ::
  "string \<Rightarrow> collection_update \<Rightarrow> uuid \<Rightarrow> db \<Rightarrow> collection_response result \<times> db" where
  "update_collection raw p u d =
     (if \<not> validate_collection_update p then (Inl unprocessable_entity, d)
      else if cu_name p = None \<and> cu_description p = None
      then (Inl (HTTPException 422 ''PATCH must set at least one of name, description.''), d)
      else if cu_name p = Some None
      then (Inl (HTTPException 422 ''name must not be null.''), d)
      else case require_owned_collection raw u d of
        Inl e \<Rightarrow> (Inl e, d)
      | Inr c \<Rightarrow>
          let (rows, d') = coll_update_stmt (co_collection_id c) u (cu_name p) (cu_description p) d
          in case one_row rows of
               Inl e \<Rightarrow> (Inl e, d)
             | Inr r \<Rightarrow> (Inr (coll_to_response r (collection_book_ids (co_collection_id r) u d')), d'))"

definition delete_collection :: "string \<Rightarrow> uuid \<Rightarrow> db \<Rightarrow> unit result \<times> db" where
  "delete_collection raw u d =
     (case parse_uuid raw of
        None \<Rightarrow> (Inl collection_not_found, d)
      | Some i \<Rightarrow>
          let (ids, d') = coll_delete_stmt i u d
          in case scalar_one_or_none ids of
               Inl e \<Rightarrow> (Inl e, d)
             | Inr None \<Rightarrow> (Inl collection_not_found, d)
             | Inr (Some _) \<Rightarrow> (Inr (), d'))"

definition add_books :: "string \<Rightarrow> collection_books_request \<Rightarrow> uuid \<Rightarrow> (uuid \<Rightarrow> uuid) \<Rightarrow> timestamp \<Rightarrow>
    db \<Rightarrow> collection_response result \<times> db" where
  "add_books raw p u fresh now d =
     (if \<not> validate_books_request p then (Inl unprocessable_entity, d)
      else case require_owned_collection raw u d of
        Inl e \<Rightarrow> (Inl e, d)
      | Inr c \<Rightarrow>
          let clamped = fromkeys (library_subset_stmt (cbr_book_ids p) u d);
              d' = (if clamped \<noteq> [] then add_books_stmt (co_collection_id c) u clamped fresh now d else d)
          in (Inr (coll_to_response c (collection_book_ids (co_collection_id c) u d')), d'))"

definition remove_books ::
  "string \<Rightarrow> collection_books_request \<Rightarrow> uuid \<Rightarrow> db \<Rightarrow> collection_response result \<times> db" where
  "remove_books raw p u d =
     (if \<not> validate_books_request p then (Inl unprocessable_entity, d)
      else case require_owned_collection raw u d of
        Inl e \<Rightarrow> (Inl e, d)
      | Inr c \<Rightarrow>
          let d' = remove_books_stmt (co_collection_id c) u (cbr_book_ids p) d
          in (Inr (coll_to_response c (collection_book_ids (co_collection_id c) u d')), d'))"

datatype coll_op =
    CollCreate collection_create uuid
  | CollList
  | CollGet string
  | CollPatch string collection_update
  | CollDelete string
  | CollAdd string collection_books_request "uuid \<Rightarrow> uuid"
  | CollRemove string collection_books_request

datatype coll_out =
    CollOut "collection_response result"
  | CollAll "collection_response list"
  | CollUnit "unit result"

fun coll_step :: "uuid \<Rightarrow> timestamp \<times> coll_op \<Rightarrow> db \<Rightarrow> coll_out \<times> db" where
  "coll_step u (now, CollCreate p i) = (\<lambda>d. map_prod CollOut id (create_collection p u now i d))"
| "coll_step u (now, CollList) = (\<lambda>d. (CollAll (list_collections u d), d))"
| "coll_step u (now, CollGet raw) = (\<lambda>d. (CollOut (get_collection raw u d), d))"
| "coll_step u (now, CollPatch raw p) = (\<lambda>d. map_prod CollOut id (update_collection raw p u d))"
| "coll_step u (now, CollDelete raw) = (\<lambda>d. map_prod CollUnit id (delete_collection raw u d))"
| "coll_step u (now, CollAdd raw p fresh) = (\<lambda>d. map_prod CollOut id (add_books raw p u fresh now d))"
| "coll_step u (now, CollRemove raw p) = (\<lambda>d. map_prod CollOut id (remove_books raw p u d))"

section \<open>Invariant and tenant scoping\<close>

text \<open>
  Collection ids are a primary key, (collection, book) pairs are unique, and every membership
  row points at a collection of the owner it names.
\<close>

definition members_owned :: "db \<Rightarrow> bool" where
  "members_owned d \<longleftrightarrow> (\<forall>m \<in> set (collection_books d). \<forall>c \<in> set (collections d).
     co_collection_id c = cb_collection_id m \<longrightarrow> co_user_id c = cb_user_id m)"

definition coll_wf :: "db \<Rightarrow> bool" where
  "coll_wf d \<longleftrightarrow> distinct (map co_collection_id (collections d)) \<and>
     distinct (map (\<lambda>m. (cb_collection_id m, cb_book_id m)) (collection_books d)) \<and>
     (\<forall>m \<in> set (collection_books d). \<exists>c \<in> set (collections d).
        co_collection_id c = cb_collection_id m \<and> co_user_id c = cb_user_id m)"

lemma coll_wf_members_owned: "coll_wf d \<Longrightarrow> members_owned d"
  unfolding members_owned_def
proof (intro ballI impI)
  fix m c
  assume wf: "coll_wf d" and m: "m \<in> set (collection_books d)" and c: "c \<in> set (collections d)"
    and eq: "co_collection_id c = cb_collection_id m"
  from wf m obtain c' where c': "c' \<in> set (collections d)" "co_collection_id c' = cb_collection_id m"
    "co_user_id c' = cb_user_id m" by (auto simp: coll_wf_def)
  have "inj_on co_collection_id (set (collections d))" using wf by (simp add: coll_wf_def distinct_map)
  from inj_onD [OF this _ c c'(1)] eq c' show "co_user_id c = cb_user_id m" by simp
qed

lemma coll_stmts_tenant_view [tenant_simps]:
  "coll_list_stmt u (tenant_view u d) = coll_list_stmt u d"
  "owned_collection_stmt i u (tenant_view u d) = owned_collection_stmt i u d"
  "owned_collections_in_stmt ids u (tenant_view u d) = owned_collections_in_stmt ids u d"
  "member_book_ids_stmt ids u (tenant_view u d) = member_book_ids_stmt ids u d"
  "memberships_stmt u (tenant_view u d) = memberships_stmt u d"
  "library_subset_stmt ids u (tenant_view u d) = library_subset_stmt ids u d"
  "collection_book_ids i u (tenant_view u d) = collection_book_ids i u d"
  by (simp_all add: coll_list_stmt_def owned_collection_stmt_def owned_collections_in_stmt_def
      member_book_ids_stmt_def memberships_stmt_def library_subset_stmt_def collection_book_ids_def
      tenant_simps)

lemma require_owned_collection_tenant_view [tenant_simps]:
  "require_owned_collection raw u (tenant_view u d) = require_owned_collection raw u d"
  by (simp add: require_owned_collection_def tenant_simps cong: option.case_cong)

lemma owned_collection_mem:
  assumes "owned_collection_stmt i u d = [c]"
  shows "c \<in> set (collections d)" "co_collection_id c = i" "co_user_id c = u"
proof -
  have "c \<in> set (owned_collection_stmt i u d)" using assms by simp
  then show "c \<in> set (collections d)" "co_collection_id c = i" "co_user_id c = u"
    by (simp_all add: owned_collection_stmt_def)
qed

lemma coll_gate_Inr:
  assumes "require_owned_collection raw u d = Inr c"
  shows "parse_uuid raw = Some (co_collection_id c)"
    and "owned_collection_stmt (co_collection_id c) u d = [c]"
proof -
  obtain i where i: "parse_uuid raw = Some i" "owned_collection_stmt i u d = [c]"
    using assms by (auto simp: require_owned_collection_def scalar_Some_conv split: sum.splits option.splits)
  moreover from this(2) have "co_collection_id c = i" by (rule owned_collection_mem)
  ultimately show "parse_uuid raw = Some (co_collection_id c)"
    and "owned_collection_stmt (co_collection_id c) u d = [c]" by simp_all
qed

interpretation coll_gate: owned_gate require_owned_collection
  "\<lambda>i u d. owned_collection_stmt i u d \<noteq> []" co_collection_id collection_not_found
proof
  show "require_owned_collection raw u d = Inl collection_not_found" if "parse_uuid raw = None" for raw u d
    using that by (simp add: require_owned_collection_def)
  show "require_owned_collection raw u d = Inl collection_not_found"
    if "parse_uuid raw = Some i" "\<not> owned_collection_stmt i u d \<noteq> []" for raw i u d
    using that by (simp add: require_owned_collection_def)
  show "owned_collection_stmt i u d \<noteq> [] \<and> co_collection_id r = i"
    if "parse_uuid raw = Some i" "require_owned_collection raw u d = Inr r" for raw i u d r
    using coll_gate_Inr [OF that(2)] that(1) by simp
qed

lemma coll_gate_members:
  assumes "members_owned d" and "require_owned_collection raw u d = Inr c"
    and "m \<in> set (collection_books d)" and "cb_collection_id m = co_collection_id c"
  shows "cb_user_id m = u"
  using assms owned_collection_mem [OF coll_gate_Inr(2) [OF assms(2)]] by (auto simp: members_owned_def)

lemma insert_member_keys:
  "(\<exists>m \<in> set (insert_member i u fresh now b t). cb_collection_id m = j \<and> cb_book_id m = x) \<longleftrightarrow>
   (\<exists>m \<in> set t. cb_collection_id m = j \<and> cb_book_id m = x) \<or> (j = i \<and> x = b)"
  by (auto simp: insert_member_def)

lemma insert_member_owned:
  assumes "\<forall>m \<in> set t. cb_collection_id m = i \<longrightarrow> cb_user_id m = u"
  shows "owned_rows cb_user_id u (insert_member i u fresh now b t) =
         insert_member i u fresh now b (owned_rows cb_user_id u t)"
    and "\<forall>m \<in> set (insert_member i u fresh now b t). cb_collection_id m = i \<longrightarrow> cb_user_id m = u"
  using assms by (auto simp: insert_member_def owned_rows_append) (auto simp: owned_rows_def)

lemma fold_insert_member_owned:
  "\<forall>m \<in> set t. cb_collection_id m = i \<longrightarrow> cb_user_id m = u \<Longrightarrow>
   owned_rows cb_user_id u (fold (insert_member i u fresh now) bs t) =
   fold (insert_member i u fresh now) bs (owned_rows cb_user_id u t)"
proof (induction bs arbitrary: t)
  case (Cons b bs)
  then show ?case using insert_member_owned [OF Cons.prems, of fresh now b] by simp
qed simp

lemma fold_insert_member_other:
  "u \<noteq> w \<Longrightarrow> owned_rows cb_user_id w (fold (insert_member i u fresh now) bs t) = owned_rows cb_user_id w t"
  by (induction bs arbitrary: t) (auto simp: insert_member_def owned_rows_append owned_rows_none)

lemma collection_ids_owned [tenant_simps]:
  "collection_books (tenant_view u d) = owned_rows cb_user_id u (collection_books d)"
  by (rule collection_books_tenant_view)

lemma create_collection_scoped: "scoped_if P u (create_collection p u now i)"
  by (rule scopedI) (simp_all add: create_collection_def tenant_simps)

lemma update_collection_scoped: "scoped_if P u (update_collection raw p u)"
proof (rule scopedI)
  have stmt: "coll_update_stmt i u n s (tenant_view u d) = map_prod id (tenant_view u) (coll_update_stmt i u n s d)"
    for i n s d by (simp add: coll_update_stmt_def tenant_simps)
  have frame: "u \<noteq> w \<Longrightarrow> tenant_view w (snd (coll_update_stmt i u n s d)) = tenant_view w d"
    for i n s d w by (simp add: coll_update_stmt_def tenant_simps tenant_frame)
  show "update_collection raw p u (tenant_view u d) = map_prod id (tenant_view u) (update_collection raw p u d)" for d
    by (simp add: update_collection_def tenant_simps stmt split: sum.split)
  show "tenant_view w (snd (update_collection raw p u d)) = tenant_view w d" if "u \<noteq> w" for d w
    using that by (simp add: update_collection_def tenant_simps frame split: sum.split)
qed

lemma delete_collection_scoped: "scoped_if members_owned u (delete_collection raw u)"
proof (rule scoped_ifI)
  have stmt: "coll_delete_stmt i u (tenant_view u d) = map_prod id (tenant_view u) (coll_delete_stmt i u d)"
    for i d by (simp add: coll_delete_stmt_def tenant_simps delete_owned_any conj_ac)
  show "delete_collection raw u (tenant_view u d) = map_prod id (tenant_view u) (delete_collection raw u d)" for d
    by (simp add: delete_collection_def tenant_simps stmt split: sum.split option.split)
  show "tenant_view w (snd (delete_collection raw u d)) = tenant_view w d"
    if inv: "members_owned d" and "u \<noteq> w" for d w
  proof -
    have "tenant_view w (snd (coll_delete_stmt i u d)) = tenant_view w d" for i
    proof -
      let ?gone = "map co_collection_id (select_where (\<lambda>r. co_collection_id r = i \<and> co_user_id r = u) (collections d))"
      have cascade: "owned_rows cb_user_id w (delete_where (\<lambda>m. cb_collection_id m \<in> set ?gone) (collection_books d)) =
            owned_rows cb_user_id w (collection_books d)"
        using inv \<open>u \<noteq> w\<close> unfolding owned_rows_def delete_where_def filter_filter
        by (intro filter_cong) (auto simp: members_owned_def)
      have "owned_rows co_user_id w (delete_where (\<lambda>r. co_collection_id r = i \<and> co_user_id r = u) (collections d)) =
            owned_rows co_user_id w (collections d)"
        by (rule delete_other) (use \<open>u \<noteq> w\<close> in auto)
      with cascade show ?thesis by (simp add: coll_delete_stmt_def Let_def tenant_simps)
    qed
    then show ?thesis by (simp add: delete_collection_def case_prod_beta Let_def split: sum.split option.split)
  qed
qed

lemma add_books_stmt_view:
  assumes inv: "members_owned d" and gate: "require_owned_collection raw u d = Inr c"
  shows "add_books_stmt (co_collection_id c) u bs fresh now (tenant_view u d) =
         tenant_view u (add_books_stmt (co_collection_id c) u bs fresh now d)"
proof -
  have "\<forall>m \<in> set (collection_books d). cb_collection_id m = co_collection_id c \<longrightarrow> cb_user_id m = u"
    using coll_gate_members [OF inv gate] by simp
  from fold_insert_member_owned [OF this] show ?thesis by (simp add: add_books_stmt_def tenant_simps)
qed

lemma add_books_scoped: "scoped_if members_owned u (add_books raw p u fresh now)"
proof (rule scoped_ifI)
  show "add_books raw p u fresh now (tenant_view u d) = map_prod id (tenant_view u) (add_books raw p u fresh now d)"
    if "members_owned d" for d
    using add_books_stmt_view [OF that, of raw u]
    by (simp add: add_books_def tenant_simps split: sum.split)
  show "tenant_view w (snd (add_books raw p u fresh now d)) = tenant_view w d" if "u \<noteq> w" for d w
    using that
    by (simp add: add_books_def add_books_stmt_def tenant_simps fold_insert_member_other split: sum.split)
qed

lemma remove_books_scoped: "scoped_if P u (remove_books raw p u)"
proof (rule scopedI)
  have stmt: "remove_books_stmt i u bs (tenant_view u d) = tenant_view u (remove_books_stmt i u bs d)"
    for i bs d by (simp add: remove_books_stmt_def tenant_simps)
  show "remove_books raw p u (tenant_view u d) = map_prod id (tenant_view u) (remove_books raw p u d)" for d
    by (simp add: remove_books_def tenant_simps stmt split: sum.split)
  show "tenant_view w (snd (remove_books raw p u d)) = tenant_view w d" if "u \<noteq> w" for d w
    using that by (simp add: remove_books_def remove_books_stmt_def tenant_simps tenant_frame split: sum.split)
qed

lemma coll_step_scoped: "scoped_if members_owned u (coll_step u op)"
  by (cases "(u, op)" rule: coll_step.cases)
     (simp_all add: scoped_out scoped_read create_collection_scoped update_collection_scoped
      delete_collection_scoped add_books_scoped remove_books_scoped list_collections_def
      get_collection_def tenant_simps cong: sum.case_cong)

interpretation colls: tenant_step tenant_view coll_step "\<lambda>_. members_owned"
  by (rule scoped_step) (rule coll_step_scoped)

section \<open>The invariant is preserved\<close>

fun coll_fresh :: "coll_op \<Rightarrow> db \<Rightarrow> bool" where
  "coll_fresh (CollCreate p i) d = (i \<notin> co_collection_id ` set (collections d))"
| "coll_fresh _ d = True"

lemma owned_collection_at_most_one:
  "distinct (map co_collection_id (collections d)) \<Longrightarrow> length (owned_collection_stmt i u d) \<le> 1"
  unfolding owned_collection_stmt_def select_where_def by (rule distinct_key_select)

lemma insert_member_distinct:
  assumes "distinct (map (\<lambda>m. (cb_collection_id m, cb_book_id m)) t)"
  shows "distinct (map (\<lambda>m. (cb_collection_id m, cb_book_id m)) (insert_member i u fresh now b t))"
  using assms by (auto simp: insert_member_def)

lemma fold_insert_member_distinct:
  "distinct (map (\<lambda>m. (cb_collection_id m, cb_book_id m)) t) \<Longrightarrow>
   distinct (map (\<lambda>m. (cb_collection_id m, cb_book_id m)) (fold (insert_member i u fresh now) bs t))"
proof (induction bs arbitrary: t)
  case (Cons b bs)
  show ?case by (simp add: Cons.IH [OF insert_member_distinct [OF Cons.prems]])
qed simp

lemma fold_insert_member_set:
  "m \<in> set (fold (insert_member i u fresh now) bs t) \<Longrightarrow>
   m \<in> set t \<or> (cb_collection_id m = i \<and> cb_user_id m = u)"
proof (induction bs arbitrary: t)
  case (Cons b bs)
  then have "m \<in> set (insert_member i u fresh now b t) \<or> (cb_collection_id m = i \<and> cb_user_id m = u)"
    by simp
  then show ?case by (auto simp: insert_member_def split: if_splits)
qed simp

lemma fold_insert_member_mem:
  "(\<exists>m \<in> set (fold (insert_member i u fresh now) bs t). cb_collection_id m = j \<and> cb_book_id m = b) \<longleftrightarrow>
   (\<exists>m \<in> set t. cb_collection_id m = j \<and> cb_book_id m = b) \<or> (j = i \<and> b \<in> set bs)"
proof (induction bs arbitrary: t)
  case (Cons x bs)
  show ?case using Cons.IH [of "insert_member i u fresh now x t"]
    by (auto simp: insert_member_keys)
qed simp

lemma coll_wf_gate:
  assumes "coll_wf d"
  shows "require_owned_collection raw u d = Inl collection_not_found \<or>
         (\<exists>c. require_owned_collection raw u d = Inr c)"
proof (cases "parse_uuid raw")
  case (Some i)
  then show ?thesis using owned_collection_at_most_one [of d i u] assms
    by (cases "owned_collection_stmt i u d" rule: scalar_one_or_none.cases)
       (auto simp: require_owned_collection_def coll_wf_def)
qed (simp add: require_owned_collection_def)

fun coll_out_ok :: "coll_out \<Rightarrow> bool" where
  "coll_out_ok (CollOut (Inl e)) = (status_of e \<in> {404, 422})"
| "coll_out_ok (CollUnit (Inl e)) = (status_of e \<in> {404, 422})"
| "coll_out_ok _ = True"

lemma create_collection_wf:
  "coll_wf d \<Longrightarrow> i \<notin> co_collection_id ` set (collections d) \<Longrightarrow>
   coll_wf (snd (create_collection p u now i d)) \<and> coll_out_ok (CollOut (fst (create_collection p u now i d)))"
  by (auto simp: create_collection_def coll_wf_def unprocessable_entity_def Let_def)

lemma coll_wf_update:
  assumes "coll_wf d" and "\<And>c. co_collection_id (f c) = co_collection_id c \<and> co_user_id (f c) = co_user_id c"
  shows "coll_wf (d\<lparr>collections := update_where p f (collections d)\<rparr>)"
proof -
  have "\<exists>c' \<in> set (update_where p f (collections d)).
      co_collection_id c' = co_collection_id c \<and> co_user_id c' = co_user_id c"
    if "c \<in> set (collections d)" for c
    using that assms(2) by (intro bexI [of _ "if p c then f c else c"]) (auto simp: set_update_where)
  then show ?thesis using assms by (fastforce simp: coll_wf_def map_update_where)
qed

lemma update_collection_wf:
  assumes wf: "coll_wf d"
  shows "coll_wf (snd (update_collection raw p u d)) \<and> coll_out_ok (CollOut (fst (update_collection raw p u d)))"
  using coll_wf_gate [OF wf, of raw u]
proof (elim disjE exE)
  fix c assume gate: "require_owned_collection raw u d = Inr c"
  have one: "select_where (\<lambda>r. co_collection_id r = co_collection_id c \<and> co_user_id r = u) (collections d) = [c]"
    using coll_gate_Inr(2) [OF gate] by (simp add: owned_collection_stmt_def)
  have wf': "coll_wf (snd (coll_update_stmt i u n s d))" for i n s
    unfolding coll_update_stmt_def Let_def snd_conv by (rule coll_wf_update [OF wf]) simp
  obtain r where "fst (coll_update_stmt (co_collection_id c) u n s d) = [r n s]" for n s
    using one by (simp add: coll_update_stmt_def Let_def)
  then show ?thesis using wf wf' gate
    by (simp add: update_collection_def case_prod_beta unprocessable_entity_def)
qed (simp add: update_collection_def wf unprocessable_entity_def collection_not_found_def)

lemma delete_collection_wf:
  assumes wf: "coll_wf d"
  shows "coll_wf (snd (delete_collection raw u d)) \<and> coll_out_ok (CollUnit (fst (delete_collection raw u d)))"
proof (cases "parse_uuid raw")
  case (Some i)
  have few: "length (fst (coll_delete_stmt i u d)) \<le> 1"
    using owned_collection_at_most_one [of d i u] wf
    by (simp add: coll_delete_stmt_def Let_def owned_collection_stmt_def coll_wf_def)
  have "coll_wf (snd (coll_delete_stmt i u d))"
  proof -
    have "\<exists>c \<in> set (collections d). \<not> (co_collection_id c = i \<and> co_user_id c = u) \<and>
        co_collection_id c = cb_collection_id m \<and> co_user_id c = cb_user_id m"
      if m: "m \<in> set (collection_books d)"
        and kept: "cb_collection_id m \<notin> co_collection_id ` {r \<in> set (collections d). co_collection_id r = i \<and> co_user_id r = u}"
      for m
    proof -
      from wf m obtain c where "c \<in> set (collections d)" "co_collection_id c = cb_collection_id m"
        "co_user_id c = cb_user_id m" by (auto simp: coll_wf_def)
      with kept show ?thesis by (intro bexI [of _ c]) auto
    qed
    then show ?thesis using wf
      by (simp add: coll_delete_stmt_def Let_def coll_wf_def delete_where_def distinct_map_filter Bex_def)
  qed
  then show ?thesis using few wf
    by (cases "fst (coll_delete_stmt i u d)" rule: scalar_one_or_none.cases)
       (auto simp: delete_collection_def Some case_prod_beta Let_def collection_not_found_def)
qed (simp add: delete_collection_def wf collection_not_found_def)

lemma add_books_stmt_wf:
  assumes wf: "coll_wf d" and gate: "require_owned_collection raw u d = Inr c"
  shows "coll_wf (add_books_stmt (co_collection_id c) u bs fresh now d)"
proof -
  have "\<exists>c' \<in> set (collections d). co_collection_id c' = cb_collection_id m \<and> co_user_id c' = cb_user_id m"
    if "m \<in> set (fold (insert_member (co_collection_id c) u fresh now) bs (collection_books d))" for m
    using fold_insert_member_set [OF that] wf owned_collection_mem [OF coll_gate_Inr(2) [OF gate]]
    by (auto simp: coll_wf_def)
  then show ?thesis using wf by (simp add: add_books_stmt_def coll_wf_def fold_insert_member_distinct)
qed

lemma remove_books_stmt_wf: "coll_wf d \<Longrightarrow> coll_wf (remove_books_stmt i u bs d)"
  by (auto simp: remove_books_stmt_def coll_wf_def delete_where_def distinct_map_filter)

lemma coll_gate_out:
  assumes "coll_wf d" and "require_owned_collection raw u d = Inl e"
  shows "e = collection_not_found"
  using coll_wf_gate [OF assms(1), of raw u] assms(2) by auto

lemma add_books_wf:
  assumes "coll_wf d"
  shows "coll_wf (snd (add_books raw p u fresh now d)) \<and> coll_out_ok (CollOut (fst (add_books raw p u fresh now d)))"
  using assms by (cases "require_owned_collection raw u d")
    (auto simp: add_books_def Let_def unprocessable_entity_def collection_not_found_def
      dest: coll_gate_out intro: add_books_stmt_wf)

lemma remove_books_wf:
  assumes "coll_wf d"
  shows "coll_wf (snd (remove_books raw p u d)) \<and> coll_out_ok (CollOut (fst (remove_books raw p u d)))"
  using assms by (cases "require_owned_collection raw u d")
    (auto simp: remove_books_def Let_def unprocessable_entity_def collection_not_found_def
      dest: coll_gate_out intro: remove_books_stmt_wf)

lemma coll_step_wf:
  assumes wf: "coll_wf d" and new: "coll_fresh op d"
  shows "coll_wf (snd (coll_step u (now, op) d)) \<and> coll_out_ok (fst (coll_step u (now, op) d))"
proof (cases op)
  case (CollCreate p i)
  then show ?thesis using create_collection_wf [OF wf, of i p u now] new by simp
next
  case (CollGet raw)
  then show ?thesis using wf coll_gate_out [OF wf, of raw u]
    by (cases "require_owned_collection raw u d") (auto simp: get_collection_def collection_not_found_def)
qed (use wf update_collection_wf [OF wf] delete_collection_wf [OF wf] add_books_wf [OF wf]
      remove_books_wf [OF wf] in simp_all)

text \<open>The list endpoint's grouping agrees with the per-collection lookup.\<close>

lemma group_memberships_snoc:
  "group_memberships (ms @ [(c, b)]) =
   (group_memberships ms)(c \<mapsto> (case group_memberships ms c of None \<Rightarrow> [] | Some bs \<Rightarrow> bs) @ [b])"
  by (simp add: group_memberships_def)

lemma group_memberships_lookup:
  "(case group_memberships ms c of None \<Rightarrow> [] | Some bs \<Rightarrow> bs) = map snd (filter (\<lambda>m. fst m = c) ms)"
proof (induction ms rule: rev_induct)
  case (snoc m ms)
  obtain a b where m: "m = (a, b)" by (cases m)
  show ?case using snoc.IH by (cases "a = c") (simp_all add: m group_memberships_snoc)
qed (simp add: group_memberships_def)

lemma grouped_member_ids:
  "(case group_memberships (memberships_stmt u d) c of None \<Rightarrow> [] | Some bs \<Rightarrow> bs) = collection_book_ids c u d"
  by (simp add: group_memberships_lookup memberships_stmt_def collection_book_ids_def
      member_book_ids_stmt_def select_where_def filter_map o_def conj_commute)

lemma member_ids_set:
  "set (collection_book_ids i u d) =
   {b. \<exists>m \<in> set (collection_books d). cb_collection_id m = i \<and> cb_user_id m = u \<and> cb_book_id m = b}"
  by (auto simp: collection_book_ids_def member_book_ids_stmt_def)

lemma add_books_members:
  assumes wf: "coll_wf d" and gate: "require_owned_collection raw u d = Inr c"
  shows "set (collection_book_ids (co_collection_id c) u
            (add_books_stmt (co_collection_id c) u bs fresh now d)) =
         set (collection_book_ids (co_collection_id c) u d) \<union> set bs"
proof -
  let ?i = "co_collection_id c" and ?t = "fold (insert_member (co_collection_id c) u fresh now) bs (collection_books d)"
  have own: "cb_user_id m = u" if "m \<in> set ?t" "cb_collection_id m = ?i" for m
    using fold_insert_member_set [OF that(1)] coll_gate_members [OF coll_wf_members_owned [OF wf] gate] that(2)
    by auto
  have own0: "cb_user_id m = u" if "m \<in> set (collection_books d)" "cb_collection_id m = ?i" for m
    using coll_gate_members [OF coll_wf_members_owned [OF wf] gate that] .
  have "b \<in> set (collection_book_ids ?i u (add_books_stmt ?i u bs fresh now d)) \<longleftrightarrow>
        (\<exists>m \<in> set ?t. cb_collection_id m = ?i \<and> cb_book_id m = b)" for b
    using own by (auto simp: member_ids_set add_books_stmt_def)
  moreover have "b \<in> set (collection_book_ids ?i u d) \<longleftrightarrow>
        (\<exists>m \<in> set (collection_books d). cb_collection_id m = ?i \<and> cb_book_id m = b)" for b
    using own0 by (auto simp: member_ids_set)
  ultimately show ?thesis by (auto simp: fold_insert_member_mem)
qed

lemma remove_books_members:
  "set (collection_book_ids i u (remove_books_stmt i u bs d)) = set (collection_book_ids i u d) - set bs"
  by (auto simp: member_ids_set remove_books_stmt_def)

lemma fold_insert_member_idem:
  "\<forall>b \<in> set bs. \<exists>m \<in> set t. cb_collection_id m = i \<and> cb_book_id m = b \<Longrightarrow>
   fold (insert_member i u fresh now) bs t = t"
  by (induction bs) (auto simp: insert_member_def)

section \<open>Properties\<close>

definition demo_colls :: db where
  "demo_colls = empty_db\<lparr>
     user_library := [\<lparr>ul_entry_id = 1, ul_user_id = 1, ul_book_id = 50, ul_category = None, ul_added_at = 0\<rparr>,
                      \<lparr>ul_entry_id = 2, ul_user_id = 2, ul_book_id = 60, ul_category = None, ul_added_at = 0\<rparr>],
     collections := [\<lparr>co_collection_id = 9, co_user_id = 1, co_name = ''Lent'', co_description = None,
                      co_created_at = 0\<rparr>]\<rparr>"

lemma demo_colls_wf: "coll_wf demo_colls"
  by (simp add: coll_wf_def demo_colls_def empty_db_def)

lemma demo_colls_gate: "require_owned_collection (str_uuid 9) 1 demo_colls =
  Inr \<lparr>co_collection_id = 9, co_user_id = 1, co_name = ''Lent'', co_description = None, co_created_at = 0\<rparr>"
  by (simp add: require_owned_collection_def owned_collection_stmt_def select_where_def demo_colls_def)

text \<open>
  The collections tables stay consistent under every operation of any user (unique ids, no
  duplicate membership, and every membership row points at a live collection of the owner it
  names: the cascade leaves no orphan, an addition never crosses tenants), and no route raises:
  its only errors are 404 and 422.
\<close>

theorem collections_invariant:
  assumes "coll_wf d" and "coll_fresh op d"
  shows "coll_wf (snd (coll_step u (now, op) d)) \<and> coll_out_ok (fst (coll_step u (now, op) d))"
  using assms by (rule coll_step_wf)

theorem collections_invariant_witness:
  "coll_wf (snd (coll_step 1 (5, CollAdd (str_uuid 9) \<lparr>cbr_book_ids = [50, 60], cbr_extra = []\<rparr> (\<lambda>b. b)) demo_colls)) \<and>
   coll_out_ok (fst (coll_step 1 (5, CollAdd (str_uuid 9) \<lparr>cbr_book_ids = [50, 60], cbr_extra = []\<rparr> (\<lambda>b. b)) demo_colls))"
  by (rule collections_invariant [OF demo_colls_wf]) simp

text \<open>
  Membership is a set clamped to the library. After adding, the collection holds its former
  books plus exactly the requested books of the caller's library; repeating the same addition
  changes no row; after removing, it holds its former books less the requested ones. The
  response reports that membership.
\<close>

theorem membership_algebra:
  assumes wf: "coll_wf d" and gate: "require_owned_collection raw u d = Inr c"
    and valid: "validate_books_request p"
  shows "\<exists>d' resp. add_books raw p u fresh now d = (Inr resp, d') \<and>
     set (cr_book_ids resp) = set (collection_book_ids (co_collection_id c) u d) \<union>
       {b \<in> set (cbr_book_ids p). \<exists>e \<in> set (user_library d). ul_user_id e = u \<and> ul_book_id e = b} \<and>
     snd (add_books raw p u fresh' now' d') = d' \<and>
     (\<exists>resp' d''. remove_books raw p u d = (Inr resp', d'') \<and>
        set (cr_book_ids resp') = set (collection_book_ids (co_collection_id c) u d) - set (cbr_book_ids p))"
proof -
  let ?i = "co_collection_id c" and ?lib = "library_subset_stmt (cbr_book_ids p) u d"
  let ?d' = "add_books_stmt ?i u (fromkeys ?lib) fresh now d"
  have empty: "add_books_stmt ?i u [] fresh now d = d" by (simp add: add_books_stmt_def)
  have add: "add_books raw p u fresh now d = (Inr (coll_to_response c (collection_book_ids ?i u ?d')), ?d')"
    using gate valid empty by (cases "?lib = []") (simp_all add: add_books_def Let_def)
  have lib: "library_subset_stmt (cbr_book_ids p) u ?d' = ?lib"
    by (simp add: library_subset_stmt_def add_books_stmt_def)
  have gate': "require_owned_collection raw u ?d' = Inr c"
  proof -
    have "owned_collection_stmt i u ?d' = owned_collection_stmt i u d" for i
      by (simp add: owned_collection_stmt_def add_books_stmt_def)
    then show ?thesis using gate by (simp add: require_owned_collection_def cong: option.case_cong)
  qed
  have "\<forall>b \<in> set (fromkeys ?lib). \<exists>m \<in> set (collection_books ?d'). cb_collection_id m = ?i \<and> cb_book_id m = b"
    using fold_insert_member_mem [of ?i u fresh now "fromkeys ?lib" "collection_books d" ?i]
    by (simp add: add_books_stmt_def)
  then have again: "add_books_stmt ?i u (fromkeys ?lib) fresh' now' ?d' = ?d'"
    using fold_insert_member_idem by (simp add: add_books_stmt_def)
  have "snd (add_books raw p u fresh' now' ?d') = ?d'"
    using gate' valid again by (simp add: add_books_def Let_def lib)
  moreover have "set ?lib = {b \<in> set (cbr_book_ids p). \<exists>e \<in> set (user_library d). ul_user_id e = u \<and> ul_book_id e = b}"
    by (auto simp: library_subset_stmt_def)
  moreover have "remove_books raw p u d = (Inr (coll_to_response c
      (collection_book_ids ?i u (remove_books_stmt ?i u (cbr_book_ids p) d))), remove_books_stmt ?i u (cbr_book_ids p) d)"
    using gate valid by (simp add: remove_books_def Let_def)
  ultimately show ?thesis
    using add add_books_members [OF wf gate] by (auto simp: coll_to_response_def remove_books_members)
qed

theorem membership_algebra_witness:
  "\<exists>d' resp. add_books (str_uuid 9) \<lparr>cbr_book_ids = [50, 60], cbr_extra = []\<rparr> 1 (\<lambda>b. b) 5 demo_colls = (Inr resp, d') \<and>
     set (cr_book_ids resp) = {50}"
proof -
  have "validate_books_request \<lparr>cbr_book_ids = [50, 60], cbr_extra = []\<rparr>"
    by (simp add: validate_books_request_def BOOK_IDS_CAP_def)
  from membership_algebra [OF demo_colls_wf demo_colls_gate this, of "\<lambda>b. b" 5 "\<lambda>b. b" 6]
  obtain d' resp where
    "add_books (str_uuid 9) \<lparr>cbr_book_ids = [50, 60], cbr_extra = []\<rparr> 1 (\<lambda>b. b) 5 demo_colls = (Inr resp, d')"
    "set (cr_book_ids resp) = set (collection_book_ids 9 1 demo_colls) \<union>
       {b \<in> {50, 60}. \<exists>e \<in> set (user_library demo_colls). ul_user_id e = 1 \<and> ul_book_id e = b}"
    by auto
  moreover have "set (collection_book_ids 9 1 demo_colls) = {}"
    by (simp add: member_ids_set demo_colls_def empty_db_def)
  moreover have "{b \<in> {50, 60}. \<exists>e \<in> set (user_library demo_colls). ul_user_id e = 1 \<and> ul_book_id e = b} = {50}"
    by (auto simp: demo_colls_def)
  ultimately show ?thesis by auto
qed

text \<open>
  Listing agrees with looking up. The list endpoint's single-scan grouping gives every
  collection of the caller the membership the per-collection lookup gives, in newest-first order.
\<close>

theorem list_collections_grouping:
  "list_collections u d =
     map (\<lambda>c. coll_to_response c (collection_book_ids (co_collection_id c) u d)) (coll_list_stmt u d)"
  by (simp add: list_collections_def grouped_member_ids)

end
