(* ===== verification/Calendar.thy ===== *)
theory Calendar
  imports Tenancy
begin

text \<open>
  \<open>api/calendar_routes.py\<close>: dated events with an optional link to a sermon of the same user,
  half-open range queries with a span cap, and the weekly materialiser with its row cap. A
  \<open>date\<close> is its proleptic Gregorian ordinal; \<open>current += timedelta(weeks=1)\<close> raises
  \<open>OverflowError\<close> past \<open>date.max\<close>.
\<close>

section \<open>Dates\<close>

definition MAXORDINAL :: int where "MAXORDINAL = 3652059"
definition RANGE_CAP_DAYS :: int where "RANGE_CAP_DAYS = 400"
definition MATERIALIZER_CAP_ROWS :: int where "MATERIALIZER_CAP_ROWS = 53"

definition is_date :: "int \<Rightarrow> bool" where
  "is_date n \<longleftrightarrow> 1 \<le> n \<and> n \<le> MAXORDINAL"

definition date_add :: "int \<Rightarrow> int \<Rightarrow> int result" where
  "date_add n days = (if is_date (n + days) then Inr (n + days) else Inl OverflowError)"

text \<open>The \<open>while current <= until\<close> loop of \<open>_weekly_dates\<close>.\<close>

function weekly_loop :: "int \<Rightarrow> int \<Rightarrow> int list \<Rightarrow> int list result" where
  "weekly_loop until current occurrences =
     (if current \<le> until
      then (case date_add current 7 of
              Inl e \<Rightarrow> Inl e
            | Inr next_week \<Rightarrow> weekly_loop until next_week (occurrences @ [current]))
      else Inr occurrences)"
  by pat_completeness auto
termination
  by (relation "measure (\<lambda>(until, current, _). nat (until + 1 - current))")
     (auto simp: date_add_def split: if_splits)

declare weekly_loop.simps [simp del]

definition weekly_dates :: "int \<Rightarrow> int \<Rightarrow> int list result" where
  "weekly_dates start until = weekly_loop until start []"

section \<open>Requests and responses\<close>

record calendar_event_create =
  ce_event_date :: int
  ce_title :: string
  ce_series :: "string option"
  ce_document_id :: "uuid option"
  ce_repeat_weekly_until :: "int option"
  ce_extra :: "string list"

text \<open>The outer option is membership in \<open>model_fields_set\<close>, the inner one JSON null.\<close>

record calendar_event_update =
  eu_event_date :: "int option option"
  eu_title :: "string option option"
  eu_series :: "string option option"
  eu_document_id :: "uuid option option"
  eu_extra :: "string list"

definition cal_unprocessable :: py_exn where
  "cal_unprocessable = HTTPException 422 ''Unprocessable Entity''"

definition event_title_ok :: "string \<Rightarrow> bool" where
  "event_title_ok s \<longleftrightarrow> 1 \<le> length s \<and> length s \<le> 512"

definition series_ok :: "string option \<Rightarrow> bool" where
  "series_ok s \<longleftrightarrow> (case s of None \<Rightarrow> True | Some t \<Rightarrow> length t \<le> 512)"

definition validate_event_create :: "calendar_event_create \<Rightarrow> bool" where
  "validate_event_create p \<longleftrightarrow> ce_extra p = [] \<and> is_date (ce_event_date p) \<and>
     event_title_ok (ce_title p) \<and> series_ok (ce_series p) \<and>
     (case ce_repeat_weekly_until p of None \<Rightarrow> True | Some x \<Rightarrow> is_date x)"

definition validate_event_update :: "calendar_event_update \<Rightarrow> bool" where
  "validate_event_update p \<longleftrightarrow> eu_extra p = [] \<and>
     (case eu_event_date p of Some (Some x) \<Rightarrow> is_date x | _ \<Rightarrow> True) \<and>
     (case eu_title p of Some (Some t) \<Rightarrow> event_title_ok t | _ \<Rightarrow> True) \<and>
     (case eu_series p of Some s \<Rightarrow> series_ok s | None \<Rightarrow> True)"

section \<open>Statements\<close>

definition range_stmt :: "uuid \<Rightarrow> int \<Rightarrow> int \<Rightarrow> db \<Rightarrow> sermon_event list" where
  "range_stmt u start stop d = sort_key se_event_date
     (select_where (\<lambda>r. se_user_id r = u \<and> start \<le> se_event_date r \<and> se_event_date r < stop) (sermon_events d))"

definition owned_event_stmt :: "uuid \<Rightarrow> uuid \<Rightarrow> db \<Rightarrow> sermon_event list" where
  "owned_event_stmt i u d = select_where (\<lambda>r. se_event_id r = i \<and> se_user_id r = u) (sermon_events d)"

definition document_owned_stmt :: "uuid \<Rightarrow> uuid \<Rightarrow> db \<Rightarrow> uuid list" where
  "document_owned_stmt i u d =
     map doc_document_id (select_where (\<lambda>r. doc_document_id r = i \<and> doc_user_id r = u) (documents d))"

text \<open>
  The UPDATE writes an explicit null as such: into the nullable columns it is stored, into
  \<open>event_date\<close> or \<open>title\<close> (NOT NULL) Postgres refuses it with an \<open>IntegrityError\<close>.
\<close>

definition event_update_stmt ::
  "uuid \<Rightarrow> uuid \<Rightarrow> calendar_event_update \<Rightarrow> timestamp \<Rightarrow> db \<Rightarrow> sermon_event list result \<times> db" where
  "event_update_stmt i u p now d =
     (let q = (\<lambda>r. se_event_id r = i \<and> se_user_id r = u);
          f = (\<lambda>r. r\<lparr>se_event_date := (case eu_event_date p of Some (Some x) \<Rightarrow> x | _ \<Rightarrow> se_event_date r),
                     se_title := (case eu_title p of Some (Some t) \<Rightarrow> t | _ \<Rightarrow> se_title r),
                     se_series := (case eu_series p of Some s \<Rightarrow> s | None \<Rightarrow> se_series r),
                     se_document_id := (case eu_document_id p of Some x \<Rightarrow> x | None \<Rightarrow> se_document_id r),
                     se_updated_at := now\<rparr>)
      in if (eu_event_date p = Some None \<or> eu_title p = Some None) \<and> select_where q (sermon_events d) \<noteq> []
         then (Inl IntegrityError, d)
         else (Inr (map f (select_where q (sermon_events d))),
               d\<lparr>sermon_events := update_where q f (sermon_events d)\<rparr>))"

definition event_delete_stmt :: "uuid \<Rightarrow> uuid \<Rightarrow> db \<Rightarrow> uuid list \<times> db" where
  "event_delete_stmt i u d =
     (let q = (\<lambda>r. se_event_id r = i \<and> se_user_id r = u)
      in (map se_event_id (select_where q (sermon_events d)),
          d\<lparr>sermon_events := delete_where q (sermon_events d)\<rparr>))"

section \<open>Handlers\<close>

definition event_not_found :: py_exn where
  "event_not_found = HTTPException 404 ''Event not found.''"

definition cal_require_owned_document :: "uuid \<Rightarrow> uuid \<Rightarrow> db \<Rightarrow> unit result" where
  "cal_require_owned_document i u d =
     (case scalar_one_or_none (document_owned_stmt i u d) of
        Inl e \<Rightarrow> Inl e
      | Inr None \<Rightarrow> Inl event_not_found
      | Inr (Some _) \<Rightarrow> Inr ())"

definition require_owned_event :: "string \<Rightarrow> uuid \<Rightarrow> db \<Rightarrow> sermon_event result" where
  "require_owned_event raw u d =
     (case parse_uuid raw of
        None \<Rightarrow> Inl event_not_found
      | Some i \<Rightarrow>
          (case scalar_one_or_none (owned_event_stmt i u d) of
             Inl e \<Rightarrow> Inl e
           | Inr None \<Rightarrow> Inl event_not_found
           | Inr (Some r) \<Rightarrow> Inr r))"

definition list_events :: "int \<Rightarrow> int \<Rightarrow> uuid \<Rightarrow> db \<Rightarrow> sermon_event list result" where
  "list_events start stop u d =
     (if \<not> is_date start \<or> \<not> is_date stop then Inl cal_unprocessable
      else if stop < start then Inl (HTTPException 422 ''Range start must be on or before end.'')
      else if RANGE_CAP_DAYS < stop - start
      then Inl (HTTPException 422 (''Range span exceeds the '' @ int_str RANGE_CAP_DAYS @ ''-day cap.''))
      else Inr (range_stmt u start stop d))"

definition cap_exceeded :: py_exn where
  "cap_exceeded = HTTPException 422
     (''Weekly recurrence exceeds the '' @ int_str MATERIALIZER_CAP_ROWS @ ''-row cap.'')"

text \<open>The dates \<open>create_events\<close> materialises, or its 422.\<close>

definition occurrences :: "calendar_event_create \<Rightarrow> int list result" where
  "occurrences p =
     (case ce_repeat_weekly_until p of
        None \<Rightarrow> Inr [ce_event_date p]
      | Some until \<Rightarrow>
          if until < ce_event_date p
          then Inl (HTTPException 422 ''repeat_weekly_until must be on or after event_date.'')
          else let occurrence_count = (until - ce_event_date p) div 7 + 1
               in if MATERIALIZER_CAP_ROWS < occurrence_count then Inl cap_exceeded
                  else case weekly_dates (ce_event_date p) until of
                         Inl e \<Rightarrow> Inl (if e = OverflowError then cap_exceeded else e)
                       | Inr ds \<Rightarrow> Inr ds)"

text \<open>\<open>new_id k\<close> is the random id of the k-th materialised row.\<close>

definition create_events ::
  "calendar_event_create \<Rightarrow> uuid \<Rightarrow> (nat \<Rightarrow> uuid) \<Rightarrow> timestamp \<Rightarrow> db \<Rightarrow> sermon_event list result \<times> db" where
  "create_events p u new_id now d =
     (if \<not> validate_event_create p then (Inl cal_unprocessable, d)
      else case (case ce_document_id p of None \<Rightarrow> Inr () | Some x \<Rightarrow> cal_require_owned_document x u d) of
        Inl e \<Rightarrow> (Inl e, d)
      | Inr _ \<Rightarrow>
          (case occurrences p of
             Inl e \<Rightarrow> (Inl e, d)
           | Inr ds \<Rightarrow>
               let events = map (\<lambda>(k, day). \<lparr>se_event_id = new_id k, se_user_id = u, se_event_date = day,
                      se_title = ce_title p, se_series = ce_series p, se_document_id = ce_document_id p,
                      se_created_at = now, se_updated_at = now\<rparr>) (enumerate 0 ds)
               in (Inr events, d\<lparr>sermon_events := sermon_events d @ events\<rparr>)))"

definition get_event :: "string \<Rightarrow> uuid \<Rightarrow> db \<Rightarrow> sermon_event result" where
  "get_event raw u d = require_owned_event raw u d"

definition update_event ::
  "string \<Rightarrow> calendar_event_update \<Rightarrow> uuid \<Rightarrow> timestamp \<Rightarrow> db \<Rightarrow> sermon_event result \<times> db" where
  "update_event raw p u now d =
     (if \<not> validate_event_update p then (Inl cal_unprocessable, d)
      else if eu_event_date p = None \<and> eu_title p = None \<and> eu_series p = None \<and> eu_document_id p = None
      then (Inl (HTTPException 422 ''PATCH must set at least one of event_date, title, series, document_id.''), d)
      else case (case eu_document_id p of Some (Some x) \<Rightarrow> cal_require_owned_document x u d | _ \<Rightarrow> Inr ()) of
        Inl e \<Rightarrow> (Inl e, d)
      | Inr _ \<Rightarrow>
          (case require_owned_event raw u d of
             Inl e \<Rightarrow> (Inl e, d)
           | Inr r \<Rightarrow>
               let (res, d') = event_update_stmt (se_event_id r) u p now d
               in case res of
                    Inl e \<Rightarrow> (Inl e, d)
                  | Inr rows \<Rightarrow> (case one_row rows of Inl e \<Rightarrow> (Inl e, d) | Inr row \<Rightarrow> (Inr row, d'))))"

definition delete_event :: "string \<Rightarrow> uuid \<Rightarrow> db \<Rightarrow> unit result \<times> db" where
  "delete_event raw u d =
     (case parse_uuid raw of
        None \<Rightarrow> (Inl event_not_found, d)
      | Some i \<Rightarrow>
          let (ids, d') = event_delete_stmt i u d
          in case scalar_one_or_none ids of
               Inl e \<Rightarrow> (Inl e, d)
             | Inr None \<Rightarrow> (Inl event_not_found, d)
             | Inr (Some _) \<Rightarrow> (Inr (), d'))"

datatype cal_op =
    CalList int int
  | CalCreate calendar_event_create "nat \<Rightarrow> uuid"
  | CalGet string
  | CalPatch string calendar_event_update
  | CalDelete string

datatype cal_out =
    CalEvents "sermon_event list result"
  | CalEvent "sermon_event result"
  | CalUnit "unit result"

fun cal_step :: "uuid \<Rightarrow> timestamp \<times> cal_op \<Rightarrow> db \<Rightarrow> cal_out \<times> db" where
  "cal_step u (now, CalList start stop) = (\<lambda>d. (CalEvents (list_events start stop u d), d))"
| "cal_step u (now, CalCreate p new_id) = (\<lambda>d. map_prod CalEvents id (create_events p u new_id now d))"
| "cal_step u (now, CalGet raw) = (\<lambda>d. (CalEvent (get_event raw u d), d))"
| "cal_step u (now, CalPatch raw p) = (\<lambda>d. map_prod CalEvent id (update_event raw p u now d))"
| "cal_step u (now, CalDelete raw) = (\<lambda>d. map_prod CalUnit id (delete_event raw u d))"

section \<open>Tenant scoping\<close>

lemma cal_stmts_tenant_view [tenant_simps]:
  "range_stmt u a b (tenant_view u d) = range_stmt u a b d"
  "owned_event_stmt i u (tenant_view u d) = owned_event_stmt i u d"
  "document_owned_stmt i u (tenant_view u d) = document_owned_stmt i u d"
  by (simp_all add: range_stmt_def owned_event_stmt_def document_owned_stmt_def tenant_simps)

lemma cal_gates_tenant_view [tenant_simps]:
  "cal_require_owned_document i u (tenant_view u d) = cal_require_owned_document i u d"
  "require_owned_event raw u (tenant_view u d) = require_owned_event raw u d"
  by (simp_all add: cal_require_owned_document_def require_owned_event_def tenant_simps cong: option.case_cong)

lemma create_events_scoped: "scoped_if P u (create_events p u new_id now)"
proof (rule scopedI)
  show "create_events p u new_id now (tenant_view u d) = map_prod id (tenant_view u) (create_events p u new_id now d)"
    for d by (auto simp: create_events_def tenant_simps owned_rows_all split: sum.split option.split)
  show "tenant_view w (snd (create_events p u new_id now d)) = tenant_view w d" if "u \<noteq> w" for d w
    using that by (auto simp: create_events_def tenant_simps owned_rows_none split: sum.split)
qed

lemma update_event_scoped: "scoped_if P u (update_event raw p u now)"
proof (rule scopedI)
  have stmt: "event_update_stmt i u p now (tenant_view u d) = map_prod id (tenant_view u) (event_update_stmt i u p now d)"
    for i d by (simp add: event_update_stmt_def tenant_simps)
  have frame: "u \<noteq> w \<Longrightarrow> tenant_view w (snd (event_update_stmt i u p now d)) = tenant_view w d"
    for i d w by (simp add: event_update_stmt_def tenant_simps tenant_frame)
  show "update_event raw p u now (tenant_view u d) = map_prod id (tenant_view u) (update_event raw p u now d)" for d
    by (simp add: update_event_def tenant_simps stmt split: sum.split option.split)
  show "tenant_view w (snd (update_event raw p u now d)) = tenant_view w d" if "u \<noteq> w" for d w
    using that by (simp add: update_event_def tenant_simps frame split: sum.split)
qed

lemma delete_event_scoped: "scoped_if P u (delete_event raw u)"
proof (rule scopedI)
  have stmt: "event_delete_stmt i u (tenant_view u d) = map_prod id (tenant_view u) (event_delete_stmt i u d)"
    for i d by (simp add: event_delete_stmt_def tenant_simps)
  have frame: "u \<noteq> w \<Longrightarrow> tenant_view w (snd (event_delete_stmt i u d)) = tenant_view w d"
    for i d w by (simp add: event_delete_stmt_def tenant_simps tenant_frame)
  show "delete_event raw u (tenant_view u d) = map_prod id (tenant_view u) (delete_event raw u d)" for d
    by (simp add: delete_event_def tenant_simps stmt split: sum.split option.split)
  show "tenant_view w (snd (delete_event raw u d)) = tenant_view w d" if "u \<noteq> w" for d w
    using that by (simp add: delete_event_def tenant_simps frame split: sum.split option.split)
qed

lemma cal_step_scoped: "scoped_if P u (cal_step u op)"
  by (cases "(u, op)" rule: cal_step.cases)
     (simp_all add: scoped_out scoped_read create_events_scoped update_event_scoped
      delete_event_scoped list_events_def get_event_def tenant_simps)

interpretation cal: tenant_step tenant_view cal_step "\<lambda>_ _. True"
  by (rule scoped_step) (rule cal_step_scoped)

section \<open>The materialiser\<close>

text \<open>The number of occurrences, and the occurrences, written directly.\<close>

definition week_count :: "int \<Rightarrow> int \<Rightarrow> int" where
  "week_count start until = (until - start) div 7 + 1"

definition weeks_from :: "int \<Rightarrow> nat \<Rightarrow> int list" where
  "weeks_from start n = map (\<lambda>k. start + 7 * int k) [0..<n]"

lemma weeks_from_Suc: "weeks_from start (Suc n) = start # weeks_from (start + 7) n"
  by (simp add: weeks_from_def map_upt_Suc del: upt_Suc)

lemma week_count_step: "start \<le> until \<Longrightarrow> week_count start until = week_count (start + 7) until + 1"
  unfolding week_count_def by simp

lemma weekly_loop_spec:
  assumes "is_date start" and "is_date until"
  shows "weekly_loop until start acc =
    (if start > until then Inr acc
     else if start + 7 * week_count start until \<le> MAXORDINAL
     then Inr (acc @ weeks_from start (nat (week_count start until))) else Inl OverflowError)"
  using assms
proof (induction until start acc rule: weekly_loop.induct)
  case (1 until start acc)
  show ?case
  proof (cases "start \<le> until")
    case False
    then show ?thesis by (simp add: weekly_loop.simps [of until start acc])
  next
    case le: True
    have pos: "0 < week_count start until" using le by (simp add: week_count_def pos_imp_zdiv_nonneg_iff add_nonneg_pos)
    show ?thesis
    proof (cases "is_date (start + 7)")
      case False
      then have "MAXORDINAL < start + 7" using 1(2) by (auto simp: is_date_def)
      also have "\<dots> \<le> start + 7 * week_count start until" using pos by simp
      finally show ?thesis using le False by (simp add: weekly_loop.simps [of until start acc] date_add_def)
    next
      case True
      note IH = "1.IH" [OF le _ True "1.prems"(2)]
      have step: "weekly_loop until start acc = weekly_loop until (start + 7) (acc @ [start])"
        using le True by (simp add: weekly_loop.simps [of until start acc] date_add_def)
      have IH': "weekly_loop until (start + 7) (acc @ [start]) =
        (if start + 7 > until then Inr (acc @ [start])
         else if start + 7 + 7 * week_count (start + 7) until \<le> MAXORDINAL
         then Inr ((acc @ [start]) @ weeks_from (start + 7) (nat (week_count (start + 7) until))) else Inl OverflowError)"
        using True by (intro IH) (simp_all add: date_add_def)
      have wc: "week_count start until = week_count (start + 7) until + 1" using le by (rule week_count_step)
      show ?thesis
      proof (cases "start + 7 > until")
        case True
        have "week_count (start + 7) until = 0"
          using True le unfolding week_count_def by linarith
        then show ?thesis using True le wc IH' step \<open>is_date (start + 7)\<close>
          by (simp add: is_date_def weeks_from_def)
      next
        case more_weeks: False
        then have "0 < week_count (start + 7) until"
          by (simp add: week_count_def pos_imp_zdiv_nonneg_iff add_nonneg_pos)
        then have "nat (week_count start until) = Suc (nat (week_count (start + 7) until))"
          using wc by simp
        then show ?thesis using more_weeks le wc IH' step by (simp add: weeks_from_Suc algebra_simps)
      qed
    qed
  qed
qed

lemma weekly_dates_eq:
  "is_date start \<Longrightarrow> is_date until \<Longrightarrow> start \<le> until \<Longrightarrow>
   weekly_dates start until =
     (if start + 7 * week_count start until \<le> MAXORDINAL
      then Inr (weeks_from start (nat (week_count start until))) else Inl OverflowError)"
  by (simp add: weekly_dates_def weekly_loop_spec)

lemma weeks_from_mem: "x \<in> set (weeks_from start n) \<longleftrightarrow> (\<exists>k<n. x = start + 7 * int k)"
  by (auto simp: weeks_from_def)

lemma weeks_within:
  assumes "start \<le> until" "x \<in> set (weeks_from start (nat (week_count start until)))"
  shows "start \<le> x \<and> x \<le> until"
proof -
  obtain k where k: "int k < week_count start until" "x = start + 7 * int k"
    using assms(2) by (auto simp: weeks_from_mem zless_nat_eq_int_zless)
  then have "int k \<le> (until - start) div 7" by (simp add: week_count_def)
  then have "7 * int k \<le> until - start" by linarith
  with k show ?thesis by simp
qed

lemma occurrences_Inr:
  assumes "validate_event_create p" and "occurrences p = Inr ds"
  shows "ds \<noteq> [] \<and> length ds \<le> 53 \<and> hd ds = ce_event_date p \<and> (\<forall>x \<in> set ds. is_date x)"
proof (cases "ce_repeat_weekly_until p")
  case None
  then show ?thesis using assms by (auto simp: occurrences_def validate_event_create_def)
next
  case (Some until)
  let ?s = "ce_event_date p" and ?n = "week_count (ce_event_date p) until"
  have le: "?s \<le> until" and cap: "?n \<le> 53" and dates: "is_date ?s" "is_date until"
    and ds: "ds = weeks_from ?s (nat ?n)"
    using assms Some weekly_dates_eq [of ?s until]
    by (auto simp: occurrences_def validate_event_create_def week_count_def MATERIALIZER_CAP_ROWS_def Let_def
        split: if_splits sum.splits)
  have pos: "0 < ?n" using le by (simp add: week_count_def pos_imp_zdiv_nonneg_iff add_nonneg_pos)
  then obtain m where m: "nat ?n = Suc m" by (metis gr0_conv_Suc zero_less_nat_eq)
  have "\<forall>x \<in> set ds. is_date x"
    using weeks_within [OF le] dates unfolding ds is_date_def by fastforce
  moreover have "length ds \<le> 53" using cap by (simp add: ds weeks_from_def)
  ultimately show ?thesis using ds m by (simp add: weeks_from_Suc)
qed

section \<open>Properties\<close>

text \<open>
  The weekly materialiser. For valid dates with \<open>start \<le> until\<close> the loop terminates and
  gives exactly the dates \<open>start + 7k\<close> up to \<open>until\<close>, as many as the O(1) count computed before
  it says, except that it raises \<open>OverflowError\<close> exactly when the week after the last occurrence
  lies past \<open>date.max\<close>: the loop does step once past the last date it returns.
\<close>

theorem weekly_dates_spec:
  assumes "is_date start" and "is_date until" and "start \<le> until"
  shows "weekly_dates start until =
     (if start + 7 * ((until - start) div 7 + 1) \<le> MAXORDINAL
      then Inr (map (\<lambda>k. start + 7 * int k) [0..<nat ((until - start) div 7 + 1)])
      else Inl OverflowError)"
  using weekly_dates_eq [OF assms] by (simp add: week_count_def weeks_from_def)

theorem weekly_dates_spec_witness:
  "weekly_dates 100 115 = Inr [100, 107, 114] \<and> weekly_dates MAXORDINAL MAXORDINAL = Inl OverflowError"
  using weekly_dates_spec [of 100 115] weekly_dates_spec [of MAXORDINAL MAXORDINAL]
  by (simp add: is_date_def MAXORDINAL_def numeral_3_eq_3)

text \<open>
  Creation is bounded and atomic. A successful POST stores between 1 and 53 rows, all of the
  caller, starting at the anchor, each a valid date and linked to the requested sermon, which is
  the caller's; a refused one stores nothing. Seen from the other side, a request whose last
  occurrence falls in the last week of the calendar is refused as over the cap although it is not.
\<close>

theorem create_events_bounded:
  "(case create_events p u new_id now d of
      (Inl e, d') \<Rightarrow> d' = d
    | (Inr es, d') \<Rightarrow>
        sermon_events d' = sermon_events d @ es \<and> es \<noteq> [] \<and> length es \<le> 53 \<and>
        se_event_date (hd es) = ce_event_date p \<and>
        list_all (\<lambda>r. se_user_id r = u \<and> is_date (se_event_date r) \<and> se_document_id r = ce_document_id p) es \<and>
        (case ce_document_id p of None \<Rightarrow> True
         | Some i \<Rightarrow> list_ex (\<lambda>x. doc_document_id x = i \<and> doc_user_id x = u) (documents d))) \<and>
   fst (create_events \<lparr>ce_event_date = MAXORDINAL, ce_title = ''Vigil'', ce_series = None, ce_document_id = None,
      ce_repeat_weekly_until = Some MAXORDINAL, ce_extra = []\<rparr> u new_id now d) = Inl cap_exceeded"
  (is "?bounded \<and> ?last_week")
proof
  show ?bounded
  proof (cases "create_events p u new_id now d")
    case (Pair out d')
    show ?thesis
    proof (cases out)
      case (Inl e)
      then show ?thesis using Pair by (auto simp: create_events_def Let_def split: if_splits sum.splits)
    next
      case (Inr es)
      then obtain ds where valid: "validate_event_create p" and ds: "occurrences p = Inr ds"
        and own: "(case ce_document_id p of None \<Rightarrow> Inr () | Some x \<Rightarrow> cal_require_owned_document x u d) = Inr ()"
        and es: "es = map (\<lambda>(k, day). \<lparr>se_event_id = new_id k, se_user_id = u, se_event_date = day,
                      se_title = ce_title p, se_series = ce_series p, se_document_id = ce_document_id p,
                      se_created_at = now, se_updated_at = now\<rparr>) (enumerate 0 ds)"
        and d': "d' = d\<lparr>sermon_events := sermon_events d @ es\<rparr>"
        using Pair by (auto simp: create_events_def Let_def split: if_splits sum.splits)
      note occ = occurrences_Inr [OF valid ds]
      have "(case ce_document_id p of None \<Rightarrow> True
         | Some i \<Rightarrow> list_ex (\<lambda>x. doc_document_id x = i \<and> doc_user_id x = u) (documents d))"
        using own by (auto simp: cal_require_owned_document_def scalar_Some_conv document_owned_stmt_def
            list_ex_iff select_where_def filter_eq_Cons_iff split: option.splits sum.splits)
      moreover have "list_all (\<lambda>r. se_user_id r = u \<and> is_date (se_event_date r) \<and> se_document_id r = ce_document_id p) es"
        using occ by (auto simp: es list_all_iff in_set_enumerate_eq)
      moreover have "se_event_date (hd es) = ce_event_date p" using occ by (cases ds) (auto simp: es)
      moreover have "length es = length ds" by (simp add: es)
      then have "es \<noteq> [] \<and> length es \<le> 53" using occ by auto
      ultimately show ?thesis using Pair Inr d' by simp
    qed
  qed
  show ?last_week
    by (simp add: create_events_def validate_event_create_def is_date_def MAXORDINAL_def event_title_ok_def
        series_ok_def occurrences_def MATERIALIZER_CAP_ROWS_def weekly_dates_def
        weekly_loop.simps [of 3652059 3652059] date_add_def)
qed

text \<open>
  The calendar's table invariant: primary key, valid dates and titles, and every linked sermon
  belongs to the event's owner (the foreign key alone would not say so).
\<close>

definition event_ok :: "db \<Rightarrow> sermon_event \<Rightarrow> bool" where
  "event_ok d r \<longleftrightarrow> is_date (se_event_date r) \<and> event_title_ok (se_title r) \<and>
     (case se_document_id r of None \<Rightarrow> True
      | Some i \<Rightarrow> list_ex (\<lambda>x. doc_document_id x = i \<and> doc_user_id x = se_user_id r) (documents d))"

definition cal_wf :: "db \<Rightarrow> bool" where
  "cal_wf d \<longleftrightarrow> distinct (map se_event_id (sermon_events d)) \<and> distinct (map doc_document_id (documents d)) \<and>
     list_all (event_ok d) (sermon_events d)"

fun cal_fresh :: "cal_op \<Rightarrow> db \<Rightarrow> bool" where
  "cal_fresh (CalCreate p new_id) d =
     (distinct (map new_id [0..<53]) \<and> (\<forall>k \<in> {0..<53}. new_id k \<notin> se_event_id ` set (sermon_events d)))"
| "cal_fresh _ d = True"

text \<open>A PATCH that sends null for a column that may not be null.\<close>

fun null_patch :: "cal_op \<Rightarrow> bool" where
  "null_patch (CalPatch raw p) = (eu_event_date p = Some None \<or> eu_title p = Some None)"
| "null_patch _ = False"

definition cal_error_ok :: "bool \<Rightarrow> py_exn \<Rightarrow> bool" where
  "cal_error_ok null e \<longleftrightarrow> status_of e \<in> {404, 422} \<or> (null \<and> e = IntegrityError)"

fun cal_out_ok :: "bool \<Rightarrow> cal_out \<Rightarrow> bool" where
  "cal_out_ok n (CalEvents (Inl e)) = cal_error_ok n e"
| "cal_out_ok n (CalEvent (Inl e)) = cal_error_ok n e"
| "cal_out_ok n (CalUnit (Inl e)) = cal_error_ok n e"
| "cal_out_ok n _ = True"

lemma cal_errors [simp]:
  "cal_error_ok n event_not_found" "cal_error_ok n cal_unprocessable" "cal_error_ok n cap_exceeded"
  "cal_error_ok n (HTTPException 422 m)"
  by (simp_all add: cal_error_ok_def event_not_found_def cal_unprocessable_def cap_exceeded_def)

lemma cal_document_gate:
  assumes "cal_wf d"
  shows "cal_require_owned_document i u d =
     (if list_ex (\<lambda>x. doc_document_id x = i \<and> doc_user_id x = u) (documents d) then Inr () else Inl event_not_found)"
proof -
  let ?q = "\<lambda>r. doc_document_id r = i \<and> doc_user_id r = u"
  have le: "length (filter ?q (documents d)) \<le> 1"
    using assms by (intro distinct_key_select) (simp add: cal_wf_def)
  have ex: "list_ex ?q (documents d) \<longleftrightarrow> filter ?q (documents d) \<noteq> []"
    by (induction "documents d") (auto simp: list_ex_iff filter_empty_conv)
  show ?thesis unfolding ex using le
    by (cases "filter ?q (documents d)" rule: scalar_one_or_none.cases)
       (simp_all add: cal_require_owned_document_def document_owned_stmt_def select_where_def)
qed

lemma event_gate_cases:
  assumes "cal_wf d"
  shows "require_owned_event raw u d = Inl event_not_found \<or>
    (\<exists>r. require_owned_event raw u d = Inr r \<and> owned_event_stmt (se_event_id r) u d = [r] \<and> r \<in> set (sermon_events d))"
proof (cases "parse_uuid raw")
  case (Some i)
  have "length (owned_event_stmt i u d) \<le> 1"
    unfolding owned_event_stmt_def select_where_def
    by (rule distinct_key_select) (use assms in \<open>simp add: cal_wf_def\<close>)
  moreover have "se_event_id r = i \<and> r \<in> set (sermon_events d)" if "owned_event_stmt i u d = [r]" for r
    using arg_cong [OF that, of set] by (auto simp: owned_event_stmt_def)
  ultimately show ?thesis using Some
    by (cases "owned_event_stmt i u d" rule: scalar_one_or_none.cases) (auto simp: require_owned_event_def)
qed (simp add: require_owned_event_def)

lemma event_ok_update [simp]: "event_ok (d\<lparr>sermon_events := x\<rparr>) r = event_ok d r"
  by (cases "se_document_id r") (simp_all add: event_ok_def)

lemma create_events_wf:
  assumes wf: "cal_wf d" and new: "cal_fresh (CalCreate p new_id) d"
  shows "cal_wf (snd (create_events p u new_id now d)) \<and> cal_out_ok n (CalEvents (fst (create_events p u new_id now d)))"
proof (cases "validate_event_create p \<and>
    (case ce_document_id p of None \<Rightarrow> Inr () | Some x \<Rightarrow> cal_require_owned_document x u d) = Inr () \<and> is_ok (occurrences p)")
  case True
  then obtain ds where valid: "validate_event_create p" and ds: "occurrences p = Inr ds"
    and own: "(case ce_document_id p of None \<Rightarrow> Inr () | Some x \<Rightarrow> cal_require_owned_document x u d) = Inr ()"
    by (cases "occurrences p") auto
  define es where "es = map (\<lambda>(k, day). \<lparr>se_event_id = new_id k, se_user_id = u, se_event_date = day,
      se_title = ce_title p, se_series = ce_series p, se_document_id = ce_document_id p,
      se_created_at = now, se_updated_at = now\<rparr>) (enumerate 0 ds)"
  have run: "create_events p u new_id now d = (Inr es, d\<lparr>sermon_events := sermon_events d @ es\<rparr>)"
    using valid ds own by (simp add: create_events_def es_def Let_def)
  note occ = occurrences_Inr [OF valid ds]
  have ids: "map se_event_id es = map new_id [0..<length ds]"
    by (rule nth_equalityI) (auto simp: es_def nth_enumerate_eq)
  have "distinct (map new_id [0..<length ds])"
    using new occ by (auto simp: distinct_map intro: inj_on_subset)
  moreover have "new_id k \<noteq> se_event_id x" if "k < length ds" "x \<in> set (sermon_events d)" for k x
  proof -
    have "k \<in> {0..<53}" using that(1) occ by simp
    then show ?thesis using new that(2) by (metis cal_fresh.simps(1) imageI)
  qed
  moreover have "event_ok d r" if "r \<in> set es" for r
    using that occ own valid
    by (auto simp: es_def event_ok_def in_set_enumerate_eq validate_event_create_def cal_document_gate [OF wf]
        split: option.splits if_splits)
  ultimately show ?thesis using wf run ids by (fastforce simp: cal_wf_def list_all_iff)
next
  case False
  have errs: "cal_error_ok n e" if "occurrences p = Inl e" "validate_event_create p" for e
    using that weekly_dates_eq [of "ce_event_date p" "the (ce_repeat_weekly_until p)"]
    by (auto simp: occurrences_def validate_event_create_def Let_def split: option.splits if_splits sum.splits)
  show ?thesis using False wf errs
    by (auto simp: create_events_def cal_document_gate [OF wf] split: option.splits sum.splits if_splits)
qed

text \<open>The document gate of a PATCH, as one term.\<close>

definition patch_document_gate :: "calendar_event_update \<Rightarrow> uuid \<Rightarrow> db \<Rightarrow> unit result" where
  "patch_document_gate p u d =
     (case eu_document_id p of Some (Some x) \<Rightarrow> cal_require_owned_document x u d | _ \<Rightarrow> Inr ())"

lemma patch_document_gate_out:
  assumes "cal_wf d"
  shows "patch_document_gate p u d = Inl event_not_found \<or> patch_document_gate p u d = Inr ()"
  by (auto simp: patch_document_gate_def cal_document_gate [OF assms] split: option.splits)

lemma event_update_wf:
  assumes wf: "cal_wf d" and valid: "validate_event_update p" and gate: "patch_document_gate p u d = Inr ()"
  shows "cal_wf (snd (event_update_stmt i u p now d))"
proof -
  let ?q = "\<lambda>r. se_event_id r = i \<and> se_user_id r = u"
  define f where "f = (\<lambda>r :: sermon_event. r\<lparr>se_event_date := (case eu_event_date p of Some (Some x) \<Rightarrow> x | _ \<Rightarrow> se_event_date r),
      se_title := (case eu_title p of Some (Some t) \<Rightarrow> t | _ \<Rightarrow> se_title r),
      se_series := (case eu_series p of Some s \<Rightarrow> s | None \<Rightarrow> se_series r),
      se_document_id := (case eu_document_id p of Some x \<Rightarrow> x | None \<Rightarrow> se_document_id r),
      se_updated_at := now\<rparr>)"
  have doc: "list_ex (\<lambda>x. doc_document_id x = j \<and> doc_user_id x = u) (documents d)"
    if "eu_document_id p = Some (Some j)" for j
    using gate that by (auto simp: patch_document_gate_def cal_document_gate [OF wf] split: if_splits)
  have ok: "event_ok d (f r)" if "event_ok d r" "?q r" for r
    using that doc valid
    by (auto simp: f_def event_ok_def validate_event_update_def split: option.splits)
  have ids: "map se_event_id (update_where ?q f t) = map se_event_id t" for t
    by (rule map_update_where) (simp add: f_def)
  have "cal_wf (d\<lparr>sermon_events := update_where ?q f (sermon_events d)\<rparr>)"
    using wf ok ids by (auto simp: cal_wf_def list_all_iff set_update_where)
  then show ?thesis using wf by (simp add: event_update_stmt_def Let_def f_def [symmetric])
qed

lemma update_event_wf:
  assumes wf: "cal_wf d"
  shows "cal_wf (snd (update_event raw p u now d)) \<and>
         cal_out_ok (null_patch (CalPatch raw p)) (CalEvent (fst (update_event raw p u now d)))"
proof (cases "validate_event_update p \<and> patch_document_gate p u d = Inr () \<and> is_ok (require_owned_event raw u d)")
  case False
  then show ?thesis
    using wf patch_document_gate_out [OF wf, of p u] event_gate_cases [OF wf, of raw u]
    by (auto simp: update_event_def patch_document_gate_def [symmetric])
next
  case True
  then obtain r where valid: "validate_event_update p" and gate: "patch_document_gate p u d = Inr ()"
    and r: "require_owned_event raw u d = Inr r" "owned_event_stmt (se_event_id r) u d = [r]"
    using event_gate_cases [OF wf, of raw u] by auto
  have "cal_wf (snd (event_update_stmt (se_event_id r) u p now d))"
    using wf valid gate by (rule event_update_wf)
  moreover have "\<exists>x. fst (event_update_stmt (se_event_id r) u p now d) =
     (if eu_event_date p = Some None \<or> eu_title p = Some None then Inl IntegrityError else Inr [x])"
    using r(2) by (simp add: event_update_stmt_def Let_def owned_event_stmt_def)
  ultimately show ?thesis using wf valid gate r(1)
    by (auto simp: update_event_def patch_document_gate_def [symmetric] case_prod_beta cal_error_ok_def)
qed

lemma delete_event_wf:
  assumes wf: "cal_wf d"
  shows "cal_wf (snd (delete_event raw u d)) \<and> cal_out_ok n (CalUnit (fst (delete_event raw u d)))"
proof (cases "parse_uuid raw")
  case (Some i)
  have "length (owned_event_stmt i u d) \<le> 1"
    unfolding owned_event_stmt_def select_where_def
    by (rule distinct_key_select) (use wf in \<open>simp add: cal_wf_def\<close>)
  then have "length (fst (event_delete_stmt i u d)) \<le> 1"
    by (simp add: event_delete_stmt_def Let_def owned_event_stmt_def)
  moreover have "cal_wf (snd (event_delete_stmt i u d))"
    using wf by (auto simp: event_delete_stmt_def Let_def cal_wf_def list_all_iff delete_where_def distinct_map_filter)
  ultimately show ?thesis using wf
    by (cases "fst (event_delete_stmt i u d)" rule: scalar_one_or_none.cases)
       (auto simp: delete_event_def Some case_prod_beta Let_def)
qed (simp add: delete_event_def wf)

lemma cal_step_wf:
  assumes wf: "cal_wf d" and new: "cal_fresh op d"
  shows "cal_wf (snd (cal_step u (now, op) d)) \<and> cal_out_ok (null_patch op) (fst (cal_step u (now, op) d))"
proof (cases op)
  case (CalCreate p new_id)
  then show ?thesis using create_events_wf [OF wf, of p new_id u now] new by simp
next
  case (CalGet raw)
  then show ?thesis using wf event_gate_cases [OF wf, of raw u] by (auto simp: get_event_def)
next
  case (CalPatch raw p)
  then show ?thesis using update_event_wf [OF wf, of raw p u now] by simp
qed (use wf delete_event_wf [OF wf] in \<open>auto simp: list_events_def\<close>)

definition demo_cal :: db where
  "demo_cal = empty_db\<lparr>sermon_events := [\<lparr>se_event_id = 3, se_user_id = 1, se_event_date = 738000,
     se_title = ''Advent'', se_series = None, se_document_id = None, se_created_at = 0, se_updated_at = 0\<rparr>]\<rparr>"

lemma demo_cal_wf: "cal_wf demo_cal"
  by (simp add: cal_wf_def demo_cal_def empty_db_def event_ok_def is_date_def MAXORDINAL_def event_title_ok_def)

text \<open>
  The calendar tables stay well formed under every operation of any user (valid dates and
  titles, unique ids, links only to the owner's own sermons), and the only errors are 404 and
  422, with one exception: a PATCH that sends null for the date or the title.
\<close>

theorem calendar_invariant:
  assumes "cal_wf d" and "cal_fresh op d"
  shows "cal_wf (snd (cal_step u (now, op) d)) \<and> cal_out_ok (null_patch op) (fst (cal_step u (now, op) d))"
  using assms by (rule cal_step_wf)

theorem calendar_invariant_witness:
  "cal_wf (snd (cal_step 1 (5, CalDelete (str_uuid 3)) demo_cal)) \<and>
   cal_out_ok False (fst (cal_step 1 (5, CalDelete (str_uuid 3)) demo_cal))"
  using calendar_invariant [OF demo_cal_wf, of "CalDelete (str_uuid 3)" 1 5] by simp

text \<open>
  That exception is real. The request model accepts an explicit null for \<open>title\<close> or
  \<open>event_date\<close>, the handler puts it in the value set, and the NOT NULL column refuses it: a
  500, where the same mistake on a collection name is a 422.
\<close>

theorem null_title_is_a_500:
  assumes "require_owned_event raw u d = Inr r" and "owned_event_stmt (se_event_id r) u d = [r]"
    and "eu_title p = Some None" and "validate_event_update (p\<lparr>eu_title := None\<rparr>)"
    and "eu_document_id p = None"
  shows "validate_event_update p \<and> update_event raw p u now d = (Inl IntegrityError, d) \<and>
         status_of IntegrityError = 500"
proof -
  have "validate_event_update p" using assms(3,4) by (simp add: validate_event_update_def)
  then show ?thesis using assms
    by (simp add: update_event_def event_update_stmt_def Let_def owned_event_stmt_def)
qed

theorem null_title_is_a_500_witness:
  "update_event (str_uuid 3) \<lparr>eu_event_date = None, eu_title = Some None, eu_series = None,
     eu_document_id = None, eu_extra = []\<rparr> 1 9 demo_cal = (Inl IntegrityError, demo_cal)"
proof -
  let ?r = "\<lparr>se_event_id = 3, se_user_id = 1, se_event_date = 738000,
     se_title = ''Advent'', se_series = None, se_document_id = None, se_created_at = 0, se_updated_at = 0\<rparr>"
  have own: "owned_event_stmt 3 1 demo_cal = [?r]"
    by (simp add: owned_event_stmt_def select_where_def demo_cal_def)
  have gate: "require_owned_event (str_uuid 3) 1 demo_cal = Inr ?r"
    by (simp add: require_owned_event_def own)
  show ?thesis
    using null_title_is_a_500 [OF gate, of "\<lparr>eu_event_date = None, eu_title = Some None, eu_series = None,
     eu_document_id = None, eu_extra = []\<rparr>" 9] own by (simp add: validate_event_update_def)
qed

text \<open>
  The range query is the half-open interval, sorted, of the caller's rows, and never spans
  more than the cap.
\<close>

theorem range_query:
  "case list_events start stop u d of
     Inl e \<Rightarrow> status_of e = 422 \<and> (is_date start \<and> is_date stop \<and> start \<le> stop \<and> stop - start \<le> 400) = False
   | Inr es \<Rightarrow> stop - start \<le> 400 \<and> sorted (map se_event_date es) \<and>
       set es = {r \<in> set (sermon_events d). se_user_id r = u \<and> start \<le> se_event_date r \<and> se_event_date r < stop}"
  by (auto simp: list_events_def range_stmt_def RANGE_CAP_DAYS_def cal_unprocessable_def)

end
