(* ===== verification/Search_History.thy ===== *)
theory Search_History
  imports Tenancy "HOL-Library.Multiset"
begin

text \<open>
  \<open>api/search_history.py\<close>: saved summary runs with a per-user retention cap. The best-effort
  recorder inserts and prunes in one transaction and swallows every exception of it but a cancellation
  (\<open>history_faults\<close> says what each statement of that transaction raises, if anything); listing ships a preview, the per-id GET the
  stored result, single and bulk deletion are scoped to the caller.
\<close>

definition SEARCH_HISTORY_RETENTION :: nat where "SEARCH_HISTORY_RETENTION = 100"
definition SUMMARY_PREVIEW_CHARS :: nat where "SUMMARY_PREVIEW_CHARS = 280"

record search_history_item =
  hi_history_id :: uuid
  hi_query :: string
  hi_scope_book_ids :: "uuid list"
  hi_scope_collection_ids :: "uuid list"
  hi_summary_preview :: string
  hi_created_at :: timestamp

record search_history_entry =
  he_history_id :: uuid
  he_query :: string
  he_scope_book_ids :: "uuid list"
  he_scope_collection_ids :: "uuid list"
  he_result :: json
  he_created_at :: timestamp

section \<open>Statements\<close>

text \<open>\<open>jsonb_extract_path_text(result, 'summary')\<close>.\<close>

fun summary_text :: "json \<Rightarrow> string option" where
  "summary_text (JObj kvs) =
     (case map_of kvs ''summary'' of
        None \<Rightarrow> None
      | Some JNull \<Rightarrow> None
      | Some (JStr s) \<Rightarrow> Some s
      | Some j \<Rightarrow> Some (dumps j))"
| "summary_text _ = None"

definition newest :: "uuid \<Rightarrow> db \<Rightarrow> search_history_row list" where
  "newest u d = sort_key (\<lambda>r. - sh_created_at r) (select_where (\<lambda>r. sh_user_id r = u) (search_history d))"

definition history_list_stmt :: "uuid \<Rightarrow> db \<Rightarrow> search_history_row list" where
  "history_list_stmt u d = take SEARCH_HISTORY_RETENTION (newest u d)"

definition owned_history_stmt :: "uuid \<Rightarrow> uuid \<Rightarrow> db \<Rightarrow> search_history_row list" where
  "owned_history_stmt i u d = select_where (\<lambda>r. sh_history_id r = i \<and> sh_user_id r = u) (search_history d)"

definition history_delete_stmt :: "uuid \<Rightarrow> uuid \<Rightarrow> db \<Rightarrow> uuid list \<times> db" where
  "history_delete_stmt i u d =
     (let p = (\<lambda>r. sh_history_id r = i \<and> sh_user_id r = u)
      in (map sh_history_id (select_where p (search_history d)),
          d\<lparr>search_history := delete_where p (search_history d)\<rparr>))"

definition clear_all_stmt :: "uuid \<Rightarrow> db \<Rightarrow> db" where
  "clear_all_stmt u d = d\<lparr>search_history := delete_where (\<lambda>r. sh_user_id r = u) (search_history d)\<rparr>"

definition prune_stmt :: "uuid \<Rightarrow> nat \<Rightarrow> db \<Rightarrow> db" where
  "prune_stmt u keep d =
     (let overflow = map sh_history_id (drop keep (newest u d))
      in d\<lparr>search_history := delete_where
            (\<lambda>r. sh_user_id r = u \<and> sh_history_id r \<in> set overflow) (search_history d)\<rparr>)"

section \<open>Recorder and handlers\<close>

definition history_not_found :: py_exn where
  "history_not_found = HTTPException 404 ''Search history entry not found.''"

definition require_owned_history :: "string \<Rightarrow> uuid \<Rightarrow> db \<Rightarrow> search_history_row result" where
  "require_owned_history raw u d =
     (case parse_uuid raw of
        None \<Rightarrow> Inl history_not_found
      | Some i \<Rightarrow>
          (case scalar_one_or_none (owned_history_stmt i u d) of
             Inl e \<Rightarrow> Inl e
           | Inr None \<Rightarrow> Inl history_not_found
           | Inr (Some r) \<Rightarrow> Inr r))"

definition scope_strs :: "uuid list option \<Rightarrow> string list" where
  "scope_strs ids = map str_uuid (case ids of None \<Rightarrow> [] | Some xs \<Rightarrow> xs)"

text \<open>What the flush, the prune, the commit and the rollback raise.\<close>

record history_faults =
  hf_flush :: "py_exn option"
  hf_prune :: "py_exn option"
  hf_commit :: "py_exn option"
  hf_rollback :: "py_exn option"

definition no_faults :: history_faults where
  "no_faults = \<lparr>hf_flush = None, hf_prune = None, hf_commit = None, hf_rollback = None\<rparr>"

text \<open>\<open>except Exception\<close>: \<open>asyncio.CancelledError\<close> is a \<open>BaseException\<close> and passes.\<close>

definition is_exception :: "py_exn \<Rightarrow> bool" where
  "is_exception e \<longleftrightarrow> e \<noteq> CancelledError"

text \<open>The \<open>try\<close> block: the flushed insert (which Postgres may refuse), the prune, the commit.\<close>

definition save_run ::
  "history_faults \<Rightarrow> uuid \<Rightarrow> string \<Rightarrow> uuid list option \<Rightarrow> uuid list option \<Rightarrow> json \<Rightarrow> uuid \<Rightarrow> timestamp \<Rightarrow> db \<Rightarrow> db result" where
  "save_run hf u query books cols res new_id now d =
     (case hf_flush hf of
        Some e \<Rightarrow> Inl e
      | None \<Rightarrow>
          if \<not> (text_storable query \<and> jsonb_storable res) then Inl DataError
          else let inserted = d\<lparr>search_history := search_history d @
                     [\<lparr>sh_history_id = new_id, sh_user_id = u, sh_query = query,
                       sh_scope_book_ids = scope_strs books, sh_scope_collection_ids = scope_strs cols,
                       sh_result = res, sh_created_at = now\<rparr>]\<rparr>
               in case hf_prune hf of
                    Some e \<Rightarrow> Inl e
                  | None \<Rightarrow>
                      (case hf_commit hf of
                         Some e \<Rightarrow> Inl e
                       | None \<Rightarrow> Inr (prune_stmt u SEARCH_HISTORY_RETENTION inserted)))"

definition record_search_history ::
  "history_faults \<Rightarrow> uuid \<Rightarrow> string \<Rightarrow> uuid list option \<Rightarrow> uuid list option \<Rightarrow> json \<Rightarrow> uuid \<Rightarrow> timestamp \<Rightarrow> db \<Rightarrow>
   unit result \<times> db" where
  "record_search_history hf u query books cols res new_id now d =
     (case save_run hf u query books cols res new_id now d of
        Inr d' \<Rightarrow> (Inr (), d')
      | Inl e \<Rightarrow>
          if is_exception e
          then (case hf_rollback hf of
                  Some e' \<Rightarrow> if is_exception e' then (Inr (), d) else (Inl e', d)
                | None \<Rightarrow> (Inr (), d))
          else (Inl e, d))"

lemma record_search_history_db:
  "snd (record_search_history hf u q books cols res i now d) =
     (case save_run hf u q books cols res i now d of Inl _ \<Rightarrow> d | Inr d' \<Rightarrow> d')"
  by (simp add: record_search_history_def split: sum.split option.split)

lemma record_search_history_raises:
  "fst (record_search_history hf u q books cols res i now d) = Inl e \<Longrightarrow> \<not> is_exception e"
  by (auto simp: record_search_history_def split: sum.splits option.splits if_splits)

definition to_item :: "search_history_row \<Rightarrow> search_history_item result" where
  "to_item r =
     (case parse_uuids (sh_scope_book_ids r) of
        Inl e \<Rightarrow> Inl e
      | Inr books \<Rightarrow>
          (case parse_uuids (sh_scope_collection_ids r) of
             Inl e \<Rightarrow> Inl e
           | Inr cols \<Rightarrow>
               Inr \<lparr>hi_history_id = sh_history_id r, hi_query = sh_query r, hi_scope_book_ids = books,
                    hi_scope_collection_ids = cols,
                    hi_summary_preview = take SUMMARY_PREVIEW_CHARS
                      (case summary_text (sh_result r) of None \<Rightarrow> [] | Some s \<Rightarrow> s),
                    hi_created_at = sh_created_at r\<rparr>))"

fun to_items :: "search_history_row list \<Rightarrow> search_history_item list result" where
  "to_items [] = Inr []"
| "to_items (r # rs) =
     (case to_item r of
        Inl e \<Rightarrow> Inl e
      | Inr x \<Rightarrow> (case to_items rs of Inl e \<Rightarrow> Inl e | Inr xs \<Rightarrow> Inr (x # xs)))"

definition list_history :: "uuid \<Rightarrow> db \<Rightarrow> search_history_item list result" where
  "list_history u d = to_items (history_list_stmt u d)"

definition clear_history :: "uuid \<Rightarrow> db \<Rightarrow> unit result \<times> db" where
  "clear_history u d = (Inr (), clear_all_stmt u d)"

definition get_history :: "string \<Rightarrow> uuid \<Rightarrow> db \<Rightarrow> search_history_entry result" where
  "get_history raw u d =
     (case require_owned_history raw u d of
        Inl e \<Rightarrow> Inl e
      | Inr r \<Rightarrow>
          (case parse_uuids (sh_scope_book_ids r) of
             Inl e \<Rightarrow> Inl e
           | Inr books \<Rightarrow>
               (case parse_uuids (sh_scope_collection_ids r) of
                  Inl e \<Rightarrow> Inl e
                | Inr cols \<Rightarrow>
                    Inr \<lparr>he_history_id = sh_history_id r, he_query = sh_query r, he_scope_book_ids = books,
                         he_scope_collection_ids = cols, he_result = sh_result r,
                         he_created_at = sh_created_at r\<rparr>)))"

definition delete_history :: "string \<Rightarrow> uuid \<Rightarrow> db \<Rightarrow> unit result \<times> db" where
  "delete_history raw u d =
     (case parse_uuid raw of
        None \<Rightarrow> (Inl history_not_found, d)
      | Some i \<Rightarrow>
          let (ids, d') = history_delete_stmt i u d
          in case scalar_one_or_none ids of
               Inl e \<Rightarrow> (Inl e, d)
             | Inr None \<Rightarrow> (Inl history_not_found, d)
             | Inr (Some _) \<Rightarrow> (Inr (), d'))"

datatype hist_op =
    HistList
  | HistClear
  | HistGet string
  | HistDelete string
  | HistRecord history_faults string "uuid list option" "uuid list option" json uuid

datatype hist_out =
    HistItems "search_history_item list result"
  | HistEntry "search_history_entry result"
  | HistUnit "unit result"

fun hist_step :: "uuid \<Rightarrow> timestamp \<times> hist_op \<Rightarrow> db \<Rightarrow> hist_out \<times> db" where
  "hist_step u (now, HistList) = (\<lambda>d. (HistItems (list_history u d), d))"
| "hist_step u (now, HistClear) = (\<lambda>d. map_prod HistUnit id (clear_history u d))"
| "hist_step u (now, HistGet raw) = (\<lambda>d. (HistEntry (get_history raw u d), d))"
| "hist_step u (now, HistDelete raw) = (\<lambda>d. map_prod HistUnit id (delete_history raw u d))"
| "hist_step u (now, HistRecord hf q books cols res i) =
     (\<lambda>d. map_prod HistUnit id (record_search_history hf u q books cols res i now d))"

section \<open>Tenant scoping\<close>

lemma hist_stmts_tenant_view [tenant_simps]:
  "newest u (tenant_view u d) = newest u d"
  "history_list_stmt u (tenant_view u d) = history_list_stmt u d"
  "owned_history_stmt i u (tenant_view u d) = owned_history_stmt i u d"
  by (simp_all add: history_list_stmt_def newest_def owned_history_stmt_def tenant_simps)

lemma require_owned_history_tenant_view [tenant_simps]:
  "require_owned_history raw u (tenant_view u d) = require_owned_history raw u d"
  by (simp add: require_owned_history_def tenant_simps cong: option.case_cong)

lemma prune_stmt_tenant_view [tenant_simps]:
  "prune_stmt u k (tenant_view u d) = tenant_view u (prune_stmt u k d)"
  by (simp add: prune_stmt_def tenant_simps)

lemma prune_stmt_frame [tenant_simps]:
  "u \<noteq> w \<Longrightarrow> tenant_view w (prune_stmt u k d) = tenant_view w d"
  by (simp add: prune_stmt_def tenant_simps tenant_frame)

lemma save_run_view:
  "save_run hf u q books cols res i now (tenant_view u d) = map_sum id (tenant_view u) (save_run hf u q books cols res i now d)"
proof -
  let ?row = "\<lparr>sh_history_id = i, sh_user_id = u, sh_query = q, sh_scope_book_ids = scope_strs books,
     sh_scope_collection_ids = scope_strs cols, sh_result = res, sh_created_at = now\<rparr>"
  have ins: "(tenant_view u d)\<lparr>search_history := owned_rows sh_user_id u (search_history d) @ [?row]\<rparr> =
     tenant_view u (d\<lparr>search_history := search_history d @ [?row]\<rparr>)"
    by (simp add: tenant_simps)
  show ?thesis unfolding save_run_def search_history_tenant_view ins prune_stmt_tenant_view Let_def
    by (auto split: option.split)
qed

lemma save_run_frame: "save_run hf u q books cols res i now d = Inr d' \<Longrightarrow> u \<noteq> w \<Longrightarrow> tenant_view w d' = tenant_view w d"
  by (auto simp: save_run_def Let_def tenant_simps split: option.splits if_splits)

lemma record_search_history_scoped:
  "scoped_if P u (record_search_history hf u q books cols res i now)"
proof (rule scopedI)
  show "record_search_history hf u q books cols res i now (tenant_view u d) =
     map_prod id (tenant_view u) (record_search_history hf u q books cols res i now d)" for d
    unfolding record_search_history_def save_run_view by (simp split: sum.split option.split)
  show "tenant_view w (snd (record_search_history hf u q books cols res i now d)) = tenant_view w d"
    if "u \<noteq> w" for d w
    using save_run_frame [OF _ that] by (simp add: record_search_history_db split: sum.split)
qed

lemma delete_history_scoped: "scoped_if P u (delete_history raw u)"
proof (rule scopedI)
  have stmt: "history_delete_stmt i u (tenant_view u d) = map_prod id (tenant_view u) (history_delete_stmt i u d)"
    for i d by (simp add: history_delete_stmt_def tenant_simps)
  have frame: "u \<noteq> w \<Longrightarrow> tenant_view w (snd (history_delete_stmt i u d)) = tenant_view w d"
    for i d w by (simp add: history_delete_stmt_def tenant_simps tenant_frame)
  show "delete_history raw u (tenant_view u d) = map_prod id (tenant_view u) (delete_history raw u d)" for d
    by (simp add: delete_history_def tenant_simps stmt split: sum.split option.split)
  show "tenant_view w (snd (delete_history raw u d)) = tenant_view w d" if "u \<noteq> w" for d w
    using that by (simp add: delete_history_def tenant_simps frame split: sum.split option.split)
qed

lemma clear_history_scoped: "scoped_if P u (clear_history u)"
proof (rule scopedI)
  show "clear_history u (tenant_view u d) = map_prod id (tenant_view u) (clear_history u d)" for d
    by (simp add: clear_history_def clear_all_stmt_def tenant_view_search_history_update
        search_history_tenant_view delete_owned_any)
  show "tenant_view w (snd (clear_history u d)) = tenant_view w d" if "u \<noteq> w" for d w
    using that by (simp add: clear_history_def clear_all_stmt_def tenant_simps tenant_frame)
qed

lemma hist_step_scoped: "scoped_if P u (hist_step u op)"
  by (cases "(u, op)" rule: hist_step.cases)
     (simp_all add: scoped_out scoped_read record_search_history_scoped delete_history_scoped
      clear_history_scoped list_history_def get_history_def tenant_simps)

interpretation hist: tenant_step tenant_view hist_step "\<lambda>_ _. True"
  by (rule scoped_step) (rule hist_step_scoped)

section \<open>Retention\<close>

definition hist_wf :: "db \<Rightarrow> bool" where
  "hist_wf d \<longleftrightarrow> distinct (map sh_history_id (search_history d))"

lemma insort_key_least: "(\<And>y. y \<in> set xs \<Longrightarrow> f x < f y) \<Longrightarrow> insort_key f x xs = x # xs"
  by (cases xs) (auto simp: less_imp_le)

lemma sort_key_snoc_least:
  "\<forall>y \<in> set xs. f x < (f y :: int) \<Longrightarrow> sort_key f (xs @ [x]) = x # sort_key f xs"
  by (induction xs) auto

lemma filter_dropped:
  assumes "distinct (map key L)"
  shows "filter (\<lambda>r. key r \<notin> key ` set (drop k L)) L = take k L"
proof -
  have "distinct (map key (take k L) @ map key (drop k L))"
    using assms by (metis append_take_drop_id map_append)
  then have disj: "key ` set (take k L) \<inter> key ` set (drop k L) = {}" by auto
  have "filter (\<lambda>r. key r \<notin> key ` set (drop k L)) (take k L @ drop k L) = take k L"
    unfolding filter_append using disj by (auto simp: filter_id_conv filter_empty_conv)
  then show ?thesis by simp
qed

lemma newest_prune:
  assumes "hist_wf d"
  shows "newest u (prune_stmt u k d) = take k (newest u d)"
proof -
  let ?L = "newest u d"
  have "mset ?L = mset (filter (\<lambda>r. sh_user_id r = u) (search_history d))"
    by (simp add: newest_def select_where_def)
  then have "mset (map sh_history_id ?L) = mset (map sh_history_id (filter (\<lambda>r. sh_user_id r = u) (search_history d)))"
    by (simp only: mset_map)
  moreover have "distinct (map sh_history_id (filter (\<lambda>r. sh_user_id r = u) (search_history d)))"
    using assms by (simp add: hist_wf_def distinct_map_filter)
  ultimately have dist: "distinct (map sh_history_id ?L)" by (metis mset_eq_imp_distinct_iff)
  have "newest u (prune_stmt u k d) = sort_key (\<lambda>r. - sh_created_at r)
     (filter (\<lambda>r. sh_history_id r \<notin> sh_history_id ` set (drop k ?L)) (filter (\<lambda>r. sh_user_id r = u) (search_history d)))"
    by (simp add: newest_def prune_stmt_def Let_def select_where_def delete_where_def)
       (intro arg_cong [of _ _ "sort_key (\<lambda>r. - sh_created_at r)"] filter_cong, auto)
  also have "\<dots> = filter (\<lambda>r. sh_history_id r \<notin> sh_history_id ` set (drop k ?L)) ?L"
    by (simp add: newest_def select_where_def filter_sort del: filter_filter)
  also have "\<dots> = take k ?L" by (rule filter_dropped [OF dist])
  finally show ?thesis .
qed

section \<open>Properties\<close>

definition demo_history :: db where
  "demo_history = empty_db\<lparr>search_history := [\<lparr>sh_history_id = 4, sh_user_id = 1, sh_query = ''grace'',
     sh_scope_book_ids = [], sh_scope_collection_ids = [], sh_result = JObj [], sh_created_at = 10\<rparr>]\<rparr>"

text \<open>
  Retention. A recording that meets no fault leaves the caller with her newest 100 runs, the new one
  first, in the order the list endpoint shows; it touches no other user's history; and a fault
  anywhere in the transaction, of whatever kind, leaves every table as it was, and unless it is a
  cancellation is not seen by the caller.
\<close>

theorem history_retention:
  assumes wf: "hist_wf d" and new: "i \<notin> sh_history_id ` set (search_history d)"
    and clock: "\<forall>r \<in> set (search_history d). sh_user_id r = u \<longrightarrow> sh_created_at r < now"
    and storable: "text_storable q" "jsonb_storable res"
  shows "\<exists>row d'. sh_query row = q \<and> sh_result row = res \<and> sh_history_id row = i \<and>
     record_search_history no_faults u q books cols res i now d = (Inr (), d') \<and>
     newest u d' = take 100 (row # newest u d) \<and> (\<forall>w. w \<noteq> u \<longrightarrow> newest w d' = newest w d) \<and>
     (is_exception e \<longrightarrow> record_search_history (no_faults\<lparr>hf_commit := Some e\<rparr>) u q books cols res i now d = (Inr (), d))"
proof -
  let ?row = "\<lparr>sh_history_id = i, sh_user_id = u, sh_query = q, sh_scope_book_ids = scope_strs books,
     sh_scope_collection_ids = scope_strs cols, sh_result = res, sh_created_at = now\<rparr>"
  let ?d = "d\<lparr>search_history := search_history d @ [?row]\<rparr>"
  let ?new = "prune_stmt u SEARCH_HISTORY_RETENTION ?d"
  have wf': "hist_wf ?d" using wf new by (auto simp: hist_wf_def)
  have "newest u ?d = sort_key (\<lambda>r. - sh_created_at r) (filter (\<lambda>r. sh_user_id r = u) (search_history d) @ [?row])"
    by (simp add: newest_def select_where_def)
  also have "\<dots> = ?row # newest u d"
    using clock by (subst sort_key_snoc_least) (auto simp: newest_def select_where_def)
  finally have top_row: "newest u ?d = ?row # newest u d" .
  have run: "record_search_history no_faults u q books cols res i now d = (Inr (), ?new)"
    using storable by (simp add: record_search_history_def save_run_def no_faults_def)
  have kept: "newest u ?new = take 100 (?row # newest u d)"
    by (simp add: newest_prune [OF wf'] top_row SEARCH_HISTORY_RETENTION_def)
  have others: "newest w ?new = newest w d" if "w \<noteq> u" for w
    using scopedD(2) [OF record_search_history_scoped [of _ u no_faults q books cols res i now], of w d] that run
      hist_stmts_tenant_view(1) [of w d] hist_stmts_tenant_view(1) [of w ?new]
    by simp
  have "record_search_history (no_faults\<lparr>hf_commit := Some e\<rparr>) u q books cols res i now d = (Inr (), d)" if "is_exception e"
    using that storable by (simp add: record_search_history_def save_run_def no_faults_def)
  with run kept others show ?thesis by (intro exI [of _ ?row] exI [of _ ?new]) simp
qed

theorem history_retention_witness:
  "\<exists>row d'. record_search_history no_faults 1 ''faith'' None None (JObj []) 5 20 demo_history = (Inr (), d') \<and>
     sh_query row = ''faith'' \<and> newest 1 d' = take 100 (row # newest 1 demo_history)"
  using history_retention [of demo_history 5 1 20 "''faith''" "JObj []" None None OSError]
  by (auto simp: demo_history_def hist_wf_def text_storable_def)

end
