(* ===== verification/Retrieval.thy ===== *)
theory Retrieval
  imports Tenancy "HOL-Library.Multiset"
begin

text \<open>
  \<open>worker/retrieval.py\<close>: the dense arm (a filtered vector search, sliced when the library is
  large), the sparse arm's row shaping, and reciprocal-rank fusion over insertion-ordered
  dictionaries (\<^const>\<open>AList.update\<close> is Python's dict assignment). Floating-point scores are
  rationals: orderings and sums are exact, rounding is not modelled. The vector store and the
  full-text query are parameters.
\<close>

datatype meta = MJson json | MScore rat | MCount nat

type_synonym metadata = "(string \<times> meta) list"

record retrieval_hit =
  rh_book_id :: uuid
  rh_chunk_index :: int
  rh_content_chunk :: string
  rh_metadata :: metadata
  rh_score :: rat
  rh_dense_score :: "rat option"
  rh_sparse_score :: "rat option"

type_synonym hit_key = "uuid \<times> int"

definition hkey :: "retrieval_hit \<Rightarrow> hit_key" where
  "hkey h = (rh_book_id h, rh_chunk_index h)"

definition RRF_K :: nat where "RRF_K = 60"
definition DENSE_FANOUT :: nat where "DENSE_FANOUT = 30"
definition SPARSE_FANOUT :: nat where "SPARSE_FANOUT = 30"
definition MILVUS_FILTER_BOOK_ID_CHUNK_DEFAULT :: int where "MILVUS_FILTER_BOOK_ID_CHUNK_DEFAULT = 1000"

text \<open>\<open>raw\<close> is the environment variable \<open>SERMON_MILVUS_FILTER_BOOK_ID_CHUNK\<close>.\<close>

definition default_book_id_chunk :: "string option \<Rightarrow> int" where
  "default_book_id_chunk raw =
     (case raw of
        None \<Rightarrow> MILVUS_FILTER_BOOK_ID_CHUNK_DEFAULT
      | Some s \<Rightarrow>
          (case py_int 10 s of
             None \<Rightarrow> MILVUS_FILTER_BOOK_ID_CHUNK_DEFAULT
           | Some v \<Rightarrow> if 0 < v then v else MILVUS_FILTER_BOOK_ID_CHUNK_DEFAULT))"

section \<open>Dense arm\<close>

definition build_milvus_filter :: "uuid list \<Rightarrow> string result" where
  "build_milvus_filter book_ids =
     (if book_ids = [] then Inl ValueError
      else Inr (''book_id in ['' @ join '', '' (map (\<lambda>b. [CHR 0x22] @ str_uuid b @ [CHR 0x22]) book_ids) @ '']''))"

text \<open>One row of a search reply, and the store: filter expression and limit to reply.\<close>

record milvus_row =
  mr_book_id :: string
  mr_content_chunk :: string
  mr_metadata :: metadata
  mr_distance :: rat

type_synonym milvus = "string \<Rightarrow> nat \<Rightarrow> milvus_row list result"

text \<open>\<open>int(metadata["chunk_index"])\<close>; the numerals of a JSON float, kept as text, are not read.\<close>

fun int_of_meta :: "meta option \<Rightarrow> int result" where
  "int_of_meta None = Inl KeyError"
| "int_of_meta (Some (MJson (JInt i))) = Inr i"
| "int_of_meta (Some (MJson (JBool b))) = Inr (if b then 1 else 0)"
| "int_of_meta (Some (MJson (JStr s))) = (case py_int 10 s of None \<Rightarrow> Inl ValueError | Some i \<Rightarrow> Inr i)"
| "int_of_meta (Some (MJson (JFloat _))) = Inl ValueError"
| "int_of_meta (Some (MJson _)) = Inl TypeError"
| "int_of_meta (Some (MCount n)) = Inr (int n)"
| "int_of_meta (Some (MScore r)) = Inr (if 0 \<le> r then \<lfloor>r\<rfloor> else \<lceil>r\<rceil>)"

definition hit_of_row :: "milvus_row \<Rightarrow> retrieval_hit result" where
  "hit_of_row r =
     (case int_of_meta (map_of (mr_metadata r) ''chunk_index'') of
        Inl e \<Rightarrow> Inl e
      | Inr i \<Rightarrow>
          (case parse_uuid (mr_book_id r) of
             None \<Rightarrow> Inl ValueError
           | Some b \<Rightarrow> Inr \<lparr>rh_book_id = b, rh_chunk_index = i, rh_content_chunk = mr_content_chunk r,
                 rh_metadata = mr_metadata r, rh_score = mr_distance r,
                 rh_dense_score = Some (mr_distance r), rh_sparse_score = None\<rparr>))"

fun hits_of_rows :: "milvus_row list \<Rightarrow> retrieval_hit list result" where
  "hits_of_rows [] = Inr []"
| "hits_of_rows (r # rs) =
     (case hit_of_row r of
        Inl e \<Rightarrow> Inl e
      | Inr h \<Rightarrow> (case hits_of_rows rs of Inl e \<Rightarrow> Inl e | Inr hs \<Rightarrow> Inr (h # hs)))"

definition dense_search_one_chunk :: "milvus \<Rightarrow> uuid list \<Rightarrow> nat \<Rightarrow> retrieval_hit list result" where
  "dense_search_one_chunk client book_ids limit =
     (case build_milvus_filter book_ids of
        Inl e \<Rightarrow> Inl e
      | Inr expr \<Rightarrow> (case client expr limit of Inl e \<Rightarrow> Inl e | Inr rows \<Rightarrow> hits_of_rows rows))"

text \<open>The slices \<open>book_ids[start : start + chunk_size]\<close> for \<open>start\<close> in steps of \<open>chunk_size\<close>.\<close>

function slices :: "nat \<Rightarrow> 'a list \<Rightarrow> 'a list list" where
  "slices n xs = (if n = 0 \<or> xs = [] then [] else take n xs # slices n (drop n xs))"
  by pat_completeness auto
termination by (relation "measure (\<lambda>(n, xs). length xs)") auto

declare slices.simps [simp del]

fun dense_slices :: "milvus \<Rightarrow> nat \<Rightarrow> uuid list list \<Rightarrow> retrieval_hit list \<Rightarrow> retrieval_hit list result" where
  "dense_slices client limit [] merged = Inr merged"
| "dense_slices client limit (ids # rest) merged =
     (case dense_search_one_chunk client ids limit of
        Inl e \<Rightarrow> Inl e
      | Inr hs \<Rightarrow> dense_slices client limit rest (merged @ hs))"

definition dense_search :: "milvus \<Rightarrow> uuid list \<Rightarrow> nat \<Rightarrow> nat \<Rightarrow> retrieval_hit list result" where
  "dense_search client book_ids limit chunk_size =
     (if book_ids = [] then Inl ValueError
      else if length book_ids \<le> chunk_size then dense_search_one_chunk client book_ids limit
      else case dense_slices client limit (slices chunk_size book_ids) [] of
             Inl e \<Rightarrow> Inl e
           | Inr merged \<Rightarrow> Inr (take limit (sort_key (\<lambda>h. - rh_score h) merged)))"

section \<open>Sparse arm\<close>

record bm25_row =
  br_book_id :: uuid
  br_chunk_index :: int
  br_content :: string
  br_parent_section :: "string option"
  br_filename :: string
  br_rank :: rat

definition hit_from_bm25_row :: "bm25_row \<Rightarrow> retrieval_hit" where
  "hit_from_bm25_row r =
     \<lparr>rh_book_id = br_book_id r, rh_chunk_index = br_chunk_index r, rh_content_chunk = br_content r,
      rh_metadata = [(''filename'', MJson (JStr (br_filename r))),
        (''chunk_index'', MJson (JInt (br_chunk_index r))),
        (''parent_section'', MJson (case br_parent_section r of None \<Rightarrow> JNull | Some s \<Rightarrow> JStr s))],
      rh_score = br_rank r, rh_dense_score = None, rh_sparse_score = Some (br_rank r)\<rparr>"

text \<open>
  \<open>_BM25_SQL\<close>: the chunks of the book set that the text query matches with a rank, best first.
  \<open>rank_of query\<close> stands for Postgres' text search: \<open>None\<close> is no match.
\<close>

definition bm25_sql :: "(string \<Rightarrow> chunk_row \<Rightarrow> rat option) \<Rightarrow> string \<Rightarrow> uuid list \<Rightarrow> nat \<Rightarrow> db \<Rightarrow> bm25_row list" where
  "bm25_sql rank_of query book_ids limit d =
     take limit (sort_key (\<lambda>r. - br_rank r)
       (map (\<lambda>c. \<lparr>br_book_id = chk_book_id c, br_chunk_index = chk_chunk_index c, br_content = chk_content c,
                  br_parent_section = chk_parent_section c, br_filename = chk_filename c,
                  br_rank = the (rank_of query c)\<rparr>)
         (select_where (\<lambda>c. rank_of query c \<noteq> None \<and> chk_book_id c \<in> set book_ids) (chunks d))))"

definition bm25_search ::
  "(string \<Rightarrow> chunk_row \<Rightarrow> rat option) \<Rightarrow> string \<Rightarrow> uuid list \<Rightarrow> nat \<Rightarrow> db \<Rightarrow> retrieval_hit list result" where
  "bm25_search rank_of query book_ids limit d =
     (if book_ids = [] then Inl ValueError
      else Inr (map hit_from_bm25_row (bm25_sql rank_of query book_ids limit d)))"

section \<open>Reciprocal rank fusion\<close>

record fuse_state =
  scored :: "(hit_key \<times> rat) list"
  representatives :: "(hit_key \<times> retrieval_hit) list"
  dense_scores :: "(hit_key \<times> rat) list"
  sparse_scores :: "(hit_key \<times> rat) list"

definition dict_get :: "('k \<times> 'v) list \<Rightarrow> 'k \<Rightarrow> 'v \<Rightarrow> 'v" where
  "dict_get d k v = (case map_of d k of None \<Rightarrow> v | Some x \<Rightarrow> x)"

definition setdefault :: "'k \<Rightarrow> 'v \<Rightarrow> ('k \<times> 'v) list \<Rightarrow> ('k \<times> 'v) list" where
  "setdefault k v d = (case map_of d k of None \<Rightarrow> d @ [(k, v)] | Some _ \<Rightarrow> d)"

text \<open>The two loops over \<open>enumerate(arm, start=1)\<close>.\<close>

definition count_hit :: "nat \<Rightarrow> nat \<Rightarrow> retrieval_hit \<Rightarrow> fuse_state \<Rightarrow> fuse_state" where
  "count_hit k rank hit st =
     (let key = hkey hit
      in st\<lparr>scored := AList.update key (dict_get (scored st) key 0 + 1 / of_nat (k + rank)) (scored st),
            representatives := setdefault key hit (representatives st)\<rparr>)"

fun dense_loop :: "nat \<Rightarrow> nat \<Rightarrow> retrieval_hit list \<Rightarrow> fuse_state \<Rightarrow> fuse_state" where
  "dense_loop k rank [] st = st"
| "dense_loop k rank (hit # hs) st =
     (let st' = count_hit k rank hit st
      in dense_loop k (rank + 1) hs
           (case rh_dense_score hit of
              None \<Rightarrow> st'
            | Some s \<Rightarrow> st'\<lparr>dense_scores := AList.update (hkey hit) s (dense_scores st')\<rparr>))"

fun sparse_loop :: "nat \<Rightarrow> nat \<Rightarrow> retrieval_hit list \<Rightarrow> fuse_state \<Rightarrow> fuse_state" where
  "sparse_loop k rank [] st = st"
| "sparse_loop k rank (hit # hs) st =
     (let st' = count_hit k rank hit st
      in sparse_loop k (rank + 1) hs
           (case rh_sparse_score hit of
              None \<Rightarrow> st'
            | Some s \<Rightarrow> st'\<lparr>sparse_scores := AList.update (hkey hit) s (sparse_scores st')\<rparr>))"

definition fuse_loops :: "nat \<Rightarrow> retrieval_hit list \<Rightarrow> retrieval_hit list \<Rightarrow> fuse_state" where
  "fuse_loops k dense sparse = sparse_loop k 1 sparse (dense_loop k 1 dense
     \<lparr>scored = [], representatives = [], dense_scores = [], sparse_scores = []\<rparr>)"

definition rrf_fuse :: "retrieval_hit list \<Rightarrow> retrieval_hit list \<Rightarrow> nat \<Rightarrow> nat \<Rightarrow> retrieval_hit list" where
  "rrf_fuse dense sparse limit k =
     (let st = fuse_loops k dense sparse;
          ranked = sort_key (\<lambda>kv. - snd kv) (scored st)
      in map (\<lambda>(key, rrf_score). (the (map_of (representatives st) key))
                \<lparr>rh_score := rrf_score, rh_dense_score := map_of (dense_scores st) key,
                 rh_sparse_score := map_of (sparse_scores st) key\<rparr>)
           (take limit ranked))"

definition hybrid_search_sync ::
  "milvus \<Rightarrow> (string \<Rightarrow> chunk_row \<Rightarrow> rat option) \<Rightarrow> string \<Rightarrow> uuid list \<Rightarrow> nat \<Rightarrow> nat \<Rightarrow> db \<Rightarrow> retrieval_hit list result" where
  "hybrid_search_sync client rank_of query book_ids limit chunk_size d =
     (case dense_search client book_ids DENSE_FANOUT chunk_size of
        Inl e \<Rightarrow> Inl e
      | Inr dense \<Rightarrow>
          (case bm25_search rank_of query book_ids SPARSE_FANOUT d of
             Inl e \<Rightarrow> Inl e
           | Inr sparse \<Rightarrow> Inr (rrf_fuse dense sparse limit RRF_K)))"

end
