(* ===== verification/Retrieval_Correct.thy ===== *)
theory Retrieval_Correct
  imports Retrieval
begin

text \<open>
  What makes retrieval correct: slicing the filter loses nothing (the sliced dense search has the
  scores of the unsliced one), every hit of either arm lies in the requested book set, and fusion
  computes the reciprocal-rank sums over exactly the chunks the arms returned.
\<close>

section \<open>Merging truncated sorted lists\<close>

lemma take_insort_large:
  fixes zs :: "'a :: linorder list"
  shows "sorted zs \<Longrightarrow> n \<le> length (filter (\<lambda>y. y \<le> x) zs) \<Longrightarrow> take n (insort x zs) = take n zs"
proof (induction zs arbitrary: n)
  case (Cons y ys)
  show ?case
  proof (cases "x \<le> y")
    case False
    then have "n - 1 \<le> length (filter (\<lambda>y. y \<le> x) ys)" using Cons.prems(2) by (simp split: if_splits)
    with Cons False show ?thesis by (cases n) auto
  next
    case True
    show ?thesis
    proof (cases "x = y")
      case eq: True
      have "n - 1 \<le> length (filter (\<lambda>y. y \<le> x) ys)" using Cons.prems(2) eq by simp
      then have "take (n - 1) (insort x ys) = take (n - 1) ys" using Cons by simp
      moreover have "insort x ys = x # ys" using Cons.prems(1) eq by (cases ys) auto
      ultimately show ?thesis using eq True by (cases n) auto
    next
      case False
      then have "filter (\<lambda>y. y \<le> x) (y # ys) = []"
        using True Cons.prems(1) by (auto simp: filter_empty_conv)
      then show ?thesis using Cons.prems(2) by simp
    qed
  qed
qed simp

lemma take_sort_append_large:
  fixes zs :: "'a :: linorder list"
  shows "\<forall>x \<in> set r. n \<le> length (filter (\<lambda>y. y \<le> x) zs) \<Longrightarrow> take n (sort (r @ zs)) = take n (sort zs)"
proof (induction r)
  case (Cons x r)
  have "length (filter (\<lambda>y. y \<le> x) (sort (r @ zs))) = size (filter_mset (\<lambda>y. y \<le> x) (mset (r @ zs)))"
    by (metis mset_filter mset_sort size_mset)
  also have "\<dots> = length (filter (\<lambda>y. y \<le> x) r) + length (filter (\<lambda>y. y \<le> x) zs)"
    by (simp flip: mset_filter)
  finally have "n \<le> length (filter (\<lambda>y. y \<le> x) (sort (r @ zs)))" using Cons.prems by simp
  then have "take n (insort x (sort (r @ zs))) = take n (sort (r @ zs))"
    by (intro take_insort_large) simp_all
  then show ?case using Cons by simp
qed simp

lemma sort_cong_mset: "mset xs = mset ys \<Longrightarrow> sort xs = sort (ys :: 'a :: linorder list)"
  by (metis mset_sort properties_for_sort sorted_sort)

lemma take_sort_left:
  fixes a :: "'a :: linorder list"
  shows "take n (sort (take n (sort a) @ b)) = take n (sort (a @ b))"
proof -
  let ?t = "take n (sort a)" and ?r = "drop n (sort a)"
  have "mset (?r @ ?t @ b) = mset (a @ b)"
    by (metis add.commute append_assoc append_take_drop_id mset_append mset_sort)
  then have all: "sort (a @ b) = sort (?r @ ?t @ b)" by (intro sort_cong_mset) simp
  have "n \<le> length (filter (\<lambda>y. y \<le> x) (?t @ b))" if x: "x \<in> set ?r" for x
  proof -
    have sorted: "sorted (?t @ ?r)" by simp
    then have "\<forall>y \<in> set ?t. y \<le> x" using x unfolding sorted_append by blast
    then have "filter (\<lambda>y. y \<le> x) ?t = ?t" by (simp add: filter_id_conv)
    moreover have "length ?t = n" using x by (cases "n \<le> length (sort a)") auto
    ultimately show ?thesis by simp
  qed
  then have "take n (sort (?r @ ?t @ b)) = take n (sort (?t @ b))" by (intro take_sort_append_large) simp
  then show ?thesis using all by simp
qed

lemma take_sort_right:
  fixes a :: "'a :: linorder list"
  shows "take n (sort (a @ take n (sort b))) = take n (sort (a @ b))"
proof -
  have "sort (a @ take n (sort b)) = sort (take n (sort b) @ a)" "sort (b @ a) = sort (a @ b)"
    by (rule sort_cong_mset, simp)+
  with take_sort_left [of n b a] show ?thesis by simp
qed

text \<open>The best \<open>n\<close> of all pieces are the best \<open>n\<close> of the best \<open>n\<close> of each part.\<close>

lemma take_sort_concat:
  fixes f :: "'x \<Rightarrow> 'a :: linorder list"
  shows "take n (sort (concat (map (\<lambda>x. take n (sort (f x))) xs))) = take n (sort (concat (map f xs)))"
proof (induction xs)
  case (Cons x xs)
  let ?c = "concat (map (\<lambda>x. take n (sort (f x))) xs)" and ?d = "concat (map f xs)"
  have "take n (sort (take n (sort (f x)) @ ?c)) = take n (sort (take n (sort (f x)) @ take n (sort ?c)))"
    by (rule take_sort_right [symmetric])
  also have "\<dots> = take n (sort (take n (sort (f x)) @ ?d))"
    unfolding Cons.IH by (rule take_sort_right)
  also have "\<dots> = take n (sort (f x @ ?d))" by (rule take_sort_left)
  finally show ?case by simp
qed simp

lemma map_sort_key: "map f (sort_key f xs) = sort (map f xs)"
  by (rule properties_for_sort [symmetric]) (metis mset_map mset_sort, simp)

section \<open>Slices\<close>

lemma concat_slices: "0 < n \<Longrightarrow> concat (slices n xs) = xs"
  by (induction n xs rule: slices.induct) (subst slices.simps, auto)

lemma slices_bounds: "s \<in> set (slices n xs) \<Longrightarrow> s \<noteq> [] \<and> length s \<le> n"
proof (induction n xs rule: slices.induct)
  case (1 n xs)
  show ?case
  proof (cases "n = 0 \<or> xs = []")
    case True
    then show ?thesis using 1(2) by (subst (asm) slices.simps) simp
  next
    case False
    then have "slices n xs = take n xs # slices n (drop n xs)" by (subst slices.simps) simp
    then show ?thesis using 1 False by auto
  qed
qed

lemma mset_filter_parts:
  "distinct (concat idss) \<Longrightarrow>
   mset (concat (map (\<lambda>ids. filter (\<lambda>r. g r \<in> set ids) rows) idss)) =
   mset (filter (\<lambda>r. g r \<in> set (concat idss)) rows)"
proof (induction idss)
  case (Cons ids idss)
  have disj: "set ids \<inter> set (concat idss) = {}" using Cons.prems by auto
  have "filter_mset (\<lambda>r. g r \<in> set ids \<union> set (concat idss)) (mset rows) =
        filter_mset (\<lambda>r. g r \<in> set ids) (mset rows) + filter_mset (\<lambda>r. g r \<in> set (concat idss)) (mset rows)"
    using disj by (induction rows) auto
  with Cons show ?case by simp
qed simp

section \<open>The dense arm\<close>

text \<open>
  What Milvus documents of a filtered top-k search, for the book sets \<open>idss\<close>: the best \<open>n\<close> rows
  of the collection whose \<open>book_id\<close> is in the filter.
\<close>

definition matching :: "milvus_row list \<Rightarrow> uuid list \<Rightarrow> milvus_row list" where
  "matching rows ids = filter (\<lambda>r. mr_book_id r \<in> set (map str_uuid ids)) rows"

definition milvus_answers :: "milvus \<Rightarrow> milvus_row list \<Rightarrow> nat \<Rightarrow> uuid list list \<Rightarrow> bool" where
  "milvus_answers client rows n idss \<longleftrightarrow> (\<forall>ids \<in> set idss. \<forall>expr.
     build_milvus_filter ids = Inr expr \<longrightarrow>
     client expr n = Inr (take n (sort_key (\<lambda>r. - mr_distance r) (matching rows ids))))"

definition row_ok :: "milvus_row \<Rightarrow> bool" where
  "row_ok r \<longleftrightarrow> is_ok (hit_of_row r)"

abbreviation hit_of :: "milvus_row \<Rightarrow> retrieval_hit" where
  "hit_of r \<equiv> projr (hit_of_row r)"

lemma hit_of_row_Inr:
  assumes "hit_of_row r = Inr h"
  shows "rh_score h = mr_distance r \<and> parse_uuid (mr_book_id r) = Some (rh_book_id h)"
proof (cases "int_of_meta (map_of (mr_metadata r) ''chunk_index'')")
  case (Inr i)
  then show ?thesis using assms by (cases "parse_uuid (mr_book_id r)") (auto simp: hit_of_row_def)
qed (use assms in \<open>simp add: hit_of_row_def\<close>)

lemma row_ok_hit:
  assumes "row_ok r"
  shows "hit_of_row r = Inr (hit_of r)" and "rh_score (hit_of r) = mr_distance r"
    and "parse_uuid (mr_book_id r) = Some (rh_book_id (hit_of r))"
proof -
  obtain h where h: "hit_of_row r = Inr h" using assms by (cases "hit_of_row r") (auto simp: row_ok_def)
  with hit_of_row_Inr [OF h] show "hit_of_row r = Inr (hit_of r)" "rh_score (hit_of r) = mr_distance r"
    "parse_uuid (mr_book_id r) = Some (rh_book_id (hit_of r))" by simp_all
qed

lemma hits_of_rows_ok: "\<forall>r \<in> set rs. row_ok r \<Longrightarrow> hits_of_rows rs = Inr (map hit_of rs)"
proof (induction rs)
  case (Cons r rs)
  then obtain h where "hit_of_row r = Inr h" by (cases "hit_of_row r") (auto simp: row_ok_def)
  with Cons show ?case by simp
qed simp

definition best_rows :: "milvus_row list \<Rightarrow> nat \<Rightarrow> uuid list \<Rightarrow> milvus_row list" where
  "best_rows rows n ids = take n (sort_key (\<lambda>r. - mr_distance r) (matching rows ids))"

lemma best_rows_matching: "set (best_rows rows n ids) \<subseteq> set (matching rows ids)"
  unfolding best_rows_def by (metis set_sort set_take_subset)

lemma set_matching: "set (matching rows ids) \<subseteq> set rows"
  by (auto simp: matching_def)

lemma one_chunk_answer:
  assumes "milvus_answers client rows n idss" and "ids \<in> set idss" and "ids \<noteq> []" and "\<forall>r \<in> set rows. row_ok r"
  shows "dense_search_one_chunk client ids n = Inr (map hit_of (best_rows rows n ids))"
proof -
  have "\<forall>r \<in> set (best_rows rows n ids). row_ok r"
    using assms(4) best_rows_matching [of rows n ids] set_matching [of rows ids] by blast
  from hits_of_rows_ok [OF this] show ?thesis
    using assms(1-3) by (simp add: dense_search_one_chunk_def build_milvus_filter_def milvus_answers_def best_rows_def)
qed

lemma dense_slices_answer:
  assumes "milvus_answers client rows n idss" and "\<forall>r \<in> set rows. row_ok r"
  shows "set pieces \<subseteq> set idss \<Longrightarrow> [] \<notin> set pieces \<Longrightarrow>
    dense_slices client n pieces merged = Inr (merged @ concat (map (\<lambda>ids. map hit_of (best_rows rows n ids)) pieces))"
proof (induction pieces arbitrary: merged)
  case (Cons ids pieces)
  have "dense_search_one_chunk client ids n = Inr (map hit_of (best_rows rows n ids))"
    by (rule one_chunk_answer [OF assms(1) _ _ assms(2)]) (use Cons.prems in auto)
  then show ?case using Cons by simp
qed simp

lemma best_rows_keys:
  "map (\<lambda>r. - mr_distance r) (best_rows rows n ids) = take n (sort (map (\<lambda>r. - mr_distance r) (matching rows ids)))"
  by (simp add: best_rows_def map_sort_key flip: take_map)

lemma hit_scores:
  "\<forall>r \<in> set rs. row_ok r \<Longrightarrow> map (\<lambda>h. - rh_score h) (map hit_of rs) = map (\<lambda>r. - mr_distance r) rs"
  by (simp add: row_ok_hit(2))

lemma matching_eq: "matching rows = (\<lambda>ids. filter (\<lambda>r. mr_book_id r \<in> str_uuid ` set ids) rows)"
  by (rule ext) (simp add: matching_def)

lemma matching_parts:
  assumes "distinct (concat pieces)"
  shows "mset (concat (map (\<lambda>ids. map k (matching rows ids)) pieces)) = mset (map k (matching rows (concat pieces)))"
proof -
  have inj: "inj_on str_uuid A" for A by (simp add: inj_on_def)
  have "distinct (concat (map (map str_uuid) pieces))"
    using assms by (simp add: map_concat [symmetric] distinct_map inj)
  from mset_filter_parts [OF this, of mr_book_id rows]
  have "mset (concat (map (matching rows) pieces)) = mset (matching rows (concat pieces))"
    by (simp add: matching_eq o_def image_UN image_Union)
  then have "mset (map k (concat (map (matching rows) pieces))) = mset (map k (matching rows (concat pieces)))"
    by (simp only: mset_map)
  then show ?thesis by (simp add: map_concat o_def)
qed

lemma dense_search_answer:
  assumes milvus: "milvus_answers client rows n (book_ids # slices chunk book_ids)"
    and ok: "\<forall>r \<in> set rows. row_ok r" and ids: "distinct book_ids" "book_ids \<noteq> []" and pos: "0 < chunk"
  shows "\<exists>hs. dense_search client book_ids n chunk = Inr hs \<and>
     map rh_score hs = map mr_distance (best_rows rows n book_ids) \<and>
     set hs \<subseteq> hit_of ` set (matching rows book_ids)"
proof (cases "length book_ids \<le> chunk")
  case True
  have rows: "\<forall>r \<in> set (best_rows rows n book_ids). row_ok r"
    using ok best_rows_matching [of rows n book_ids] set_matching [of rows book_ids] by blast
  have "dense_search client book_ids n chunk = Inr (map hit_of (best_rows rows n book_ids))"
    using True ids one_chunk_answer [OF milvus _ ids(2) ok] by (simp add: dense_search_def)
  then show ?thesis using rows best_rows_matching [of rows n book_ids] by (auto simp: row_ok_hit(2))
next
  case False
  let ?pieces = "slices chunk book_ids"
  let ?merged = "concat (map (\<lambda>ids. map hit_of (best_rows rows n ids)) ?pieces)"
  let ?k = "\<lambda>r. - mr_distance r"
  let ?hs = "take n (sort_key (\<lambda>h. - rh_score h) ?merged)"
  have cat: "concat ?pieces = book_ids" using pos by (rule concat_slices)
  have "dense_slices client n ?pieces [] = Inr ([] @ ?merged)"
    using slices_bounds by (intro dense_slices_answer [OF milvus ok]) auto
  then have run: "dense_search client book_ids n chunk = Inr ?hs"
    using False ids by (simp add: dense_search_def)
  have "map (\<lambda>h. - rh_score h) (map hit_of (best_rows rows n ids)) = take n (sort (map ?k (matching rows ids)))" for ids
  proof -
    have "\<forall>r \<in> set (best_rows rows n ids). row_ok r"
      using ok best_rows_matching [of rows n ids] set_matching [of rows ids] by blast
    from hit_scores [OF this] show ?thesis unfolding best_rows_keys .
  qed
  then have "map (\<lambda>h. - rh_score h) ?merged = concat (map (\<lambda>ids. take n (sort (map ?k (matching rows ids)))) ?pieces)"
    by (simp only: map_concat map_map o_def)
  then have "map (\<lambda>h. - rh_score h) ?hs = take n (sort (concat (map (\<lambda>ids. take n (sort (map ?k (matching rows ids)))) ?pieces)))"
    by (simp only: map_sort_key flip: take_map)
  also have "\<dots> = take n (sort (concat (map (\<lambda>ids. map ?k (matching rows ids)) ?pieces)))"
    by (rule take_sort_concat)
  also have "\<dots> = take n (sort (map ?k (matching rows book_ids)))"
    using sort_cong_mset [OF matching_parts [of ?pieces ?k rows]] ids(1) cat by simp
  also have "\<dots> = map ?k (best_rows rows n book_ids)" by (rule best_rows_keys [symmetric])
  finally have "map uminus (map rh_score ?hs) = map uminus (map mr_distance (best_rows rows n book_ids))"
    by (simp add: o_def)
  then have "map rh_score ?hs = map mr_distance (best_rows rows n book_ids)"
    by (rule map_injective) (simp add: inj_def)
  moreover have "set ?hs \<subseteq> set ?merged" by (metis set_sort set_take_subset)
  moreover have "set ?merged \<subseteq> hit_of ` set (matching rows book_ids)"
  proof -
    have "set (matching rows ids) \<subseteq> set (matching rows book_ids)" if "ids \<in> set ?pieces" for ids
    proof -
      have "set ids \<subseteq> set (concat ?pieces)" using that by auto
      then show ?thesis unfolding cat by (auto simp: matching_def)
    qed
    then show ?thesis using best_rows_matching [of rows n] by fastforce
  qed
  ultimately show ?thesis using run by blast
qed

lemma matching_books:
  assumes "r \<in> set (matching rows ids)" and "row_ok r"
  shows "rh_book_id (hit_of r) \<in> set ids"
proof -
  obtain b where "mr_book_id r = str_uuid b" "b \<in> set ids" using assms(1) by (auto simp: matching_def)
  then show ?thesis using row_ok_hit(3) [OF assms(2)] by simp
qed

lemma sparse_books:
  "bm25_search rank_of q ids n d = Inr hs \<Longrightarrow> h \<in> set hs \<Longrightarrow> rh_book_id h \<in> set ids"
  by (auto simp: bm25_search_def bm25_sql_def hit_from_bm25_row_def select_where_def split: if_splits
      dest!: in_set_takeD)

section \<open>Fusion\<close>

text \<open>What one arm contributes to a chunk: \<open>1 / (k + rank)\<close> at each of its positions.\<close>

fun arm_sum :: "nat \<Rightarrow> nat \<Rightarrow> retrieval_hit list \<Rightarrow> hit_key \<Rightarrow> rat" where
  "arm_sum k rank [] key = 0"
| "arm_sum k rank (h # hs) key = (if hkey h = key then 1 / of_nat (k + rank) else 0) + arm_sum k (rank + 1) hs key"

lemma arm_sum_absent: "key \<notin> hkey ` set hs \<Longrightarrow> arm_sum k rank hs key = 0"
  by (induction hs arbitrary: rank) auto

lemma dict_get_update: "dict_get (AList.update key v d) x w = (if x = key then v else dict_get d x w)"
  by (simp add: dict_get_def update_conv)

lemma map_of_setdefault:
  "map_of (setdefault key v d) x = (case map_of d x of None \<Rightarrow> if x = key then Some v else None | Some y \<Rightarrow> Some y)"
  by (auto simp: setdefault_def map_add_def split: option.splits)

lemma setdefault_keys:
  "map fst (setdefault key v d) = map fst d @ (if key \<in> fst ` set d then [] else [key])"
  by (auto simp: setdefault_def map_of_eq_None_iff split: option.split) (force dest: map_of_SomeD)+

text \<open>The first hit of a list with a given key.\<close>

definition first_hit :: "retrieval_hit list \<Rightarrow> hit_key \<Rightarrow> retrieval_hit option" where
  "first_hit hs key = find (\<lambda>h. hkey h = key) hs"

text \<open>
  One arm's loop, both arms at once: \<open>loop\<close> is either of them, which differ in the dictionary of
  per-arm scores only.
\<close>

lemma count_hit_fields [simp]:
  "dense_scores (count_hit k rank h st) = dense_scores st"
  "sparse_scores (count_hit k rank h st) = sparse_scores st"
  "scored (count_hit k rank h st) = AList.update (hkey h) (dict_get (scored st) (hkey h) 0 + 1 / of_nat (k + rank)) (scored st)"
  "representatives (count_hit k rank h st) = setdefault (hkey h) h (representatives st)"
  by (simp_all add: count_hit_def Let_def)

fun count_loop :: "nat \<Rightarrow> nat \<Rightarrow> retrieval_hit list \<Rightarrow> fuse_state \<Rightarrow> fuse_state" where
  "count_loop k rank [] st = st"
| "count_loop k rank (h # hs) st = count_loop k (rank + 1) hs (count_hit k rank h st)"

lemma count_hit_arm_update [simp]:
  "scored (st\<lparr>dense_scores := x\<rparr>) = scored st" "representatives (st\<lparr>dense_scores := x\<rparr>) = representatives st"
  "scored (st\<lparr>sparse_scores := x\<rparr>) = scored st" "representatives (st\<lparr>sparse_scores := x\<rparr>) = representatives st"
  by simp_all

lemma count_loop_cong:
  "scored st = scored st' \<Longrightarrow> representatives st = representatives st' \<Longrightarrow>
   scored (count_loop k rank hs st) = scored (count_loop k rank hs st') \<and>
   representatives (count_loop k rank hs st) = representatives (count_loop k rank hs st')"
  by (induction hs arbitrary: rank st st') simp_all

lemma dense_loop_counts:
  "scored (dense_loop k rank hs st) = scored (count_loop k rank hs st) \<and>
   representatives (dense_loop k rank hs st) = representatives (count_loop k rank hs st)"
proof (induction hs arbitrary: rank st)
  case (Cons h hs)
  show ?case
    by (cases "rh_dense_score h") (simp_all add: Let_def Cons.IH count_loop_cong)
qed simp

lemma sparse_loop_counts:
  "scored (sparse_loop k rank hs st) = scored (count_loop k rank hs st) \<and>
   representatives (sparse_loop k rank hs st) = representatives (count_loop k rank hs st)"
proof (induction hs arbitrary: rank st)
  case (Cons h hs)
  show ?case
    by (cases "rh_sparse_score h") (simp_all add: Let_def Cons.IH count_loop_cong)
qed simp

lemma count_loop_get:
  "dict_get (scored (count_loop k rank hs st)) key 0 = dict_get (scored st) key 0 + arm_sum k rank hs key"
  by (induction hs arbitrary: rank st) (simp_all add: dict_get_update)

lemma count_loop_keys:
  "fst ` set (scored (count_loop k rank hs st)) = fst ` set (scored st) \<union> hkey ` set hs"
proof (induction hs arbitrary: rank st)
  case (Cons h hs)
  have "fst ` set (AList.update key v d) = insert key (fst ` set d)" for key v and d :: "(hit_key \<times> rat) list"
    using dom_update [of key v d] by (simp add: dom_map_of_conv_image_fst)
  then show ?case by (simp add: Cons.IH)
qed simp

lemma count_loop_distinct:
  "distinct (map fst (scored st)) \<Longrightarrow> distinct (map fst (scored (count_loop k rank hs st)))"
  by (induction hs arbitrary: rank st) (simp_all add: distinct_update)

lemma count_loop_reps:
  "map_of (representatives (count_loop k rank hs st)) key =
     (case map_of (representatives st) key of None \<Rightarrow> first_hit hs key | Some h \<Rightarrow> Some h)"
proof (induction hs arbitrary: rank st)
  case Nil
  then show ?case by (simp add: first_hit_def split: option.split)
next
  case (Cons h hs)
  show ?case by (auto simp: Cons.IH map_of_setdefault first_hit_def split: option.split)
qed

lemma first_hit_append:
  "first_hit (xs @ ys) key = (case first_hit xs key of None \<Rightarrow> first_hit ys key | Some h \<Rightarrow> Some h)"
  by (induction xs) (simp_all add: first_hit_def)

lemma first_hit_Some: "first_hit hs key = Some h \<Longrightarrow> h \<in> set hs \<and> hkey h = key"
  by (auto simp: first_hit_def find_Some_iff)

lemma first_hit_exists: "key \<in> hkey ` set hs \<Longrightarrow> \<exists>h. first_hit hs key = Some h"
  by (cases "first_hit hs key") (auto simp: first_hit_def find_None_iff)

abbreviation total_score :: "nat \<Rightarrow> retrieval_hit list \<Rightarrow> retrieval_hit list \<Rightarrow> hit_key \<Rightarrow> rat" where
  "total_score k dense sparse key \<equiv> arm_sum k 1 dense key + arm_sum k 1 sparse key"

lemma fuse_loops_scored:
  fixes dense sparse k
  defines "A \<equiv> scored (fuse_loops k dense sparse)"
  shows "distinct (map fst A)" and "fst ` set A = hkey ` set (dense @ sparse)"
    and "(key, v) \<in> set A \<Longrightarrow> v = total_score k dense sparse key"
    and "map_of (representatives (fuse_loops k dense sparse)) key = first_hit (dense @ sparse) key"
proof -
  let ?init = "\<lparr>scored = [], representatives = [], dense_scores = [], sparse_scores = []\<rparr>"
  let ?st = "dense_loop k 1 dense ?init"
  have A: "A = scored (count_loop k 1 sparse ?st)"
    using sparse_loop_counts by (simp add: A_def fuse_loops_def)
  have S: "scored ?st = scored (count_loop k 1 dense ?init)"
    "representatives ?st = representatives (count_loop k 1 dense ?init)"
    using dense_loop_counts by auto
  show dist: "distinct (map fst A)" unfolding A
    by (rule count_loop_distinct, unfold S, rule count_loop_distinct) simp
  show "fst ` set A = hkey ` set (dense @ sparse)"
    unfolding A count_loop_keys S by (simp add: image_Un)
  have "dict_get A key 0 = total_score k dense sparse key"
    unfolding A count_loop_get S by (simp add: dict_get_def)
  then show "v = total_score k dense sparse key" if "(key, v) \<in> set A"
    using dist that by (simp add: dict_get_def)
  show "map_of (representatives (fuse_loops k dense sparse)) key = first_hit (dense @ sparse) key"
    using sparse_loop_counts [of k 1 sparse ?st]
    unfolding fuse_loops_def by (simp only: count_loop_reps S) (simp add: first_hit_append split: option.split)
qed

lemma sorted_take_bound:
  assumes "x \<in> set (take n (sort_key f xs))" and "y \<in> set xs" and "y \<notin> set (take n (sort_key f xs))"
  shows "f x \<le> (f y :: 'b :: linorder)"
proof -
  have "sorted (map f (take n (sort_key f xs)) @ map f (drop n (sort_key f xs)))"
    by (metis append_take_drop_id map_append sorted_sort_key)
  moreover have "y \<in> set (drop n (sort_key f xs))"
    using assms(2,3) by (metis Un_iff append_take_drop_id set_append set_sort)
  ultimately show ?thesis using assms(1) by (auto simp: sorted_append)
qed

lemma rrf_fuse_correct:
  fixes dense sparse limit k
  defines "out \<equiv> rrf_fuse dense sparse limit k"
  shows "distinct (map hkey out)"
    and "length out = min limit (card (hkey ` set (dense @ sparse)))"
    and "sorted (map (\<lambda>h. - rh_score h) out)"
    and "h \<in> set out \<Longrightarrow> rh_score h = total_score k dense sparse (hkey h) \<and>
       (\<exists>h0. first_hit (dense @ sparse) (hkey h) = Some h0 \<and>
             rh_content_chunk h = rh_content_chunk h0 \<and> rh_metadata h = rh_metadata h0)"
    and "key \<in> hkey ` set (dense @ sparse) \<Longrightarrow> key \<notin> hkey ` set out \<Longrightarrow> h \<in> set out \<Longrightarrow>
       total_score k dense sparse key \<le> rh_score h"
proof -
  let ?st = "fuse_loops k dense sparse"
  let ?neg = "\<lambda>kv :: hit_key \<times> rat. - snd kv"
  let ?T = "take limit (sort_key ?neg (scored ?st))"
  define mk where "mk = (\<lambda>(key, rrf_score). (the (map_of (representatives ?st) key))
     \<lparr>rh_score := rrf_score, rh_dense_score := map_of (dense_scores ?st) key,
      rh_sparse_score := map_of (sparse_scores ?st) key\<rparr>)"
  note A = fuse_loops_scored [where k = k and dense = dense and sparse = sparse]
  have out: "out = map mk ?T" by (simp add: out_def rrf_fuse_def mk_def Let_def)
  have T_sub: "set ?T \<subseteq> set (scored ?st)" by (metis set_sort set_take_subset)
  have key: "hkey (mk kv) = fst kv \<and> rh_score (mk kv) = snd kv \<and>
      (\<exists>h0. first_hit (dense @ sparse) (fst kv) = Some h0 \<and>
        rh_content_chunk (mk kv) = rh_content_chunk h0 \<and> rh_metadata (mk kv) = rh_metadata h0)"
    if "kv \<in> set (scored ?st)" for kv
  proof -
    have "fst kv \<in> hkey ` set (dense @ sparse)" using A(2) that by blast
    from first_hit_exists [OF this] obtain h0 where h0: "first_hit (dense @ sparse) (fst kv) = Some h0" by blast
    then show ?thesis using first_hit_Some [OF h0]
      by (simp add: mk_def case_prod_beta A(4) hkey_def)
  qed
  have keys: "map hkey out = map fst ?T" using key T_sub by (auto simp: out)
  have "distinct (map fst (sort_key ?neg (scored ?st)))"
    using A(1) by (simp add: distinct_map)
  then show "distinct (map hkey out)" unfolding keys by (simp add: take_map [symmetric])
  have "card (hkey ` set (dense @ sparse)) = length (scored ?st)"
    unfolding A(2) [symmetric] using A(1) by (metis distinct_card length_map list.set_map)
  then show "length out = min limit (card (hkey ` set (dense @ sparse)))" by (simp add: out)
  have scores: "map (\<lambda>h. - rh_score h) out = map ?neg ?T" using key T_sub by (auto simp: out)
  have "sorted (map ?neg (sort_key ?neg (scored ?st)))" by (rule sorted_sort_key)
  then show "sorted (map (\<lambda>h. - rh_score h) out)" unfolding scores
    by (simp add: take_map [symmetric] sorted_wrt_take)
  have elem: "\<exists>kv. kv \<in> set ?T \<and> h = mk kv" if "h \<in> set out" for h using that by (auto simp: out)
  show "rh_score h = total_score k dense sparse (hkey h) \<and>
       (\<exists>h0. first_hit (dense @ sparse) (hkey h) = Some h0 \<and>
             rh_content_chunk h = rh_content_chunk h0 \<and> rh_metadata h = rh_metadata h0)" if "h \<in> set out"
  proof -
    obtain kv where kv: "kv \<in> set ?T" "h = mk kv" using elem [OF \<open>h \<in> set out\<close>] by blast
    then have mem: "kv \<in> set (scored ?st)" using T_sub by blast
    then show ?thesis using key [OF mem] A(3) [of "fst kv" "snd kv"] kv by auto
  qed
  show "total_score k dense sparse key \<le> rh_score h"
    if a: "key \<in> hkey ` set (dense @ sparse)" and b: "key \<notin> hkey ` set out" and c: "h \<in> set out"
  proof -
    obtain kv where kv: "kv \<in> set ?T" "h = mk kv" using elem [OF c] by blast
    have "key \<in> fst ` set (scored ?st)" using a unfolding A(2) .
    then obtain v where v: "(key, v) \<in> set (scored ?st)" by auto
    have "key \<notin> fst ` set ?T" using b arg_cong [OF keys, of set] by simp
    then have "(key, v) \<notin> set ?T" by force
    from sorted_take_bound [OF kv(1) v this] have "v \<le> snd kv" by simp
    moreover have "kv \<in> set (scored ?st)" using kv(1) T_sub by blast
    ultimately show ?thesis using key [of kv] kv(2) A(3) [OF v] by simp
  qed
qed

section \<open>Properties\<close>

definition demo_row :: "uuid \<Rightarrow> rat \<Rightarrow> milvus_row" where
  "demo_row b x = \<lparr>mr_book_id = str_uuid b, mr_content_chunk = ''text'',
     mr_metadata = [(''chunk_index'', MJson (JInt 0))], mr_distance = x\<rparr>"

definition demo_rows :: "milvus_row list" where
  "demo_rows = [demo_row 1 (1/2), demo_row 2 (3/4)]"

definition demo_filter :: "uuid list \<Rightarrow> string" where
  "demo_filter ids = projr (build_milvus_filter ids)"

definition demo_client :: milvus where
  "demo_client expr n = Inr (take n (sort_key (\<lambda>r. - mr_distance r) (matching demo_rows
     (if expr = demo_filter [1] then [1] else if expr = demo_filter [2] then [2] else [1, 2]))))"

lemma length_str_uuid: "length (str_uuid u) = 36"
  by (simp add: str_uuid_def Let_def)

lemma demo_filters: "demo_filter [1, 2] \<noteq> demo_filter [1]" "demo_filter [1, 2] \<noteq> demo_filter [2]"
  "demo_filter [1] \<noteq> demo_filter [2]" "demo_filter [2] \<noteq> demo_filter [1]"
proof -
  have "length (demo_filter [1, 2]) = 91" "length (demo_filter [1]) = 51" "length (demo_filter [2]) = 51"
    by (simp_all add: demo_filter_def build_milvus_filter_def length_str_uuid)
  then show "demo_filter [1, 2] \<noteq> demo_filter [1]" "demo_filter [1, 2] \<noteq> demo_filter [2]" by auto
  show "demo_filter [1] \<noteq> demo_filter [2]" "demo_filter [2] \<noteq> demo_filter [1]"
    by (simp_all add: demo_filter_def build_milvus_filter_def)
qed

lemma demo_slices: "slices 1 [1 :: uuid, 2] = [[1], [2]]"
  by (subst slices.simps, simp, subst slices.simps, simp, subst slices.simps, simp)

lemma demo_client_answers: "milvus_answers demo_client demo_rows 5 ([1, 2] # slices 1 [1, 2])"
  unfolding demo_slices milvus_answers_def
  using demo_filters by (auto simp: demo_client_def demo_filter_def)

lemma demo_rows_ok: "\<forall>r \<in> set demo_rows. row_ok r"
  by (simp add: demo_rows_def demo_row_def row_ok_def hit_of_row_def)

text \<open>
  C4: slicing the filter loses nothing. Against a store that answers each filtered search with
  its best \<open>n\<close> matching rows, the sliced search over a large library returns hits with exactly the
  scores of the one unsliced search over the whole library, all from the requested books.
\<close>

theorem dense_slicing_lossless:
  assumes "milvus_answers client rows n (book_ids # slices chunk book_ids)"
    and "\<forall>r \<in> set rows. row_ok r" and "distinct book_ids" "book_ids \<noteq> []" and "0 < chunk"
  shows "\<exists>hs whole. dense_search client book_ids n chunk = Inr hs \<and>
     dense_search_one_chunk client book_ids n = Inr whole \<and>
     map rh_score hs = map rh_score whole \<and> rh_book_id ` set hs \<subseteq> set book_ids"
proof -
  obtain hs where hs: "dense_search client book_ids n chunk = Inr hs"
    "map rh_score hs = map mr_distance (best_rows rows n book_ids)"
    "set hs \<subseteq> hit_of ` set (matching rows book_ids)"
    using dense_search_answer [OF assms] by blast
  have rows: "\<forall>r \<in> set (best_rows rows n book_ids). row_ok r"
    using assms(2) best_rows_matching [of rows n book_ids] set_matching [of rows book_ids] by blast
  have "dense_search_one_chunk client book_ids n = Inr (map hit_of (best_rows rows n book_ids))"
    by (rule one_chunk_answer [OF assms(1) _ assms(4,2)]) simp
  moreover have "map rh_score hs = map rh_score (map hit_of (best_rows rows n book_ids))"
    using hs(2) rows by (simp add: row_ok_hit(2))
  moreover have "rh_book_id ` set hs \<subseteq> set book_ids"
    using hs(3) matching_books [of _ rows book_ids] set_matching [of rows book_ids] assms(2) by blast
  ultimately show ?thesis using hs(1) by blast
qed

theorem dense_slicing_lossless_witness:
  "\<exists>hs whole. dense_search demo_client [1, 2] 5 1 = Inr hs \<and>
     dense_search_one_chunk demo_client [1, 2] 5 = Inr whole \<and>
     map rh_score hs = map rh_score whole \<and> rh_book_id ` set hs \<subseteq> set [1, 2]"
  by (rule dense_slicing_lossless [OF demo_client_answers demo_rows_ok]) simp_all

text \<open>
  C3: reciprocal-rank fusion. Over arms of any length, duplicates included, the fused list has one
  hit per chunk key, as many as the arms have keys up to the limit, best first; each carries the
  text and metadata of the key's first occurrence (dense before sparse) and the exact sum of
  \<open>1 / (k + rank)\<close> over its positions in both arms; and no key left out scores higher than one kept.
\<close>

theorem rrf_fuse_spec:
  "distinct (map hkey (rrf_fuse dense sparse limit k)) \<and>
   length (rrf_fuse dense sparse limit k) = min limit (card (hkey ` set (dense @ sparse))) \<and>
   sorted (map (\<lambda>h. - rh_score h) (rrf_fuse dense sparse limit k)) \<and>
   (\<forall>h \<in> set (rrf_fuse dense sparse limit k).
      rh_score h = arm_sum k 1 dense (hkey h) + arm_sum k 1 sparse (hkey h) \<and>
      (\<exists>h0. first_hit (dense @ sparse) (hkey h) = Some h0 \<and>
            rh_content_chunk h = rh_content_chunk h0 \<and> rh_metadata h = rh_metadata h0) \<and>
      (\<forall>key \<in> hkey ` set (dense @ sparse) - hkey ` set (rrf_fuse dense sparse limit k).
         arm_sum k 1 dense key + arm_sum k 1 sparse key \<le> rh_score h))"
  using rrf_fuse_correct(1,2,3) [of dense sparse limit k] rrf_fuse_correct(4,5) [where dense = dense
      and sparse = sparse and limit = limit and k = k] by simp

definition demo_hit :: "uuid \<Rightarrow> retrieval_hit" where
  "demo_hit b = \<lparr>rh_book_id = b, rh_chunk_index = 0, rh_content_chunk = ''text'', rh_metadata = [],
     rh_score = 0, rh_dense_score = None, rh_sparse_score = None\<rparr>"

theorem rrf_fuse_spec_witness:
  "length (rrf_fuse [demo_hit 1, demo_hit 2] [demo_hit 2] 10 60) = 2 \<and>
   list_all (\<lambda>h. rh_score h = (if hkey h = (2, 0) then 1 / 62 + 1 / 61 else 1 / 61))
     (rrf_fuse [demo_hit 1, demo_hit 2] [demo_hit 2] 10 60)"
proof -
  have k: "hkey (demo_hit b) = (b, 0)" for b by (simp add: hkey_def demo_hit_def)
  have keys: "hkey ` set ([demo_hit 1, demo_hit 2] @ [demo_hit 2]) = {(1, 0), (2, 0)}" by (auto simp: k)
  note spec = rrf_fuse_spec [of "[demo_hit 1, demo_hit 2]" "[demo_hit 2]" 10 60]
  have "hkey h \<in> {(1, 0), (2, 0)}" if "h \<in> set (rrf_fuse [demo_hit 1, demo_hit 2] [demo_hit 2] 10 60)" for h
  proof -
    from spec that obtain h0 where "first_hit ([demo_hit 1, demo_hit 2] @ [demo_hit 2]) (hkey h) = Some h0" by blast
    note found = first_hit_Some [OF this]
    have "hkey h \<in> hkey ` set ([demo_hit 1, demo_hit 2] @ [demo_hit 2])"
      using found by (intro image_eqI [of _ _ h0]) simp_all
    then show ?thesis unfolding keys .
  qed
  moreover have "rh_score h = arm_sum 60 1 [demo_hit 1, demo_hit 2] (hkey h) + arm_sum 60 1 [demo_hit 2] (hkey h)"
    if "h \<in> set (rrf_fuse [demo_hit 1, demo_hit 2] [demo_hit 2] 10 60)" for h using spec that by blast
  ultimately have "list_all (\<lambda>h. rh_score h = (if hkey h = (2, 0) then 1 / 62 + 1 / 61 else 1 / 61))
     (rrf_fuse [demo_hit 1, demo_hit 2] [demo_hit 2] 10 60)"
    unfolding list_all_iff by (intro ballI) (force simp: k)
  moreover have "length (rrf_fuse [demo_hit 1, demo_hit 2] [demo_hit 2] 10 60) = 2"
    using conjunct1 [OF conjunct2 [OF spec]] unfolding keys by simp
  ultimately show ?thesis by blast
qed

end
