(* ===== verification/Ranking.thy ===== *)
theory Ranking
  imports Retrieval "HOL-Library.Product_Lexorder"
begin

text \<open>
  The post-retrieval stages: \<open>api/rerank.py\<close> (re-order by remote relevance scores, ties in input
  order) and \<open>api/highlight.py\<close> (split into sentences, score all of them in one batched call,
  drop those below the threshold, walk the flat score list back over the hits with a cursor).
  The two remote models are parameters. Both stages fulfil the locale \<open>scoped_stage\<close>: they never
  introduce a chunk that retrieval had not returned.
\<close>

section \<open>The contract of a post-retrieval stage\<close>

locale scoped_stage =
  fixes stage :: "retrieval_hit list \<Rightarrow> retrieval_hit list result"
  assumes keys_kept: "stage hs = Inr out \<Longrightarrow> hkey ` set out \<subseteq> hkey ` set hs"
begin

lemma books_kept:
  assumes "stage hs = Inr out" and "\<forall>h \<in> set hs. rh_book_id h \<in> B" and "h \<in> set out"
  shows "rh_book_id h \<in> B"
proof -
  have "hkey h \<in> hkey ` set hs" using keys_kept [OF assms(1)] assms(3) by blast
  then obtain h' where "h' \<in> set hs" "rh_book_id h' = rh_book_id h" by (auto simp: hkey_def)
  then show ?thesis using assms(2) by metis
qed

text \<open>Falling back to (a prefix of) the input on an error keeps the contract.\<close>

lemma fallback_books:
  assumes "\<forall>h \<in> set hs. rh_book_id h \<in> B" and "set dflt \<subseteq> set hs"
    and "h \<in> set (case stage hs of Inl e \<Rightarrow> dflt | Inr out \<Rightarrow> out)"
  shows "rh_book_id h \<in> B"
proof (cases "stage hs")
  case (Inl e)
  then show ?thesis using assms by auto
next
  case (Inr out)
  then show ?thesis using books_kept [OF Inr assms(1)] assms(3) by simp
qed

end

section \<open>Rerank\<close>

definition RERANK_FANOUT :: nat where "RERANK_FANOUT = 30"

definition rerank ::
  "(string \<Rightarrow> string list \<Rightarrow> rat list result) \<Rightarrow> string \<Rightarrow> nat \<Rightarrow> retrieval_hit list \<Rightarrow> retrieval_hit list result" where
  "rerank rerank_scores query top_n hits =
     (if hits = [] then Inr []
      else case rerank_scores query (map rh_content_chunk hits) of
        Inl e \<Rightarrow> Inl e
      | Inr scores \<Rightarrow>
          if length scores \<noteq> length hits then Inl ValueError
          else let ranked = sort_key (\<lambda>item. (- fst (snd item), fst item)) (enumerate 0 (zip scores hits))
               in Inr (map (\<lambda>(_, score, hit). hit\<lparr>rh_score := score,
                         rh_metadata := AList.update ''rrf_score'' (MScore (rh_score hit)) (rh_metadata hit)\<rparr>)
                       (take top_n ranked)))"

section \<open>Highlight\<close>

definition HIGHLIGHT_THRESHOLD :: rat where "HIGHLIGHT_THRESHOLD = 1 / 2"

text \<open>The characters the boundary's look-ahead admits (those below 256).\<close>

definition sentence_opener :: "char \<Rightarrow> bool" where
  "sentence_opener c = (let n = of_char c :: nat in
     (65 \<le> n \<and> n \<le> 90) \<or> n = 34 \<or> n = 39)"

text \<open>
  \<open>_SENTENCE_BOUNDARY.split\<close>: a split at a maximal whitespace run that follows one of \<open>.!?\<close> and
  precedes an opener. \<open>cur\<close> is the part being collected.
\<close>

function boundary_split :: "string \<Rightarrow> string \<Rightarrow> string list" where
  "boundary_split cur [] = [cur]"
| "boundary_split cur (c # cs) =
     (let rest = dropWhile is_space cs
      in if cur \<noteq> [] \<and> last cur \<in> set ''.!?'' \<and> is_space c \<and> rest \<noteq> [] \<and> sentence_opener (hd rest)
         then cur # boundary_split [] rest
         else boundary_split (cur @ [c]) cs)"
  by pat_completeness auto
termination
  by (relation "measure (\<lambda>(cur, s). length s)") (auto simp: less_Suc_eq_le length_dropWhile_le)

definition split_sentences :: "string \<Rightarrow> string list" where
  "split_sentences text =
     (let stripped = py_strip text
      in if stripped = [] then []
         else filter (\<lambda>p. p \<noteq> []) (map py_strip (boundary_split [] stripped)))"

definition dot :: "rat list \<Rightarrow> rat list \<Rightarrow> rat" where
  "dot xs ys = sum_list (map (\<lambda>(x, y). x * y) (zip xs ys))"

definition note_sentences :: "nat \<Rightarrow> nat \<Rightarrow> metadata \<Rightarrow> metadata" where
  "note_sentences kept n_sents m =
     AList.update ''sentences_total'' (MCount n_sents) (AList.update ''sentences_kept'' (MCount kept) m)"

text \<open>The pruning loop; \<open>scores\<close> is the score list from the cursor on.\<close>

fun prune_loop ::
  "rat \<Rightarrow> retrieval_hit list \<Rightarrow> string list list \<Rightarrow> rat list \<Rightarrow> retrieval_hit list \<Rightarrow> retrieval_hit list result" where
  "prune_loop threshold [] [] scores pruned = Inr pruned"
| "prune_loop threshold (hit # hits) (sentences # rest) scores pruned =
     (let n_sents = length sentences
      in if n_sents = 0
         then prune_loop threshold hits rest scores
                (pruned @ [hit\<lparr>rh_metadata := note_sentences 0 0 (rh_metadata hit)\<rparr>])
         else if length (take n_sents scores) \<noteq> n_sents then Inl ValueError
         else let kept = map fst (filter (\<lambda>(_, score). threshold \<le> score) (zip sentences (take n_sents scores)))
              in if kept = [] then prune_loop threshold hits rest (drop n_sents scores) pruned
                 else prune_loop threshold hits rest (drop n_sents scores)
                        (pruned @ [hit\<lparr>rh_content_chunk := join '' '' kept,
                           rh_metadata := note_sentences (length kept) n_sents (rh_metadata hit)\<rparr>]))"
| "prune_loop threshold _ _ scores pruned = Inl ValueError"

definition highlight ::
  "(string list \<Rightarrow> rat list list result) \<Rightarrow> string \<Rightarrow> rat \<Rightarrow> retrieval_hit list \<Rightarrow> retrieval_hit list result" where
  "highlight embed_texts query threshold hits =
     (if hits = [] then Inr []
      else let per_hit_sentences = map (\<lambda>h. split_sentences (rh_content_chunk h)) hits;
               all_sentences = concat per_hit_sentences
           in if all_sentences = []
              then Inr (map (\<lambda>hit. hit\<lparr>rh_metadata := note_sentences 0 0 (rh_metadata hit)\<rparr>) hits)
              else case embed_texts (query # all_sentences) of
                Inl e \<Rightarrow> Inl e
              | Inr [] \<Rightarrow> Inl IndexError
              | Inr (query_vec # sentence_vecs) \<Rightarrow>
                  prune_loop threshold hits per_hit_sentences (map (\<lambda>v. dot v query_vec) sentence_vecs) [])"

section \<open>Both stages fulfil the contract\<close>

lemma hkey_updates [simp]:
  "hkey (h\<lparr>rh_score := s\<rparr>) = hkey h" "hkey (h\<lparr>rh_metadata := m\<rparr>) = hkey h"
  "hkey (h\<lparr>rh_content_chunk := t\<rparr>) = hkey h"
  by (simp_all add: hkey_def)

lemma rerank_keys:
  assumes "rerank scorer query top_n hits = Inr out"
  shows "hkey ` set out \<subseteq> hkey ` set hits"
proof (cases "hits = []")
  case True
  then show ?thesis using assms by (simp add: rerank_def)
next
  case False
  then obtain scores where sc: "length scores = length hits" and
    out: "out = map (\<lambda>(_, score, hit). hit\<lparr>rh_score := score,
           rh_metadata := AList.update ''rrf_score'' (MScore (rh_score hit)) (rh_metadata hit)\<rparr>)
         (take top_n (sort_key (\<lambda>item. (- fst (snd item), fst item)) (enumerate 0 (zip scores hits))))"
    using assms by (auto simp: rerank_def Let_def split: sum.splits if_splits)
  have "snd (snd item) \<in> set hits" if "item \<in> set (enumerate 0 (zip scores hits))" for item
  proof -
    have "snd item \<in> set (zip scores hits)" using that unfolding in_set_enumerate_eq by (metis add_0_right diff_zero nth_mem)
    then show ?thesis by (metis prod.collapse set_zip_rightD)
  qed
  then show ?thesis unfolding out by (fastforce dest!: in_set_takeD)
qed

lemma prune_loop_keys:
  "prune_loop t hits ss scores pruned = Inr out \<Longrightarrow> hkey ` set out \<subseteq> hkey ` set pruned \<union> hkey ` set hits"
proof (induction t hits ss scores pruned rule: prune_loop.induct)
  case (2 t hit hits sentences rest scores pruned)
  show ?case using "2.prems" "2.IH" by (auto simp: Let_def split: if_splits) blast+
qed auto

lemma highlight_keys:
  assumes "highlight embedder query t hits = Inr out"
  shows "hkey ` set out \<subseteq> hkey ` set hits"
  using assms prune_loop_keys [of t hits _ _ "[]" out]
  by (auto simp: highlight_def Let_def image_iff split: if_splits sum.splits list.splits) fastforce+

interpretation reranking: scoped_stage "rerank scorer query top_n"
  by unfold_locales (rule rerank_keys)

interpretation highlighting: scoped_stage "highlight embedder query threshold"
  by unfold_locales (rule highlight_keys)

section \<open>Properties\<close>

definition demo_passage :: retrieval_hit where
  "demo_passage = \<lparr>rh_book_id = 1, rh_chunk_index = 0, rh_content_chunk = ''Grace abounds.'', rh_metadata = [],
     rh_score = 1 / 61, rh_dense_score = None, rh_sparse_score = None\<rparr>"

text \<open>
  The per-hit specification of highlighting, for an embedder that maps each text to a vector: keep
  the sentences close enough to the query, drop a hit that keeps none, pass a blank one through.
\<close>

definition cosine :: "(string \<Rightarrow> rat list) \<Rightarrow> string \<Rightarrow> string \<Rightarrow> rat" where
  "cosine vec query s = dot (vec s) (vec query)"

definition prune_hit :: "(string \<Rightarrow> rat list) \<Rightarrow> string \<Rightarrow> rat \<Rightarrow> retrieval_hit \<Rightarrow> retrieval_hit option" where
  "prune_hit vec query threshold hit =
     (let sentences = split_sentences (rh_content_chunk hit);
          kept = filter (\<lambda>s. threshold \<le> cosine vec query s) sentences
      in if sentences = [] then Some (hit\<lparr>rh_metadata := note_sentences 0 0 (rh_metadata hit)\<rparr>)
         else if kept = [] then None
         else Some (hit\<lparr>rh_content_chunk := join '' '' kept,
                rh_metadata := note_sentences (length kept) (length sentences) (rh_metadata hit)\<rparr>))"

lemma filter_zip_map:
  "map fst (filter (\<lambda>(_, x). t \<le> x) (zip ss (map f ss))) = filter (\<lambda>s. t \<le> f s) ss"
  by (induction ss) auto

lemma prune_loop_spec:
  "prune_loop t hits (map (\<lambda>h. split_sentences (rh_content_chunk h)) hits)
     (map (cosine vec query) (concat (map (\<lambda>h. split_sentences (rh_content_chunk h)) hits))) pruned =
   Inr (pruned @ List.map_filter (prune_hit vec query t) hits)"
proof (induction hits arbitrary: pruned)
  case (Cons hit hits)
  let ?ss = "split_sentences (rh_content_chunk hit)"
  show ?case
    by (cases "?ss = []") (simp_all add: Cons.IH prune_hit_def Let_def map_filter_simps filter_zip_map)
qed (simp add: map_filter_simps)

abbreviation solid :: "string \<Rightarrow> string" where
  "solid s \<equiv> filter (\<lambda>c. \<not> is_space c) s"

lemma filter_dropWhile: "filter (\<lambda>c. \<not> P c) (dropWhile P s) = filter (\<lambda>c. \<not> P c) s"
  by (induction s) auto

lemma solid_dropWhile [simp]: "solid (dropWhile is_space s) = solid s"
  by (rule filter_dropWhile)

lemma solid_strip [simp]: "solid (py_strip s) = solid s"
proof -
  have "solid (rev (dropWhile is_space (rev t))) = solid t" for t
    by (simp only: rev_filter [symmetric] solid_dropWhile) (simp add: rev_filter)
  then show ?thesis by (simp add: py_strip_def strip_by_def rstrip_by_def lstrip_by_def)
qed

lemma py_strip_Nil: "py_strip s = [] \<longleftrightarrow> solid s = []"
proof
  assume "py_strip s = []"
  then show "solid s = []" by (metis filter.simps(1) solid_strip)
next
  assume "solid s = []"
  then have "dropWhile is_space s = []" by (auto simp: filter_empty_conv)
  then show "py_strip s = []"
    by (auto simp: py_strip_def strip_by_def rstrip_by_def lstrip_by_def dest: set_dropWhileD)
qed

lemma solid_boundary_split: "solid (concat (boundary_split cur s)) = solid (cur @ s)"
proof (induction cur s rule: boundary_split.induct)
  case (2 cur c cs)
  show ?case
  proof (cases "cur \<noteq> [] \<and> last cur \<in> set ''.!?'' \<and> is_space c \<and> dropWhile is_space cs \<noteq> [] \<and>
      sentence_opener (hd (dropWhile is_space cs))")
    case True
    then show ?thesis using 2(1) [OF refl] by simp
  next
    case False
    have "solid (concat (boundary_split (cur @ [c]) cs)) = solid ((cur @ [c]) @ cs)"
      by (rule 2(2) [OF refl False])
    then show ?thesis using False by (auto simp del: boundary_split.simps simp: boundary_split.simps(2) [of cur c cs] Let_def)
  qed
qed simp

lemma solid_split_sentences: "solid (concat (split_sentences s)) = solid s"
proof -
  have parts_ok: "solid (concat (filter (\<lambda>p. p \<noteq> []) (map py_strip ps))) = solid (concat ps)" for ps
    by (induction ps) (auto simp: py_strip_Nil)
  have "solid (concat (split_sentences s)) = solid (py_strip s)"
  proof (cases "py_strip s = []")
    case True
    then show ?thesis by (simp add: split_sentences_def)
  next
    case False
    then have "split_sentences s = filter (\<lambda>p. p \<noteq> []) (map py_strip (boundary_split [] (py_strip s)))"
      by (simp add: split_sentences_def Let_def)
    then show ?thesis by (simp only: parts_ok solid_boundary_split append_Nil)
  qed
  then show ?thesis by (simp only: solid_strip)
qed

lemma split_sentences_Nil: "split_sentences s = [] \<longleftrightarrow> solid s = []"
proof
  assume "split_sentences s = []"
  then show "solid s = []" using solid_split_sentences [of s] by simp
next
  assume blank: "solid s = []"
  then have "solid (concat (split_sentences s)) = []" by (simp add: solid_split_sentences)
  moreover have "solid p \<noteq> []" if "p \<in> set (split_sentences s)" for p
    using that by (auto simp: split_sentences_def Let_def py_strip_Nil split: if_splits)
  ultimately show "split_sentences s = []" by (cases "split_sentences s") auto
qed

text \<open>
  Highlighting is extractive. The batched call with its cursor computes exactly the per-hit
  pruning, in hit order: each surviving chunk is the space-join of those of its own sentences whose
  similarity reaches the threshold.
\<close>

theorem highlight_per_hit:
  assumes "\<And>ts. embedder ts = Inr (map vec ts)"
  shows "highlight embedder query threshold hits = Inr (List.map_filter (prune_hit vec query threshold) hits)"
proof (cases "concat (map (\<lambda>h. split_sentences (rh_content_chunk h)) hits) = []")
  case True
  then have "List.map_filter (prune_hit vec query threshold) hits =
      map (\<lambda>hit. hit\<lparr>rh_metadata := note_sentences 0 0 (rh_metadata hit)\<rparr>) hits"
    by (induction hits) (simp_all add: map_filter_simps prune_hit_def)
  then show ?thesis using True by (simp add: highlight_def Let_def map_filter_simps)
next
  case False
  then show ?thesis
    using prune_loop_spec [of threshold hits vec query "[]"]
    by (auto simp: highlight_def Let_def assms o_def cosine_def [abs_def])
qed

theorem highlight_per_hit_witness:
  "highlight (\<lambda>ts. Inr (map (\<lambda>t. if t = ''Grace abounds.'' then [1] else [of_nat (length t) / 100]) ts)) ''Grace abounds.''
     (1 / 2) [(demo_passage\<lparr>rh_content_chunk := ''Grace abounds. Bye.''\<rparr>)] =
   Inr (List.map_filter (prune_hit (\<lambda>t. if t = ''Grace abounds.'' then [1] else [of_nat (length t) / 100]) ''Grace abounds.'' (1 / 2))
     [(demo_passage\<lparr>rh_content_chunk := ''Grace abounds. Bye.''\<rparr>)])"
  by (rule highlight_per_hit) simp

text \<open>
  Splitting into sentences loses nothing but white space: the non-blank characters of the
  parts, in order, are those of the text. In particular only a blank chunk has no sentence, so a
  fragment without punctuation is scored as one sentence and can be dropped, contrary to the
  comment that it passes through unchanged.
\<close>

theorem split_sentences_lossless:
  "filter (\<lambda>c. \<not> is_space c) (concat (split_sentences s)) = filter (\<lambda>c. \<not> is_space c) s \<and>
   (split_sentences s = []) = list_all is_space s"
  by (simp add: solid_split_sentences split_sentences_Nil filter_empty_conv list_all_iff)

lemma insort_enumerated:
  fixes f :: "'a \<Rightarrow> 'k :: linorder"
  assumes "\<forall>item \<in> set L. n < fst item"
  shows "map snd (insort_key (\<lambda>item. (f (snd item), fst item)) (n, x) L) = insort_key f x (map snd L)"
  using assms by (induction L) (auto simp: less_eq_prod_def less_le)

lemma sort_key_enumerate:
  fixes f :: "'a \<Rightarrow> 'k :: linorder"
  shows "map snd (sort_key (\<lambda>item. (f (snd item), fst item)) (enumerate n xs)) = sort_key f xs"
proof (induction xs arbitrary: n)
  case (Cons x xs)
  have "\<forall>item \<in> set (sort_key (\<lambda>item. (f (snd item), fst item)) (enumerate (Suc n) xs)). n < fst item"
    by (auto simp: in_set_enumerate_eq)
  from insort_enumerated [OF this, of f x] show ?case by (simp add: Cons.IH)
qed simp

text \<open>
  Reranking is a stable selection. When the scorer returns one score per chunk, the result is
  the first \<open>top_n\<close> of the hits sorted by descending score with ties in input order, each only
  re-scored and annotated with its former score.
\<close>

theorem rerank_stable:
  assumes "scorer query (map rh_content_chunk hits) = Inr scores" and "length scores = length hits"
  shows "rerank scorer query top_n hits = Inr (map (\<lambda>(score, hit). hit\<lparr>rh_score := score,
       rh_metadata := AList.update ''rrf_score'' (MScore (rh_score hit)) (rh_metadata hit)\<rparr>)
     (take top_n (sort_key (\<lambda>p. - fst p) (zip scores hits))))"
proof -
  let ?key = "\<lambda>item :: nat \<times> rat \<times> retrieval_hit. (- fst (snd item), fst item)"
  let ?mk = "\<lambda>(score, hit). hit\<lparr>rh_score := score,
       rh_metadata := AList.update ''rrf_score'' (MScore (rh_score hit)) (rh_metadata hit)\<rparr>"
  have "map (\<lambda>(_, score, hit). ?mk (score, hit)) L = map ?mk (map snd L)" for L :: "(nat \<times> rat \<times> retrieval_hit) list"
    by (induction L) auto
  then have "map (\<lambda>(_, score, hit). ?mk (score, hit)) (take top_n (sort_key ?key (enumerate 0 (zip scores hits)))) =
      map ?mk (take top_n (map snd (sort_key ?key (enumerate 0 (zip scores hits)))))"
    by (simp add: take_map)
  then show ?thesis
    using assms sort_key_enumerate [of "\<lambda>p. - fst p" 0 "zip scores hits"]
    by (auto simp: rerank_def Let_def)
qed

theorem rerank_stable_witness:
  "rerank (\<lambda>q ts. Inr (map (\<lambda>t. of_nat (length t)) ts)) ''q'' 1 [demo_passage] = Inr (map (\<lambda>(score, hit). hit\<lparr>rh_score := score,
       rh_metadata := AList.update ''rrf_score'' (MScore (rh_score hit)) (rh_metadata hit)\<rparr>)
     (take 1 (sort_key (\<lambda>p. - fst p) (zip [of_nat (length (rh_content_chunk demo_passage))] [demo_passage]))))"
  by (rule rerank_stable) simp_all

end
