(* ===== verification/Search.thy ===== *)
theory Search
  imports Retrieval_Correct Ranking Collections "HOL-Library.Sublist"
begin

text \<open>
  \<open>api/search.py\<close>: the orchestration of hybrid search. The library of the JWT user is the
  universe; an optional client scope is intersected with it after its collections are
  ownership-checked; both arms run on that one book set; a failed stage is bypassed and named in
  \<open>degraded\<close>; both arms down is a 503. The process-wide Milvus client is a state threaded through:
  checked out lazily, dropped after a \<open>MilvusException\<close> if it is still the published one.
\<close>

definition search_unprocessable :: py_exn where
  "search_unprocessable = HTTPException 422 ''Unprocessable Entity''"

record search_request =
  sq_query :: string
  sq_limit :: int
  sq_book_ids :: "uuid list option"
  sq_collection_ids :: "uuid list option"
  sq_rerank :: bool
  sq_extra :: "string list"

definition validate_search_request :: "search_request \<Rightarrow> bool" where
  "validate_search_request p \<longleftrightarrow> sq_extra p = [] \<and>
     1 \<le> length (sq_query p) \<and> length (sq_query p) \<le> 1024 \<and> 1 \<le> sq_limit p \<and> sq_limit p \<le> 100 \<and>
     (case sq_book_ids p of None \<Rightarrow> True | Some xs \<Rightarrow> length xs \<le> 10000) \<and>
     (case sq_collection_ids p of None \<Rightarrow> True | Some xs \<Rightarrow> length xs \<le> 500)"

record search_hit =
  st_book_id :: uuid
  st_content_chunk :: string
  st_metadata :: metadata
  st_score :: rat

record search_outcome =
  so_hits :: "search_hit list"
  so_degraded :: "string list"

section \<open>The Milvus client singleton\<close>

type_synonym client_id = nat

definition client_checkout :: "client_id result \<Rightarrow> client_id option \<Rightarrow> client_id result \<times> client_id option" where
  "client_checkout mk cached =
     (case cached of
        Some c \<Rightarrow> (Inr c, cached)
      | None \<Rightarrow> (case mk of Inl e \<Rightarrow> (Inl e, None) | Inr c \<Rightarrow> (Inr c, Some c)))"

definition reset_client :: "client_id \<Rightarrow> client_id option \<Rightarrow> client_id option" where
  "reset_client failed cached = (if cached = Some failed then None else cached)"

section \<open>The arms\<close>

text \<open>
  Everything outside the repository that one request talks to: the query embedding, the client
  constructor, the store behind each client, whether the Milvus leg overruns its budget, Postgres'
  text ranking and whether that query fails, the remote reranker and the remote sentence embedder.
\<close>

record search_externals =
  x_embed_query :: "string \<Rightarrow> rat list result"
  x_make_client :: "client_id result"
  x_store :: "client_id \<Rightarrow> rat list \<Rightarrow> milvus"
  x_budget_expires :: bool
  x_rank_of :: "string \<Rightarrow> chunk_row \<Rightarrow> rat option"
  x_sparse_fault :: "py_exn option"
  x_rerank_scores :: "string \<Rightarrow> string list \<Rightarrow> rat list result"
  x_embed_texts :: "string list \<Rightarrow> rat list list result"
  x_filter_chunk :: nat

definition dense_milvus_leg :: "search_externals \<Rightarrow> rat list \<Rightarrow> uuid list \<Rightarrow> client_id option \<Rightarrow>
    retrieval_hit list result \<times> client_id option" where
  "dense_milvus_leg ext query_vec book_ids cached =
     (case client_checkout (x_make_client ext) cached of
        (Inl e, cached') \<Rightarrow> (Inl e, cached')
      | (Inr client, cached') \<Rightarrow>
          (case dense_search (x_store ext client query_vec) book_ids DENSE_FANOUT (x_filter_chunk ext) of
             Inl e \<Rightarrow> (Inl e, if e = MilvusException then reset_client client cached' else cached')
           | Inr hits \<Rightarrow> (Inr hits, cached')))"

text \<open>On budget expiry the orphaned thread still runs, with its effect on the singleton.\<close>

definition dense_arm :: "search_externals \<Rightarrow> string \<Rightarrow> uuid list \<Rightarrow> client_id option \<Rightarrow>
    retrieval_hit list result \<times> client_id option" where
  "dense_arm ext query book_ids cached =
     (case x_embed_query ext query of
        Inl e \<Rightarrow> (Inl e, cached)
      | Inr query_vec \<Rightarrow>
          let (out, cached') = dense_milvus_leg ext query_vec book_ids cached
          in (if x_budget_expires ext then Inl TimeoutError else out, cached'))"

definition sparse_arm :: "search_externals \<Rightarrow> string \<Rightarrow> uuid list \<Rightarrow> db \<Rightarrow> retrieval_hit list result" where
  "sparse_arm ext query book_ids d =
     (case x_sparse_fault ext of
        Some e \<Rightarrow> Inl e
      | None \<Rightarrow> bm25_search (x_rank_of ext) query book_ids SPARSE_FANOUT d)"

text \<open>
  \<open>_surviving_arm_hits\<close>: hits and the extended degraded list, or the re-raised cancellation.
\<close>

definition surviving_arm_hits :: "string \<Rightarrow> retrieval_hit list result \<Rightarrow> string list \<Rightarrow>
    (retrieval_hit list \<times> string list) result" where
  "surviving_arm_hits arm res degraded =
     (case res of
        Inl e \<Rightarrow> if e = CancelledError then Inl CancelledError else Inr ([], degraded @ [arm])
      | Inr hits \<Rightarrow> Inr (hits, degraded))"

definition to_search_hit :: "retrieval_hit \<Rightarrow> search_hit" where
  "to_search_hit h = \<lparr>st_book_id = rh_book_id h, st_content_chunk = rh_content_chunk h,
     st_metadata = rh_metadata h, st_score = rh_score h\<rparr>"

definition retrieval_unavailable :: py_exn where
  "retrieval_unavailable = HTTPException 503 ''Search is temporarily unavailable; please retry shortly.''"

section \<open>Scope\<close>

definition search_library :: "uuid \<Rightarrow> db \<Rightarrow> uuid list" where
  "search_library u d = fromkeys (map ul_book_id (select_where (\<lambda>e. ul_user_id e = u) (user_library d)))"

text \<open>The effective book set: sorted, or the 404 of a collection the caller does not own.\<close>

definition effective_scope :: "uuid list option \<Rightarrow> uuid list option \<Rightarrow> uuid \<Rightarrow> db \<Rightarrow> uuid list result" where
  "effective_scope books cols u d =
     (let library = search_library u d
      in if books = None \<and> cols = None then Inr (sort library)
         else
           let requested = (case books of None \<Rightarrow> [] | Some bs \<Rightarrow> bs)
           in case cols of
                None \<Rightarrow> Inr (sort (filter (\<lambda>b. b \<in> set requested) library))
              | Some cs \<Rightarrow>
                  if set (owned_collections_in_stmt cs u d) \<noteq> set cs then Inl collection_not_found
                  else let members = member_book_ids_stmt cs u d
                       in Inr (sort (filter (\<lambda>b. b \<in> set requested \<union> set members) library)))"

section \<open>run_search\<close>

text \<open>The post-fusion stages with their fall-backs.\<close>

definition rank_and_prune :: "search_externals \<Rightarrow> string \<Rightarrow> nat \<Rightarrow> retrieval_hit list \<Rightarrow> string list \<Rightarrow>
    search_outcome result" where
  "rank_and_prune ext query limit fused degraded =
     (case (case rerank (x_rerank_scores ext) query limit fused of
              Inl e \<Rightarrow> if remote_inference e then Inr (take limit fused, degraded @ [''rerank'']) else Inl e
            | Inr ranked \<Rightarrow> Inr (ranked, degraded)) of
        Inl e \<Rightarrow> Inl e
      | Inr (ranked, degraded1) \<Rightarrow>
          (case (case highlight (x_embed_texts ext) query HIGHLIGHT_THRESHOLD ranked of
                   Inl e \<Rightarrow> if remote_inference e then Inr (ranked, degraded1 @ [''highlight'']) else Inl e
                 | Inr pruned \<Rightarrow> Inr (pruned, degraded1)) of
             Inl e \<Rightarrow> Inl e
           | Inr (pruned, degraded2) \<Rightarrow>
               Inr \<lparr>so_hits = map to_search_hit pruned, so_degraded = degraded2\<rparr>))"

definition fuse_and_rank :: "search_externals \<Rightarrow> string \<Rightarrow> nat \<Rightarrow> bool \<Rightarrow>
    retrieval_hit list result \<Rightarrow> retrieval_hit list result \<Rightarrow> search_outcome result" where
  "fuse_and_rank ext query limit do_rerank dense_result sparse_result =
     (case surviving_arm_hits ''dense'' dense_result [] of
        Inl e \<Rightarrow> Inl e
      | Inr (dense_hits, degraded1) \<Rightarrow>
          (case surviving_arm_hits ''sparse'' sparse_result degraded1 of
             Inl e \<Rightarrow> Inl e
           | Inr (sparse_hits, degraded) \<Rightarrow>
               if set degraded = {''dense'', ''sparse''} then Inl retrieval_unavailable
               else let fused = rrf_fuse dense_hits sparse_hits (if do_rerank then RERANK_FANOUT else limit) RRF_K
                    in if \<not> do_rerank
                       then Inr \<lparr>so_hits = map to_search_hit fused, so_degraded = degraded\<rparr>
                       else rank_and_prune ext query limit fused degraded))"

definition run_search :: "search_externals \<Rightarrow> string \<Rightarrow> nat \<Rightarrow> bool \<Rightarrow> uuid \<Rightarrow> uuid list option \<Rightarrow>
    uuid list option \<Rightarrow> db \<Rightarrow> client_id option \<Rightarrow> search_outcome result \<times> client_id option" where
  "run_search ext query limit do_rerank u books cols d cached =
     (if search_library u d = [] then (Inr \<lparr>so_hits = [], so_degraded = []\<rparr>, cached)
      else case effective_scope books cols u d of
        Inl e \<Rightarrow> (Inl e, cached)
      | Inr [] \<Rightarrow> (Inr \<lparr>so_hits = [], so_degraded = []\<rparr>, cached)
      | Inr (b # bs) \<Rightarrow>
          let book_ids = b # bs;
              (dense_result, cached') = dense_arm ext query book_ids cached;
              sparse_result = sparse_arm ext query book_ids d
          in (fuse_and_rank ext query limit do_rerank dense_result sparse_result, cached'))"

definition search :: "search_externals \<Rightarrow> search_request \<Rightarrow> uuid \<Rightarrow> db \<Rightarrow> client_id option \<Rightarrow>
    search_outcome result \<times> client_id option" where
  "search ext p u d cached =
     (if \<not> validate_search_request p then (Inl search_unprocessable, cached)
      else run_search ext (sq_query p) (nat (sq_limit p)) (sq_rerank p) u (sq_book_ids p) (sq_collection_ids p) d cached)"

section \<open>Every stage stays in the book set\<close>

text \<open>What a filtered search documents: only rows whose \<open>book_id\<close> is in the filter.\<close>

definition store_filters :: "milvus \<Rightarrow> bool" where
  "store_filters client \<longleftrightarrow> (\<forall>ids n expr rows. build_milvus_filter ids = Inr expr \<longrightarrow>
     client expr n = Inr rows \<longrightarrow> (\<forall>r \<in> set rows. mr_book_id r \<in> str_uuid ` set ids))"

lemma hits_of_rows_mem:
  "hits_of_rows rows = Inr hs \<Longrightarrow> h \<in> set hs \<Longrightarrow> \<exists>r \<in> set rows. hit_of_row r = Inr h"
  by (induction rows arbitrary: hs) (auto split: sum.splits)

lemma one_chunk_books:
  assumes "store_filters client" and "dense_search_one_chunk client ids n = Inr hs" and "h \<in> set hs"
  shows "rh_book_id h \<in> set ids"
proof -
  obtain expr rows where q: "build_milvus_filter ids = Inr expr" "client expr n = Inr rows" "hits_of_rows rows = Inr hs"
    using assms(2) by (auto simp: dense_search_one_chunk_def split: sum.splits)
  then obtain r where r: "r \<in> set rows" "hit_of_row r = Inr h" using hits_of_rows_mem [OF q(3) assms(3)] by blast
  have "mr_book_id r \<in> str_uuid ` set ids" using assms(1) q r(1) unfolding store_filters_def by blast
  then show ?thesis using hit_of_row_Inr [OF r(2)] by auto
qed

lemma dense_slices_books:
  assumes "store_filters client" and "\<forall>ids \<in> set idss. set ids \<subseteq> B" and "\<forall>h \<in> set merged. rh_book_id h \<in> B"
    and "dense_slices client n idss merged = Inr hs" and "h \<in> set hs"
  shows "rh_book_id h \<in> B"
  using assms(2-5)
proof (induction idss arbitrary: merged)
  case (Cons ids idss)
  then obtain hs1 where one: "dense_search_one_chunk client ids n = Inr hs1"
    and rest: "dense_slices client n idss (merged @ hs1) = Inr hs" by (auto split: sum.splits)
  have "\<forall>h \<in> set (merged @ hs1). rh_book_id h \<in> B"
    using Cons.prems(1,2) one_chunk_books [OF assms(1) one] by auto
  with Cons.IH [OF _ this rest] Cons.prems show ?case by simp
qed simp

lemma dense_search_books:
  assumes "store_filters client" and "dense_search client ids n chunk = Inr hs" and "h \<in> set hs"
  shows "rh_book_id h \<in> set ids"
proof (cases "length ids \<le> chunk")
  case True
  then show ?thesis using assms one_chunk_books by (auto simp: dense_search_def split: if_splits)
next
  case False
  then obtain merged where m: "dense_slices client n (slices chunk ids) [] = Inr merged"
    and hs: "hs = take n (sort_key (\<lambda>h. - rh_score h) merged)"
    using assms(2) by (auto simp: dense_search_def split: if_splits sum.splits)
  have "h \<in> set merged" using assms(3) hs by (auto dest!: in_set_takeD)
  moreover have "\<forall>ids' \<in> set (slices chunk ids). set ids' \<subseteq> set ids"
  proof (cases "chunk = 0")
    case True
    then show ?thesis by (simp add: slices.simps [of 0 ids])
  next
    case False
    then have "concat (slices chunk ids) = ids" by (simp add: concat_slices)
    then show ?thesis by (metis UN_upper set_concat)
  qed
  ultimately show ?thesis using dense_slices_books [OF assms(1) _ _ m] by simp
qed

lemma dense_arm_books:
  assumes "\<forall>c vec. store_filters (x_store ext c vec)" and "fst (dense_arm ext q ids cached) = Inr hs" and "h \<in> set hs"
  shows "rh_book_id h \<in> set ids"
  using assms dense_search_books
  by (auto simp: dense_arm_def dense_milvus_leg_def split: sum.splits prod.splits if_splits) blast+

lemma sparse_arm_books:
  "sparse_arm ext q ids d = Inr hs \<Longrightarrow> h \<in> set hs \<Longrightarrow> rh_book_id h \<in> set ids"
  by (auto simp: sparse_arm_def split: option.splits dest: sparse_books)

lemma rrf_books:
  assumes "\<forall>h \<in> set dense. rh_book_id h \<in> B" "\<forall>h \<in> set sparse. rh_book_id h \<in> B"
    and "h \<in> set (rrf_fuse dense sparse n k)"
  shows "rh_book_id h \<in> B"
proof -
  obtain h0 where "first_hit (dense @ sparse) (hkey h) = Some h0"
    using rrf_fuse_correct(4) [OF assms(3)] by blast
  from first_hit_Some [OF this] have "h0 \<in> set dense \<union> set sparse" "rh_book_id h0 = rh_book_id h"
    by (auto simp: hkey_def)
  then show ?thesis using assms(1,2) by (metis Un_iff)
qed

lemma rank_and_prune_books:
  assumes books: "\<forall>h \<in> set fused. rh_book_id h \<in> B" and run: "rank_and_prune ext q n fused deg = Inr out"
    and hit: "x \<in> set (so_hits out)"
  shows "st_book_id x \<in> B"
proof -
  define ranked where "ranked = (case rerank (x_rerank_scores ext) q n fused of Inl e \<Rightarrow> take n fused | Inr r \<Rightarrow> r)"
  define pruned where "pruned = (case highlight (x_embed_texts ext) q HIGHLIGHT_THRESHOLD ranked of Inl e \<Rightarrow> ranked | Inr r \<Rightarrow> r)"
  have r: "\<forall>h \<in> set ranked. rh_book_id h \<in> B"
    using reranking.fallback_books [OF books set_take_subset] unfolding ranked_def by blast
  have p: "\<forall>h \<in> set pruned. rh_book_id h \<in> B"
    using highlighting.fallback_books [OF r subset_refl] unfolding pruned_def by blast
  have "so_hits out = map to_search_hit pruned"
    using run by (auto simp: rank_and_prune_def ranked_def pruned_def split: sum.splits if_splits)
  then show ?thesis using hit p by (auto simp: to_search_hit_def)
qed

lemma effective_scope_subset:
  assumes "effective_scope books cols u d = Inr ids" and "b \<in> set ids"
  shows "b \<in> set (search_library u d)"
    and "books \<noteq> None \<or> cols \<noteq> None \<Longrightarrow>
      b \<in> set (case books of None \<Rightarrow> [] | Some bs \<Rightarrow> bs) \<union>
        (case cols of None \<Rightarrow> {} | Some cs \<Rightarrow> set (member_book_ids_stmt cs u d))"
  using assms by (auto simp: effective_scope_def Let_def split: if_splits option.splits)

section \<open>Properties\<close>

text \<open>A pastor (1) with one book (10) among two, and a Milvus that is down: only the sparse arm answers.\<close>

definition demo_search_db :: db where
  "demo_search_db = empty_db\<lparr>
     user_library := [\<lparr>ul_entry_id = 7, ul_user_id = 1, ul_book_id = 10, ul_category = None, ul_added_at = 0\<rparr>],
     chunks := map (\<lambda>b. \<lparr>chk_chunk_id = b, chk_book_id = b, chk_chunk_index = 0, chk_content = ''Grace abounds.'',
        chk_parent_section = None, chk_filename = ''a.pdf'', chk_created_at = 0\<rparr>) [10, 11]\<rparr>"

definition milvus_down :: search_externals where
  "milvus_down = \<lparr>x_embed_query = (\<lambda>_. Inr [1]), x_make_client = Inr 0, x_store = (\<lambda>_ _ _ _. Inl MilvusException),
     x_budget_expires = False, x_rank_of = (\<lambda>_ _. Some (1 / 2)), x_sparse_fault = None,
     x_rerank_scores = (\<lambda>_ ts. Inr (map (\<lambda>_. 1) ts)), x_embed_texts = (\<lambda>ts. Inr (map (\<lambda>_. [1]) ts)),
     x_filter_chunk = 500\<rparr>"

definition demo_search_request :: search_request where
  "demo_search_request = \<lparr>sq_query = ''grace'', sq_limit = 5, sq_book_ids = Some [10, 11], sq_collection_ids = None,
     sq_rerank = False, sq_extra = []\<rparr>"

lemma run_search_books:
  assumes "\<forall>c vec. store_filters (x_store ext c vec)"
    and "fst (run_search ext q n rr u books cols d cached) = Inr out" and "x \<in> set (so_hits out)"
  shows "\<exists>ids. effective_scope books cols u d = Inr ids \<and> st_book_id x \<in> set ids"
proof -
  obtain ids where ids: "effective_scope books cols u d = Inr ids" "ids \<noteq> []"
    and run: "fuse_and_rank ext q n rr (fst (dense_arm ext q ids cached)) (sparse_arm ext q ids d) = Inr out"
    using assms(2,3) by (auto simp: run_search_def Let_def split: if_splits sum.splits list.splits prod.splits)
  obtain dh dg sh dg' where d: "surviving_arm_hits ''dense'' (fst (dense_arm ext q ids cached)) [] = Inr (dh, dg)"
    and s: "surviving_arm_hits ''sparse'' (sparse_arm ext q ids d) dg = Inr (sh, dg')"
    using run by (auto simp: fuse_and_rank_def split: sum.splits)
  have "\<forall>h \<in> set dh. rh_book_id h \<in> set ids"
    using d dense_arm_books [OF assms(1)] by (auto simp: surviving_arm_hits_def split: sum.splits if_splits)
  moreover have "\<forall>h \<in> set sh. rh_book_id h \<in> set ids"
    using s sparse_arm_books by (auto simp: surviving_arm_hits_def split: sum.splits if_splits)
  ultimately have fused: "\<forall>h \<in> set (rrf_fuse dh sh m RRF_K). rh_book_id h \<in> set ids" for m
    using rrf_books by blast
  have "st_book_id x \<in> set ids"
  proof (cases rr)
    case True
    then have "rank_and_prune ext q n (rrf_fuse dh sh RERANK_FANOUT RRF_K) dg' = Inr out"
      using run d s by (auto simp: fuse_and_rank_def Let_def split: if_splits)
    then show ?thesis by (rule rank_and_prune_books [OF fused]) (rule assms(3))
  next
    case False
    then have "so_hits out = map to_search_hit (rrf_fuse dh sh n RRF_K)"
      using run d s by (auto simp: fuse_and_rank_def Let_def split: if_splits)
    then show ?thesis using assms(3) fused by (auto simp: to_search_hit_def)
  qed
  with ids show ?thesis by blast
qed

lemma search_scope:
  assumes "\<forall>c vec. store_filters (x_store ext c vec)"
    and "fst (search ext p u d cached) = Inr out" and "x \<in> set (so_hits out)"
  shows "\<exists>ids. effective_scope (sq_book_ids p) (sq_collection_ids p) u d = Inr ids \<and> st_book_id x \<in> set ids"
  using assms(2) run_search_books [OF assms(1) _ assms(3)] by (auto simp: search_def split: if_splits)

lemma search_library_mem: "b \<in> set (search_library u d) \<longleftrightarrow> (\<exists>e \<in> set (user_library d). ul_user_id e = u \<and> ul_book_id e = b)"
  by (auto simp: search_library_def)

text \<open>
  C5: a client scope can only shrink a search. Provided the vector store honours its filter, every
  hit of a search lies in a book of the caller's library, whatever fails or is bypassed on the
  way; and when the request names books or collections, in a named book or in a member of a named
  collection, all of which the caller owns.
\<close>

theorem scope_never_widens:
  assumes "\<forall>c vec. store_filters (x_store ext c vec)"
    and "fst (search ext p u d cached) = Inr out" and "x \<in> set (so_hits out)"
  shows "(\<exists>e \<in> set (user_library d). ul_user_id e = u \<and> ul_book_id e = st_book_id x) \<and>
    (if sq_book_ids p = None \<and> sq_collection_ids p = None then True
     else st_book_id x \<in> set (case sq_book_ids p of None \<Rightarrow> [] | Some bs \<Rightarrow> bs) \<union>
            (case sq_collection_ids p of None \<Rightarrow> {} | Some cs \<Rightarrow> set (member_book_ids_stmt cs u d)) \<and>
          (case sq_collection_ids p of None \<Rightarrow> True
           | Some cs \<Rightarrow> set cs \<subseteq> {co_collection_id c | c. c \<in> set (collections d) \<and> co_user_id c = u}))"
proof -
  obtain ids where ids: "effective_scope (sq_book_ids p) (sq_collection_ids p) u d = Inr ids" "st_book_id x \<in> set ids"
    using search_scope [OF assms] by blast
  note lib = effective_scope_subset(1) [OF ids, unfolded search_library_mem]
  note req = effective_scope_subset(2) [OF ids]
  have own: "set cs \<subseteq> {co_collection_id c | c. c \<in> set (collections d) \<and> co_user_id c = u}"
    if "sq_collection_ids p = Some cs" for cs
    using ids(1) that by (auto simp: effective_scope_def owned_collections_in_stmt_def Let_def split: if_splits option.splits)
  show ?thesis
    by (intro conjI lib) (use req own in \<open>auto split: option.splits\<close>)
qed

lemma demo_search:
  "fst (search milvus_down demo_search_request 1 demo_search_db None) =
     Inr \<lparr>so_hits = [\<lparr>st_book_id = 10, st_content_chunk = ''Grace abounds.'',
       st_metadata = [(''filename'', MJson (JStr ''a.pdf'')), (''chunk_index'', MJson (JInt 0)), (''parent_section'', MJson JNull)],
       st_score = 1 / 61\<rparr>], so_degraded = [''dense'']\<rparr>"
proof -
  have lib: "search_library 1 demo_search_db = [10]"
    by (simp add: search_library_def demo_search_db_def select_where_def)
  then have scope: "effective_scope (Some [10, 11]) None 1 demo_search_db = Inr [10]"
    by (simp add: effective_scope_def)
  have dense: "dense_arm milvus_down q [10] None = (Inl MilvusException, None)" for q
    by (simp add: dense_arm_def dense_milvus_leg_def client_checkout_def milvus_down_def dense_search_def
        dense_search_one_chunk_def build_milvus_filter_def reset_client_def)
  have sparse: "sparse_arm milvus_down q [10] demo_search_db = Inr [\<lparr>rh_book_id = 10, rh_chunk_index = 0,
      rh_content_chunk = ''Grace abounds.'', rh_metadata = [(''filename'', MJson (JStr ''a.pdf'')),
        (''chunk_index'', MJson (JInt 0)), (''parent_section'', MJson JNull)],
      rh_score = 1 / 2, rh_dense_score = None, rh_sparse_score = Some (1 / 2)\<rparr>]" for q
    by (simp add: sparse_arm_def milvus_down_def bm25_search_def bm25_sql_def demo_search_db_def select_where_def
        hit_from_bm25_row_def SPARSE_FANOUT_def)
  show ?thesis
    by (simp add: search_def demo_search_request_def validate_search_request_def run_search_def lib scope dense sparse
        fuse_and_rank_def surviving_arm_hits_def rrf_fuse_def fuse_loops_def count_hit_def hkey_def dict_get_def
        setdefault_def RRF_K_def to_search_hit_def Let_def)
qed

theorem scope_never_widens_witness:
  "\<exists>e \<in> set (user_library demo_search_db). ul_user_id e = 1 \<and> ul_book_id e = 10"
proof -
  have "\<forall>c vec. store_filters (x_store milvus_down c vec)"
    by (simp add: milvus_down_def store_filters_def)
  from scope_never_widens [OF this demo_search, unfolded search_outcome.simps, OF list.set_intros(1)]
  show ?thesis by simp
qed

section \<open>Degradation\<close>

lemma prune_loop_total:
  "length ss = length hits \<Longrightarrow> length scores = length (concat ss) \<Longrightarrow>
   \<exists>out. prune_loop t hits ss scores pruned = Inr out \<and> length out \<le> length pruned + length hits"
proof (induction hits arbitrary: ss scores pruned)
  case (Cons hit hits)
  then obtain sentences rest where ss: "ss = sentences # rest" and len: "length rest = length hits" by (cases ss) auto
  define kept where "kept = map fst (filter (\<lambda>(_, score). t \<le> score) (zip sentences (take (length sentences) scores)))"
  define scores' where "scores' = drop (length sentences) scores"
  have sc: "length scores' = length (concat rest)" "length (take (length sentences) scores) = length sentences"
    using Cons.prems ss by (simp_all add: scores'_def)
  have IH: "\<exists>out. prune_loop t hits rest scores' acc = Inr out \<and> length out \<le> length acc + length hits" for acc
    using Cons.IH [OF len sc(1)] .
  have step: "prune_loop t (hit # hits) ss scores pruned = prune_loop t hits rest scores'
     (if sentences = [] then pruned @ [hit\<lparr>rh_metadata := note_sentences 0 0 (rh_metadata hit)\<rparr>]
      else if kept = [] then pruned
      else pruned @ [hit\<lparr>rh_content_chunk := join '' '' kept,
             rh_metadata := note_sentences (length kept) (length sentences) (rh_metadata hit)\<rparr>])"
    (is "_ = prune_loop t hits rest scores' ?acc")
    unfolding ss using sc(2) by (simp add: Let_def scores'_def kept_def)
  have "length ?acc \<le> Suc (length pruned)" by simp
  then show ?case using IH [of ?acc] unfolding step by fastforce
qed simp

text \<open>The two remote models answer with one value per text, or fail as such.\<close>

definition remote_contract :: "search_externals \<Rightarrow> bool" where
  "remote_contract ext \<longleftrightarrow>
     (\<forall>q ts. case x_rerank_scores ext q ts of Inl e \<Rightarrow> remote_inference e | Inr ss \<Rightarrow> length ss = length ts) \<and>
     (\<forall>ts. case x_embed_texts ext ts of Inl e \<Rightarrow> remote_inference e | Inr vs \<Rightarrow> length vs = length ts)"

lemma rerank_total:
  assumes "remote_contract ext"
  shows "(\<exists>e. rerank (x_rerank_scores ext) q n hits = Inl e \<and> remote_inference e) \<or>
    (\<exists>out. rerank (x_rerank_scores ext) q n hits = Inr out \<and> length out \<le> n)"
proof -
  have "case x_rerank_scores ext q (map rh_content_chunk hits) of Inl e \<Rightarrow> remote_inference e
      | Inr ss \<Rightarrow> length ss = length hits"
    using assms unfolding remote_contract_def by (metis length_map)
  then show ?thesis by (auto simp: rerank_def Let_def split: sum.splits)
qed

lemma highlight_total:
  assumes "remote_contract ext"
  shows "(\<exists>e. highlight (x_embed_texts ext) q t hits = Inl e \<and> remote_inference e) \<or>
    (\<exists>out. highlight (x_embed_texts ext) q t hits = Inr out \<and> length out \<le> length hits)"
proof -
  let ?ss = "map (\<lambda>h. split_sentences (rh_content_chunk h)) hits"
  have "case x_embed_texts ext (q # concat ?ss) of Inl e \<Rightarrow> remote_inference e
      | Inr vs \<Rightarrow> length vs = Suc (length (concat ?ss))"
    using assms unfolding remote_contract_def by (metis length_Cons)
  note reply = this
  show ?thesis
  proof (cases "hits = [] \<or> concat ?ss = []")
    case True
    then show ?thesis by (auto simp: highlight_def Let_def)
  next
    case False
    then have unfolded: "highlight (x_embed_texts ext) q t hits =
        (case x_embed_texts ext (q # concat ?ss) of
           Inl e \<Rightarrow> Inl e
         | Inr [] \<Rightarrow> Inl IndexError
         | Inr (query_vec # sentence_vecs) \<Rightarrow> prune_loop t hits ?ss (map (\<lambda>v. dot v query_vec) sentence_vecs) [])"
      by (simp only: highlight_def Let_def if_False de_Morgan_disj)
    show ?thesis
    proof (cases "x_embed_texts ext (q # concat ?ss)")
      case (Inl e)
      then show ?thesis using reply by (simp add: unfolded)
    next
      case (Inr vs)
      then obtain v vs' where "vs = v # vs'" "length vs' = length (concat ?ss)"
        using reply by (cases vs) auto
      then show ?thesis
        using Inr prune_loop_total [of ?ss hits "map (\<lambda>w. dot w v) vs'" t "[]"] by (simp add: unfolded)
    qed
  qed
qed

text \<open>What the stages work with when some of them fail: the hits of an arm, of the reranker, of the pruner.\<close>

definition arm_hits :: "retrieval_hit list result \<Rightarrow> retrieval_hit list" where
  "arm_hits res = (case res of Inl _ \<Rightarrow> [] | Inr hits \<Rightarrow> hits)"

definition or_else :: "'a \<Rightarrow> 'a result \<Rightarrow> 'a" where
  "or_else x res = (case res of Inl _ \<Rightarrow> x | Inr y \<Rightarrow> y)"

definition named :: "string \<Rightarrow> 'a result \<Rightarrow> string list" where
  "named stage res = (if is_ok res then [] else [stage])"

lemma or_else_simps [simp]: "or_else x (Inl e) = x" "or_else x (Inr y) = y"
  by (simp_all add: or_else_def)

lemma named_simps [simp]: "named s (Inl e) = [s]" "named s (Inr y) = []"
  by (simp_all add: named_def)

lemma arm_hits_simps [simp]: "arm_hits (Inl e) = []" "arm_hits (Inr hs) = hs"
  by (simp_all add: arm_hits_def)

abbreviation reranking_of :: "search_externals \<Rightarrow> string \<Rightarrow> nat \<Rightarrow> retrieval_hit list \<Rightarrow> retrieval_hit list result" where
  "reranking_of ext q n fused \<equiv> rerank (x_rerank_scores ext) q n fused"

abbreviation highlighting_of :: "search_externals \<Rightarrow> string \<Rightarrow> retrieval_hit list \<Rightarrow> retrieval_hit list result" where
  "highlighting_of ext q hits \<equiv> highlight (x_embed_texts ext) q HIGHLIGHT_THRESHOLD hits"

lemma rank_and_prune_result:
  fixes q :: string and n :: nat and fused :: "retrieval_hit list"
  assumes "remote_contract ext"
  defines "ranked \<equiv> or_else (take n fused) (reranking_of ext q n fused)"
  shows "rank_and_prune ext q n fused deg = Inr
      \<lparr>so_hits = map to_search_hit (or_else ranked (highlighting_of ext q ranked)),
       so_degraded = deg @ named ''rerank'' (reranking_of ext q n fused) @
         named ''highlight'' (highlighting_of ext q ranked)\<rparr>"
    and "length (or_else ranked (highlighting_of ext q ranked)) \<le> n"
proof -
  have len: "length ranked \<le> n" using rerank_total [OF assms(1), of q n fused] by (auto simp: ranked_def)
  have hl: "(\<exists>e. highlighting_of ext q ranked = Inl e \<and> remote_inference e) \<or>
    (\<exists>out. highlighting_of ext q ranked = Inr out \<and> length out \<le> length ranked)"
    by (rule highlight_total [OF assms(1)])
  show "length (or_else ranked (highlighting_of ext q ranked)) \<le> n" using hl len by auto
  show "rank_and_prune ext q n fused deg = Inr
      \<lparr>so_hits = map to_search_hit (or_else ranked (highlighting_of ext q ranked)),
       so_degraded = deg @ named ''rerank'' (reranking_of ext q n fused) @
         named ''highlight'' (highlighting_of ext q ranked)\<rparr>"
    using rerank_total [OF assms(1), of q n fused] hl
    by (elim disjE exE conjE) (simp_all add: rank_and_prune_def ranked_def)
qed

lemma length_rrf_fuse: "length (rrf_fuse dense sparse n k) \<le> n"
  by (simp add: rrf_fuse_def Let_def)

lemma fuse_and_rank_alive:
  assumes "dres \<noteq> Inl CancelledError" and "sres \<noteq> Inl CancelledError"
  shows "fuse_and_rank ext q n rr dres sres =
    (if \<not> is_ok dres \<and> \<not> is_ok sres then Inl retrieval_unavailable
     else let fused = rrf_fuse (arm_hits dres) (arm_hits sres) (if rr then RERANK_FANOUT else n) RRF_K;
              deg = named ''dense'' dres @ named ''sparse'' sres
       in if rr then rank_and_prune ext q n fused deg else Inr \<lparr>so_hits = map to_search_hit fused, so_degraded = deg\<rparr>)"
proof -
  have one: "{''sparse''} \<noteq> {''dense'', ''sparse''}" "{''dense''} \<noteq> {''dense'', ''sparse''}" by auto
  show ?thesis using assms one
    by (cases dres; cases sres) (simp_all add: fuse_and_rank_def surviving_arm_hits_def Let_def insert_commute)
qed

lemma fuse_and_rank_total:
  assumes "remote_contract ext" and "dres \<noteq> Inl CancelledError" and "sres \<noteq> Inl CancelledError"
  shows "if \<not> is_ok dres \<and> \<not> is_ok sres then fuse_and_rank ext q n rr dres sres = Inl retrieval_unavailable
    else \<exists>out. fuse_and_rank ext q n rr dres sres = Inr out"
  unfolding fuse_and_rank_alive [OF assms(2,3)] by (simp add: Let_def rank_and_prune_result(1) [OF assms(1)])

text \<open>
  C6: a search degrades instead of failing. On a non-empty scope, with remote models that answer
  per text or fail as such, and unless it is cancelled, a search is a 503 exactly when both arms
  failed. Otherwise it is answered, with at most \<open>limit\<close> hits: the fusion of the hits of the arms
  that live, reranked if that was asked for and the reranker lives and else cut to the limit, then
  pruned if the pruner lives and else left as they are. The stages it names as bypassed are exactly
  those that failed, each once and in pipeline order.
\<close>

theorem search_degrades:
  fixes n :: nat and rr :: bool
  assumes "remote_contract ext" and "effective_scope books cols u d = Inr ids" and "ids \<noteq> []"
    and "fst (dense_arm ext q ids cached) = dres" and "sparse_arm ext q ids d = sres"
    and "dres \<noteq> Inl CancelledError" and "sres \<noteq> Inl CancelledError"
  defines "fused \<equiv> rrf_fuse (arm_hits dres) (arm_hits sres) (if rr then RERANK_FANOUT else n) RRF_K"
  defines "ranked \<equiv> or_else (take n fused) (reranking_of ext q n fused)"
  defines "pruned \<equiv> or_else ranked (highlighting_of ext q ranked)"
  shows "if \<not> is_ok dres \<and> \<not> is_ok sres
    then fst (run_search ext q n rr u books cols d cached) = Inl retrieval_unavailable \<and> status_of retrieval_unavailable = 503
    else fst (run_search ext q n rr u books cols d cached) = Inr
        \<lparr>so_hits = map to_search_hit (if rr then pruned else fused),
         so_degraded = (if is_ok dres then [] else [''dense'']) @ (if is_ok sres then [] else [''sparse'']) @
           (if rr \<and> \<not> is_ok (reranking_of ext q n fused) then [''rerank''] else []) @
           (if rr \<and> \<not> is_ok (highlighting_of ext q ranked) then [''highlight''] else [])\<rparr> \<and>
      length (if rr then pruned else fused) \<le> n"
proof -
  obtain b bs where ids: "ids = b # bs" using assms(3) by (cases ids) auto
  have "search_library u d \<noteq> []" using effective_scope_subset(1) [OF assms(2), of b] ids by auto
  then have run: "fst (run_search ext q n rr u books cols d cached) = fuse_and_rank ext q n rr dres sres"
    using assms(2,4,5) by (auto simp: run_search_def ids Let_def split: prod.splits)
  have "status_of retrieval_unavailable = 503" by (simp add: retrieval_unavailable_def)
  moreover have "length pruned \<le> n"
    unfolding pruned_def ranked_def by (rule rank_and_prune_result(2) [OF assms(1)])
  moreover have "length fused \<le> n" if "\<not> rr" using that by (simp add: fused_def length_rrf_fuse)
  ultimately show ?thesis
    unfolding run fuse_and_rank_alive [OF assms(6,7)] Let_def fused_def [symmetric]
      rank_and_prune_result(1) [OF assms(1)] ranked_def [symmetric] pruned_def [symmetric]
    by (auto simp: named_def)
qed

text \<open>With a reranker that is down as well, one arm still answers and both bypassed stages are named.\<close>

definition models_down :: search_externals where
  "models_down = milvus_down\<lparr>x_rerank_scores := (\<lambda>_ _. Inl RemoteInferenceError), x_embed_texts := (\<lambda>_. Inl RemoteInferenceError)\<rparr>"

lemma grace_is_a_sentence: "split_sentences ''Grace abounds.'' \<noteq> []"
  by code_simp

theorem search_degrades_witness:
  "fst (run_search models_down ''grace'' 5 True 1 None None demo_search_db None) =
     Inr \<lparr>so_hits = [\<lparr>st_book_id = 10, st_content_chunk = ''Grace abounds.'',
       st_metadata = [(''filename'', MJson (JStr ''a.pdf'')), (''chunk_index'', MJson (JInt 0)), (''parent_section'', MJson JNull)],
       st_score = 1 / 61\<rparr>], so_degraded = [''dense'', ''rerank'', ''highlight'']\<rparr>"
proof -
  let ?hit = "\<lparr>rh_book_id = 10, rh_chunk_index = 0, rh_content_chunk = ''Grace abounds.'',
     rh_metadata = [(''filename'', MJson (JStr ''a.pdf'')), (''chunk_index'', MJson (JInt 0)), (''parent_section'', MJson JNull)],
     rh_score = 1 / 2, rh_dense_score = None, rh_sparse_score = Some (1 / 2)\<rparr>"
  let ?fused = "\<lparr>rh_book_id = 10, rh_chunk_index = 0, rh_content_chunk = ''Grace abounds.'',
     rh_metadata = [(''filename'', MJson (JStr ''a.pdf'')), (''chunk_index'', MJson (JInt 0)), (''parent_section'', MJson JNull)],
     rh_score = 1 / 61, rh_dense_score = None, rh_sparse_score = Some (1 / 2)\<rparr>"
  have contract: "remote_contract models_down" by (simp add: remote_contract_def models_down_def)
  have scope: "effective_scope None None 1 demo_search_db = Inr [10]"
    by (simp add: effective_scope_def search_library_def demo_search_db_def select_where_def)
  have dense: "fst (dense_arm models_down ''grace'' [10] None) = Inl MilvusException"
    by (simp add: dense_arm_def dense_milvus_leg_def client_checkout_def models_down_def milvus_down_def dense_search_def
        dense_search_one_chunk_def build_milvus_filter_def reset_client_def)
  have sparse: "sparse_arm models_down ''grace'' [10] demo_search_db = Inr [?hit]"
    by (simp add: sparse_arm_def models_down_def milvus_down_def bm25_search_def bm25_sql_def demo_search_db_def
        select_where_def hit_from_bm25_row_def SPARSE_FANOUT_def)
  have fused: "rrf_fuse [] [?hit] RERANK_FANOUT RRF_K = [?fused]"
    by (simp add: rrf_fuse_def fuse_loops_def count_hit_def hkey_def dict_get_def setdefault_def RRF_K_def
        RERANK_FANOUT_def Let_def)
  have down: "rerank (x_rerank_scores models_down) ''grace'' 5 [?fused] = Inl RemoteInferenceError"
    "highlight (x_embed_texts models_down) ''grace'' HIGHLIGHT_THRESHOLD [?fused] = Inl RemoteInferenceError"
    using grace_is_a_sentence by (simp_all add: rerank_def highlight_def models_down_def)
  show ?thesis
    using search_degrades [OF contract scope _ dense sparse, of 5 True]
    by (simp add: fused down to_search_hit_def)
qed

section \<open>Isolation\<close>

lemma search_library_view: "search_library u (tenant_view u d) = search_library u d"
  by (simp add: search_library_def tenant_simps)

lemma scope_stmts_view:
  "owned_collections_in_stmt ids u (tenant_view u d) = owned_collections_in_stmt ids u d"
  "member_book_ids_stmt ids u (tenant_view u d) = member_book_ids_stmt ids u d"
  by (simp_all add: owned_collections_in_stmt_def member_book_ids_stmt_def tenant_simps)

lemma effective_scope_view: "effective_scope books cols u (tenant_view u d) = effective_scope books cols u d"
  by (simp add: effective_scope_def search_library_view scope_stmts_view Let_def cong: option.case_cong if_cong)

definition library_chunks :: "uuid \<Rightarrow> db \<Rightarrow> chunk_row list" where
  "library_chunks u d = select_where (\<lambda>c. chk_book_id c \<in> set (search_library u d)) (chunks d)"

lemma sparse_arm_library:
  assumes "set ids \<subseteq> set (search_library u d)"
  shows "sparse_arm ext q ids ((tenant_view u d)\<lparr>chunks := library_chunks u d\<rparr>) = sparse_arm ext q ids d"
proof -
  have "select_where (\<lambda>c. r c \<and> chk_book_id c \<in> set ids) (library_chunks u d) =
      select_where (\<lambda>c. r c \<and> chk_book_id c \<in> set ids) (chunks d)" for r
    using assms by (auto simp: library_chunks_def select_where_def intro!: filter_cong)
  then show ?thesis by (simp add: sparse_arm_def bm25_search_def bm25_sql_def cong: option.case_cong)
qed

lemma scope_stmts_chunks [simp]:
  "search_library u (d\<lparr>chunks := cs\<rparr>) = search_library u d"
  "owned_collections_in_stmt ids u (d\<lparr>chunks := cs\<rparr>) = owned_collections_in_stmt ids u d"
  "member_book_ids_stmt ids u (d\<lparr>chunks := cs\<rparr>) = member_book_ids_stmt ids u d"
  by (simp_all add: search_library_def owned_collections_in_stmt_def member_book_ids_stmt_def)

lemma effective_scope_chunks [simp]: "effective_scope books cols u (d\<lparr>chunks := cs\<rparr>) = effective_scope books cols u d"
  by (simp add: effective_scope_def Let_def cong: option.case_cong if_cong)

text \<open>
  A search reads nothing of other tenants. Its answer, and its effect on the shared client, are
  a function of the caller's own rows and of the chunks of the books in the caller's library: erase
  every other row and every other chunk and nothing changes, whatever the request and the failures.
\<close>

theorem search_isolated:
  "search ext p u ((tenant_view u d)\<lparr>chunks := library_chunks u d\<rparr>) cached = search ext p u d cached"
proof -
  let ?d = "(tenant_view u d)\<lparr>chunks := library_chunks u d\<rparr>"
  have run: "run_search ext q n rr u books cols ?d cached = run_search ext q n rr u books cols d cached" for q n rr books cols
  proof (cases "effective_scope books cols u d")
    case (Inl e)
    then show ?thesis by (simp add: run_search_def effective_scope_view search_library_view)
  next
    case (Inr ids)
    then have "set ids \<subseteq> set (search_library u d)" using effective_scope_subset(1) by blast
    then show ?thesis using Inr
      by (cases ids) (simp_all add: run_search_def effective_scope_view search_library_view sparse_arm_library)
  qed
  show ?thesis by (simp add: search_def run)
qed

end
