(* ===== verification/Summary.thy ===== *)
theory Summary
  imports Search Search_History
begin

text \<open>
  \<open>api/summary.py\<close>: the grounded summary. Every retrieved chunk gets a marker
  \<open>[label:chunk_index]\<close> with a label unique per book, the language model answers from the marked
  passages, and the markers it wrote are mapped back to their chunks, also inside comma-merged
  groups. The language model is a parameter; the client cache and timings are left out.
\<close>

section \<open>Providers\<close>

datatype provider_name = Google | Ppq | Deepinfra

record provider =
  pv_base_url :: string
  pv_default_model :: string
  pv_key_env_var :: string
  pv_api_key :: "string option"
  pv_default_reasoning_effort :: "string option"

text \<open>The settings the summary reads.\<close>

record llm_settings =
  ls_provider :: provider_name
  ls_google_api_key :: "string option"
  ls_ppq_api_key :: "string option"
  ls_deepinfra_api_key :: "string option"
  ls_model :: "string option"
  ls_base_url :: "string option"
  ls_reasoning_effort :: "string option"

definition active_provider :: "llm_settings \<Rightarrow> provider" where
  "active_provider cfg = (case ls_provider cfg of
     Google \<Rightarrow> \<lparr>pv_base_url = ''https://generativelanguage.googleapis.com/v1beta/openai/'',
       pv_default_model = ''gemini-2.5-flash'', pv_key_env_var = ''GOOGLE_API_KEY'',
       pv_api_key = ls_google_api_key cfg, pv_default_reasoning_effort = None\<rparr>
   | Ppq \<Rightarrow> \<lparr>pv_base_url = ''https://api.ppq.ai/v1'',
       pv_default_model = ''google/gemini-2.5-flash'', pv_key_env_var = ''PPQ_API_KEY'',
       pv_api_key = ls_ppq_api_key cfg, pv_default_reasoning_effort = None\<rparr>
   | Deepinfra \<Rightarrow> \<lparr>pv_base_url = ''https://api.deepinfra.com/v1/openai'',
       pv_default_model = ''google/gemini-2.5-flash'', pv_key_env_var = ''DEEPINFRA_API_KEY'',
       pv_api_key = ls_deepinfra_api_key cfg, pv_default_reasoning_effort = Some ''none''\<rparr>)"

text \<open>\<open>x or y\<close> on optional strings: an empty string counts as absent.\<close>

definition or_str :: "string option \<Rightarrow> string \<Rightarrow> string" where
  "or_str x y = (case x of Some (c # cs) \<Rightarrow> c # cs | _ \<Rightarrow> y)"

definition MAX_LABEL_LEN :: nat where "MAX_LABEL_LEN = 80"

definition NO_CONTEXT_MESSAGE :: string where
  "NO_CONTEXT_MESSAGE = ''I couldn'' @ [CHR 0x27] @ ''t find anything in your library that addresses that question.''"

section \<open>Labels\<close>

text \<open>\<open>_WHITESPACE.sub(" ", _LABEL_BANNED.sub("", s)).strip()\<close>.\<close>

function collapse_space :: "string \<Rightarrow> string" where
  "collapse_space [] = []"
| "collapse_space (c # cs) =
     (if is_space c then CHR '' '' # collapse_space (dropWhile is_space cs) else c # collapse_space cs)"
  by pat_completeness auto
termination by (relation "measure length") (auto simp: le_imp_less_Suc length_dropWhile_le)

definition clean_label :: "string \<Rightarrow> string" where
  "clean_label s = py_strip (collapse_space (filter (\<lambda>c. c \<notin> set ''[]:'') s))"

definition after_last :: "char \<Rightarrow> string \<Rightarrow> string" where
  "after_last c s = rev (takeWhile (\<lambda>x. x \<noteq> c) (rev s))"

definition before_last :: "char \<Rightarrow> string \<Rightarrow> string" where
  "before_last c s = (if c \<in> set s then rev (tl (dropWhile (\<lambda>x. x \<noteq> c) (rev s))) else s)"

definition label_from_title :: "string \<Rightarrow> string option \<Rightarrow> uuid \<Rightarrow> string" where
  "label_from_title title filename book_id =
     (let cleaned = clean_label title;
          stem = clean_label (before_last CHR ''.'' (after_last CHR ''/'' (or_str filename [])))
      in if cleaned \<noteq> [] then py_strip (take MAX_LABEL_LEN cleaned)
         else if or_str filename [] \<noteq> [] \<and> stem \<noteq> [] then py_strip (take MAX_LABEL_LEN stem)
         else ''book-'' @ take 8 (str_uuid book_id))"

text \<open>The loop \<open>while label in used\<close>.\<close>

definition suffixed :: "string \<Rightarrow> nat \<Rightarrow> string" where
  "suffixed base k = base @ '' ('' @ nat_str k @ '')''"

lemma suffixed_inject [simp]: "suffixed base j = suffixed base k \<longleftrightarrow> j = k"
  by (simp add: suffixed_def)

lemma finite_suffixed: "finite {k. sfx \<le> k \<and> suffixed base k \<in> set used}"
proof -
  have "finite (suffixed base -` set used)" by (rule finite_vimageI) (auto intro: injI)
  then show ?thesis by (rule rev_finite_subset) auto
qed

function suffix_loop :: "string \<Rightarrow> string list \<Rightarrow> string \<Rightarrow> nat \<Rightarrow> string" where
  "suffix_loop base used label sfx =
     (if label \<in> set used then suffix_loop base used (suffixed base sfx) (sfx + 1) else label)"
  by pat_completeness auto
termination
proof (relation "measure (\<lambda>(base, used, label, sfx).
    card {k. sfx \<le> k \<and> suffixed base k \<in> set used} + (if label \<in> set used then 1 else 0))", simp)
  fix base used label sfx
  assume used: "(label :: string) \<in> set used"
  let ?S = "\<lambda>n. {k. n \<le> k \<and> suffixed base k \<in> set used}"
  have "card (?S (sfx + 1)) + (if suffixed base sfx \<in> set used then 1 else 0) = card (?S sfx)"
  proof (cases "suffixed base sfx \<in> set used")
    case True
    then have "?S sfx = insert sfx (?S (sfx + 1))" by (auto simp: le_Suc_eq not_less_eq_eq)
    then show ?thesis using True finite_suffixed by simp
  next
    case False
    then have "?S sfx = ?S (sfx + 1)" by (auto simp: le_Suc_eq Suc_le_eq order_le_less)
    then show ?thesis using False by simp
  qed
  then show "((base, used, suffixed base sfx, sfx + 1), (base, used, label, sfx)) \<in> measure (\<lambda>(base, used, label, sfx).
      card {k. sfx \<le> k \<and> suffixed base k \<in> set used} + (if label \<in> set used then 1 else 0))"
    using used by simp
qed

declare suffix_loop.simps [simp del]

definition meta_str :: "string \<Rightarrow> metadata \<Rightarrow> string option" where
  "meta_str k m = (case map_of m k of Some (MJson (JStr s)) \<Rightarrow> Some s | _ \<Rightarrow> None)"

text \<open>The loop over the hits; \<open>used\<close> is the value set of \<open>labels\<close>.\<close>

fun label_loop :: "(uuid \<times> string) list \<Rightarrow> search_hit list \<Rightarrow> (uuid \<times> string) list \<Rightarrow> string list \<Rightarrow>
    (uuid \<times> string) list" where
  "label_loop titles [] labels used = labels"
| "label_loop titles (hit # hits) labels used =
     (if map_of labels (st_book_id hit) \<noteq> None then label_loop titles hits labels used
      else let base = label_from_title (or_str (map_of titles (st_book_id hit)) [])
                        (meta_str ''filename'' (st_metadata hit)) (st_book_id hit);
               label = suffix_loop base used base 2
           in label_loop titles hits (labels @ [(st_book_id hit, label)]) (label # used))"

definition assign_book_labels :: "search_hit list \<Rightarrow> (uuid \<times> string) list \<Rightarrow> (uuid \<times> string) list" where
  "assign_book_labels hits titles = label_loop titles hits [] []"

section \<open>Sources and citations\<close>

record source =
  sr_marker :: string
  sr_book_id :: uuid
  sr_title :: string
  sr_chunk_index :: int
  sr_content :: string
  sr_filename :: "string option"
  sr_parent_section :: "string option"

record citation =
  ct_marker :: string
  ct_book_id :: uuid
  ct_title :: string
  ct_chunk_index :: int
  ct_content :: string
  ct_filename :: "string option"
  ct_parent_section :: "string option"

definition member_text :: "string \<Rightarrow> int \<Rightarrow> string" where
  "member_text label i = label @ '':'' @ int_str i"

definition build_source :: "(uuid \<times> string) list \<Rightarrow> (uuid \<times> string) list \<Rightarrow> search_hit \<Rightarrow> source result" where
  "build_source labels titles hit =
     (case int_of_meta (map_of (st_metadata hit) ''chunk_index'') of
        Inl e \<Rightarrow> Inl e
      | Inr chunk_index \<Rightarrow>
          (case map_of labels (st_book_id hit) of
             None \<Rightarrow> Inl KeyError
           | Some label \<Rightarrow> Inr \<lparr>sr_marker = ''['' @ member_text label chunk_index @ '']'',
               sr_book_id = st_book_id hit, sr_title = or_str (map_of titles (st_book_id hit)) label,
               sr_chunk_index = chunk_index, sr_content = st_content_chunk hit,
               sr_filename = meta_str ''filename'' (st_metadata hit),
               sr_parent_section = meta_str ''parent_section'' (st_metadata hit)\<rparr>))"

fun source_loop :: "(uuid \<times> string) list \<Rightarrow> (uuid \<times> string) list \<Rightarrow> search_hit list \<Rightarrow> source list result" where
  "source_loop labels titles [] = Inr []"
| "source_loop labels titles (hit # hits) =
     (case build_source labels titles hit of
        Inl e \<Rightarrow> Inl e
      | Inr s \<Rightarrow> (case source_loop labels titles hits of Inl e \<Rightarrow> Inl e | Inr ss \<Rightarrow> Inr (s # ss)))"

definition build_sources :: "search_hit list \<Rightarrow> (uuid \<times> string) list \<Rightarrow> source list result" where
  "build_sources hits titles = source_loop (assign_book_labels hits titles) titles hits"

definition build_prompt :: "string \<Rightarrow> source list \<Rightarrow> string" where
  "build_prompt query sources =
     ''Question: '' @ query @ newline @ newline @
     ''Context passages (each begins with its [book:chunk] citation marker):'' @ newline @ newline @
     join (newline @ newline) (map (\<lambda>s. sr_marker s @ newline @ sr_content s) sources)"

definition to_citation :: "source \<Rightarrow> citation" where
  "to_citation s = \<lparr>ct_marker = sr_marker s, ct_book_id = sr_book_id s, ct_title = sr_title s,
     ct_chunk_index = sr_chunk_index s, ct_content = sr_content s, ct_filename = sr_filename s,
     ct_parent_section = sr_parent_section s\<rparr>"

text \<open>\<open>_BRACKET_GROUP.finditer\<close>: the bodies of the bracket groups, left to right.\<close>

abbreviation unbracketed :: "char \<Rightarrow> bool" where
  "unbracketed c \<equiv> c \<noteq> CHR ''['' \<and> c \<noteq> CHR '']''"

function bracket_groups :: "string \<Rightarrow> string list" where
  "bracket_groups [] = []"
| "bracket_groups (c # cs) =
     (let rest = dropWhile unbracketed cs
      in if c = CHR ''['' \<and> rest \<noteq> [] \<and> hd rest = CHR '']''
         then takeWhile unbracketed cs # bracket_groups (tl rest)
         else bracket_groups cs)"
  by pat_completeness auto
termination
  by (relation "measure length") (auto simp: less_Suc_eq_le intro: le_trans [OF diff_le_self length_dropWhile_le])

text \<open>
  The inner loop of \<open>_resolve_group_members\<close>: the longest known member \<open>rest\<close> starts with that
  ends at the end of the group or before a comma. \<open>rest\<close> is \<open>inner[pos:]\<close>, lengths are
  relative to \<open>pos\<close>.
\<close>

fun best_member :: "string \<Rightarrow> (string \<times> source) list \<Rightarrow> source option \<times> nat \<Rightarrow> source option \<times> nat" where
  "best_member rest [] best = best"
| "best_member rest ((cand, s) # items) best =
     best_member rest items
       (if length cand \<le> snd best \<or> \<not> startswith rest cand then best
        else if length cand = length rest \<or> rest ! length cand = CHR '','' then (Some s, length cand)
        else best)"

lemma best_member_pos:
  "best_member rest items best = (Some s, n) \<Longrightarrow> fst best \<noteq> None \<longrightarrow> 0 < snd best \<Longrightarrow> 0 < n"
proof (induction items arbitrary: best)
  case (Cons item items)
  obtain cand c where item: "item = (cand, c)" by (cases item)
  let ?best = "if length cand \<le> snd best \<or> \<not> startswith rest cand then best
        else if length cand = length rest \<or> rest ! length cand = CHR '','' then (Some c, length cand) else best"
  have "fst ?best \<noteq> None \<longrightarrow> 0 < snd ?best" using Cons.prems(2) by (auto simp: not_le)
  then show ?case using Cons.IH [of ?best] Cons.prems(1) by (simp add: item)
qed auto

definition step_over_comma :: "string \<Rightarrow> string" where
  "step_over_comma r = (if r \<noteq> [] \<and> hd r = CHR '','' then tl r else r)"

lemma length_step_over_comma: "length (step_over_comma r) \<le> length r"
  by (simp add: step_over_comma_def)

abbreviation skip_spaces :: "string \<Rightarrow> string" where
  "skip_spaces inner \<equiv> dropWhile (\<lambda>c. c = CHR '' '') inner"

lemma member_consumed:
  assumes "best_member (skip_spaces inner) items (None, 0) = (Some s, n)" and "skip_spaces inner \<noteq> []"
  shows "length (step_over_comma (drop n (skip_spaces inner))) < length inner"
proof -
  have "0 < n" using best_member_pos [OF assms(1)] by simp
  moreover have "length (skip_spaces inner) \<le> length inner" by (rule length_dropWhile_le)
  moreover have "0 < length (skip_spaces inner)" using assms(2) by blast
  moreover have "length (step_over_comma (drop n (skip_spaces inner))) \<le> length (skip_spaces inner) - n"
    using length_step_over_comma [of "drop n (skip_spaces inner)"] by simp
  ultimately show ?thesis by linarith
qed

lemma member_skipped:
  assumes "CHR '','' \<in> set (skip_spaces inner)"
  shows "length (tl (dropWhile (\<lambda>c. c \<noteq> CHR '','') (skip_spaces inner))) < length inner"
proof -
  let ?r = "dropWhile (\<lambda>c. c \<noteq> CHR '','') (skip_spaces inner)"
  have "length ?r \<le> length (skip_spaces inner)" "length (skip_spaces inner) \<le> length inner"
    by (rule length_dropWhile_le)+
  moreover have "?r \<noteq> []" using assms by (auto simp: dropWhile_eq_Nil_conv)
  ultimately show ?thesis by (cases ?r) auto
qed

function resolve_group_members :: "string \<Rightarrow> (string \<times> source) list \<Rightarrow> source list" where
  "resolve_group_members inner by_inner =
     (let rest = skip_spaces inner
      in if rest = [] then []
         else case best_member rest by_inner (None, 0) of
             (Some s, n) \<Rightarrow> s # resolve_group_members (step_over_comma (drop n rest)) by_inner
           | (None, _) \<Rightarrow>
               if CHR '','' \<in> set rest
               then resolve_group_members (tl (dropWhile (\<lambda>c. c \<noteq> CHR '','') rest)) by_inner
               else [])"
  by pat_completeness auto
termination
  by (relation "measure (\<lambda>(inner, by_inner). length inner)")
     (auto simp: member_skipped [simplified] dest: sym [THEN member_consumed])

declare resolve_group_members.simps [simp del]

definition inner_text :: "source \<Rightarrow> string" where
  "inner_text s = butlast (tl (sr_marker s))"

fun index_sources :: "source list \<Rightarrow> (string \<times> source) list \<Rightarrow> (string \<times> source) list" where
  "index_sources [] by_inner = by_inner"
| "index_sources (s # ss) by_inner = index_sources ss (setdefault (inner_text s) s by_inner)"

fun collect_citations :: "source list \<Rightarrow> string list \<Rightarrow> citation list \<Rightarrow> citation list" where
  "collect_citations [] seen citations = citations"
| "collect_citations (s # ss) seen citations =
     (if sr_marker s \<in> set seen then collect_citations ss seen citations
      else collect_citations ss (sr_marker s # seen) (citations @ [to_citation s]))"

definition extract_citations :: "string \<Rightarrow> source list \<Rightarrow> citation list" where
  "extract_citations summary sources =
     (let by_inner = index_sources sources []
      in collect_citations (concat (map (\<lambda>body. resolve_group_members body by_inner) (bracket_groups summary))) [] [])"

section \<open>The language model and the handler\<close>

definition SYSTEM_INSTRUCTION :: string where
  "SYSTEM_INSTRUCTION =
     ''You are a careful research assistant for a personal theological library. '' @
     ''Using ONLY the provided context passages, write a thematic summary of one '' @
     ''to two paragraphs that answers the user'' @ [CHR 0x27] @ ''s question. Cite your sources '' @
     ''inline using their exact bracketed [book:chunk] markers, placed '' @
     ''immediately after the statement each one supports. Do not rely on any '' @
     ''knowledge outside the provided passages, and do not invent citations. If '' @
     ''the passages do not address the question, say so in a single sentence '' @
     ''instead of guessing.''"

text \<open>One chat completion request; the reply is the content of the first choice, if any.\<close>

record llm_call =
  lc_base_url :: string
  lc_api_key :: string
  lc_model :: string
  lc_system :: string
  lc_user :: string
  lc_temperature :: rat
  lc_max_tokens :: nat
  lc_reasoning_effort :: "string option"

definition llm_client :: "llm_settings \<Rightarrow> (string \<times> string) result" where
  "llm_client cfg =
     (let provider = active_provider cfg
      in if or_str (pv_api_key provider) [] = [] then Inl RuntimeError
         else Inr (or_str (ls_base_url cfg) (pv_base_url provider), or_str (pv_api_key provider) []))"

definition generate_summary :: "(llm_call \<Rightarrow> string option result) \<Rightarrow> llm_settings \<Rightarrow> string \<Rightarrow> source list \<Rightarrow> string result" where
  "generate_summary llm cfg query sources =
     (let provider = active_provider cfg;
          reasoning = (case ls_reasoning_effort cfg of None \<Rightarrow> pv_default_reasoning_effort provider | Some r \<Rightarrow> Some r)
      in case llm_client cfg of
           Inl e \<Rightarrow> Inl e
         | Inr (base_url, api_key) \<Rightarrow>
             (case llm \<lparr>lc_base_url = base_url, lc_api_key = api_key,
                       lc_model = or_str (ls_model cfg) (pv_default_model provider),
                       lc_system = SYSTEM_INSTRUCTION, lc_user = build_prompt query sources,
                       lc_temperature = 1 / 5, lc_max_tokens = 768, lc_reasoning_effort = reasoning\<rparr> of
                Inl e \<Rightarrow> Inl (if e = APIError then HTTPException 502 ''Summary generation failed upstream.'' else e)
              | Inr None \<Rightarrow> Inl (HTTPException 502 ''Summary generation returned no content.'')
              | Inr (Some txt) \<Rightarrow>
                  if py_strip txt = [] then Inl (HTTPException 502 ''Summary generation returned no content.'')
                  else Inr (py_strip txt)))"

definition resolve_titles :: "uuid list \<Rightarrow> db \<Rightarrow> (uuid \<times> string) list" where
  "resolve_titles book_ids d = map (\<lambda>b. (gb_book_id b, gb_title b))
     (select_where (\<lambda>b. gb_book_id b \<in> set (fromkeys book_ids)) (global_books d))"

record summary_request =
  sm_query :: string
  sm_limit_chunks :: int
  sm_book_ids :: "uuid list option"
  sm_collection_ids :: "uuid list option"
  sm_extra :: "string list"

definition validate_summary_request :: "summary_request \<Rightarrow> bool" where
  "validate_summary_request p \<longleftrightarrow> sm_extra p = [] \<and>
     1 \<le> length (sm_query p) \<and> length (sm_query p) \<le> 1024 \<and> 1 \<le> sm_limit_chunks p \<and> sm_limit_chunks p \<le> 100 \<and>
     (case sm_book_ids p of None \<Rightarrow> True | Some xs \<Rightarrow> length xs \<le> 10000) \<and>
     (case sm_collection_ids p of None \<Rightarrow> True | Some xs \<Rightarrow> length xs \<le> 500)"

record summary_response =
  sp_summary :: string
  sp_citations :: "citation list"
  sp_degraded :: "string list"

definition opt_json :: "string option \<Rightarrow> json" where
  "opt_json x = (case x of None \<Rightarrow> JNull | Some s \<Rightarrow> JStr s)"

definition citation_json :: "citation \<Rightarrow> json" where
  "citation_json c = JObj [(''marker'', JStr (ct_marker c)), (''book_id'', JStr (str_uuid (ct_book_id c))),
     (''title'', JStr (ct_title c)), (''chunk_index'', JInt (ct_chunk_index c)), (''content'', JStr (ct_content c)),
     (''filename'', opt_json (ct_filename c)), (''parent_section'', opt_json (ct_parent_section c))]"

definition model_dump :: "summary_response \<Rightarrow> json" where
  "model_dump r = JObj [(''summary'', JStr (sp_summary r)), (''citations'', JArr (map citation_json (sp_citations r))),
     (''degraded'', JArr (map JStr (sp_degraded r)))]"

text \<open>
  The best-effort save: identifier and clock of the row, what the statements of its transaction raise,
  and what else the save path raises (serialising the response, say). Every exception but a
  cancellation is logged and swallowed.
\<close>

record history_externals =
  hx_new_id :: uuid
  hx_now :: timestamp
  hx_dump :: "py_exn option"
  hx_faults :: history_faults

definition record_history :: "history_externals \<Rightarrow> uuid \<Rightarrow> summary_request \<Rightarrow> summary_response \<Rightarrow> db \<Rightarrow> unit result \<times> db" where
  "record_history hx u p response d =
     (case (case hx_dump hx of
              Some e \<Rightarrow> (Inl e, d)
            | None \<Rightarrow> record_search_history (hx_faults hx) u (sm_query p) (sm_book_ids p) (sm_collection_ids p)
                (model_dump response) (hx_new_id hx) (hx_now hx) d) of
        (Inl e, d') \<Rightarrow> (if is_exception e then Inr () else Inl e, d')
      | (Inr _, d') \<Rightarrow> (Inr (), d'))"

text \<open>From the search outcome to the response: the no-context guard, or sources, answer, citations.\<close>

definition summarize :: "(llm_call \<Rightarrow> string option result) \<Rightarrow> llm_settings \<Rightarrow> string \<Rightarrow> search_outcome \<Rightarrow> db \<Rightarrow>
    summary_response result" where
  "summarize llm cfg query outcome d =
     (if so_hits outcome = []
      then Inr \<lparr>sp_summary = NO_CONTEXT_MESSAGE, sp_citations = [], sp_degraded = so_degraded outcome\<rparr>
      else case build_sources (so_hits outcome) (resolve_titles (map st_book_id (so_hits outcome)) d) of
             Inl e \<Rightarrow> Inl e
           | Inr sources \<Rightarrow>
               (case generate_summary llm cfg query sources of
                  Inl e \<Rightarrow> Inl e
                | Inr answer \<Rightarrow> Inr \<lparr>sp_summary = answer, sp_citations = extract_citations answer sources,
                    sp_degraded = so_degraded outcome\<rparr>))"

text \<open>
  The route. \<open>limiter\<close> is the verdict of the rate-limit dependency, which runs before the body
  is validated.
\<close>

definition search_summary :: "search_externals \<Rightarrow> (llm_call \<Rightarrow> string option result) \<Rightarrow> llm_settings \<Rightarrow> unit result \<Rightarrow>
    history_externals \<Rightarrow> summary_request \<Rightarrow> uuid \<Rightarrow> db \<Rightarrow> client_id option \<Rightarrow>
    summary_response result \<times> db \<times> client_id option" where
  "search_summary ext llm cfg limiter hx p u d cached =
     (case limiter of
        Inl e \<Rightarrow> (Inl e, d, cached)
      | Inr _ \<Rightarrow>
          if \<not> validate_summary_request p then (Inl search_unprocessable, d, cached)
          else if or_str (pv_api_key (active_provider cfg)) [] = []
          then (Inl (HTTPException 503 (''Summary service is not configured; set '' @
                  pv_key_env_var (active_provider cfg) @ ''.'')), d, cached)
          else case run_search ext (sm_query p) (nat (sm_limit_chunks p)) True u (sm_book_ids p) (sm_collection_ids p) d cached of
            (Inl e, cached') \<Rightarrow> (Inl e, d, cached')
          | (Inr outcome, cached') \<Rightarrow>
              (case summarize llm cfg (sm_query p) outcome d of
                 Inl e \<Rightarrow> (Inl e, d, cached')
               | Inr response \<Rightarrow>
                   (case record_history hx u p response d of
                      (Inl e, d') \<Rightarrow> (Inl e, d', cached')
                    | (Inr _, d') \<Rightarrow> (Inr response, d', cached'))))"

end
