(* ===== verification/Summary_Correct.thy ===== *)
theory Summary_Correct
  imports Summary
begin

text \<open>
  Correctness of the summary's citations: labels are unique and free of marker syntax, so a marker
  determines its chunk; every extracted citation was handed to the model and stands in the text;
  merged groups of the markers resolve member by member; the answer stays inside the caller's
  library.
\<close>

section \<open>Labels\<close>

definition label_ok :: "string \<Rightarrow> bool" where
  "label_ok l \<longleftrightarrow> l \<noteq> [] \<and> hd l \<noteq> CHR '' '' \<and> CHR ''['' \<notin> set l \<and> CHR '']'' \<notin> set l \<and> CHR '':'' \<notin> set l"

lemma rstrip_prefix: "\<exists>t. s = rstrip_by P s @ t"
proof -
  have "rev s = takeWhile P (rev s) @ dropWhile P (rev s)" by simp
  then have "s = rev (dropWhile P (rev s)) @ rev (takeWhile P (rev s))" by (metis rev_append rev_rev_ident)
  then show ?thesis unfolding rstrip_by_def by blast
qed

lemma hd_py_strip: "py_strip s \<noteq> [] \<Longrightarrow> \<not> is_space (hd (py_strip s))"
proof -
  assume ne: "py_strip s \<noteq> []"
  let ?t = "dropWhile is_space s"
  have strip: "py_strip s = rstrip_by is_space ?t" by (simp add: py_strip_def strip_by_def lstrip_by_def)
  obtain u where "?t = py_strip s @ u" using rstrip_prefix [of ?t is_space] unfolding strip by blast
  then have "hd (py_strip s) = hd ?t" "?t \<noteq> []" using ne by (metis hd_append, simp)
  then show ?thesis by (metis hd_dropWhile)
qed

lemma is_space_blank: "is_space CHR '' ''"
  by (simp add: is_space_def)

lemma set_collapse_space: "set (collapse_space s) \<subseteq> insert (CHR '' '') (set s)"
  by (induction s rule: collapse_space.induct) (auto dest: set_dropWhileD)

lemma set_clean_label: "c \<in> set (clean_label s) \<Longrightarrow> c \<noteq> CHR ''['' \<and> c \<noteq> CHR '']'' \<and> c \<noteq> CHR '':''"
proof -
  assume "c \<in> set (clean_label s)"
  then have "c \<in> insert (CHR '' '') (set (filter (\<lambda>c. c \<notin> set ''[]:'') s))"
    using set_strip_by set_collapse_space unfolding clean_label_def py_strip_def by blast
  then show ?thesis by auto
qed

lemma truncated_label_ok:
  assumes "clean_label s \<noteq> []"
  shows "label_ok (py_strip (take MAX_LABEL_LEN (clean_label s)))"
proof -
  let ?t = "take MAX_LABEL_LEN (clean_label s)"
  have hd: "\<not> is_space (hd ?t)" "?t \<noteq> []"
    using hd_py_strip [of "collapse_space (filter (\<lambda>c. c \<notin> set ''[]:'') s)"] assms
    by (auto simp: clean_label_def MAX_LABEL_LEN_def)
  then have "py_strip ?t \<noteq> []" by (cases ?t) (auto simp: py_strip_Nil)
  moreover from this have "hd (py_strip ?t) \<noteq> CHR '' ''" using hd_py_strip is_space_blank by metis
  moreover have "set (py_strip ?t) \<subseteq> set (clean_label s)"
    using set_strip_by set_take_subset unfolding py_strip_def by (meson subset_trans)
  ultimately show ?thesis unfolding label_ok_def using set_clean_label by blast
qed

lemma book_label_ok: "label_ok (''book-'' @ take 8 (str_uuid b))"
proof -
  have "c \<noteq> CHR ''['' \<and> c \<noteq> CHR '']'' \<and> c \<noteq> CHR '':''" if "c \<in> set (take 8 (str_uuid b))" for c
    using set_str_uuid [OF in_set_takeD [OF that]] digit_char_not_sep(4,12,13) by fastforce
  then show ?thesis by (auto simp: label_ok_def)
qed

lemma label_from_title_ok: "label_ok (label_from_title t f b)"
  using truncated_label_ok book_label_ok by (auto simp: label_from_title_def Let_def)

lemma set_nat_str_ok:
  "c \<in> set (nat_str n) \<Longrightarrow> c \<noteq> CHR ''['' \<and> c \<noteq> CHR '']'' \<and> c \<noteq> CHR '':'' \<and> c \<noteq> CHR '','' \<and> c \<noteq> CHR ''-'' \<and> c \<noteq> CHR '' ''"
proof -
  assume "c \<in> set (nat_str n)"
  then obtain d where "d < 10" "c = digit_char d" using set_nat_str by blast
  then show ?thesis using digit_char_not_sep [of d] by simp
qed

lemma suffixed_ok: "label_ok base \<Longrightarrow> label_ok (suffixed base k)"
  using set_nat_str_ok by (fastforce simp: label_ok_def suffixed_def)

lemma suffix_loop_fresh: "suffix_loop base used label n \<notin> set used"
  by (induction base used label n rule: suffix_loop.induct) (subst suffix_loop.simps, simp)

lemma suffix_loop_ok: "label_ok base \<Longrightarrow> label_ok label \<Longrightarrow> label_ok (suffix_loop base used label n)"
proof (induction base used label n rule: suffix_loop.induct)
  case (1 base used label n)
  then show ?case using suffixed_ok by (subst suffix_loop.simps) simp
qed

definition labels_ok :: "(uuid \<times> string) list \<Rightarrow> string list \<Rightarrow> bool" where
  "labels_ok labels used \<longleftrightarrow> set used = snd ` set labels \<and> distinct (map fst labels) \<and> distinct (map snd labels) \<and>
     list_all label_ok (map snd labels)"

lemma labels_ok_step:
  assumes "labels_ok labels used" and "map_of labels b = None" and "label_ok l" and "l \<notin> set used"
  shows "labels_ok (labels @ [(b, l)]) (l # used)"
  using assms unfolding labels_ok_def map_of_eq_None_iff by (auto simp: list_all_iff)

lemma label_loop_ok:
  "labels_ok labels used \<Longrightarrow> (\<exists>used'. labels_ok (label_loop titles hits labels used) used') \<and>
     fst ` set (label_loop titles hits labels used) = fst ` set labels \<union> st_book_id ` set hits"
proof (induction hits arbitrary: labels used)
  case (Cons hit hits)
  let ?b = "st_book_id hit"
  show ?case
  proof (cases "map_of labels ?b = None")
    case True
    define base where "base = label_from_title (or_str (map_of titles ?b) []) (meta_str ''filename'' (st_metadata hit)) ?b"
    define label where "label = suffix_loop base used base 2"
    have "label_ok label" "label \<notin> set used"
      unfolding label_def by (auto intro: suffix_loop_ok simp: base_def label_from_title_ok suffix_loop_fresh)
    then have "labels_ok (labels @ [(?b, label)]) (label # used)"
      using labels_ok_step [OF Cons.prems True] by blast
    from Cons.IH [OF this] show ?thesis using True by (simp add: Let_def label_def base_def)
  next
    case False
    then have "?b \<in> fst ` set labels" by (metis map_of_eq_None_iff)
    then show ?thesis using Cons.IH [OF Cons.prems] False by auto
  qed
qed auto

lemma assign_book_labels_ok:
  "\<exists>used. labels_ok (assign_book_labels hits titles) used"
  "fst ` set (assign_book_labels hits titles) = st_book_id ` set hits"
  using label_loop_ok [of "[]" "[]" titles hits] by (simp_all add: assign_book_labels_def labels_ok_def)

lemma label_of_book:
  assumes "map_of (assign_book_labels hits titles) b = Some l"
  shows "label_ok l"
    and "map_of (assign_book_labels hits titles) b' = Some l \<Longrightarrow> b' = b"
proof -
  let ?L = "assign_book_labels hits titles"
  obtain used where ok: "labels_ok ?L used" using assign_book_labels_ok(1) by blast
  have mem: "(b, l) \<in> set ?L" using assms by (rule map_of_SomeD)
  then show "label_ok l" using ok by (force simp: labels_ok_def list_all_iff)
  show "b' = b" if "map_of ?L b' = Some l"
  proof -
    have "inj_on snd (set ?L)" using ok by (auto simp: labels_ok_def distinct_map)
    then show ?thesis using mem map_of_SomeD [OF that] by (metis Pair_inject inj_onD snd_conv)
  qed
qed

section \<open>Members\<close>

text \<open>Splitting a string at the first occurrence of a separator is unique.\<close>

lemma takeWhile_sep: "c \<notin> set x \<Longrightarrow> takeWhile (\<lambda>z. z \<noteq> c) (x @ c # s) = x"
  by (induction x) auto

lemma split_unique:
  assumes "x @ c # s = y @ c # t" and "c \<notin> set x" and "c \<notin> set y"
  shows "x = y \<and> s = t"
  using takeWhile_sep [OF assms(2), of s] takeWhile_sep [OF assms(3), of t] assms(1) by simp

lemma set_int_str: "c \<in> set (int_str i) \<Longrightarrow> c \<noteq> CHR ''['' \<and> c \<noteq> CHR '']'' \<and> c \<noteq> CHR '':'' \<and> c \<noteq> CHR '',''"
  using set_nat_str_ok by (auto simp: int_str_def split: if_splits)

lemma int_str_inject [simp]: "int_str i = int_str j \<longleftrightarrow> i = j"
proof
  have hd: "nat_str n \<noteq> CHR ''-'' # s" for n s
    using set_nat_str_ok [of "CHR ''-''" n] by (metis list.set_intros(1))
  assume "int_str i = int_str j"
  then show "i = j" using hd [of "nat i"] hd [of "nat j"]
    by (auto simp: int_str_def split: if_splits) (metis hd)+
qed simp

lemma member_text_inject:
  assumes "label_ok l" and "label_ok l'"
  shows "member_text l i = member_text l' j \<longleftrightarrow> l = l' \<and> i = j"
  using split_unique [of l "CHR '':''" "int_str i" l' "int_str j"] assms
  by (auto simp: member_text_def label_ok_def)

definition bounded :: "string \<Rightarrow> string \<Rightarrow> bool" where
  "bounded rest m \<longleftrightarrow> startswith rest m \<and> (length m = length rest \<or> rest ! length m = CHR '','')"

lemma bounded_iff: "bounded rest m \<longleftrightarrow> (\<exists>t. rest = m @ t \<and> (t = [] \<or> hd t = CHR '',''))"
proof
  assume b: "bounded rest m"
  then have r: "rest = m @ drop (length m) rest" by (metis append_take_drop_id bounded_def startswith_def)
  have "drop (length m) rest = [] \<or> hd (drop (length m) rest) = CHR '',''"
    using b unfolding bounded_def by (metis drop_all hd_drop_conv_nth leI order_refl)
  then show "\<exists>t. rest = m @ t \<and> (t = [] \<or> hd t = CHR '','')" using r by blast
next
  assume "\<exists>t. rest = m @ t \<and> (t = [] \<or> hd t = CHR '','')"
  then obtain t where "rest = m @ t" "t = [] \<or> hd t = CHR '',''" by blast
  then show "bounded rest m" by (cases t) (auto simp: bounded_def startswith_def nth_append)
qed

lemma takeWhile_comma:
  "CHR '','' \<notin> set x \<Longrightarrow> t = [] \<or> hd t = CHR '','' \<Longrightarrow> takeWhile (\<lambda>z. z \<noteq> CHR '','') (x @ t) = x"
  by (induction x) (cases t; auto)+

lemma bounded_member_unique:
  assumes "label_ok l" "label_ok l'" "bounded rest (member_text l i)" "bounded rest (member_text l' i')"
  shows "member_text l i = member_text l' i'"
proof -
  obtain t t' where t: "rest = member_text l i @ t" "t = [] \<or> hd t = CHR '',''"
    and t': "rest = member_text l' i' @ t'" "t' = [] \<or> hd t' = CHR '',''"
    using assms(3,4) unfolding bounded_iff by blast
  have eq: "l @ CHR '':'' # int_str i @ t = l' @ CHR '':'' # int_str i' @ t'"
    using t(1) t'(1) by (simp add: member_text_def)
  have "l = l' \<and> int_str i @ t = int_str i' @ t'"
    by (rule split_unique [OF eq]) (use assms(1,2) in \<open>simp_all add: label_ok_def\<close>)
  moreover have "int_str i = int_str i'"
    using takeWhile_comma [OF _ t(2), of "int_str i"] takeWhile_comma [OF _ t'(2), of "int_str i'"]
      set_int_str calculation by metis
  ultimately show ?thesis by simp
qed

lemma best_member_unfold:
  "best_member rest ((cand, s) # items) best =
     best_member rest items (if snd best < length cand \<and> bounded rest cand then (Some s, length cand) else best)"
  by (simp add: bounded_def not_le [symmetric] del: not_le)

lemmas [simp del] = best_member.simps(2)

lemma best_member_skip:
  "\<forall>(c, s) \<in> set items. \<not> bounded rest c \<Longrightarrow> best_member rest items best = best"
  by (induction items) (auto simp: best_member_unfold)

lemma best_member_append:
  "best_member rest (xs @ ys) best = best_member rest ys (best_member rest xs best)"
  by (induction xs arbitrary: best) (auto simp: best_member_unfold)

lemma best_member_sound:
  "best_member rest items best = (Some s, n) \<Longrightarrow>
   best = (Some s, n) \<or> (\<exists>m. (m, s) \<in> set items \<and> n = length m \<and> bounded rest m)"
proof (induction items arbitrary: best)
  case (Cons item items)
  obtain c x where item: "item = (c, x)" by (cases item)
  show ?case using Cons.IH [OF Cons.prems [unfolded item best_member_unfold]] unfolding item
    by (auto split: if_splits)
qed simp

definition members_ok :: "(string \<times> source) list \<Rightarrow> bool" where
  "members_ok items \<longleftrightarrow> distinct (map fst items) \<and> (\<forall>(c, s) \<in> set items. \<exists>l i. label_ok l \<and> c = member_text l i)"

lemma best_member_exact:
  assumes "members_ok items" and "(m, s) \<in> set items" and "bounded rest m"
  shows "best_member rest items (None, 0) = (Some s, length m)"
proof -
  obtain xs ys where items: "items = xs @ (m, s) # ys" using assms(2) by (meson split_list)
  obtain l i where m: "label_ok l" "m = member_text l i" using assms(1,2) by (auto simp: members_ok_def)
  have other: "\<not> bounded rest c" if "(c, x) \<in> set (xs @ ys)" for c x
  proof
    assume b: "bounded rest c"
    have "(c, x) \<in> set items" using that by (auto simp: items)
    then obtain l' i' where "label_ok l'" "c = member_text l' i'"
      using assms(1) by (auto simp: members_ok_def)
    then have "c = m" using bounded_member_unique m b assms(3) by metis
    then show False using assms(1) that by (auto simp: members_ok_def items image_iff)
  qed
  have "0 < length m" by (simp add: m member_text_def)
  moreover have "\<forall>(c, x) \<in> set xs. \<not> bounded rest c" "\<forall>(c, x) \<in> set ys. \<not> bounded rest c"
    using other by auto
  ultimately show ?thesis using assms(3)
    by (simp add: items best_member_append best_member_unfold best_member_skip)
qed

section \<open>Groups\<close>

lemma resolve_spaces: "resolve_group_members (CHR '' '' # r) items = resolve_group_members r items"
  by (subst (1 2) resolve_group_members.simps) simp

lemma resolve_Nil [simp]: "resolve_group_members [] items = []"
  by (subst resolve_group_members.simps) simp

lemma resolve_member:
  assumes "members_ok items" and "(m, s) \<in> set items" and "t = [] \<or> hd t = CHR '',''"
  shows "resolve_group_members (m @ t) items = s # resolve_group_members (step_over_comma t) items"
proof -
  obtain l i where m: "label_ok l" "m = member_text l i" using assms(1,2) by (auto simp: members_ok_def)
  then have "m \<noteq> []" "hd m \<noteq> CHR '' ''" by (auto simp: label_ok_def member_text_def)
  then have skip: "skip_spaces (m @ t) = m @ t" "m @ t \<noteq> []" by (cases m; simp)+
  have "bounded (m @ t) m" using assms(3) by (auto simp: bounded_iff)
  from best_member_exact [OF assms(1,2) this] show ?thesis
    using skip by (subst resolve_group_members.simps) (simp add: Let_def)
qed

text \<open>A merged group of known members resolves to exactly these, in order.\<close>

lemma resolve_join:
  assumes "members_ok items" and "\<forall>s \<in> set ss. (inner_text s, s) \<in> set items"
  shows "resolve_group_members (join '', '' (map inner_text ss)) items = ss"
  using assms(2)
proof (induction ss)
  case (Cons s ss)
  show ?case
  proof (cases ss)
    case Nil
    then show ?thesis using resolve_member [OF assms(1), of "inner_text s" s "[]"] Cons.prems
      by (simp add: step_over_comma_def)
  next
    case (Cons s' ss')
    define rest where "rest = join '', '' (map inner_text ss)"
    have "join '', '' (map inner_text (s # ss)) = inner_text s @ CHR '','' # CHR '' '' # rest"
      unfolding rest_def by (simp add: Cons)
    moreover have "resolve_group_members (inner_text s @ CHR '','' # CHR '' '' # rest) items =
        s # resolve_group_members rest items"
      using resolve_member [OF assms(1), of "inner_text s" s "CHR '','' # CHR '' '' # rest"] Cons.prems
      by (simp add: step_over_comma_def resolve_spaces)
    ultimately show ?thesis using Cons.IH Cons.prems by (simp add: rest_def)
  qed
qed simp

lemma suffix_step_over: "suffix (step_over_comma (drop n r)) r"
proof -
  have "suffix (step_over_comma (drop n r)) (drop n r)" by (simp add: step_over_comma_def suffix_tl)
  then show ?thesis by (rule suffix_order.trans) (rule suffix_drop)
qed

lemma suffix_skip: "suffix (tl (dropWhile P r)) r"
  by (rule suffix_order.trans [OF suffix_tl suffix_dropWhile])

definition occurs_bounded :: "(string \<times> source) list \<Rightarrow> source \<Rightarrow> string \<Rightarrow> bool" where
  "occurs_bounded items s inner \<longleftrightarrow>
     (\<exists>m b1 b2. (m, s) \<in> set items \<and> inner = b1 @ m @ b2 \<and> (b2 = [] \<or> hd b2 = CHR '',''))"

lemma occurs_suffix: "suffix r inner \<Longrightarrow> occurs_bounded items s r \<Longrightarrow> occurs_bounded items s inner"
  unfolding occurs_bounded_def suffix_def by (metis append.assoc)

lemma resolve_sound: "s \<in> set (resolve_group_members inner items) \<Longrightarrow> occurs_bounded items s inner"
proof (induction inner items rule: resolve_group_members.induct)
  case (1 inner items)
  let ?rest = "skip_spaces inner"
  note widen = occurs_suffix [OF suffix_order.trans [OF _ suffix_dropWhile]]
  have mem: "s \<in> set (if ?rest = [] then [] else case best_member ?rest items (None, 0) of
      (Some x, n) \<Rightarrow> x # resolve_group_members (step_over_comma (drop n ?rest)) items
    | (None, _) \<Rightarrow> if CHR '','' \<in> set ?rest
        then resolve_group_members (tl (dropWhile (\<lambda>c. c \<noteq> CHR '','') ?rest)) items else [])"
    using "1.prems" unfolding resolve_group_members.simps [of inner items] Let_def .
  obtain best n where best: "best_member ?rest items (None, 0) = (best, n)" by fastforce
  have ne: "?rest \<noteq> []"
  proof
    assume "?rest = []"
    from mem [unfolded if_P [OF this]] show False by simp
  qed
  show ?case
  proof (cases best)
    case None
    then have comma: "CHR '','' \<in> set ?rest" "s \<in> set (resolve_group_members (tl (dropWhile (\<lambda>c. c \<noteq> CHR '','') ?rest)) items)"
      using mem unfolding best None by (simp_all only: ne if_False prod.case option.case split: if_splits) simp_all
    show ?thesis
      by (rule widen [OF suffix_skip "1.IH"(1) [OF refl ne best [symmetric] None comma]])
  next
    case (Some x)
    then have "s = x \<or> s \<in> set (resolve_group_members (step_over_comma (drop n ?rest)) items)"
      using mem unfolding best Some by (simp only: ne if_False prod.case option.case list.set insert_iff)
    then show ?thesis
    proof
      assume x: "s = x"
      obtain m where "(m, x) \<in> set items" "bounded ?rest m" using best_member_sound best Some by fastforce
      then have "occurs_bounded items s ?rest"
        unfolding bounded_iff occurs_bounded_def x by (metis append_Nil)
      then show ?thesis by (rule widen [OF suffix_order.refl])
    next
      assume "s \<in> set (resolve_group_members (step_over_comma (drop n ?rest)) items)"
      then show ?thesis by (rule widen [OF suffix_step_over "1.IH"(2) [OF refl ne best [symmetric] Some]])
    qed
  qed
qed

section \<open>Bracket groups\<close>

lemma bracket_groups_plain:
  "list_all unbracketed plain \<Longrightarrow> bracket_groups (plain @ s) = bracket_groups s"
  by (induction plain) (simp_all add: Let_def)

lemma span_unbracketed:
  assumes "list_all unbracketed body"
  shows "takeWhile unbracketed (body @ CHR '']'' # s) = body" "dropWhile unbracketed (body @ CHR '']'' # s) = CHR '']'' # s"
  using assms by (induction body) auto

lemma bracket_groups_group:
  "list_all unbracketed body \<Longrightarrow> bracket_groups (CHR ''['' # body @ CHR '']'' # s) = body # bracket_groups s"
  by (simp add: Let_def span_unbracketed)

lemma bracket_groups_sound:
  "body \<in> set (bracket_groups ans) \<Longrightarrow>
   list_all unbracketed body \<and> (\<exists>pre post. ans = pre @ ''['' @ body @ '']'' @ post)"
proof (induction ans rule: bracket_groups.induct)
  case (2 c cs)
  let ?rest = "dropWhile unbracketed cs"
  have cs: "cs = takeWhile unbracketed cs @ ?rest" by simp
  show ?case
  proof (cases "c = CHR ''['' \<and> ?rest \<noteq> [] \<and> hd ?rest = CHR '']''")
    case True
    then have rest: "?rest = CHR '']'' # tl ?rest" by (metis list.collapse)
    have ans: "c # cs = ''['' @ takeWhile unbracketed cs @ '']'' @ tl ?rest"
      using True rest takeWhile_dropWhile_id [of unbracketed cs] by simp
    have "body = takeWhile unbracketed cs \<or> body \<in> set (bracket_groups (tl ?rest))"
      using "2.prems" True by (simp add: Let_def del: dropWhile_eq_Nil_conv)
    then show ?thesis
    proof
      assume "body = takeWhile unbracketed cs"
      moreover have "list_all unbracketed (takeWhile unbracketed cs)" by (auto simp: list_all_iff dest: set_takeWhileD)
      moreover have "c # cs = [] @ ''['' @ takeWhile unbracketed cs @ '']'' @ tl ?rest" using ans by simp
      ultimately show ?thesis by blast
    next
      assume "body \<in> set (bracket_groups (tl ?rest))"
      then obtain pre post where "list_all unbracketed body" "tl ?rest = pre @ ''['' @ body @ '']'' @ post"
        using "2.IH"(1) [OF refl True] by blast
      moreover from this(2) have "c # cs = (''['' @ takeWhile unbracketed cs @ '']'' @ pre) @ ''['' @ body @ '']'' @ post"
        unfolding ans by simp
      ultimately show ?thesis by blast
    qed
  next
    case False
    then have "body \<in> set (bracket_groups cs)" using "2.prems" unfolding bracket_groups.simps Let_def by (simp only: if_False)
    then obtain pre post where "list_all unbracketed body" "cs = pre @ ''['' @ body @ '']'' @ post"
      using "2.IH"(2) [OF refl False] by blast
    then show ?thesis by (metis append_Cons)
  qed
qed simp

section \<open>Sources\<close>

lemma source_loop_Inr:
  "source_loop labels titles hits = Inr ss \<Longrightarrow> list_all2 (\<lambda>h s. build_source labels titles h = Inr s) hits ss"
  by (induction hits arbitrary: ss) (auto split: sum.splits)

lemma build_source_Inr:
  assumes "build_source labels titles h = Inr s"
  shows "\<exists>l. map_of labels (st_book_id h) = Some l \<and> inner_text s = member_text l (sr_chunk_index s) \<and>
      sr_marker s = ''['' @ inner_text s @ '']'' \<and>
      sr_book_id s = st_book_id h \<and> sr_content s = st_content_chunk h \<and>
      int_of_meta (map_of (st_metadata h) ''chunk_index'') = Inr (sr_chunk_index s)"
  using assms by (auto simp: build_source_def inner_text_def butlast_append split: sum.splits option.splits)

definition source_ok :: "source \<Rightarrow> bool" where
  "source_ok s \<longleftrightarrow> sr_marker s = ''['' @ inner_text s @ '']'' \<and> (\<exists>l. label_ok l \<and> inner_text s = member_text l (sr_chunk_index s))"

lemma build_sources_mem:
  assumes "build_sources hits titles = Inr ss" and "s \<in> set ss"
  obtains h l where "h \<in> set hits" "map_of (assign_book_labels hits titles) (sr_book_id s) = Some l"
    "inner_text s = member_text l (sr_chunk_index s)" "sr_marker s = ''['' @ inner_text s @ '']''"
    "sr_book_id s = st_book_id h" "sr_content s = st_content_chunk h"
proof -
  have "list_all2 (\<lambda>h s. build_source (assign_book_labels hits titles) titles h = Inr s) hits ss"
    using source_loop_Inr assms(1) unfolding build_sources_def by blast
  then obtain h where h: "h \<in> set hits" "build_source (assign_book_labels hits titles) titles h = Inr s"
    using assms(2) by (auto simp: list_all2_conv_all_nth in_set_conv_nth) (metis nth_mem)
  from build_source_Inr [OF h(2)] show thesis using that h(1) by metis
qed

lemma sources_ok: "build_sources hits titles = Inr ss \<Longrightarrow> s \<in> set ss \<Longrightarrow> source_ok s"
  using build_sources_mem label_of_book(1) unfolding source_ok_def by metis

lemma same_marker:
  assumes "build_sources hits titles = Inr ss" and "s \<in> set ss" and "t \<in> set ss"
  shows "sr_marker s = sr_marker t \<longleftrightarrow> sr_book_id s = sr_book_id t \<and> sr_chunk_index s = sr_chunk_index t"
proof -
  let ?L = "assign_book_labels hits titles"
  obtain l where s: "map_of ?L (sr_book_id s) = Some l" "inner_text s = member_text l (sr_chunk_index s)"
    "sr_marker s = ''['' @ inner_text s @ '']''" using build_sources_mem [OF assms(1,2)] by metis
  obtain l' where t: "map_of ?L (sr_book_id t) = Some l'" "inner_text t = member_text l' (sr_chunk_index t)"
    "sr_marker t = ''['' @ inner_text t @ '']''" using build_sources_mem [OF assms(1,3)] by metis
  have "sr_marker s = sr_marker t \<longleftrightarrow> l = l' \<and> sr_chunk_index s = sr_chunk_index t"
    using s t member_text_inject [OF label_of_book(1) [OF s(1)] label_of_book(1) [OF t(1)]] by simp
  moreover have "l = l' \<longleftrightarrow> sr_book_id s = sr_book_id t"
    using s(1) t(1) label_of_book(2) by (metis option.inject)
  ultimately show ?thesis by blast
qed

lemma index_sources_mem:
  "(m, s) \<in> set (index_sources ss acc) \<Longrightarrow> (m, s) \<in> set acc \<or> s \<in> set ss \<and> m = inner_text s"
proof (induction ss arbitrary: acc)
  case (Cons x ss)
  then have "(m, s) \<in> set (setdefault (inner_text x) x acc) \<or> s \<in> set ss \<and> m = inner_text s" by simp
  then show ?case by (auto simp: setdefault_def split: option.splits)
qed simp

lemma index_sources_distinct: "distinct (map fst acc) \<Longrightarrow> distinct (map fst (index_sources ss acc))"
proof (induction ss arbitrary: acc)
  case (Cons s ss)
  have "distinct (map fst (setdefault (inner_text s) s acc))"
    using Cons.prems by (auto simp: setdefault_def map_of_eq_None_iff split: option.splits)
  then show ?case using Cons.IH by simp
qed simp

lemma index_sources_keeps: "set acc \<subseteq> set (index_sources ss acc)"
proof (induction ss arbitrary: acc)
  case (Cons s ss)
  have "set acc \<subseteq> set (setdefault (inner_text s) s acc)" by (auto simp: setdefault_def split: option.splits)
  then show ?case using Cons.IH [of "setdefault (inner_text s) s acc"] by auto
qed simp

lemma index_sources_hit:
  assumes "s \<in> set ss" and "inj_on inner_text (set ss)" and "\<forall>(m, t) \<in> set acc. t \<in> set ss \<and> m = inner_text t" and "set ss' \<subseteq> set ss"
    and "s \<in> set ss'"
  shows "(inner_text s, s) \<in> set (index_sources ss' acc)"
  using assms(3-5)
proof (induction ss' arbitrary: acc)
  case (Cons x xs)
  let ?acc = "setdefault (inner_text x) x acc"
  have acc: "\<forall>(m, t) \<in> set ?acc. t \<in> set ss \<and> m = inner_text t"
    using Cons.prems(1,2) by (auto simp: setdefault_def split: option.splits)
  show ?case
  proof (cases "s = x")
    case True
    have "(inner_text s, s) \<in> set ?acc"
    proof (cases "map_of acc (inner_text x)")
      case None
      then show ?thesis by (simp add: True setdefault_def)
    next
      case (Some t)
      then have mem: "(inner_text x, t) \<in> set acc" by (rule map_of_SomeD)
      then have "t \<in> set ss" "inner_text x = inner_text t" using Cons.prems(1) by auto
      then have "t = s" using assms(1,2) True by (auto dest: inj_onD)
      then show ?thesis using Some mem True by (simp add: setdefault_def)
    qed
    then show ?thesis using index_sources_keeps by auto
  next
    case False
    then show ?thesis using Cons.IH [OF acc] Cons.prems(2,3) by simp
  qed
qed simp

lemma inner_text_inj:
  assumes "\<forall>s \<in> set ss. source_ok s" and "inj_on sr_marker (set ss)"
  shows "inj_on inner_text (set ss)"
  by (rule inj_onI) (metis assms inj_onD source_ok_def)

lemma index_members_ok:
  assumes "\<forall>s \<in> set ss. source_ok s"
  shows "members_ok (index_sources ss [])"
proof -
  have "\<exists>l i. label_ok l \<and> m = member_text l i" if "(m, s) \<in> set (index_sources ss [])" for m s
    using index_sources_mem [OF that] assms unfolding source_ok_def by fastforce
  then show ?thesis using index_sources_distinct [of "[]" ss] by (auto simp: members_ok_def)
qed

section \<open>Collecting\<close>

fun fresh_sources :: "string list \<Rightarrow> source list \<Rightarrow> source list" where
  "fresh_sources seen [] = []"
| "fresh_sources seen (s # ss) =
     (if sr_marker s \<in> set seen then fresh_sources seen ss else s # fresh_sources (sr_marker s # seen) ss)"

lemma collect_citations_fresh:
  "collect_citations ss seen cs = cs @ map to_citation (fresh_sources seen ss)"
  by (induction ss arbitrary: seen cs) auto

lemma fresh_sources_sound:
  "set (fresh_sources seen ss) \<subseteq> set ss"
  "distinct (map sr_marker (fresh_sources seen ss)) \<and> sr_marker ` set (fresh_sources seen ss) \<inter> set seen = {}"
  by (induction ss arbitrary: seen) (auto; fastforce)+

lemma fresh_sources_fromkeys:
  assumes "inj_on sr_marker S" and "set ss \<subseteq> S"
  shows "fresh_sources seen ss = filter (\<lambda>s. sr_marker s \<notin> set seen) (fromkeys ss)"
  using assms(2)
proof (induction ss arbitrary: seen)
  case (Cons s ss)
  have same: "x = s \<longleftrightarrow> sr_marker x = sr_marker s" if "x \<in> set (fromkeys ss)" for x
    using that Cons.prems assms(1) by (auto dest: inj_onD)
  then have "filter (\<lambda>x. sr_marker x \<notin> set seen \<and> x \<noteq> s) (fromkeys ss) =
      filter (\<lambda>x. sr_marker x \<noteq> sr_marker s \<and> sr_marker x \<notin> set seen) (fromkeys ss)"
    by (intro filter_cong) auto
  moreover have "filter (\<lambda>x. sr_marker x \<notin> set seen \<and> x \<noteq> s) (fromkeys ss) =
      filter (\<lambda>x. sr_marker x \<notin> set seen) (fromkeys ss)" if "sr_marker s \<in> set seen"
    using that by (intro filter_cong) auto
  ultimately show ?case using Cons by (auto simp: conj_commute)
qed simp

lemma extract_citations_fresh:
  "extract_citations ans sources = map to_citation (fresh_sources []
     (concat (map (\<lambda>body. resolve_group_members body (index_sources sources [])) (bracket_groups ans))))"
  by (simp add: extract_citations_def collect_citations_fresh)

section \<open>Properties\<close>

definition demo_hit :: "uuid \<Rightarrow> int \<Rightarrow> search_hit" where
  "demo_hit b i = \<lparr>st_book_id = b, st_content_chunk = ''Grace abounds.'',
     st_metadata = [(''chunk_index'', MJson (JInt i))], st_score = 1\<rparr>"

definition demo_source :: "uuid \<Rightarrow> string \<Rightarrow> int \<Rightarrow> source" where
  "demo_source b l i = \<lparr>sr_marker = ''['' @ member_text l i @ '']'', sr_book_id = b, sr_title = ''Faith, Hope'',
     sr_chunk_index = i, sr_content = ''Grace abounds.'', sr_filename = None, sr_parent_section = None\<rparr>"

lemma demo_label: "label_from_title ''Faith, Hope'' None b = ''Faith, Hope''"
  by (simp add: label_from_title_def clean_label_def MAX_LABEL_LEN_def py_strip_def strip_by_def lstrip_by_def
      rstrip_by_def is_space_def Let_def)

lemma demo_sources:
  "build_sources [demo_hit 1 7, demo_hit 2 7] [(1, ''Faith, Hope''), (2, ''Faith, Hope'')] =
     Inr [demo_source 1 ''Faith, Hope'' 7, demo_source 2 ''Faith, Hope (2)'' 7]"
proof -
  have two: "nat_str 2 = ''2''" by code_simp
  have "assign_book_labels [demo_hit 1 7, demo_hit 2 7] [(1, ''Faith, Hope''), (2, ''Faith, Hope'')] =
      [(1, ''Faith, Hope''), (2, ''Faith, Hope (2)'')]"
    by (simp add: assign_book_labels_def demo_hit_def meta_str_def or_str_def demo_label suffix_loop.simps
        suffixed_def two Let_def)
  then show ?thesis
    by (simp add: build_sources_def build_source_def demo_hit_def demo_source_def or_str_def meta_str_def)
qed

text \<open>
  Markers identify chunks. The sources are built one per hit, in order, and carry its book, its
  index and its text; the label loop always finds a free label, so two sources have the same marker
  exactly when they are the same chunk of the same book.
\<close>

theorem markers_identify_chunks:
  assumes "build_sources hits titles = Inr sources"
  shows "list_all2 (\<lambda>h s. sr_book_id s = st_book_id h \<and> sr_content s = st_content_chunk h \<and>
      int_of_meta (map_of (st_metadata h) ''chunk_index'') = Inr (sr_chunk_index s)) hits sources \<and>
    (\<forall>s \<in> set sources. \<forall>t \<in> set sources.
       sr_marker s = sr_marker t \<longleftrightarrow> sr_book_id s = sr_book_id t \<and> sr_chunk_index s = sr_chunk_index t)"
proof
  have "list_all2 (\<lambda>h s. build_source (assign_book_labels hits titles) titles h = Inr s) hits sources"
    using source_loop_Inr assms unfolding build_sources_def by blast
  then show "list_all2 (\<lambda>h s. sr_book_id s = st_book_id h \<and> sr_content s = st_content_chunk h \<and>
      int_of_meta (map_of (st_metadata h) ''chunk_index'') = Inr (sr_chunk_index s)) hits sources"
    by (rule list_all2_mono) (use build_source_Inr in blast)
  show "\<forall>s \<in> set sources. \<forall>t \<in> set sources.
      sr_marker s = sr_marker t \<longleftrightarrow> sr_book_id s = sr_book_id t \<and> sr_chunk_index s = sr_chunk_index t"
    using same_marker [OF assms] by blast
qed

theorem markers_identify_chunks_witness:
  "sr_marker (demo_source 1 ''Faith, Hope'' 7) \<noteq> sr_marker (demo_source 2 ''Faith, Hope (2)'' 7)"
  using conjunct2 [OF markers_identify_chunks [OF demo_sources]] by (simp add: demo_source_def)

text \<open>
  C12: no invented citation, whatever the model writes. Citations have distinct markers, each is one
  of the sources the model was given, and its member text stands inside a bracket group of the
  answer, at its end or before a comma.
\<close>

theorem citations_sound:
  assumes "build_sources hits titles = Inr sources" and "c \<in> set (extract_citations ans sources)"
  shows "distinct (map ct_marker (extract_citations ans sources)) \<and>
    (\<exists>s \<in> set sources. c = to_citation s \<and> (\<exists>pre b1 b2 post.
       ans = pre @ ''['' @ (b1 @ inner_text s @ b2) @ '']'' @ post \<and> list_all unbracketed (b1 @ inner_text s @ b2) \<and>
       (b2 = [] \<or> hd b2 = CHR '','')))"
proof
  have "ct_marker \<circ> to_citation = sr_marker" by (auto simp: to_citation_def)
  then show "distinct (map ct_marker (extract_citations ans sources))"
    using fresh_sources_sound(2) by (simp add: extract_citations_fresh)
  obtain s body where c: "c = to_citation s" and body: "body \<in> set (bracket_groups ans)"
    and s: "s \<in> set (resolve_group_members body (index_sources sources []))"
    using assms(2) fresh_sources_sound(1) unfolding extract_citations_fresh by fastforce
  obtain m b1 b2 where m: "(m, s) \<in> set (index_sources sources [])" "body = b1 @ m @ b2" "b2 = [] \<or> hd b2 = CHR '',''"
    using resolve_sound [OF s] unfolding occurs_bounded_def by blast
  then have "s \<in> set sources" "m = inner_text s" using index_sources_mem by fastforce+
  then show "\<exists>s \<in> set sources. c = to_citation s \<and> (\<exists>pre b1 b2 post.
       ans = pre @ ''['' @ (b1 @ inner_text s @ b2) @ '']'' @ post \<and> list_all unbracketed (b1 @ inner_text s @ b2) \<and>
       (b2 = [] \<or> hd b2 = CHR '',''))"
    using c m(2,3) bracket_groups_sound [OF body] by blast
qed

lemma demo_extract:
  "extract_citations ''[Faith, Hope:7]'' [demo_source 1 ''Faith, Hope'' 7, demo_source 2 ''Faith, Hope (2)'' 7] =
   [to_citation (demo_source 1 ''Faith, Hope'' 7)]"
proof -
  let ?a = "demo_source 1 ''Faith, Hope'' 7" and ?b = "demo_source 2 ''Faith, Hope (2)'' 7"
  let ?idx = "index_sources [?a, ?b] []"
  have ok: "\<forall>s \<in> set [?a, ?b]. source_ok s" using sources_ok [OF demo_sources] by blast
  have "nat_str 7 = ''7''" by code_simp
  then have inner: "inner_text ?a = ''Faith, Hope:7''"
    by (simp add: inner_text_def demo_source_def member_text_def int_str_def)
  have "(inner_text ?a, ?a) \<in> set ?idx" using index_sources_keeps [of "[(inner_text ?a, ?a)]" "[?b]"] by (simp add: setdefault_def)
  then have "resolve_group_members (inner_text ?a) ?idx = [?a]"
    using resolve_join [OF index_members_ok [OF ok], of "[?a]"] by simp
  moreover have "bracket_groups (CHR ''['' # ''Faith, Hope:7'' @ CHR '']'' # []) = [''Faith, Hope:7'']"
    using bracket_groups_group [of "''Faith, Hope:7''" "[]"] by simp
  ultimately show ?thesis unfolding inner by (simp add: extract_citations_fresh del: bracket_groups.simps index_sources.simps)
qed

theorem citations_sound_witness:
  "\<exists>s pre b1 b2 post. to_citation (demo_source 1 ''Faith, Hope'' 7) = to_citation s \<and>
     ''[Faith, Hope:7]'' = pre @ ''['' @ (b1 @ inner_text s @ b2) @ '']'' @ post"
proof -
  have "to_citation (demo_source 1 ''Faith, Hope'' 7) \<in>
      set (extract_citations ''[Faith, Hope:7]'' [demo_source 1 ''Faith, Hope'' 7, demo_source 2 ''Faith, Hope (2)'' 7])"
    unfolding demo_extract by simp
  from conjunct2 [OF citations_sound [OF demo_sources this]] show ?thesis by blast
qed

text \<open>The answer a model writes: plain text interleaved with (merged) groups of known markers.\<close>

fun written :: "(string \<times> source list) list \<Rightarrow> string \<Rightarrow> string" where
  "written [] tail = tail"
| "written ((plain, ss) # rest) tail =
     plain @ ''['' @ join '', '' (map inner_text ss) @ '']'' @ written rest tail"

lemma join_unbracketed: "\<forall>m \<in> set ms. list_all unbracketed m \<Longrightarrow> list_all unbracketed (join '', '' ms)"
  by (induction "'', ''" ms rule: join.induct) auto

lemma source_ok_unbracketed: "source_ok s \<Longrightarrow> list_all unbracketed (inner_text s)"
  using set_int_str by (fastforce simp: source_ok_def label_ok_def member_text_def list_all_iff)

lemma bracket_groups_written:
  assumes "list_all (\<lambda>(plain, ss). list_all unbracketed plain \<and> list_all source_ok ss) pieces"
    and "list_all unbracketed tail"
  shows "bracket_groups (written pieces tail) = map (\<lambda>p. join '', '' (map inner_text (snd p))) pieces"
  using assms(1)
proof (induction pieces)
  case Nil
  then show ?case using bracket_groups_plain [OF assms(2), of "[]"] by simp
next
  case (Cons piece rest)
  obtain plain ss where piece: "piece = (plain, ss)" by (cases piece)
  have "list_all source_ok ss" using Cons.prems by (simp add: piece)
  then have "\<forall>s \<in> set ss. source_ok s" by (simp only: list_all_iff)
  then have "\<forall>m \<in> set (map inner_text ss). list_all unbracketed m" using source_ok_unbracketed by (simp only: set_map) blast
  then have "list_all unbracketed (join '', '' (map inner_text ss))" by (rule join_unbracketed)
  from bracket_groups_group [OF this, of "written rest tail"] show ?case
    using Cons by (simp add: piece bracket_groups_plain del: bracket_groups.simps)
qed

text \<open>
  C13: citing round trip. For hits that are distinct chunks, an answer that interleaves arbitrary
  bracket-free text with groups of comma-joined markers of the sources yields exactly the cited
  sources, in order of first appearance, each once; labels with commas inside included.
\<close>

theorem citations_roundtrip:
  assumes "build_sources hits titles = Inr sources"
    and "distinct (map (\<lambda>s. (sr_book_id s, sr_chunk_index s)) sources)"
    and "list_all (\<lambda>(plain, ss). list_all unbracketed plain \<and> set ss \<subseteq> set sources) pieces"
    and "list_all unbracketed tail"
  shows "extract_citations (written pieces tail) sources = map to_citation (fromkeys (concat (map snd pieces)))"
proof -
  have ok: "\<forall>s \<in> set sources. source_ok s" using sources_ok [OF assms(1)] by blast
  have inj: "inj_on sr_marker (set sources)"
    by (rule inj_onI) (use same_marker [OF assms(1)] assms(2) in \<open>auto simp: distinct_map dest: inj_onD\<close>)
  have hit: "\<forall>s \<in> set ss. (inner_text s, s) \<in> set (index_sources sources [])" if "set ss \<subseteq> set sources" for ss
    using index_sources_hit [OF _ inner_text_inj [OF ok inj], of _ "[]" sources] that by auto
  have resolved: "resolve_group_members (join '', '' (map inner_text ss)) (index_sources sources []) = ss"
    if "set ss \<subseteq> set sources" for ss
    by (rule resolve_join [OF index_members_ok [OF ok] hit [OF that]])
  have "bracket_groups (written pieces tail) = map (\<lambda>p. join '', '' (map inner_text (snd p))) pieces"
  proof (rule bracket_groups_written [OF _ assms(4)])
    have "(case p of (plain, ss) \<Rightarrow> list_all unbracketed plain \<and> list_all source_ok ss)"
      if "p \<in> set pieces" for p
      using assms(3) that ok unfolding list_all_iff [of _ pieces] by (cases p) (simp add: list_all_iff [of source_ok] subset_iff, blast)
    then show "list_all (\<lambda>(plain, ss). list_all unbracketed plain \<and> list_all source_ok ss) pieces"
      unfolding list_all_iff [of _ pieces] by blast
  qed
  moreover have "map (\<lambda>p. resolve_group_members (join '', '' (map inner_text (snd p))) (index_sources sources [])) pieces =
      map snd pieces"
    using assms(3) unfolding list_all_iff [of _ pieces] by (intro map_cong refl resolved) force
  ultimately have "extract_citations (written pieces tail) sources =
      map to_citation (fresh_sources [] (concat (map snd pieces)))"
    by (simp only: extract_citations_fresh map_map o_def)
  moreover have "set ss \<subseteq> set sources" if "(plain, ss) \<in> set pieces" for plain ss
    using assms(3) that unfolding list_all_iff [of _ pieces] by blast
  then have "set (concat (map snd pieces)) \<subseteq> set sources" by fastforce
  ultimately show ?thesis using fresh_sources_fromkeys [OF inj] by simp
qed

theorem citations_roundtrip_witness:
  "extract_citations ''So it is [Faith, Hope (2):7, Faith, Hope:7].''
     [demo_source 1 ''Faith, Hope'' 7, demo_source 2 ''Faith, Hope (2)'' 7] =
   [to_citation (demo_source 2 ''Faith, Hope (2)'' 7), to_citation (demo_source 1 ''Faith, Hope'' 7)]"
proof -
  let ?a = "demo_source 1 ''Faith, Hope'' 7" and ?b = "demo_source 2 ''Faith, Hope (2)'' 7"
  have seven: "nat_str 7 = ''7''" by code_simp
  have inner: "inner_text ?a = ''Faith, Hope:7''" "inner_text ?b = ''Faith, Hope (2):7''"
    by (simp_all add: inner_text_def demo_source_def member_text_def int_str_def seven)
  have ne: "?b \<noteq> ?a" by (simp add: demo_source_def)
  have "extract_citations (written [(''So it is '', [?b, ?a])] ''.'') [?a, ?b] =
      map to_citation (fromkeys (concat (map snd [(''So it is '', [?b, ?a])])))"
    by (rule citations_roundtrip [OF demo_sources]) (simp_all add: demo_source_def)
  then show ?thesis using ne by (simp add: inner)
qed

lemma summary_success:
  assumes "search_summary ext llm cfg limiter hx p u d cached = (Inr r, d', cached')"
  obtains outcome where "limiter = Inr ()" "validate_summary_request p"
    "or_str (pv_api_key (active_provider cfg)) [] \<noteq> []"
    "run_search ext (sm_query p) (nat (sm_limit_chunks p)) True u (sm_book_ids p) (sm_collection_ids p) d cached = (Inr outcome, cached')"
    "summarize llm cfg (sm_query p) outcome d = Inr r" "record_history hx u p r d = (Inr (), d')"
proof -
  have lim: "limiter = Inr ()" using assms by (cases limiter) (simp_all add: search_summary_def)
  show thesis
    using assms that lim by (auto simp: search_summary_def split: if_splits sum.splits prod.splits)
qed

lemma generate_summary_Inr:
  assumes "generate_summary llm cfg q sources = Inr ans"
  shows "\<exists>call reply. llm call = Inr (Some reply) \<and> lc_system call = SYSTEM_INSTRUCTION \<and>
    lc_user call = build_prompt q sources \<and> ans = py_strip reply \<and> ans \<noteq> []"
proof -
  define reasoning where "reasoning = (case ls_reasoning_effort cfg of None \<Rightarrow> pv_default_reasoning_effort (active_provider cfg) | Some r \<Rightarrow> Some r)"
  obtain base_url api_key where client: "llm_client cfg = Inr (base_url, api_key)"
    using assms by (auto simp: generate_summary_def Let_def split: sum.splits)
  let ?call = "\<lparr>lc_base_url = base_url, lc_api_key = api_key, lc_model = or_str (ls_model cfg) (pv_default_model (active_provider cfg)),
     lc_system = SYSTEM_INSTRUCTION, lc_user = build_prompt q sources, lc_temperature = 1 / 5, lc_max_tokens = 768,
     lc_reasoning_effort = reasoning\<rparr>"
  obtain reply where "llm ?call = Inr (Some reply)" "ans = py_strip reply" "ans \<noteq> []"
    using assms unfolding generate_summary_def Let_def client reasoning_def [symmetric]
    by (auto split: sum.splits option.splits if_splits)
  then show ?thesis by (intro exI [of _ ?call] exI [of _ reply]) simp
qed

lemma summarize_Inr:
  assumes "summarize llm cfg q outcome d = Inr r"
  shows "sp_degraded r = so_degraded outcome"
    and "c \<in> set (sp_citations r) \<Longrightarrow> \<exists>h \<in> set (so_hits outcome). ct_book_id c = st_book_id h"
    and "so_hits outcome = [] \<Longrightarrow> sp_summary r = NO_CONTEXT_MESSAGE \<and> sp_citations r = []"
    and "so_hits outcome \<noteq> [] \<Longrightarrow> \<exists>call sources reply.
      build_sources (so_hits outcome) (resolve_titles (map st_book_id (so_hits outcome)) d) = Inr sources \<and>
      lc_system call = SYSTEM_INSTRUCTION \<and> lc_user call = build_prompt q sources \<and> llm call = Inr (Some reply) \<and>
      sp_summary r = py_strip reply \<and> sp_summary r \<noteq> [] \<and> sp_citations r = extract_citations (sp_summary r) sources"
proof -
  show "sp_degraded r = so_degraded outcome"
    using assms by (auto simp: summarize_def split: if_splits sum.splits)
  show "sp_summary r = NO_CONTEXT_MESSAGE \<and> sp_citations r = []" if "so_hits outcome = []"
    using assms that by (auto simp: summarize_def)
  show "\<exists>call sources reply.
      build_sources (so_hits outcome) (resolve_titles (map st_book_id (so_hits outcome)) d) = Inr sources \<and>
      lc_system call = SYSTEM_INSTRUCTION \<and> lc_user call = build_prompt q sources \<and> llm call = Inr (Some reply) \<and>
      sp_summary r = py_strip reply \<and> sp_summary r \<noteq> [] \<and> sp_citations r = extract_citations (sp_summary r) sources"
    if ne: "so_hits outcome \<noteq> []"
  proof -
    obtain sources ans where src: "build_sources (so_hits outcome) (resolve_titles (map st_book_id (so_hits outcome)) d) = Inr sources"
      and gen: "generate_summary llm cfg q sources = Inr ans"
      and r: "sp_summary r = ans" "sp_citations r = extract_citations ans sources"
      using assms ne by (auto simp: summarize_def split: sum.splits)
    obtain call reply where "llm call = Inr (Some reply)" "lc_system call = SYSTEM_INSTRUCTION"
      "lc_user call = build_prompt q sources" "ans = py_strip reply" "ans \<noteq> []"
      using generate_summary_Inr [OF gen] by blast
    then show ?thesis using src r by (intro exI [of _ call] exI [of _ sources] exI [of _ reply]) simp
  qed
  assume "c \<in> set (sp_citations r)"
  then obtain sources ans titles where src: "build_sources (so_hits outcome) titles = Inr sources"
    and ans: "c \<in> set (extract_citations ans sources)"
    using assms by (auto simp: summarize_def split: if_splits sum.splits)
  then obtain x where x: "x \<in> set sources" "c = to_citation x"
    using fresh_sources_sound(1) resolve_sound index_sources_mem
    unfolding extract_citations_fresh occurs_bounded_def by fastforce
  then show "\<exists>h \<in> set (so_hits outcome). ct_book_id c = st_book_id h"
    using build_sources_mem [OF src x(1)] by (metis citation.select_convs(2) to_citation_def)
qed

text \<open>The save path raises nothing but what \<open>except Exception\<close> catches.\<close>

definition no_cancellation :: "history_externals \<Rightarrow> bool" where
  "no_cancellation hx \<longleftrightarrow> list_all (\<lambda>f. case f of None \<Rightarrow> True | Some e \<Rightarrow> is_exception e)
     [hx_dump hx, hf_flush (hx_faults hx), hf_prune (hx_faults hx), hf_commit (hx_faults hx), hf_rollback (hx_faults hx)]"

lemma record_history_quiet: "no_cancellation hx \<Longrightarrow> fst (record_history hx u p r d) = Inr ()"
  by (cases "hf_rollback (hx_faults hx)")
    (auto simp: no_cancellation_def record_history_def record_search_history_def save_run_def is_exception_def Let_def
      split: option.splits sum.splits)

lemma record_history_db:
  "snd (record_history hx u p r d) =
     (case hx_dump hx of
        Some _ \<Rightarrow> d
      | None \<Rightarrow> (case save_run (hx_faults hx) u (sm_query p) (sm_book_ids p) (sm_collection_ids p) (model_dump r)
                        (hx_new_id hx) (hx_now hx) d of Inl _ \<Rightarrow> d | Inr d' \<Rightarrow> d'))"
  by (simp add: record_history_def record_search_history_db [symmetric] case_prod_beta split: option.split sum.split)

lemma save_run_only_history:
  "save_run hf u q books cols res i now d = Inr d' \<Longrightarrow> d'\<lparr>search_history := search_history d\<rparr> = d"
  by (auto simp: save_run_def prune_stmt_def Let_def split: option.splits if_splits)

text \<open>
  C14: a summary is grounded and paid for once. When the vector store honours its filter, every
  citation of an answered request is of a book in the caller's library, and the answer reports the
  degraded stages of the search. If the search found nothing it is the fixed message without
  citations, whatever the language model would say; otherwise it is the non-blank reply of one call
  whose prompt is built from exactly the hits of that search, and the citations are those the reply
  makes to them. The only write is the history row, saved in one transaction or not at all. And
  whatever exceptions the save path raises, on flush, prune, commit, rollback or before, short of a
  cancellation, the client gets this same answer.
\<close>

theorem summary_grounded:
  assumes "\<forall>c vec. store_filters (x_store ext c vec)"
    and "search_summary ext llm cfg limiter hx p u d cached = (Inr r, d', cached')"
  shows "(\<forall>c \<in> set (sp_citations r). \<exists>e \<in> set (user_library d). ul_user_id e = u \<and> ul_book_id e = ct_book_id c) \<and>
    (\<exists>outcome. fst (run_search ext (sm_query p) (nat (sm_limit_chunks p)) True u (sm_book_ids p) (sm_collection_ids p) d cached) = Inr outcome \<and>
       sp_degraded r = so_degraded outcome \<and>
       (if so_hits outcome = []
        then sp_summary r = NO_CONTEXT_MESSAGE \<and> sp_citations r = [] \<and>
          (\<forall>llm'. fst (search_summary ext llm' cfg limiter hx p u d cached) = Inr r)
        else \<exists>call sources reply.
          build_sources (so_hits outcome) (resolve_titles (map st_book_id (so_hits outcome)) d) = Inr sources \<and>
          lc_system call = SYSTEM_INSTRUCTION \<and> lc_user call = build_prompt (sm_query p) sources \<and>
          llm call = Inr (Some reply) \<and> sp_summary r = py_strip reply \<and> sp_summary r \<noteq> [] \<and>
          sp_citations r = extract_citations (sp_summary r) sources)) \<and>
    (d' = d \<or> hx_dump hx = None \<and> save_run (hx_faults hx) u (sm_query p) (sm_book_ids p) (sm_collection_ids p) (model_dump r)
       (hx_new_id hx) (hx_now hx) d = Inr d') \<and>
    d'\<lparr>search_history := search_history d\<rparr> = d \<and>
    (\<forall>hx'. no_cancellation hx' \<longrightarrow> fst (search_summary ext llm cfg limiter hx' p u d cached) = Inr r)"
proof -
  obtain outcome where s: "limiter = Inr ()" "validate_summary_request p"
    "or_str (pv_api_key (active_provider cfg)) [] \<noteq> []"
    "run_search ext (sm_query p) (nat (sm_limit_chunks p)) True u (sm_book_ids p) (sm_collection_ids p) d cached = (Inr outcome, cached')"
    and r: "summarize llm cfg (sm_query p) outcome d = Inr r" and d': "record_history hx u p r d = (Inr (), d')"
    using summary_success [OF assms(2)] by metis
  have grounded: "\<exists>e \<in> set (user_library d). ul_user_id e = u \<and> ul_book_id e = ct_book_id c" if c: "c \<in> set (sp_citations r)" for c
  proof -
    obtain h where h: "h \<in> set (so_hits outcome)" "ct_book_id c = st_book_id h" using summarize_Inr(2) [OF r c] by blast
    then obtain ids where "effective_scope (sm_book_ids p) (sm_collection_ids p) u d = Inr ids" "st_book_id h \<in> set ids"
      using run_search_books [OF assms(1), of "sm_query p"] s(4) by (metis fst_conv)
    then show ?thesis using effective_scope_subset(1) h(2) unfolding search_library_mem by metis
  qed
  have again: "search_summary ext llm' cfg limiter hx' p u d cached =
      (case record_history hx' u p r d of (Inl e, x) \<Rightarrow> (Inl e, x, cached') | (Inr _, x) \<Rightarrow> (Inr r, x, cached'))"
    if "summarize llm' cfg (sm_query p) outcome d = Inr r" for llm' hx'
    using that s by (simp add: search_summary_def)
  have quiet: "\<forall>hx'. no_cancellation hx' \<longrightarrow> fst (search_summary ext llm cfg limiter hx' p u d cached) = Inr r"
  proof (intro allI impI)
    fix hx' assume "no_cancellation hx'"
    from record_history_quiet [OF this, of u p r d]
    show "fst (search_summary ext llm cfg limiter hx' p u d cached) = Inr r"
      unfolding again [OF r] by (cases "record_history hx' u p r d") simp
  qed
  have "fst (search_summary ext llm' cfg limiter hx p u d cached) = Inr r" if "so_hits outcome = []" for llm'
  proof -
    have "summarize llm' cfg (sm_query p) outcome d = Inr r" using that r by (simp add: summarize_def)
    then show ?thesis by (simp add: again d')
  qed
  then have answer: "if so_hits outcome = []
        then sp_summary r = NO_CONTEXT_MESSAGE \<and> sp_citations r = [] \<and>
          (\<forall>llm'. fst (search_summary ext llm' cfg limiter hx p u d cached) = Inr r)
        else \<exists>call sources reply.
          build_sources (so_hits outcome) (resolve_titles (map st_book_id (so_hits outcome)) d) = Inr sources \<and>
          lc_system call = SYSTEM_INSTRUCTION \<and> lc_user call = build_prompt (sm_query p) sources \<and>
          llm call = Inr (Some reply) \<and> sp_summary r = py_strip reply \<and> sp_summary r \<noteq> [] \<and>
          sp_citations r = extract_citations (sp_summary r) sources"
    using summarize_Inr(3) [OF r] summarize_Inr(4) [OF r]
    by (cases "so_hits outcome = []") (simp_all only: if_True if_False simp_thms)
  have "d' = snd (record_history hx u p r d)" by (simp add: d')
  then have saved: "d' = d \<or> hx_dump hx = None \<and> save_run (hx_faults hx) u (sm_query p) (sm_book_ids p) (sm_collection_ids p)
       (model_dump r) (hx_new_id hx) (hx_now hx) d = Inr d'" "d'\<lparr>search_history := search_history d\<rparr> = d"
    unfolding record_history_db by (auto split: option.splits sum.splits dest: save_run_only_history)
  have "fst (run_search ext (sm_query p) (nat (sm_limit_chunks p)) True u (sm_book_ids p) (sm_collection_ids p) d cached) = Inr outcome"
    using s(4) by simp
  with answer have "\<exists>outcome. fst (run_search ext (sm_query p) (nat (sm_limit_chunks p)) True u (sm_book_ids p) (sm_collection_ids p) d cached) = Inr outcome \<and>
       sp_degraded r = so_degraded outcome \<and>
       (if so_hits outcome = []
        then sp_summary r = NO_CONTEXT_MESSAGE \<and> sp_citations r = [] \<and>
          (\<forall>llm'. fst (search_summary ext llm' cfg limiter hx p u d cached) = Inr r)
        else \<exists>call sources reply.
          build_sources (so_hits outcome) (resolve_titles (map st_book_id (so_hits outcome)) d) = Inr sources \<and>
          lc_system call = SYSTEM_INSTRUCTION \<and> lc_user call = build_prompt (sm_query p) sources \<and>
          llm call = Inr (Some reply) \<and> sp_summary r = py_strip reply \<and> sp_summary r \<noteq> [] \<and>
          sp_citations r = extract_citations (sp_summary r) sources)"
    using summarize_Inr(1) [OF r] by blast
  with grounded saved quiet show ?thesis by blast
qed

text \<open>
  With Milvus and both remote models down and the sparse arm alive, the model cites the one passage it
  was given; the history cannot be saved, nor its session rolled back.
\<close>

definition demo_llm_settings :: llm_settings where
  "demo_llm_settings = \<lparr>ls_provider = Deepinfra, ls_google_api_key = None, ls_ppq_api_key = None,
     ls_deepinfra_api_key = Some ''k'', ls_model = None, ls_base_url = None, ls_reasoning_effort = None\<rparr>"

definition demo_summary_request :: summary_request where
  "demo_summary_request = \<lparr>sm_query = ''grace'', sm_limit_chunks = 5, sm_book_ids = None, sm_collection_ids = None,
     sm_extra = []\<rparr>"

definition grace_hit :: search_hit where
  "grace_hit = \<lparr>st_book_id = 10, st_content_chunk = ''Grace abounds.'',
     st_metadata = [(''filename'', MJson (JStr ''a.pdf'')), (''chunk_index'', MJson (JInt 0)), (''parent_section'', MJson JNull)],
     st_score = 1 / 61\<rparr>"

definition demo_citation :: citation where
  "demo_citation = \<lparr>ct_marker = ''[a:0]'', ct_book_id = 10, ct_title = ''a'', ct_chunk_index = 0,
     ct_content = ''Grace abounds.'', ct_filename = Some ''a.pdf'', ct_parent_section = None\<rparr>"

definition demo_answer :: summary_response where
  "demo_answer = \<lparr>sp_summary = ''It abounds [a:0].'', sp_citations = [demo_citation],
     sp_degraded = [''dense'', ''rerank'', ''highlight'']\<rparr>"

lemma demo_degraded_run:
  "run_search models_down ''grace'' 5 True 1 None None demo_search_db None =
     (Inr \<lparr>so_hits = [grace_hit], so_degraded = [''dense'', ''rerank'', ''highlight'']\<rparr>, None)"
proof -
  let ?hit = "\<lparr>rh_book_id = 10, rh_chunk_index = 0, rh_content_chunk = ''Grace abounds.'',
     rh_metadata = [(''filename'', MJson (JStr ''a.pdf'')), (''chunk_index'', MJson (JInt 0)), (''parent_section'', MJson JNull)],
     rh_score = 1 / 2, rh_dense_score = None, rh_sparse_score = Some (1 / 2)\<rparr>"
  let ?fused = "\<lparr>rh_book_id = 10, rh_chunk_index = 0, rh_content_chunk = ''Grace abounds.'',
     rh_metadata = [(''filename'', MJson (JStr ''a.pdf'')), (''chunk_index'', MJson (JInt 0)), (''parent_section'', MJson JNull)],
     rh_score = 1 / 61, rh_dense_score = None, rh_sparse_score = Some (1 / 2)\<rparr>"
  have lib: "search_library 1 demo_search_db = [10]"
    by (simp add: search_library_def demo_search_db_def select_where_def)
  then have scope: "effective_scope None None 1 demo_search_db = Inr [10]" by (simp add: effective_scope_def)
  have dense: "dense_arm models_down ''grace'' [10] None = (Inl MilvusException, None)"
    by (simp add: dense_arm_def dense_milvus_leg_def client_checkout_def models_down_def milvus_down_def dense_search_def
        dense_search_one_chunk_def build_milvus_filter_def reset_client_def)
  have sparse: "sparse_arm models_down ''grace'' [10] demo_search_db = Inr [?hit]"
    by (simp add: sparse_arm_def models_down_def milvus_down_def bm25_search_def bm25_sql_def demo_search_db_def
        select_where_def hit_from_bm25_row_def SPARSE_FANOUT_def)
  have fused: "rrf_fuse [] [?hit] RERANK_FANOUT RRF_K = [?fused]"
    by (simp add: rrf_fuse_def fuse_loops_def count_hit_def hkey_def dict_get_def setdefault_def RRF_K_def
        RERANK_FANOUT_def Let_def)
  have down: "rerank (x_rerank_scores models_down) ''grace'' 5 [?fused] = Inl RemoteInferenceError"
    "highlight (x_embed_texts models_down) ''grace'' HIGHLIGHT_THRESHOLD [?fused] = Inl RemoteInferenceError"
    using grace_is_a_sentence by (simp_all add: rerank_def highlight_def models_down_def)
  show ?thesis
    by (simp add: run_search_def lib scope dense sparse fuse_and_rank_alive fused Let_def rank_and_prune_def down
        to_search_hit_def grace_hit_def)
qed

lemma demo_sources_of_hit:
  "build_sources [grace_hit] [] = Inr [\<lparr>sr_marker = ''[a:0]'', sr_book_id = 10, sr_title = ''a'', sr_chunk_index = 0,
     sr_content = ''Grace abounds.'', sr_filename = Some ''a.pdf'', sr_parent_section = None\<rparr>]"
proof -
  have label: "label_from_title [] (Some ''a.pdf'') 10 = ''a''" by code_simp
  have "nat_str 0 = ''0''" by code_simp
  then show ?thesis
    by (simp add: build_sources_def assign_book_labels_def label grace_hit_def meta_str_def or_str_def suffix_loop.simps
        build_source_def member_text_def int_str_def)
qed

lemma demo_cited:
  "extract_citations ''It abounds [a:0].'' [\<lparr>sr_marker = ''[a:0]'', sr_book_id = 10, sr_title = ''a'', sr_chunk_index = 0,
     sr_content = ''Grace abounds.'', sr_filename = Some ''a.pdf'', sr_parent_section = None\<rparr>] = [demo_citation]"
  by code_simp

text \<open>Every leg of the save fails, the rollback included.\<close>

definition broken_history :: history_externals where
  "broken_history = \<lparr>hx_new_id = 9, hx_now = 0, hx_dump = None,
     hx_faults = \<lparr>hf_flush = Some OperationalError, hf_prune = None, hf_commit = None, hf_rollback = Some OperationalError\<rparr>\<rparr>"

definition working_history :: history_externals where
  "working_history = \<lparr>hx_new_id = 9, hx_now = 0, hx_dump = None, hx_faults = no_faults\<rparr>"

lemma demo_summary:
  "\<exists>d'. search_summary models_down (\<lambda>_. Inr (Some '' It abounds [a:0]. '')) demo_llm_settings (Inr ()) working_history
     demo_summary_request 1 demo_search_db None = (Inr demo_answer, d', None)"
proof -
  have strip: "py_strip '' It abounds [a:0]. '' = ''It abounds [a:0].''" by code_simp
  have titles: "resolve_titles [10] demo_search_db = []"
    by (simp add: resolve_titles_def demo_search_db_def empty_db_def select_where_def)
  have key: "or_str (pv_api_key (active_provider demo_llm_settings)) [] = ''k''"
    by (simp add: demo_llm_settings_def active_provider_def or_str_def)
  have gen: "generate_summary (\<lambda>_. Inr (Some '' It abounds [a:0]. '')) demo_llm_settings q ss = Inr ''It abounds [a:0].''" for q ss
    by (simp add: generate_summary_def llm_client_def key strip Let_def)
  have book: "st_book_id grace_hit = 10" by (simp add: grace_hit_def)
  have sum: "summarize (\<lambda>_. Inr (Some '' It abounds [a:0]. '')) demo_llm_settings ''grace''
      \<lparr>so_hits = [grace_hit], so_degraded = [''dense'', ''rerank'', ''highlight'']\<rparr> demo_search_db = Inr demo_answer"
    using titles demo_sources_of_hit book by (simp add: summarize_def gen demo_cited demo_answer_def)
  have "validate_summary_request demo_summary_request" "sm_query demo_summary_request = ''grace''"
    "sm_limit_chunks demo_summary_request = 5" "sm_book_ids demo_summary_request = None"
    "sm_collection_ids demo_summary_request = None"
    by (simp_all add: demo_summary_request_def validate_summary_request_def)
  moreover have "fst (record_history working_history 1 demo_summary_request demo_answer demo_search_db) = Inr ()"
    by (rule record_history_quiet) (simp add: no_cancellation_def working_history_def no_faults_def)
  ultimately show ?thesis
    by (cases "record_history working_history 1 demo_summary_request demo_answer demo_search_db")
      (simp add: search_summary_def key demo_degraded_run sum)
qed

theorem summary_grounded_witness:
  "fst (search_summary models_down (\<lambda>_. Inr (Some '' It abounds [a:0]. '')) demo_llm_settings (Inr ()) broken_history
     demo_summary_request 1 demo_search_db None) =
   Inr \<lparr>sp_summary = ''It abounds [a:0].'', sp_citations = [demo_citation], sp_degraded = [''dense'', ''rerank'', ''highlight'']\<rparr>"
proof -
  have filters: "\<forall>c vec. store_filters (x_store models_down c vec)"
    by (simp add: models_down_def milvus_down_def store_filters_def)
  have "no_cancellation broken_history" by (simp add: no_cancellation_def broken_history_def is_exception_def)
  moreover obtain d' where "search_summary models_down (\<lambda>_. Inr (Some '' It abounds [a:0]. '')) demo_llm_settings (Inr ())
      working_history demo_summary_request 1 demo_search_db None = (Inr demo_answer, d', None)"
    using demo_summary by blast
  ultimately show ?thesis using summary_grounded [OF filters] unfolding demo_answer_def by blast
qed

end
