(* ===== verification/Dedup.thy ===== *)
theory Dedup
  imports Db_Models
begin

text \<open>
  \<open>worker/dedup.py\<close>: MinHash signatures over lemmatised five-word shingles, their column encoding,
  and the duplicate lookup over an in-memory index. MinHash updates, the lemmatiser and the LSH
  query are parameters.
\<close>

section \<open>Signatures\<close>

type_synonym sig = "64 word list"

definition NUM_PERM :: nat where "NUM_PERM = 128"
definition SHINGLE_SIZE :: nat where "SHINGLE_SIZE = 5"
definition DEFAULT_THRESHOLD :: rat where "DEFAULT_THRESHOLD = 17 / 20"

definition is_upper :: "char \<Rightarrow> bool" where
  "is_upper c = (let n = of_char c :: nat in (65 \<le> n \<and> n \<le> 90) \<or> (192 \<le> n \<and> n \<le> 222 \<and> n \<noteq> 215))"

text \<open>\<open>str.lower()\<close> on code points below 256.\<close>

definition lower :: "string \<Rightarrow> string" where
  "lower s = map (\<lambda>c. if is_upper c then char_of (of_char c + 32 :: nat) else c) s"

definition word_char :: "char \<Rightarrow> bool" where
  "word_char c = (let n = of_char c :: nat in (65 \<le> n \<and> n \<le> 90) \<or> (97 \<le> n \<and> n \<le> 122) \<or> n = 39)"

text \<open>\<open>_WORD.findall\<close>: the maximal runs of word characters.\<close>

function find_words :: "string \<Rightarrow> string list" where
  "find_words s =
     (let t = dropWhile (\<lambda>c. \<not> word_char c) s
      in if t = [] then [] else takeWhile word_char t # find_words (dropWhile word_char t))"
  by pat_completeness auto
termination
proof (relation "measure length", simp)
  fix s t
  assume t: "t = dropWhile (\<lambda>c. \<not> word_char c) s" and ne: "t \<noteq> []"
  have "word_char (hd t)" using hd_dropWhile [of "\<lambda>c. \<not> word_char c" s] t ne by simp
  then have "length (dropWhile word_char t) \<le> length (tl t)" using ne by (cases t) (auto intro: length_dropWhile_le)
  moreover have "length t \<le> length s" unfolding t by (rule length_dropWhile_le)
  moreover have "0 < length t" using ne by (rule length_greater_0_conv [THEN iffD2])
  ultimately have "length (dropWhile word_char t) < length s" unfolding length_tl by linarith
  then show "(dropWhile word_char t, s) \<in> measure length" by simp
qed

declare find_words.simps [simp del]

definition lemmas_of :: "(string \<Rightarrow> string) \<Rightarrow> string \<Rightarrow> string list" where
  "lemmas_of lemmatize s = map lemmatize (find_words (lower s))"

definition signature :: "(string \<Rightarrow> string) \<Rightarrow> sig \<Rightarrow> (sig \<Rightarrow> string \<Rightarrow> sig) \<Rightarrow> string \<Rightarrow> sig" where
  "signature lemmatize mh_empty mh_update markdown =
     (let ls = lemmas_of lemmatize markdown
      in if length ls < SHINGLE_SIZE then mh_empty
         else foldl (\<lambda>mh i. mh_update mh (join '' '' (take SHINGLE_SIZE (drop i ls)))) mh_empty
                [0..<length ls - SHINGLE_SIZE + 1])"

section \<open>Column encoding\<close>

text \<open>\<open>hashvalues.tobytes()\<close>: eight little-endian bytes per hash value.\<close>

definition le_bytes :: "nat \<Rightarrow> nat \<Rightarrow> nat list" where
  "le_bytes k n = map (\<lambda>i. n div 256 ^ i mod 256) [0..<k]"

definition serialize :: "sig \<Rightarrow> nat list" where
  "serialize s = concat (map (\<lambda>w. le_bytes 8 (unat w)) s)"

definition of_le_bytes :: "nat list \<Rightarrow> nat" where
  "of_le_bytes bs = foldr (\<lambda>b a. b + 256 * a) bs 0"

text \<open>\<open>np.frombuffer(data, dtype=np.uint64)\<close>; a length that is no multiple of eight raises.\<close>

fun deserialize :: "nat list \<Rightarrow> sig result" where
  "deserialize [] = Inr []"
| "deserialize (a # b # c # d # e # f # g # h # bs) =
     (case deserialize bs of
        Inl x \<Rightarrow> Inl x
      | Inr ws \<Rightarrow> Inr (word_of_nat (of_le_bytes [a, b, c, d, e, f, g, h]) # ws))"
| "deserialize _ = Inl ValueError"

lemma le_bytes_Suc: "le_bytes (Suc k) n = n mod 256 # le_bytes k (n div 256)"
proof -
  have "[0..<Suc k] = 0 # map Suc [0..<k]" by (metis map_Suc_upt upt_conv_Cons zero_less_Suc)
  then show ?thesis by (simp add: le_bytes_def div_mult2_eq del: upt_Suc)
qed

lemma of_le_bytes: "n < 256 ^ k \<Longrightarrow> of_le_bytes (le_bytes k n) = n"
proof (induction k arbitrary: n)
  case (Suc k)
  have "n div 256 < 256 ^ k" using Suc.prems by (simp add: less_mult_imp_div_less mult.commute)
  then show ?case using Suc.IH by (simp add: le_bytes_Suc of_le_bytes_def)
qed (simp add: le_bytes_def of_le_bytes_def)

lemma deserialize_serialize: "deserialize (serialize s) = Inr s"
proof (induction s)
  case (Cons w ws)
  have "unat w < 256 ^ 8" using unsigned_less [of w] by simp
  then have w: "of_le_bytes (le_bytes 8 (unat w)) = unat w" by (rule of_le_bytes)
  obtain a b c d e f g h where bs: "le_bytes 8 (unat w) = [a, b, c, d, e, f, g, h]"
    by (simp add: le_bytes_def upt_rec)
  have "serialize (w # ws) = [a, b, c, d, e, f, g, h] @ serialize ws" by (simp add: serialize_def bs)
  then show ?case using Cons.IH w bs by simp
qed (simp add: serialize_def)

section \<open>The index\<close>

fun load_rows :: "(uuid \<times> nat list) list \<Rightarrow> (uuid \<times> sig) list result" where
  "load_rows [] = Inr []"
| "load_rows ((b, bytes) # rows) =
     (case deserialize bytes of
        Inl e \<Rightarrow> Inl e
      | Inr s \<Rightarrow> (case load_rows rows of Inl e \<Rightarrow> Inl e | Inr idx \<Rightarrow> Inr ((b, s) # idx)))"

definition load_index :: "db \<Rightarrow> (uuid \<times> sig) list result" where
  "load_index d = load_rows (map (\<lambda>b. (gb_book_id b, gb_minhash_signature b)) (global_books d))"

text \<open>The post-filter of a threshold stricter than the one the index was built for.\<close>

fun best_candidate :: "(sig \<Rightarrow> sig \<Rightarrow> rat) \<Rightarrow> (uuid \<times> sig) list \<Rightarrow> sig \<Rightarrow> rat \<Rightarrow> uuid list \<Rightarrow>
    (rat \<times> uuid) option \<Rightarrow> (rat \<times> uuid) option" where
  "best_candidate jaccard idx s threshold [] best = best"
| "best_candidate jaccard idx s threshold (cand # cands) best =
     (case map_of idx cand of
        None \<Rightarrow> best_candidate jaccard idx s threshold cands best
      | Some cand_sig \<Rightarrow>
          let j = jaccard s cand_sig
          in best_candidate jaccard idx s threshold cands
               (if threshold \<le> j \<and> (case best of None \<Rightarrow> True | Some (b, _) \<Rightarrow> b < j) then Some (j, cand) else best))"

definition find_duplicate :: "((uuid \<times> sig) list \<Rightarrow> sig \<Rightarrow> uuid list) \<Rightarrow> (sig \<Rightarrow> sig \<Rightarrow> rat) \<Rightarrow> rat \<Rightarrow> rat \<Rightarrow>
    (uuid \<times> sig) list \<Rightarrow> sig \<Rightarrow> uuid option result" where
  "find_duplicate lsh_query jaccard built threshold idx s =
     (if threshold < built then Inl ValueError
      else case lsh_query idx s of
             [] \<Rightarrow> Inr None
           | cand # cands \<Rightarrow>
               if threshold = built then Inr (Some cand)
               else Inr (map_option snd (best_candidate jaccard idx s threshold (cand # cands) None)))"

text \<open>
  What the LSH documents: a query returns the keys of the stored signatures that share a band with
  the one looked up, and a signature shares its bands with itself.
\<close>

definition lsh_contract :: "((uuid \<times> sig) list \<Rightarrow> sig \<Rightarrow> uuid list) \<Rightarrow> (sig \<Rightarrow> sig \<Rightarrow> bool) \<Rightarrow> bool" where
  "lsh_contract lsh_query band \<longleftrightarrow> (\<forall>s. band s s) \<and>
     (\<forall>idx s. set (lsh_query idx s) = {b. \<exists>s'. (b, s') \<in> set idx \<and> band s s'})"

lemma find_duplicate_default:
  "find_duplicate q j t t idx s = Inr (case q idx s of [] \<Rightarrow> None | c # _ \<Rightarrow> Some c)"
  by (simp add: find_duplicate_def split: list.split)

lemma lookup_None:
  "lsh_contract q band \<Longrightarrow> find_duplicate q j t t idx s = Inr None \<longleftrightarrow> (\<forall>(b, s') \<in> set idx. \<not> band s s')"
  using set_empty [of "q idx s"] by (auto simp: find_duplicate_default lsh_contract_def split: list.split)

lemma lookup_Some:
  assumes "lsh_contract q band" and "find_duplicate q j t t idx s = Inr (Some b)"
  shows "\<exists>s'. (b, s') \<in> set idx \<and> band s s'"
proof -
  have "b \<in> set (q idx s)" using assms(2) by (auto simp: find_duplicate_default split: list.splits)
  then show ?thesis using assms(1) by (auto simp: lsh_contract_def)
qed

lemma load_rows_serialized:
  "load_rows (map (\<lambda>p. (fst p, serialize (snd p))) idx) = Inr idx"
  by (induction idx) (simp_all add: deserialize_serialize)

lemma load_rows_append:
  "load_rows (xs @ ys) = (case load_rows xs of Inl e \<Rightarrow> Inl e
     | Inr a \<Rightarrow> (case load_rows ys of Inl e \<Rightarrow> Inl e | Inr b \<Rightarrow> Inr (a @ b)))"
  by (induction xs rule: load_rows.induct) (auto split: sum.splits)

end
