(* ===== verification/Chunking.thy ===== *)
theory Chunking
  imports Prelude
begin

text \<open>
  \<open>worker/chunking.py\<close>: from the semantic splitter's nodes to chunks that fit the vector store.
  Texts are lists of code points without lone surrogates. The splitter, the Punkt sentence
  tokenizer, the local token counter and the headings of the document are parameters.
\<close>

type_synonym utext = "nat list"

section \<open>Sizes\<close>

definition utf8_width :: "nat \<Rightarrow> nat" where
  "utf8_width c = (if c < 128 then 1 else if c < 2048 then 2 else if c < 65536 then 3 else 4)"

definition utf8_size :: "utext \<Rightarrow> nat" where
  "utf8_size t = sum_list (map utf8_width t)"

definition HARD_MAX_CHUNK_BYTES :: nat where "HARD_MAX_CHUNK_BYTES = 65535"
definition MAX_CHUNK_BYTES :: nat where "MAX_CHUNK_BYTES = 60000"
definition MAX_CHUNK_TOKENS :: nat where "MAX_CHUNK_TOKENS = 510"

text \<open>\<open>text[a:b]\<close> for non-negative bounds.\<close>

definition slice :: "'a list \<Rightarrow> nat \<Rightarrow> nat \<Rightarrow> 'a list" where
  "slice t a b = take (b - a) (drop a t)"

definition fits :: "(utext \<Rightarrow> nat) \<Rightarrow> utext \<Rightarrow> bool" where
  "fits token_count piece \<longleftrightarrow> utf8_size piece \<le> HARD_MAX_CHUNK_BYTES \<and> token_count piece \<le> MAX_CHUNK_TOKENS"

definition window_fits :: "(utext \<Rightarrow> nat) \<Rightarrow> utext \<Rightarrow> nat \<Rightarrow> nat \<Rightarrow> bool" where
  "window_fits token_count t a b = fits token_count (slice t a b)"

section \<open>Sentence windows\<close>

definition sentence_spans :: "(utext \<Rightarrow> (nat \<times> nat) list) \<Rightarrow> utext \<Rightarrow> (nat \<times> nat) list" where
  "sentence_spans span_tokenize t =
     (if t = [] then []
      else let starts0 = map fst (span_tokenize t);
               starts = (if starts0 = [] \<or> hd starts0 \<noteq> 0 then 0 # starts0 else starts0);
               bounds = tl starts @ [length t]
           in filter (\<lambda>(start, e). start < e) (zip starts bounds))"

section \<open>Hard windows\<close>

text \<open>The binary search; \<open>lo\<close>, \<open>hi\<close> are integers because \<open>hi\<close> may fall below zero.\<close>

function window_search :: "(utext \<Rightarrow> nat) \<Rightarrow> utext \<Rightarrow> nat \<Rightarrow> int \<Rightarrow> int \<Rightarrow> nat \<Rightarrow> nat" where
  "window_search token_count t i lo hi best =
     (if lo \<le> hi
      then let mid = (lo + hi) div 2
           in if window_fits token_count t i (nat mid)
              then window_search token_count t i (mid + 1) hi (nat mid)
              else window_search token_count t i lo (mid - 1) best
      else best)"
  by pat_completeness auto
termination
  by (relation "measure (\<lambda>(token_count, t, i, lo, hi, best). nat (hi + 1 - lo))") auto

declare window_search.simps [simp del]

lemma window_search_range:
  "0 \<le> lo \<Longrightarrow> window_search tc t i lo hi best = best \<or>
     (lo \<le> int (window_search tc t i lo hi best) \<and> int (window_search tc t i lo hi best) \<le> hi \<and>
      window_fits tc t i (window_search tc t i lo hi best))"
proof (induction tc t i lo hi best rule: window_search.induct)
  case (1 tc t i lo hi best)
  let ?mid = "(lo + hi) div 2"
  show ?case
  proof (cases "lo \<le> hi")
    case True
    then have mid: "lo \<le> ?mid" "?mid \<le> hi" "0 \<le> ?mid" using "1.prems" by auto
    show ?thesis
    proof (cases "window_fits tc t i (nat ?mid)")
      case fit: True
      have eq: "window_search tc t i lo hi best = window_search tc t i (?mid + 1) hi (nat ?mid)"
        by (subst window_search.simps) (simp add: True fit Let_def)
      have "0 \<le> ?mid + 1" using mid by simp
      from "1.IH"(1) [OF True refl fit this] show ?thesis unfolding eq using mid fit by auto
    next
      case nofit: False
      have eq: "window_search tc t i lo hi best = window_search tc t i lo (?mid - 1) best"
        by (subst window_search.simps) (simp add: True nofit Let_def)
      from "1.IH"(2) [OF True refl nofit "1.prems"] show ?thesis unfolding eq using mid by auto
    qed
  next
    case False
    then show ?thesis by (subst window_search.simps) simp
  qed
qed

definition window_end :: "(utext \<Rightarrow> nat) \<Rightarrow> utext \<Rightarrow> nat \<Rightarrow> nat" where
  "window_end token_count t i = window_search token_count t i (int i + 1) (int (length t)) (i + 1)"

lemma window_end_range:
  "i < length t \<Longrightarrow> i < window_end tc t i \<and> window_end tc t i \<le> length t"
  using window_search_range [of "int i + 1" tc t i "int (length t)" "i + 1"] unfolding window_end_def by linarith

text \<open>The outer loop, from index \<open>i\<close>.\<close>

function hard_loop :: "(utext \<Rightarrow> nat) \<Rightarrow> utext \<Rightarrow> int \<Rightarrow> nat \<Rightarrow> (int \<times> int) list" where
  "hard_loop token_count t start_offset i =
     (if i < length t
      then (start_offset + int i, start_offset + int (window_end token_count t i)) #
           hard_loop token_count t start_offset (window_end token_count t i)
      else [])"
  by pat_completeness auto
termination
  by (relation "measure (\<lambda>(token_count, t, off, i). length t - i)") (auto dest: window_end_range intro: diff_less_mono2)

declare hard_loop.simps [simp del]

definition hard_windows :: "(utext \<Rightarrow> nat) \<Rightarrow> utext \<Rightarrow> int \<Rightarrow> (int \<times> int) list" where
  "hard_windows token_count t start_offset = hard_loop token_count t start_offset 0"

section \<open>Packing\<close>

record chunk =
  ck_text :: utext
  ck_start_idx :: int
  ck_end_idx :: int
  ck_parent_section :: "utext option"

definition atoms :: "(utext \<Rightarrow> (nat \<times> nat) list) \<Rightarrow> (utext \<Rightarrow> nat) \<Rightarrow> utext \<Rightarrow> int \<Rightarrow> (int \<times> int) list" where
  "atoms span_tokenize token_count t base_offset =
     concat (map (\<lambda>(s_start, s_end).
         if \<not> window_fits token_count t s_start s_end
         then hard_windows token_count (slice t s_start s_end) (base_offset + int s_start)
         else [(base_offset + int s_start, base_offset + int s_end)])
       (sentence_spans span_tokenize t))"

definition cut :: "utext \<Rightarrow> int \<Rightarrow> utext option \<Rightarrow> int \<Rightarrow> int \<Rightarrow> chunk" where
  "cut t base parent run_start run_end =
     \<lparr>ck_text = slice t (nat (run_start - base)) (nat (run_end - base)), ck_start_idx = run_start,
      ck_end_idx = run_end, ck_parent_section = parent\<rparr>"

text \<open>The packing loop; the run is \<open>None\<close> until the first atom.\<close>

fun pack_loop :: "(utext \<Rightarrow> nat) \<Rightarrow> utext \<Rightarrow> int \<Rightarrow> utext option \<Rightarrow> (int \<times> int) list \<Rightarrow>
    (int \<times> int) option \<Rightarrow> chunk list \<Rightarrow> chunk list" where
  "pack_loop tc t base parent [] None sub_chunks = sub_chunks"
| "pack_loop tc t base parent [] (Some (run_start, run_end)) sub_chunks =
     sub_chunks @ [cut t base parent run_start run_end]"
| "pack_loop tc t base parent (piece # pieces) None sub_chunks =
     pack_loop tc t base parent pieces (Some piece) sub_chunks"
| "pack_loop tc t base parent ((abs_start, abs_end) # pieces) (Some (run_start, run_end)) sub_chunks =
     (if \<not> fits tc (slice t (nat (run_start - base)) (nat (abs_end - base)))
      then pack_loop tc t base parent pieces (Some (abs_start, abs_end))
             (sub_chunks @ [cut t base parent run_start run_end])
      else pack_loop tc t base parent pieces (Some (run_start, abs_end)) sub_chunks)"

definition split_chunk_text :: "(utext \<Rightarrow> (nat \<times> nat) list) \<Rightarrow> (utext \<Rightarrow> nat) \<Rightarrow> utext \<Rightarrow> int \<Rightarrow>
    utext option \<Rightarrow> chunk list" where
  "split_chunk_text span_tokenize token_count t base_offset parent_section =
     pack_loop token_count t base_offset parent_section (atoms span_tokenize token_count t base_offset) None []"

definition cap_oversized_chunks :: "(utext \<Rightarrow> (nat \<times> nat) list) \<Rightarrow> (utext \<Rightarrow> nat) \<Rightarrow> chunk list \<Rightarrow> chunk list" where
  "cap_oversized_chunks span_tokenize token_count cs =
     concat (map (\<lambda>c. if utf8_size (ck_text c) \<le> MAX_CHUNK_BYTES then [c]
         else split_chunk_text span_tokenize token_count (ck_text c) (ck_start_idx c) (ck_parent_section c)) cs)"

section \<open>Entry point\<close>

text \<open>\<open>_parent_section_for\<close>.\<close>

fun parent_section_for :: "int \<Rightarrow> (nat \<times> utext) list \<Rightarrow> utext option \<Rightarrow> utext option" where
  "parent_section_for offset [] last_seen = last_seen"
| "parent_section_for offset ((start, heading) # headings) last_seen =
     (if offset < int start then last_seen else parent_section_for offset headings (Some heading))"

text \<open>The code points \<open>str.isspace\<close> accepts.\<close>

definition is_space_cp :: "nat \<Rightarrow> bool" where
  "is_space_cp c \<longleftrightarrow> (9 \<le> c \<and> c \<le> 13) \<or> (28 \<le> c \<and> c \<le> 32) \<or> c \<in> {133, 160, 5760, 8232, 8233, 8239, 8287, 12288} \<or>
     (8192 \<le> c \<and> c \<le> 8202)"

text \<open>\<open>markdown.find(text)\<close>: the first occurrence, or -1.\<close>

fun find_from :: "utext \<Rightarrow> utext \<Rightarrow> nat \<Rightarrow> int" where
  "find_from needle [] i = (if needle = [] then int i else -1)"
| "find_from needle (c # cs) i =
     (if take (length needle) (c # cs) = needle then int i else find_from needle cs (i + 1))"

record text_node =
  tn_text :: utext
  tn_span :: "(int option) \<times> (int option)"

definition node_chunk :: "utext \<Rightarrow> (nat \<times> utext) list \<Rightarrow> text_node \<Rightarrow> chunk" where
  "node_chunk markdown headings node =
     (let (start, e) = (case tn_span node of
            (Some s, Some e) \<Rightarrow> (s, e)
          | _ \<Rightarrow> let s = find_from (tn_text node) markdown 0
                 in (s, if 0 \<le> s then s + int (length (tn_text node)) else -1))
      in \<lparr>ck_text = tn_text node, ck_start_idx = start, ck_end_idx = e,
          ck_parent_section = (if 0 \<le> start then parent_section_for start headings None else None)\<rparr>)"

definition chunk_markdown :: "(utext \<Rightarrow> text_node list result) \<Rightarrow> (utext \<Rightarrow> (nat \<times> utext) list) \<Rightarrow>
    (utext \<Rightarrow> (nat \<times> nat) list) \<Rightarrow> (utext \<Rightarrow> nat) \<Rightarrow> utext \<Rightarrow> chunk list result" where
  "chunk_markdown splitter heading_offsets span_tokenize token_count markdown =
     (if list_all is_space_cp markdown then Inr []
      else case splitter markdown of
             Inl e \<Rightarrow> Inl e
           | Inr nodes \<Rightarrow> Inr (cap_oversized_chunks span_tokenize token_count
               (map (node_chunk markdown (heading_offsets markdown)) nodes)))"

end
