(* ===== verification/Ingest.thy ===== *)
theory Ingest
  imports Dedup Chunking Retrieval
begin

text \<open>
  \<open>worker/ingest.py\<close> and the keys of \<open>worker/storage.py\<close>: dedup-aware ingest as a plan of
  durable effects. What a run reads before its first write (index, claim, committed book) determines
  the sequence of its writes; a crash or a raised error after \<open>n\<close> of them leaves the world with
  exactly these \<open>n\<close> applied. Documents are strings of code points below 256. Identifiers and
  clocks the database generates are functions of the environment.
\<close>

section \<open>Object keys\<close>

fun split_on :: "char \<Rightarrow> string \<Rightarrow> string \<Rightarrow> string list" where
  "split_on sep cur [] = [cur]"
| "split_on sep cur (c # cs) = (if c = sep then cur # split_on sep [] cs else split_on sep (cur @ [c]) cs)"

text \<open>\<open>Path(p).name\<close> of a POSIX path: the last component that is neither empty nor a dot.\<close>

definition path_name :: "string \<Rightarrow> string" where
  "path_name p = (case filter (\<lambda>c. c \<noteq> [] \<and> c \<noteq> ''.'') (split_on CHR ''/'' [] p) of [] \<Rightarrow> [] | c # cs \<Rightarrow> last (c # cs))"

definition filename_char :: "char \<Rightarrow> bool" where
  "filename_char c = (let n = of_char c :: nat in
     (65 \<le> n \<and> n \<le> 90) \<or> (97 \<le> n \<and> n \<le> 122) \<or> (48 \<le> n \<and> n \<le> 57) \<or> n = 46 \<or> n = 95 \<or> n = 45)"

definition MAX_FILENAME_CHARS :: nat where "MAX_FILENAME_CHARS = 255"

definition sanitize_filename :: "string option \<Rightarrow> string" where
  "sanitize_filename raw =
     (case raw of
        None \<Rightarrow> ''upload.bin''
      | Some [] \<Rightarrow> ''upload.bin''
      | Some s \<Rightarrow>
          let base = dropWhile (\<lambda>c. c = CHR ''.'') (path_name (map (\<lambda>c. if c = CHR 0x5C then CHR ''/'' else c) s));
              cleaned = take MAX_FILENAME_CHARS (map (\<lambda>c. if filename_char c then c else CHR ''_'') base)
          in if cleaned = [] then ''upload.bin'' else cleaned)"

definition ORIGINALS_PREFIX :: string where "ORIGINALS_PREFIX = ''originals''"

definition original_key :: "uuid \<Rightarrow> string option \<Rightarrow> string" where
  "original_key book_id filename = ORIGINALS_PREFIX @ ''/'' @ str_uuid book_id @ ''/'' @ sanitize_filename filename"

section \<open>World and effects\<close>

record vector_row =
  vr_vector :: "rat list"
  vr_book_id :: string
  vr_content_chunk :: string
  vr_filename :: string
  vr_chunk_index :: nat
  vr_parent_section :: "string option"

text \<open>Postgres, the vector store, the originals bucket, and the in-memory dedup index of the process.\<close>

record world =
  w_db :: db
  w_vectors :: "vector_row list"
  w_objects :: "(string \<times> string) list"
  w_index :: "(uuid \<times> sig) list option"

datatype effect =
    UpsertUserLibrary uuid uuid
  | RecordClaim uuid uuid
  | ScrubPartialVectors uuid
  | PutOriginal string string
  | InsertVectors "vector_row list"
  | InsertBook global_book "chunk_row list"
  | BackfillPointer uuid string
  | IndexAdd uuid sig

text \<open>Row identifiers and timestamps the database fills in.\<close>

record row_defaults =
  rd_entry_id :: "uuid \<Rightarrow> uuid \<Rightarrow> uuid"
  rd_chunk_id :: "uuid \<Rightarrow> nat \<Rightarrow> uuid"
  rd_now :: timestamp

definition upsert_user_library :: "row_defaults \<Rightarrow> uuid \<Rightarrow> uuid \<Rightarrow> db \<Rightarrow> db" where
  "upsert_user_library rd u b d =
     (if select_where (\<lambda>e. ul_user_id e = u \<and> ul_book_id e = b) (user_library d) \<noteq> [] then d
      else d\<lparr>user_library := user_library d @ [\<lparr>ul_entry_id = rd_entry_id rd u b, ul_user_id = u, ul_book_id = b,
             ul_category = None, ul_added_at = rd_now rd\<rparr>]\<rparr>)"

definition record_claim :: "uuid \<Rightarrow> uuid \<Rightarrow> db \<Rightarrow> db" where
  "record_claim t b d = d\<lparr>upload_tasks :=
     update_where (\<lambda>r. ut_task_id r = t \<and> ut_book_id r = None) (\<lambda>r. r\<lparr>ut_book_id := Some b\<rparr>) (upload_tasks d)\<rparr>"

definition set_pointer_if_null :: "uuid \<Rightarrow> string \<Rightarrow> db \<Rightarrow> db" where
  "set_pointer_if_null b key d = d\<lparr>global_books :=
     update_where (\<lambda>r. gb_book_id r = b \<and> gb_text_pointer r = None) (\<lambda>r. r\<lparr>gb_text_pointer := Some key\<rparr>) (global_books d)\<rparr>"

definition scrub_partial_vectors :: "uuid \<Rightarrow> vector_row list \<Rightarrow> vector_row list" where
  [simp]: "scrub_partial_vectors b vs = delete_where (\<lambda>v. vr_book_id v = str_uuid b) vs"

definition insert_book_with_chunks :: "global_book \<Rightarrow> chunk_row list \<Rightarrow> db \<Rightarrow> db" where
  [simp]: "insert_book_with_chunks book rows d =
     d\<lparr>global_books := global_books d @ [book], chunks := chunks d @ rows\<rparr>"

fun apply_effect :: "row_defaults \<Rightarrow> effect \<Rightarrow> world \<Rightarrow> world" where
  "apply_effect rd (UpsertUserLibrary u b) w = w\<lparr>w_db := upsert_user_library rd u b (w_db w)\<rparr>"
| "apply_effect rd (RecordClaim t b) w = w\<lparr>w_db := record_claim t b (w_db w)\<rparr>"
| "apply_effect rd (ScrubPartialVectors b) w =
     w\<lparr>w_vectors := scrub_partial_vectors b (w_vectors w)\<rparr>"
| "apply_effect rd (PutOriginal key content) w = w\<lparr>w_objects := AList.update key content (w_objects w)\<rparr>"
| "apply_effect rd (InsertVectors rows) w = w\<lparr>w_vectors := w_vectors w @ rows\<rparr>"
| "apply_effect rd (InsertBook book rows) w =
     w\<lparr>w_db := insert_book_with_chunks book rows (w_db w)\<rparr>"
| "apply_effect rd (BackfillPointer b key) w = w\<lparr>w_db := set_pointer_if_null b key (w_db w)\<rparr>"
| "apply_effect rd (IndexAdd b s) w = w\<lparr>w_index := map_option (\<lambda>idx. idx @ [(b, s)]) (w_index w)\<rparr>"

definition apply_effects :: "row_defaults \<Rightarrow> effect list \<Rightarrow> world \<Rightarrow> world" where
  "apply_effects rd es w = fold (apply_effect rd) es w"

section \<open>Reads\<close>

text \<open>\<open>_read_claim\<close>: no row and a row without a claim are both \<open>None\<close>.\<close>

definition read_claim :: "uuid \<Rightarrow> db \<Rightarrow> uuid option result" where
  "read_claim t d =
     (case scalar_one_or_none (map ut_book_id (select_where (\<lambda>r. ut_task_id r = t) (upload_tasks d))) of
        Inl e \<Rightarrow> Inl e
      | Inr None \<Rightarrow> Inr None
      | Inr (Some b) \<Rightarrow> Inr b)"

definition book_committed :: "uuid \<Rightarrow> db \<Rightarrow> bool" where
  "book_committed b d \<longleftrightarrow> select_where (\<lambda>r. gb_book_id r = b) (global_books d) \<noteq> []"

definition backfill_original :: "uuid \<Rightarrow> string \<Rightarrow> string \<Rightarrow> db \<Rightarrow> effect list result" where
  "backfill_original b filename original d =
     (case scalar_one_or_none (map gb_text_pointer (select_where (\<lambda>r. gb_book_id r = b) (global_books d))) of
        Inl e \<Rightarrow> Inl e
      | Inr None \<Rightarrow> Inr []
      | Inr (Some (Some _)) \<Rightarrow> Inr []
      | Inr (Some None) \<Rightarrow>
          let key = original_key b (Some filename)
          in Inr [PutOriginal key original, BackfillPointer b key])"

section \<open>The plan\<close>

text \<open>The models and libraries a run calls.\<close>

record ingest_externals =
  ie_lsh_query :: "(uuid \<times> sig) list \<Rightarrow> sig \<Rightarrow> uuid list"
  ie_jaccard :: "sig \<Rightarrow> sig \<Rightarrow> rat"
  ie_lemmatize :: "string \<Rightarrow> string"
  ie_mh_empty :: sig
  ie_mh_update :: "sig \<Rightarrow> string \<Rightarrow> sig"
  ie_splitter :: "utext \<Rightarrow> text_node list result"
  ie_headings :: "utext \<Rightarrow> (nat \<times> utext) list"
  ie_span_tokenize :: "utext \<Rightarrow> (nat \<times> nat) list"
  ie_token_count :: "utext \<Rightarrow> nat"
  ie_embed :: "string list \<Rightarrow> rat list list result"

record ingest_args =
  ia_markdown :: string
  ia_filename :: string
  ia_user_id :: uuid
  ia_title :: "string option"
  ia_author :: "string option"
  ia_original :: "string option"
  ia_task_id :: "uuid option"

record ingest_result =
  ir_book_id :: uuid
  ir_was_duplicate :: bool
  ir_rows_inserted :: nat

text \<open>\<open>chunk(markdown)\<close>: the texts and sections of the chunks.\<close>

definition chunk_texts :: "ingest_externals \<Rightarrow> string \<Rightarrow> (string \<times> string option) list result" where
  "chunk_texts ext markdown =
     (case chunk_markdown (ie_splitter ext) (ie_headings ext) (ie_span_tokenize ext) (ie_token_count ext) (map of_char markdown) of
        Inl e \<Rightarrow> Inl e
      | Inr cs \<Rightarrow> Inr (map (\<lambda>c. (map char_of (ck_text c), map_option (map char_of) (ck_parent_section c))) cs))"

definition build_rows :: "string \<Rightarrow> (string \<times> string option) list \<Rightarrow> rat list list \<Rightarrow> string \<Rightarrow> vector_row list result" where
  "build_rows filename cs embeddings book_id =
     (if length embeddings \<noteq> length cs then Inl ValueError
      else Inr (map (\<lambda>(i, c, vec). \<lparr>vr_vector = vec, vr_book_id = book_id, vr_content_chunk = fst c, vr_filename = filename,
             vr_chunk_index = i, vr_parent_section = snd c\<rparr>) (enumerate 0 (zip cs embeddings))))"

definition chunk_rows :: "row_defaults \<Rightarrow> uuid \<Rightarrow> (string \<times> string option) list \<Rightarrow> string \<Rightarrow> chunk_row list" where
  "chunk_rows rd book_id cs filename = map (\<lambda>(i, c). \<lparr>chk_chunk_id = rd_chunk_id rd book_id i, chk_book_id = book_id,
     chk_chunk_index = int i, chk_content = fst c, chk_parent_section = snd c, chk_filename = filename,
     chk_created_at = rd_now rd\<rparr>) (enumerate 0 cs)"

text \<open>
  The new-book path from the minted or reclaimed \<open>book_id\<close> on: the writes that happen, and the
  result or the error that ends the run after them.
\<close>

definition new_book_plan :: "ingest_externals \<Rightarrow> row_defaults \<Rightarrow> ingest_args \<Rightarrow> sig \<Rightarrow> uuid \<Rightarrow>
    effect list \<times> ingest_result result" where
  "new_book_plan ext rd a s book_id =
     (let key = original_key book_id (Some (ia_filename a));
          puts = (case ia_original a of None \<Rightarrow> [] | Some content \<Rightarrow> [PutOriginal key content]);
          text_pointer = map_option (\<lambda>_. key) (ia_original a);
          title = (case ia_title a of None \<Rightarrow> ia_filename a | Some t \<Rightarrow> t);
          commit = (\<lambda>cs. [InsertBook \<lparr>gb_book_id = book_id, gb_isbn = None, gb_title = title, gb_author = ia_author a,
                gb_minhash_signature = serialize s, gb_text_pointer = text_pointer, gb_created_at = rd_now rd\<rparr>
                (chunk_rows rd book_id cs (ia_filename a)),
              UpsertUserLibrary (ia_user_id a) book_id, IndexAdd book_id s])
      in case chunk_texts ext (ia_markdown a) of
           Inl e \<Rightarrow> (puts, Inl e)
         | Inr [] \<Rightarrow> (puts @ commit [], Inr \<lparr>ir_book_id = book_id, ir_was_duplicate = False, ir_rows_inserted = 0\<rparr>)
         | Inr (c # cs) \<Rightarrow>
             (case ie_embed ext (map fst (c # cs)) of
                Inl e \<Rightarrow> (puts, Inl e)
              | Inr embeddings \<Rightarrow>
                  (case build_rows (ia_filename a) (c # cs) embeddings (str_uuid book_id) of
                     Inl e \<Rightarrow> (puts, Inl e)
                   | Inr rows \<Rightarrow> (puts @ [InsertVectors rows] @ commit (c # cs),
                       Inr \<lparr>ir_book_id = book_id, ir_was_duplicate = False, ir_rows_inserted = length rows\<rparr>))))"

definition converged :: "uuid \<Rightarrow> ingest_result" where
  "converged b = \<lparr>ir_book_id = b, ir_was_duplicate = True, ir_rows_inserted = 0\<rparr>"

definition prepend :: "effect list \<Rightarrow> effect list \<times> 'a result \<Rightarrow> effect list \<times> 'a result" where
  "prepend es p = (es @ fst p, snd p)"

definition ingest_plan :: "ingest_externals \<Rightarrow> row_defaults \<Rightarrow> uuid \<Rightarrow> ingest_args \<Rightarrow> (uuid \<times> sig) list \<Rightarrow> db \<Rightarrow>
    effect list \<times> ingest_result result" where
  "ingest_plan ext rd minted a idx d =
     (let s = signature (ie_lemmatize ext) (ie_mh_empty ext) (ie_mh_update ext) (ia_markdown a)
      in case find_duplicate (ie_lsh_query ext) (ie_jaccard ext) DEFAULT_THRESHOLD DEFAULT_THRESHOLD idx s of
           Inl e \<Rightarrow> ([], Inl e)
         | Inr (Some existing) \<Rightarrow>
             (case (case ia_original a of None \<Rightarrow> Inr [] | Some content \<Rightarrow> backfill_original existing (ia_filename a) content d) of
                Inl e \<Rightarrow> ([UpsertUserLibrary (ia_user_id a) existing], Inl e)
              | Inr es \<Rightarrow> (UpsertUserLibrary (ia_user_id a) existing # es, Inr (converged existing)))
         | Inr None \<Rightarrow>
             (case ia_task_id a of
                None \<Rightarrow> new_book_plan ext rd a s minted
              | Some t \<Rightarrow>
                  (case read_claim t d of
                     Inl e \<Rightarrow> ([], Inl e)
                   | Inr None \<Rightarrow> prepend [RecordClaim t minted] (new_book_plan ext rd a s minted)
                   | Inr (Some claimed) \<Rightarrow>
                       if book_committed claimed d
                       then ([UpsertUserLibrary (ia_user_id a) claimed], Inr (converged claimed))
                       else prepend [ScrubPartialVectors claimed] (new_book_plan ext rd a s claimed))))"

text \<open>\<open>_ensure_loaded\<close>, then the plan.\<close>

definition plan_in :: "ingest_externals \<Rightarrow> row_defaults \<Rightarrow> uuid \<Rightarrow> ingest_args \<Rightarrow> world \<Rightarrow>
    (effect list \<times> ingest_result result) \<times> world" where
  "plan_in ext rd minted a w =
     (case w_index w of
        Some idx \<Rightarrow> (ingest_plan ext rd minted a idx (w_db w), w)
      | None \<Rightarrow>
          (case load_index (w_db w) of
             Inl e \<Rightarrow> (([], Inl e), w)
           | Inr idx \<Rightarrow> (ingest_plan ext rd minted a idx (w_db w), w\<lparr>w_index := Some idx\<rparr>)))"

definition ingest_markdown :: "ingest_externals \<Rightarrow> row_defaults \<Rightarrow> uuid \<Rightarrow> ingest_args \<Rightarrow> world \<Rightarrow>
    ingest_result result \<times> world" where
  "ingest_markdown ext rd minted a w =
     (let ((es, res), w') = plan_in ext rd minted a w in (res, apply_effects rd es w'))"

text \<open>The same run killed after \<open>n\<close> of its writes; the process restarts with an empty index.\<close>

definition crash_after :: "nat \<Rightarrow> ingest_externals \<Rightarrow> row_defaults \<Rightarrow> uuid \<Rightarrow> ingest_args \<Rightarrow> world \<Rightarrow> world" where
  "crash_after n ext rd minted a w =
     (let ((es, res), w') = plan_in ext rd minted a w in (apply_effects rd (take n es) w')\<lparr>w_index := None\<rparr>)"

section \<open>Files and tasks\<close>

text \<open>\<open>Path(p).stem\<close>.\<close>

definition path_stem :: "string \<Rightarrow> string" where
  "path_stem p =
     (let name = path_name p; i = length name - 1 - length (takeWhile (\<lambda>c. c \<noteq> CHR ''.'') (rev name))
      in if CHR ''.'' \<in> set name \<and> 0 < i \<and> i < length name - 1 then take i name else name)"

text \<open>\<open>extract\<close> and the bytes of the file at the path are parameters.\<close>

definition ingest :: "(string \<Rightarrow> string result) \<Rightarrow> (string \<Rightarrow> string) \<Rightarrow> ingest_externals \<Rightarrow> row_defaults \<Rightarrow> uuid \<Rightarrow>
    string \<Rightarrow> uuid \<Rightarrow> uuid option \<Rightarrow> world \<Rightarrow> ingest_result result \<times> world" where
  "ingest extract file_bytes ext rd minted path user_id task_id w =
     (case extract path of
        Inl e \<Rightarrow> (Inl e, w)
      | Inr markdown \<Rightarrow> ingest_markdown ext rd minted
          \<lparr>ia_markdown = markdown, ia_filename = path_name path, ia_user_id = user_id, ia_title = Some (path_stem path),
           ia_author = None, ia_original = Some (file_bytes path), ia_task_id = task_id\<rparr> w)"

definition request_task_uuid :: "string option \<Rightarrow> uuid option" where
  "request_task_uuid raw = (case raw of None \<Rightarrow> None | Some s \<Rightarrow> parse_uuid s)"

definition ingest_book :: "(string \<Rightarrow> string result) \<Rightarrow> (string \<Rightarrow> string) \<Rightarrow> ingest_externals \<Rightarrow> row_defaults \<Rightarrow> uuid \<Rightarrow>
    string option \<Rightarrow> string \<Rightarrow> string \<Rightarrow> world \<Rightarrow> json result \<times> world" where
  "ingest_book extract file_bytes ext rd minted request_id path user_id w =
     (case parse_uuid user_id of
        None \<Rightarrow> (Inl ValueError, w)
      | Some u \<Rightarrow>
          let (res, w') = ingest extract file_bytes ext rd minted path u (request_task_uuid request_id) w
          in (case res of
                Inl e \<Rightarrow> (Inl e, w')
              | Inr r \<Rightarrow> (Inr (JObj [(''book_id'', JStr (str_uuid (ir_book_id r))), (''was_duplicate'', JBool (ir_was_duplicate r)),
                    (''rows_inserted'', JInt (int (ir_rows_inserted r)))]), w')))"

end
