(* ===== verification/Ingest_Correct.thy ===== *)
theory Ingest_Correct
  imports Ingest
begin

text \<open>
  Correctness of ingest under crashes: pointers never dangle and other tenants' libraries are never
  touched at any crash point; a redelivered task converges to the state of an uninterrupted run;
  and two ways in which duplicate detection defeats this.
\<close>

section \<open>Applying effects\<close>

lemma apply_effects_simps [simp]:
  "apply_effects rd [] w = w"
  "apply_effects rd (x # xs) w = apply_effects rd xs (apply_effect rd x w)"
  "apply_effects rd (xs @ ys) w = apply_effects rd ys (apply_effects rd xs w)"
  by (simp_all add: apply_effects_def)

lemma apply_effect_no_index: "(apply_effect rd x w)\<lparr>w_index := None\<rparr> = apply_effect rd x (w\<lparr>w_index := None\<rparr>)"
  by (cases x) simp_all

lemma apply_effects_no_index: "(apply_effects rd xs w)\<lparr>w_index := None\<rparr> = apply_effects rd xs (w\<lparr>w_index := None\<rparr>)"
  by (induction xs arbitrary: w) (simp_all add: apply_effect_no_index)

text \<open>Every pointer written is preceded by the object it names.\<close>

fun guarded :: "string set \<Rightarrow> effect list \<Rightarrow> bool" where
  "guarded K [] = True"
| "guarded K (PutOriginal k c # es) = guarded (insert k K) es"
| "guarded K (InsertBook b rows # es) = ((case gb_text_pointer b of None \<Rightarrow> True | Some k \<Rightarrow> k \<in> K) \<and> guarded K es)"
| "guarded K (BackfillPointer b k # es) = (k \<in> K \<and> guarded K es)"
| "guarded K (_ # es) = guarded K es"

definition pointers_ok :: "world \<Rightarrow> bool" where
  "pointers_ok w \<longleftrightarrow> (\<forall>r \<in> set (global_books (w_db w)). case gb_text_pointer r of None \<Rightarrow> True | Some k \<Rightarrow> k \<in> fst ` set (w_objects w))"

lemma guarded_append: "guarded K xs \<Longrightarrow> (\<And>K'. K \<subseteq> K' \<Longrightarrow> guarded K' ys) \<Longrightarrow> guarded K (xs @ ys)"
  by (induction K xs rule: guarded.induct) (auto simp: subset_insertI2)

lemma guarded_take: "guarded K es \<Longrightarrow> guarded K (take n es)"
proof (induction K es arbitrary: n rule: guarded.induct)
qed (case_tac n; simp)+

lemma fst_update: "fst ` set (AList.update k v xs) = insert k (fst ` set xs)"
  by (simp add: dom_update)

lemma pointers_kept:
  "guarded (fst ` set (w_objects w)) es \<Longrightarrow> pointers_ok w \<Longrightarrow> pointers_ok (apply_effects rd es w)"
proof (induction es arbitrary: w)
  case (Cons x es)
  have "guarded (fst ` set (w_objects (apply_effect rd x w))) es \<and> pointers_ok (apply_effect rd x w)"
    using Cons.prems
    by (cases x) (auto simp: pointers_ok_def fst_update upsert_user_library_def record_claim_def set_pointer_if_null_def
        update_where_def intro: rev_image_eqI split: option.splits if_splits)
  then show ?case using Cons.IH by simp
qed simp

lemma backfill_guarded: "backfill_original b f c d = Inr es \<Longrightarrow> guarded K es"
  by (auto simp: backfill_original_def Let_def split: sum.splits option.splits)

lemma new_book_guarded: "guarded K (fst (new_book_plan ext rd a s b))"
  by (auto simp: new_book_plan_def Let_def split: option.split sum.split list.split)

lemma ingest_plan_guarded: "guarded K (fst (ingest_plan ext rd minted a idx d))"
  using backfill_guarded
  by (auto simp: ingest_plan_def prepend_def new_book_guarded Let_def split: sum.split option.split)

section \<open>What a plan may write\<close>

text \<open>Only the caller's library and the run's own task.\<close>

fun writes_for :: "uuid \<Rightarrow> uuid option \<Rightarrow> effect \<Rightarrow> bool" where
  "writes_for u t (UpsertUserLibrary v b) = (v = u)"
| "writes_for u t (RecordClaim t' b) = (t = Some t')"
| "writes_for u t _ = True"

lemma new_book_writes: "list_all (writes_for (ia_user_id a) t) (fst (new_book_plan ext rd a s b))"
  by (auto simp: new_book_plan_def Let_def split: option.split sum.split list.split)

lemma backfill_writes: "backfill_original b f c d = Inr es \<Longrightarrow> list_all (writes_for u t) es"
  by (auto simp: backfill_original_def Let_def split: sum.splits option.splits)

lemma ingest_plan_writes: "list_all (writes_for (ia_user_id a) (ia_task_id a)) (fst (ingest_plan ext rd minted a idx d))"
  using backfill_writes
  by (auto simp: ingest_plan_def prepend_def new_book_writes Let_def split: sum.split option.split)

text \<open>Everything but the shared tables, the caller's library and the claimed task stays.\<close>

definition untouched :: "uuid \<Rightarrow> uuid option \<Rightarrow> db \<Rightarrow> db \<Rightarrow> bool" where
  "untouched u t d d' \<longleftrightarrow>
     filter (\<lambda>e. ul_user_id e \<noteq> u) (user_library d') = filter (\<lambda>e. ul_user_id e \<noteq> u) (user_library d) \<and>
     filter (\<lambda>r. Some (ut_task_id r) \<noteq> t) (upload_tasks d') = filter (\<lambda>r. Some (ut_task_id r) \<noteq> t) (upload_tasks d) \<and>
     d'\<lparr>global_books := [], chunks := [], user_library := [], upload_tasks := []\<rparr> =
       d\<lparr>global_books := [], chunks := [], user_library := [], upload_tasks := []\<rparr>"

lemma untouched_refl: "untouched u t d d"
  by (simp add: untouched_def)

lemma filter_update_where:
  "\<forall>r. p r \<longrightarrow> \<not> q r \<Longrightarrow> \<forall>r. q (f r) = q r \<Longrightarrow> filter q (update_where p f t) = filter q t"
  by (induction t) (auto simp: update_where_def)

lemma effect_untouched: "writes_for u t x \<Longrightarrow> untouched u t (w_db w) (w_db (apply_effect rd x w))"
  by (cases x) (auto simp: untouched_def upsert_user_library_def record_claim_def set_pointer_if_null_def
      intro!: filter_update_where)

lemma effects_untouched:
  "list_all (writes_for u t) es \<Longrightarrow> untouched u t (w_db w) (w_db (apply_effects rd es w))"
proof (induction es arbitrary: w)
  case (Cons x es)
  then have "untouched u t (w_db w) (w_db (apply_effect rd x w))" by (simp add: effect_untouched)
  moreover have "untouched u t (w_db (apply_effect rd x w)) (w_db (apply_effects rd (x # es) w))"
    using Cons by simp
  ultimately show ?case unfolding untouched_def by metis
qed (simp add: untouched_refl)

lemma plan_in_shape:
  assumes "plan_in ext rd minted a w = ((es, res), w')"
  shows "w_db w' = w_db w" "w_objects w' = w_objects w" "w_vectors w' = w_vectors w"
    "guarded K es" "list_all (writes_for (ia_user_id a) (ia_task_id a)) es"
proof -
  have "w_db w' = w_db w \<and> w_objects w' = w_objects w \<and> w_vectors w' = w_vectors w \<and>
      (es = [] \<or> (\<exists>idx. ingest_plan ext rd minted a idx (w_db w) = (es, res)))"
    using assms by (auto simp: plan_in_def split: option.splits sum.splits)
  then show "w_db w' = w_db w" "w_objects w' = w_objects w" "w_vectors w' = w_vectors w"
    "guarded K es" "list_all (writes_for (ia_user_id a) (ia_task_id a)) es"
    using ingest_plan_guarded ingest_plan_writes by (fastforce dest: arg_cong [of _ _ fst])+
qed

section \<open>Convergence\<close>

lemma new_book_shape:
  assumes "snd (new_book_plan ext rd a s b) = Inr r"
  obtains puts vecs book rows where
    "fst (new_book_plan ext rd a s b) = puts @ vecs @ [InsertBook book rows, UpsertUserLibrary (ia_user_id a) b, IndexAdd b s]"
    "puts = [] \<and> ia_original a = None \<or> (\<exists>c. puts = [PutOriginal (original_key b (Some (ia_filename a))) c] \<and> ia_original a = Some c)"
    "vecs = [] \<or> (\<exists>vs. vecs = [InsertVectors vs] \<and> (\<forall>v \<in> set vs. vr_book_id v = str_uuid b))"
    "gb_book_id book = b" "gb_minhash_signature book = serialize s"
    "gb_text_pointer book = None \<longleftrightarrow> ia_original a = None" "ir_book_id r = b"
proof -
  let ?puts = "case ia_original a of None \<Rightarrow> [] | Some content \<Rightarrow> [PutOriginal (original_key b (Some (ia_filename a))) content]"
  let ?book = "\<lparr>gb_book_id = b, gb_isbn = None, gb_title = (case ia_title a of None \<Rightarrow> ia_filename a | Some t \<Rightarrow> t),
      gb_author = ia_author a, gb_minhash_signature = serialize s,
      gb_text_pointer = map_option (\<lambda>_. original_key b (Some (ia_filename a))) (ia_original a), gb_created_at = rd_now rd\<rparr>"
  have puts: "?puts = [] \<and> ia_original a = None \<or>
      (\<exists>c. ?puts = [PutOriginal (original_key b (Some (ia_filename a))) c] \<and> ia_original a = Some c)"
    by (cases "ia_original a") auto
  obtain cs where cs: "chunk_texts ext (ia_markdown a) = Inr cs"
    using assms by (cases "chunk_texts ext (ia_markdown a)") (auto simp: new_book_plan_def Let_def)
  show thesis
  proof (cases cs)
    case Nil
    then show ?thesis using assms cs puts
      by (intro that [of ?puts "[]" ?book]) (auto simp: new_book_plan_def Let_def)
  next
    case (Cons c cs')
    obtain em where em: "ie_embed ext (map fst cs) = Inr em"
      using assms cs Cons by (cases "ie_embed ext (map fst cs)") (auto simp: new_book_plan_def Let_def)
    obtain vs where vs: "build_rows (ia_filename a) cs em (str_uuid b) = Inr vs"
      using assms cs Cons em by (cases "build_rows (ia_filename a) cs em (str_uuid b)") (auto simp: new_book_plan_def Let_def)
    then have "\<forall>v \<in> set vs. vr_book_id v = str_uuid b" by (auto simp: build_rows_def split: if_splits)
    then show ?thesis using assms cs Cons puts em vs
      by (intro that [of ?puts "[InsertVectors vs]" ?book]) (auto simp: new_book_plan_def Let_def)
  qed
qed

definition unclaimed :: "uuid \<Rightarrow> db \<Rightarrow> bool" where
  "unclaimed t d \<longleftrightarrow> map ut_book_id (select_where (\<lambda>r. ut_task_id r = t) (upload_tasks d)) = [None]"

text \<open>An identifier nothing refers to yet.\<close>

definition fresh :: "uuid \<Rightarrow> world \<Rightarrow> bool" where
  "fresh b w \<longleftrightarrow> (\<forall>v \<in> set (w_vectors w). vr_book_id v \<noteq> str_uuid b) \<and>
     (\<forall>r \<in> set (global_books (w_db w)). gb_book_id r \<noteq> b)"

lemma claim_read:
  assumes "unclaimed t d"
  shows "read_claim t d = Inr None" "read_claim t (record_claim t b d) = Inr (Some b)"
proof -
  show "read_claim t d = Inr None" using assms by (simp add: read_claim_def unclaimed_def)
  have "map ut_book_id (select_where (\<lambda>r. ut_task_id r = t) (update_where (\<lambda>r. ut_task_id r = t \<and> ut_book_id r = None)
      (\<lambda>r. r\<lparr>ut_book_id := Some b\<rparr>) ts)) = map (\<lambda>x. case x of None \<Rightarrow> Some b | Some y \<Rightarrow> Some y)
      (map ut_book_id (select_where (\<lambda>r. ut_task_id r = t) ts))" for ts
    by (induction ts) (auto simp: select_where_def update_where_def split: option.splits)
  from this [of "upload_tasks d"] have "map ut_book_id (select_where (\<lambda>r. ut_task_id r = t) (upload_tasks (record_claim t b d))) = [Some b]"
    using assms unfolding unclaimed_def record_claim_def by simp
  then show "read_claim t (record_claim t b d) = Inr (Some b)" unfolding read_claim_def by (simp only: scalar_one_or_none.simps sum.case option.case)
qed

lemma upsert_idem [simp]: "upsert_user_library rd u b (upsert_user_library rd u b d) = upsert_user_library rd u b d"
  by (auto simp: upsert_user_library_def select_where_def)

lemma claim_books [simp]: "global_books (record_claim t b d) = global_books d"
  by (simp add: record_claim_def)

lemma update_twice: "AList.update k v (AList.update k v xs) = AList.update k v xs"
  by (induction xs) auto

lemma delete_fresh: "\<forall>v \<in> set vs. \<not> p v \<Longrightarrow> delete_where p vs = vs"
  by (simp add: delete_where_def filter_id_conv)

lemma delete_all: "\<forall>v \<in> set vs. p v \<Longrightarrow> delete_where p vs = []"
  by (simp add: delete_where_def filter_empty_conv)

lemma delete_append: "delete_where p (xs @ ys) = delete_where p xs @ delete_where p ys"
  by (simp add: delete_where_def)

text \<open>Redoing the external writes under the same identifier, after the scrub, has the effect of one run.\<close>

lemma redo:
  assumes "puts = [] \<or> (\<exists>k c. puts = [PutOriginal k c])"
    and "vecs = [] \<or> (\<exists>vs. vecs = [InsertVectors vs] \<and> (\<forall>v \<in> set vs. vr_book_id v = str_uuid b))"
    and "\<forall>v \<in> set (w_vectors w). vr_book_id v \<noteq> str_uuid b"
  shows "apply_effects rd (ScrubPartialVectors b # puts @ vecs) (apply_effects rd (take k (puts @ vecs)) w) =
    apply_effects rd (puts @ vecs) w"
  using assms
  by (cases k; cases "k - 1")
     (auto simp: delete_append delete_fresh delete_all update_twice)

section \<open>Redelivery\<close>

definition signature_of :: "ingest_externals \<Rightarrow> ingest_args \<Rightarrow> sig" where
  "signature_of ext a = signature (ie_lemmatize ext) (ie_mh_empty ext) (ie_mh_update ext) (ia_markdown a)"

abbreviation lookup :: "ingest_externals \<Rightarrow> (uuid \<times> sig) list \<Rightarrow> sig \<Rightarrow> uuid option result" where
  "lookup ext idx s \<equiv> find_duplicate (ie_lsh_query ext) (ie_jaccard ext) DEFAULT_THRESHOLD DEFAULT_THRESHOLD idx s"

lemma plan_new:
  assumes "lookup ext idx (signature_of ext a) = Inr None" and "ia_task_id a = Some t" and "read_claim t d = Inr None"
  shows "ingest_plan ext rd b a idx d = prepend [RecordClaim t b] (new_book_plan ext rd a (signature_of ext a) b)"
  using assms by (simp add: ingest_plan_def signature_of_def Let_def)

lemma plan_claimed:
  assumes "lookup ext idx (signature_of ext a) = Inr None" and "ia_task_id a = Some t" and "read_claim t d = Inr (Some b)"
    and "\<not> book_committed b d"
  shows "ingest_plan ext rd b' a idx d = prepend [ScrubPartialVectors b] (new_book_plan ext rd a (signature_of ext a) b)"
  using assms by (simp add: ingest_plan_def signature_of_def Let_def)

lemma plan_dup:
  assumes "lookup ext idx (signature_of ext a) = Inr (Some b)"
    and "map gb_text_pointer (select_where (\<lambda>r. gb_book_id r = b) (global_books d)) = [p]" and "p = None \<longrightarrow> ia_original a = None"
  shows "ingest_plan ext rd b' a idx d = ([UpsertUserLibrary (ia_user_id a) b], Inr (converged b))"
  using assms by (auto simp: ingest_plan_def signature_of_def backfill_original_def Let_def split: option.split)

lemma run_unloaded:
  assumes "w_index w = None" and "load_index (w_db w) = Inr idx"
  shows "(snd (ingest_markdown ext rd b a w))\<lparr>w_index := None\<rparr> = apply_effects rd (fst (ingest_plan ext rd b a idx (w_db w))) w"
    and "fst (ingest_markdown ext rd b a w) = snd (ingest_plan ext rd b a idx (w_db w))"
    and "crash_after n ext rd b a w = apply_effects rd (take n (fst (ingest_plan ext rd b a idx (w_db w)))) w"
proof -
  obtain es res where p: "ingest_plan ext rd b a idx (w_db w) = (es, res)" by fastforce
  have same: "(apply_effects rd xs (w\<lparr>w_index := Some idx\<rparr>))\<lparr>w_index := None\<rparr> = apply_effects rd xs w" for xs
  proof -
    have "w\<lparr>w_index := None\<rparr> = w" using assms(1) by (cases w) simp
    then show ?thesis by (simp add: apply_effects_no_index)
  qed
  show "(snd (ingest_markdown ext rd b a w))\<lparr>w_index := None\<rparr> = apply_effects rd (fst (ingest_plan ext rd b a idx (w_db w))) w"
    "fst (ingest_markdown ext rd b a w) = snd (ingest_plan ext rd b a idx (w_db w))"
    "crash_after n ext rd b a w = apply_effects rd (take n (fst (ingest_plan ext rd b a idx (w_db w)))) w"
    using assms p same by (simp_all add: ingest_markdown_def crash_after_def plan_in_def)
qed

lemma external_effects:
  assumes "puts = [] \<or> (\<exists>k c. puts = [PutOriginal k c])" and "vecs = [] \<or> (\<exists>vs. vecs = [InsertVectors vs])"
  shows "w_db (apply_effects rd (take k (puts @ vecs)) w) = w_db w" "w_index (apply_effects rd (take k (puts @ vecs)) w) = w_index w"
  using assms by (cases k; cases "k - 1"; auto)+

lemma load_after_insert:
  assumes "load_index d = Inr idx" and "gb_book_id book = b" and "gb_minhash_signature book = serialize s"
    and "global_books d' = global_books d @ [book]"
  shows "load_index d' = Inr (idx @ [(b, s)])"
  using assms by (simp add: load_index_def load_rows_append deserialize_serialize)

lemma load_index_cong: "global_books d = global_books d' \<Longrightarrow> load_index d = load_index d'"
  by (simp add: load_index_def)

lemma upsert_books [simp]: "global_books (upsert_user_library rd u b d) = global_books d"
  by (simp add: upsert_user_library_def)

lemma lookup_added:
  assumes "lsh_contract (ie_lsh_query ext) band" and "lookup ext idx s = Inr None"
  shows "lookup ext (idx @ [(b, s)]) s = Inr (Some b)"
proof -
  have none: "\<forall>(b, s') \<in> set idx. \<not> band s s'" using lookup_None [OF assms(1)] assms(2) by blast
  have self: "band s s" using assms(1) by (simp add: lsh_contract_def)
  then have "lookup ext (idx @ [(b, s)]) s \<noteq> Inr None" using lookup_None [OF assms(1), of _ _ "idx @ [(b, s)]" s] by auto
  then obtain c where c: "lookup ext (idx @ [(b, s)]) s = Inr (Some c)"
    by (auto simp: find_duplicate_default split: list.splits)
  from lookup_Some [OF assms(1) c] none have "c = b" by auto
  then show ?thesis using c by simp
qed

lemma index_add_unloaded: "w_index w = None \<Longrightarrow> apply_effect rd (IndexAdd b s) w = w"
  by (cases w) simp

lemma committed_fresh: "fresh b w \<Longrightarrow> \<not> book_committed b (record_claim t c (w_db w))"
  by (auto simp: fresh_def book_committed_def select_where_def filter_empty_conv)

text \<open>The redelivered run after a crash past the claim.\<close>

lemma redelivery_claimed:
  assumes contract: "lsh_contract (ie_lsh_query ext) band"
    and task: "ia_task_id a = Some t" and unclaimed: "unclaimed t (w_db w)"
    and unloaded: "w_index w = None" "load_index (w_db w) = Inr idx"
    and new: "lookup ext idx (signature_of ext a) = Inr None" and fresh: "fresh b w"
    and ok: "snd (new_book_plan ext rd a (signature_of ext a) b) = Inr r"
  shows "(snd (ingest_markdown ext rd b' a (crash_after (Suc n) ext rd b a w)))\<lparr>w_index := None\<rparr> =
      (snd (ingest_markdown ext rd b a w))\<lparr>w_index := None\<rparr> \<and>
    (\<exists>r'. fst (ingest_markdown ext rd b' a (crash_after (Suc n) ext rd b a w)) = Inr r' \<and> ir_book_id r' = b)"
proof -
  let ?s = "signature_of ext a" and ?u = "ia_user_id a"
  obtain puts vecs book rows where
    plan: "fst (new_book_plan ext rd a ?s b) = puts @ vecs @ [InsertBook book rows, UpsertUserLibrary ?u b, IndexAdd b ?s]"
    and puts: "puts = [] \<and> ia_original a = None \<or> (\<exists>c. puts = [PutOriginal (original_key b (Some (ia_filename a))) c] \<and> ia_original a = Some c)"
    and vecs: "vecs = [] \<or> (\<exists>vs. vecs = [InsertVectors vs] \<and> (\<forall>v \<in> set vs. vr_book_id v = str_uuid b))"
    and book: "gb_book_id book = b" "gb_minhash_signature book = serialize ?s" "gb_text_pointer book = None \<longleftrightarrow> ia_original a = None"
    and rb: "ir_book_id r = b"
    using new_book_shape [OF ok] by metis
  define C where "C = apply_effect rd (RecordClaim t b) w"
  have C: "w_db C = record_claim t b (w_db w)" "w_index C = None" "w_vectors C = w_vectors w"
    using unloaded by (simp_all add: C_def)
  have p1: "puts = [] \<or> (\<exists>k c. puts = [PutOriginal k c])" and p2: "vecs = [] \<or> (\<exists>vs. vecs = [InsertVectors vs])"
    using puts vecs by blast+
  note run = plan_new [OF new task claim_read(1) [OF unclaimed], of rd b, unfolded prepend_def plan]
  have w1: "crash_after (Suc n) ext rd b a w =
      apply_effects rd (take n (puts @ vecs @ [InsertBook book rows, UpsertUserLibrary ?u b, IndexAdd b ?s])) C"
    unfolding run_unloaded(3) [OF unloaded] run C_def by (simp del: take_append)
  have full: "(snd (ingest_markdown ext rd b a w))\<lparr>w_index := None\<rparr> =
      apply_effects rd (puts @ vecs @ [InsertBook book rows, UpsertUserLibrary ?u b, IndexAdd b ?s]) C"
    unfolding run_unloaded(1) [OF unloaded] run C_def by simp
  show ?thesis
  proof (cases "n \<le> length (puts @ vecs)")
    case True
    have w1': "crash_after (Suc n) ext rd b a w = apply_effects rd (take n (puts @ vecs)) C" (is "?w1 = _")
      unfolding w1 append_assoc [symmetric] using True by (subst take_append) simp
    have db: "w_db ?w1 = record_claim t b (w_db w)" "w_index ?w1 = None"
      unfolding w1' using external_effects [OF p1 p2, where w = C] C by simp_all
    have load: "load_index (w_db ?w1) = Inr idx" using unloaded(2) load_index_cong [of "w_db ?w1" "w_db w"] by (simp add: db)
    have "read_claim t (w_db ?w1) = Inr (Some b)" "\<not> book_committed b (w_db ?w1)"
      unfolding db using claim_read(2) [OF unclaimed] committed_fresh [OF fresh] by blast+
    note again = plan_claimed [OF new task this, of rd b', unfolded prepend_def plan]
    have "\<forall>v \<in> set (w_vectors C). vr_book_id v \<noteq> str_uuid b" using fresh unfolding C fresh_def by blast
    note redone = redo [OF p1 vecs this, of rd n, folded w1']
    show ?thesis
      using redone ok rb unfolding run_unloaded(1,2) [OF db(2) load] full again by simp
  next
    case False
    define I where "I = apply_effects rd (puts @ vecs @ [InsertBook book rows]) C"
    have ext_db: "w_db (apply_effects rd (puts @ vecs) C) = record_claim t b (w_db w)" "w_index (apply_effects rd (puts @ vecs) C) = None"
      using external_effects [OF p1 p2, of rd "length (puts @ vecs)" C] C by simp_all
    have I: "global_books (w_db I) = global_books (w_db w) @ [book]" "w_index I = None"
      using ext_db by (simp_all add: I_def)
    obtain j where n: "n = length (puts @ vecs @ [InsertBook book rows]) + j" using False by (metis le_Suc_ex length_append_singleton append_assoc not_less_eq_eq)
    have split: "puts @ vecs @ [InsertBook book rows, UpsertUserLibrary ?u b, IndexAdd b ?s] =
        (puts @ vecs @ [InsertBook book rows]) @ [UpsertUserLibrary ?u b, IndexAdd b ?s]" by simp
    have "take n ((puts @ vecs @ [InsertBook book rows]) @ ys) = (puts @ vecs @ [InsertBook book rows]) @ take j ys" for ys
      unfolding n by simp
    then have "crash_after (Suc n) ext rd b a w = apply_effects rd (take j [UpsertUserLibrary ?u b, IndexAdd b ?s]) I"
      unfolding w1 split I_def apply_effects_simps(3) [symmetric] by (simp only:)
    then have w1': "crash_after (Suc n) ext rd b a w = I \<or> crash_after (Suc n) ext rd b a w = apply_effect rd (UpsertUserLibrary ?u b) I"
      (is "?w1 = _ \<or> _") using I(2) by (cases j; cases "j - 1") (simp_all add: index_add_unloaded)
    then have db: "global_books (w_db ?w1) = global_books (w_db w) @ [book]" "w_index ?w1 = None" using I by auto
    have load: "load_index (w_db ?w1) = Inr (idx @ [(b, ?s)])"
      by (rule load_after_insert [OF unloaded(2) book(1,2) db(1)])
    have "map gb_text_pointer (select_where (\<lambda>r. gb_book_id r = b) (global_books (w_db ?w1))) = [gb_text_pointer book]"
      using fresh book(1) by (auto simp: db select_where_def fresh_def filter_empty_conv)
    note again = plan_dup [OF lookup_added [OF contract new] this, of rd b']
    have "apply_effect rd (UpsertUserLibrary ?u b) ?w1 = apply_effect rd (UpsertUserLibrary ?u b) I" using w1' by auto
    moreover have "(snd (ingest_markdown ext rd b a w))\<lparr>w_index := None\<rparr> = apply_effect rd (UpsertUserLibrary ?u b) I"
      unfolding full split using I(2) by (simp add: I_def index_add_unloaded del: append_assoc)
    ultimately show ?thesis
      unfolding run_unloaded(1,2) [OF db(2) load] using again book(3) by (simp add: converged_def)
  qed
qed

section \<open>Properties\<close>

text \<open>A concrete setting: the LSH matches equal signatures, a document is one node, one vector per text.\<close>

definition demo_ingest :: ingest_externals where
  "demo_ingest = \<lparr>ie_lsh_query = (\<lambda>idx s. map fst (filter (\<lambda>p. s = snd p) idx)), ie_jaccard = (\<lambda>_ _. 1),
     ie_lemmatize = id, ie_mh_empty = [], ie_mh_update = (\<lambda>s w. of_nat (length w) # s),
     ie_splitter = (\<lambda>t. Inr [\<lparr>tn_text = t, tn_span = (Some 0, Some (int (length t)))\<rparr>]), ie_headings = (\<lambda>_. []),
     ie_span_tokenize = (\<lambda>_. []), ie_token_count = length, ie_embed = (\<lambda>ts. Inr (map (\<lambda>_. [1]) ts))\<rparr>"

definition demo_defaults :: row_defaults where
  "demo_defaults = \<lparr>rd_entry_id = (\<lambda>u b. u + b), rd_chunk_id = (\<lambda>b i. b + of_nat i), rd_now = 0\<rparr>"

definition demo_args :: ingest_args where
  "demo_args = \<lparr>ia_markdown = ''Grace.'', ia_filename = ''g.pdf'', ia_user_id = 1, ia_title = None, ia_author = None,
     ia_original = Some ''%PDF'', ia_task_id = Some 5\<rparr>"

definition demo_world :: world where
  "demo_world = \<lparr>w_db = empty_db\<lparr>upload_tasks := [\<lparr>ut_task_id = 5, ut_user_id = 1, ut_book_id = None,
       ut_filename = ''g.pdf'', ut_created_at = 0\<rparr>]\<rparr>, w_vectors = [], w_objects = [], w_index = None\<rparr>"

lemma demo_contract: "lsh_contract (ie_lsh_query demo_ingest) (=)"
  by (force simp: lsh_contract_def demo_ingest_def)

lemma demo_world_reads: "unclaimed 5 (w_db demo_world)" "w_index demo_world = None" "load_index (w_db demo_world) = Inr []"
  "fresh b demo_world" "ia_task_id demo_args = Some 5"
  by (simp_all add: unclaimed_def demo_world_def select_where_def load_index_def empty_db_def fresh_def demo_args_def)

lemma demo_lookup: "lookup demo_ingest [] s = Inr None"
  by (simp add: find_duplicate_default demo_ingest_def)

lemma demo_new_book_any:
  assumes "ia_markdown a = ''Grace.''"
  shows "\<exists>r. snd (new_book_plan demo_ingest demo_defaults a s b) = Inr r"
proof -
  have "\<exists>x. chunk_texts demo_ingest ''Grace.'' = Inr [x]"
    by (simp add: chunk_texts_def chunk_markdown_def demo_ingest_def is_space_cp_def node_chunk_def cap_oversized_chunks_def
        utf8_size_def utf8_width_def MAX_CHUNK_BYTES_def)
  then obtain x where "chunk_texts demo_ingest ''Grace.'' = Inr [x]" by blast
  moreover have "ie_embed demo_ingest [fst x] = Inr [[1]]" by (simp add: demo_ingest_def)
  ultimately show ?thesis by (simp add: new_book_plan_def assms Let_def build_rows_def)
qed

lemma demo_new_book: "\<exists>r. snd (new_book_plan demo_ingest demo_defaults demo_args s b) = Inr r"
  by (rule demo_new_book_any) (simp add: demo_args_def)

text \<open>
  C7: crashed uploads converge. Take a task whose row holds no claim, a document the index does not
  know, and identifiers nothing refers to. Kill the run after any number of its writes, restart the
  process, and deliver the task again: database, vectors and originals end up exactly as after one
  uninterrupted run under a single identifier, the first attempt's unless it died before its claim.
\<close>

theorem redelivery_converges:
  assumes "lsh_contract (ie_lsh_query ext) band" and "ia_task_id a = Some t" and "unclaimed t (w_db w)"
    and "w_index w = None" and "load_index (w_db w) = Inr idx" and "lookup ext idx (signature_of ext a) = Inr None"
    and "fresh b1 w" and "\<exists>r. snd (new_book_plan ext rd a (signature_of ext a) b1) = Inr r"
    and "\<exists>r. snd (new_book_plan ext rd a (signature_of ext a) b2) = Inr r"
  shows "\<exists>r. fst (ingest_markdown ext rd b2 a (crash_after n ext rd b1 a w)) = Inr r \<and>
    ir_book_id r = (if n = 0 then b2 else b1) \<and>
    (snd (ingest_markdown ext rd b2 a (crash_after n ext rd b1 a w)))\<lparr>w_index := None\<rparr> =
    (snd (ingest_markdown ext rd (if n = 0 then b2 else b1) a w))\<lparr>w_index := None\<rparr>"
proof (cases n)
  case 0
  have "crash_after 0 ext rd b1 a w = w" using run_unloaded(3) [OF assms(4,5), of 0] by simp
  moreover obtain r where r: "snd (new_book_plan ext rd a (signature_of ext a) b2) = Inr r" using assms(9) by blast
  then have "fst (ingest_markdown ext rd b2 a w) = Inr r"
    using run_unloaded(2) [OF assms(4,5)] plan_new [OF assms(6,2) claim_read(1) [OF assms(3)]] by (simp add: prepend_def)
  moreover have "ir_book_id r = b2" using new_book_shape [OF r] by metis
  ultimately show ?thesis using 0 by simp
next
  case (Suc k)
  obtain r where r: "snd (new_book_plan ext rd a (signature_of ext a) b1) = Inr r" using assms(8) by blast
  from redelivery_claimed [OF assms(1-7) r, where b' = b2 and n = k] show ?thesis using Suc by auto
qed

theorem redelivery_converges_witness:
  "\<exists>r. fst (ingest_markdown demo_ingest demo_defaults 8 demo_args (crash_after 3 demo_ingest demo_defaults 7 demo_args demo_world)) = Inr r \<and>
     ir_book_id r = 7"
  using redelivery_converges [OF demo_contract demo_world_reads(5,1,2,3) demo_lookup demo_world_reads(4) demo_new_book demo_new_book, of 8 3 7]
  by auto

text \<open>
  C8: ingest is safe at every crash point. Wherever a run is killed, and when it completes, a text
  pointer never names an object that was not stored, and nothing changes outside the shared tables,
  the library of the run's own user and the row of the run's own task.
\<close>

theorem ingest_crash_safe:
  assumes "pointers_ok w"
  shows "pointers_ok (crash_after n ext rd b a w) \<and> pointers_ok (snd (ingest_markdown ext rd b a w)) \<and>
    untouched (ia_user_id a) (ia_task_id a) (w_db w) (w_db (crash_after n ext rd b a w)) \<and>
    untouched (ia_user_id a) (ia_task_id a) (w_db w) (w_db (snd (ingest_markdown ext rd b a w)))"
proof -
  obtain es res w' where p: "plan_in ext rd b a w = ((es, res), w')" by (metis prod.exhaust)
  note shape = plan_in_shape [OF p]
  have ok: "pointers_ok w'" using assms unfolding pointers_ok_def shape(1,2) .
  have cut: "list_all (writes_for (ia_user_id a) (ia_task_id a)) (take n es)" using shape(5) by (auto simp: list_all_iff dest: in_set_takeD)
  have "pointers_ok (apply_effects rd (take n es) w')" "pointers_ok (apply_effects rd es w')"
    using pointers_kept [OF guarded_take [OF shape(4)] ok] pointers_kept [OF shape(4) ok] .
  moreover have "untouched (ia_user_id a) (ia_task_id a) (w_db w) (w_db (apply_effects rd (take n es) w'))"
    "untouched (ia_user_id a) (ia_task_id a) (w_db w) (w_db (apply_effects rd es w'))"
    using effects_untouched [OF cut, of w' rd] effects_untouched [OF shape(5), of w' rd] shape(1) by simp_all
  moreover have "pointers_ok (v\<lparr>w_index := None\<rparr>) = pointers_ok v" for v
    by (simp add: pointers_ok_def cong: option.case_cong)
  ultimately show ?thesis by (simp add: crash_after_def ingest_markdown_def p)
qed

theorem ingest_crash_safe_witness:
  "pointers_ok (crash_after 3 demo_ingest demo_defaults 7 demo_args demo_world)"
proof -
  have "pointers_ok demo_world" by (simp add: pointers_ok_def demo_world_def empty_db_def)
  from conjunct1 [OF ingest_crash_safe [OF this]] show ?thesis .
qed

section \<open>Duplicate hits\<close>

lemma backfill_total:
  assumes "distinct (map gb_book_id (global_books d))"
  shows "backfill_original b f c d = Inr [] \<or> backfill_original b f c d =
    Inr [PutOriginal (original_key b (Some f)) c, BackfillPointer b (original_key b (Some f))]"
proof -
  have "length (map gb_text_pointer (select_where (\<lambda>r. gb_book_id r = b) (global_books d))) \<le> 1"
    using distinct_key_select [OF assms, of b "\<lambda>_. True"] by (simp add: select_where_def)
  then obtain x where "scalar_one_or_none (map gb_text_pointer (select_where (\<lambda>r. gb_book_id r = b) (global_books d))) = Inr x"
    by (cases "map gb_text_pointer (select_where (\<lambda>r. gb_book_id r = b) (global_books d))" rule: scalar_one_or_none.cases) auto
  then show ?thesis by (auto simp: backfill_original_def Let_def split: option.split)
qed

text \<open>A run whose document the index knows.\<close>

lemma dup_run:
  assumes "w_index w = Some idx" and "lookup ext idx (signature_of ext a) = Inr (Some e)"
    and "distinct (map gb_book_id (global_books (w_db w)))"
  shows "fst (ingest_markdown ext rd b a w) = Inr (converged e)"
    and "w_vectors (snd (ingest_markdown ext rd b a w)) = w_vectors w"
    and "book_committed c (w_db (snd (ingest_markdown ext rd b a w))) = book_committed c (w_db w)"
    and "\<exists>x \<in> set (user_library (w_db (snd (ingest_markdown ext rd b a w)))). ul_user_id x = ia_user_id a \<and> ul_book_id x = e"
proof -
  let ?U = "UpsertUserLibrary (ia_user_id a) e"
  let ?B = "case ia_original a of None \<Rightarrow> Inr [] | Some content \<Rightarrow> backfill_original e (ia_filename a) content (w_db w)"
  obtain es where B: "?B = Inr es" and es: "es = [] \<or> (\<exists>k c. es = [PutOriginal k c, BackfillPointer e k])"
  proof (cases "ia_original a")
    case None
    then show ?thesis using that [of "[]"] by simp
  next
    case (Some c)
    then show ?thesis using that backfill_total [OF assms(3), of e "ia_filename a" c] by auto
  qed
  have plan: "ingest_plan ext rd b a idx (w_db w) = (?U # es, Inr (converged e))"
    unfolding ingest_plan_def Let_def using assms(2) B by (simp add: signature_of_def)
  have run: "ingest_markdown ext rd b a w = (Inr (converged e), apply_effects rd (?U # es) w)"
    using assms(1) plan by (simp add: ingest_markdown_def plan_in_def)
  show "fst (ingest_markdown ext rd b a w) = Inr (converged e)" using run by simp
  show "w_vectors (snd (ingest_markdown ext rd b a w)) = w_vectors w" using run es by auto
  have ids: "book_committed c d \<longleftrightarrow> c \<in> set (map gb_book_id (global_books d))" for d
    by (auto simp: book_committed_def select_where_def filter_empty_conv)
  have "map gb_book_id (global_books (set_pointer_if_null i k d)) = map gb_book_id (global_books d)" for i k d
    by (simp add: set_pointer_if_null_def map_update_where)
  then have keep: "book_committed c (set_pointer_if_null i k d) = book_committed c d" for i k d
    unfolding ids by (simp only:)
  have "book_committed c (upsert_user_library rd u i d) = book_committed c d" for u i d
    by (simp add: book_committed_def)
  then show "book_committed c (w_db (snd (ingest_markdown ext rd b a w))) = book_committed c (w_db w)"
    using run es keep by auto
  have "\<exists>x \<in> set (user_library (upsert_user_library rd u i d)). ul_user_id x = u \<and> ul_book_id x = i" for u i d
    by (auto simp: upsert_user_library_def select_where_def filter_empty_conv)
  moreover have "user_library (set_pointer_if_null i k d) = user_library d" for i k d by (simp add: set_pointer_if_null_def)
  ultimately show "\<exists>x \<in> set (user_library (w_db (snd (ingest_markdown ext rd b a w)))). ul_user_id x = ia_user_id a \<and> ul_book_id x = e"
    using run es by auto
qed

definition demo_book :: "uuid \<Rightarrow> sig \<Rightarrow> global_book" where
  "demo_book b s = \<lparr>gb_book_id = b, gb_isbn = None, gb_title = ''Blank'', gb_author = None, gb_minhash_signature = serialize s,
     gb_text_pointer = Some ''k'', gb_created_at = 0\<rparr>"

definition demo_loaded :: world where
  "demo_loaded = demo_world\<lparr>w_index := Some [(3, [])], w_db := (w_db demo_world)\<lparr>global_books := [demo_book 3 []]\<rparr>,
     w_vectors := [\<lparr>vr_vector = [1], vr_book_id = str_uuid 7, vr_content_chunk = ''Grace.'', vr_filename = ''g.pdf'',
       vr_chunk_index = 0, vr_parent_section = None\<rparr>]\<rparr>"

lemma demo_loaded_books: "distinct (map gb_book_id (global_books (w_db demo_loaded)))" "w_index demo_loaded = Some [(3, [])]"
  by (simp_all add: demo_loaded_def)

lemma demo_few_words: "length (lemmas_of id ''Grace.'') < SHINGLE_SIZE"
proof -
  have "find_words (lower ''Grace.'') = [''grace'']"
    by code_simp
  then show ?thesis by (simp add: lemmas_of_def SHINGLE_SIZE_def)
qed

lemma demo_hit: "lookup demo_ingest [(3, [])] (signature_of demo_ingest demo_args) = Inr (Some 3)"
proof -
  have "signature_of demo_ingest demo_args = []"
    using demo_few_words by (simp add: signature_of_def signature_def demo_ingest_def demo_args_def)
  then show ?thesis by (simp add: find_duplicate_default demo_ingest_def)
qed

text \<open>
  C40: a duplicate hit overtakes the claim. The duplicate lookup comes before the claim is read, so
  when another upload commits the same content after a crash, the redelivered task converges to that
  book and never scrubs: the vectors written under the claimed identifier stay although no book of
  that identifier exists, contrary to the documented zero orphans.
\<close>

theorem dup_hit_leaves_orphans:
  assumes "w_index w = Some idx" and "lookup ext idx (signature_of ext a) = Inr (Some e)"
    and "distinct (map gb_book_id (global_books (w_db w)))"
    and "ia_task_id a = Some t" and "read_claim t (w_db w) = Inr (Some claimed)" and "\<not> book_committed claimed (w_db w)"
    and "v \<in> set (w_vectors w)" and "vr_book_id v = str_uuid claimed"
  shows "fst (ingest_markdown ext rd b a w) = Inr (converged e) \<and>
    v \<in> set (w_vectors (snd (ingest_markdown ext rd b a w))) \<and>
    \<not> book_committed claimed (w_db (snd (ingest_markdown ext rd b a w)))"
  using dup_run [OF assms(1-3)] assms(6,7) by simp

theorem dup_hit_leaves_orphans_witness:
  "\<not> book_committed 7 (w_db (snd (ingest_markdown demo_ingest demo_defaults 8 demo_args
      (demo_loaded\<lparr>w_db := record_claim 5 7 (w_db demo_loaded)\<rparr>))))"
proof -
  let ?w = "demo_loaded\<lparr>w_db := record_claim 5 7 (w_db demo_loaded)\<rparr>"
  have idx: "w_index ?w = Some [(3, [])]" by (simp add: demo_loaded_def)
  have dist: "distinct (map gb_book_id (global_books (w_db ?w)))" by (simp add: demo_loaded_def)
  have task: "ia_task_id demo_args = Some 5" by (simp add: demo_args_def)
  have "unclaimed 5 (w_db demo_loaded)" by (simp add: unclaimed_def demo_loaded_def demo_world_def select_where_def)
  then have claim: "read_claim 5 (w_db ?w) = Inr (Some 7)" by (simp add: claim_read(2))
  have open_claim: "\<not> book_committed 7 (w_db ?w)" by (simp add: book_committed_def demo_loaded_def select_where_def demo_book_def)
  let ?v = "\<lparr>vr_vector = [1], vr_book_id = str_uuid 7, vr_content_chunk = ''Grace.'', vr_filename = ''g.pdf'',
       vr_chunk_index = 0, vr_parent_section = None\<rparr>"
  have v: "?v \<in> set (w_vectors ?w)" "vr_book_id ?v = str_uuid 7" by (simp_all add: demo_loaded_def)
  from dup_hit_leaves_orphans [OF idx demo_hit dist task claim open_claim v] show ?thesis by simp
qed

text \<open>
  Documents without text are all the same book. Two documents with fewer than five words have
  the same empty signature, which shares its bands with itself; once one such book is indexed, every
  further one is reported as a duplicate and its uploader is given a foreign book. The comment that
  an empty signature yields no candidates does not hold.
\<close>

theorem near_empty_is_duplicate:
  assumes "lsh_contract (ie_lsh_query ext) band" and "length (lemmas_of (ie_lemmatize ext) (ia_markdown a)) < SHINGLE_SIZE"
    and "w_index w = Some idx" and "(e0, ie_mh_empty ext) \<in> set idx"
    and "distinct (map gb_book_id (global_books (w_db w)))"
  shows "\<exists>e. fst (ingest_markdown ext rd b a w) = Inr (converged e) \<and>
    (\<exists>x \<in> set (user_library (w_db (snd (ingest_markdown ext rd b a w)))). ul_user_id x = ia_user_id a \<and> ul_book_id x = e)"
proof -
  have s: "signature_of ext a = ie_mh_empty ext" using assms(2) by (simp add: signature_of_def signature_def Let_def)
  have "band (ie_mh_empty ext) (ie_mh_empty ext)" using assms(1) by (simp add: lsh_contract_def)
  then have "lookup ext idx (signature_of ext a) \<noteq> Inr None"
    using lookup_None [OF assms(1), of _ _ idx "signature_of ext a"] assms(4) s by auto
  then obtain e where "lookup ext idx (signature_of ext a) = Inr (Some e)"
    by (auto simp: find_duplicate_default split: list.splits)
  from dup_run(1,4) [OF assms(3) this assms(5)] show ?thesis by blast
qed

theorem near_empty_is_duplicate_witness:
  "\<exists>e. fst (ingest_markdown demo_ingest demo_defaults 8 demo_args demo_loaded) = Inr (converged e)"
proof -
  have few: "length (lemmas_of (ie_lemmatize demo_ingest) (ia_markdown demo_args)) < SHINGLE_SIZE"
    using demo_few_words by (simp add: demo_ingest_def demo_args_def)
  have mem: "(3, ie_mh_empty demo_ingest) \<in> set [(3, [])]" by (simp add: demo_ingest_def)
  from near_empty_is_duplicate [OF demo_contract few demo_loaded_books(2) mem demo_loaded_books(1)] show ?thesis by blast
qed

end
