(* ===== verification/Chunking_Correct.thy ===== *)
theory Chunking_Correct
  imports Chunking
begin

text \<open>
  Correctness of the oversized-chunk pass: the sub-chunks tile the chunk they replace and fit both
  caps; the binary search finds the longest fitting window when the token counter is monotone.
\<close>

section \<open>Slices and tilings\<close>

lemma slice_slice: "a + d \<le> b \<Longrightarrow> slice (slice t a b) c d = slice t (a + c) (a + d)"
  by (cases "c \<le> d") (simp_all add: slice_def drop_take take_take add.commute min_absorb1)

lemma slice_append: "a \<le> b \<Longrightarrow> b \<le> c \<Longrightarrow> slice t a b @ slice t b c = slice t a c"
proof -
  assume "a \<le> b" "b \<le> c"
  then have "drop b t = drop (b - a) (drop a t)" "c - a = (b - a) + (c - b)" by simp_all
  then show ?thesis unfolding slice_def by (simp only: take_add)
qed

lemma slice_full [simp]: "slice t 0 (length t) = t"
  by (simp add: slice_def)

lemma slice_single: "i < length t \<Longrightarrow> slice t i (i + 1) = [t ! i]"
  by (simp add: slice_def take_Suc_conv_app_nth hd_drop_conv_nth take_Suc)

fun tiles :: "int \<Rightarrow> int \<Rightarrow> (int \<times> int) list \<Rightarrow> bool" where
  "tiles a b [] = (a = b)"
| "tiles a b ((s, e) # ws) = (s = a \<and> s < e \<and> tiles e b ws)"

lemma tiles_append: "tiles a b xs \<Longrightarrow> tiles b c ys \<Longrightarrow> tiles a c (xs @ ys)"
  by (induction a b xs rule: tiles.induct) auto

lemma tiles_range: "tiles a b ws \<Longrightarrow> a \<le> b \<and> (\<forall>(s, e) \<in> set ws. a \<le> s \<and> s < e \<and> e \<le> b)"
  by (induction a b ws rule: tiles.induct) fastforce+

definition window :: "utext \<Rightarrow> int \<Rightarrow> int \<times> int \<Rightarrow> utext" where
  "window t base w = slice t (nat (fst w - base)) (nat (snd w - base))"

lemma window_tiles:
  "tiles a b ws \<Longrightarrow> base \<le> a \<Longrightarrow> concat (map (window t base) ws) = window t base (a, b)"
proof (induction a b ws rule: tiles.induct)
  case (1 a b)
  then show ?case by (simp add: window_def slice_def)
next
  case (2 a b s e ws)
  then have "tiles e b ws" "a < e" "s = a" by auto
  moreover have "e \<le> b" using tiles_range calculation(1) by blast
  ultimately show ?case using 2 by (simp add: window_def slice_append nat_mono)
qed

section \<open>Hard windows\<close>

lemma window_end_fits:
  assumes "\<forall>c. fits tc [c]" and "i < length t"
  shows "window_fits tc t i (window_end tc t i)"
proof -
  have "window_end tc t i = i + 1 \<or> window_fits tc t i (window_end tc t i)"
    using window_search_range [of "int i + 1" tc t i "int (length t)" "i + 1"] unfolding window_end_def by linarith
  moreover have "window_fits tc t i (i + 1)" unfolding window_fits_def slice_single [OF assms(2)] using assms(1) by blast
  ultimately show ?thesis by metis
qed

lemma hard_loop_tiles:
  "i \<le> length t \<Longrightarrow> tiles (off + int i) (off + int (length t)) (hard_loop tc t off i)"
proof (induction tc t off i rule: hard_loop.induct)
  case (1 tc t off i)
  then show ?case using window_end_range [of i t tc] by (subst hard_loop.simps) auto
qed

lemma hard_loop_fits:
  "\<forall>c. fits tc [c] \<Longrightarrow> \<forall>w \<in> set (hard_loop tc t off i). fits tc (window t off w)"
proof (induction tc t off i rule: hard_loop.induct)
  case (1 tc t off i)
  show ?case
  proof (cases "i < length t")
    case True
    have "fits tc (window t off (off + int i, off + int (window_end tc t i)))"
      using window_end_fits [OF "1.prems" True] by (simp add: window_def window_fits_def)
    then show ?thesis using "1.IH" [OF True "1.prems"] True by (subst hard_loop.simps) auto
  qed (subst hard_loop.simps, simp)
qed

section \<open>Sentence windows\<close>

text \<open>What Punkt documents: the spans come in order and lie inside the text.\<close>

definition spans_ordered :: "(utext \<Rightarrow> (nat \<times> nat) list) \<Rightarrow> bool" where
  "spans_ordered span_tokenize \<longleftrightarrow>
     (\<forall>t. sorted (map fst (span_tokenize t)) \<and> (\<forall>s \<in> set (map fst (span_tokenize t)). s \<le> length t))"

abbreviation shift :: "int \<Rightarrow> nat \<times> nat \<Rightarrow> int \<times> int" where
  "shift base w \<equiv> (base + int (fst w), base + int (snd w))"

lemma zip_tiles:
  "sorted (a # starts) \<Longrightarrow> \<forall>x \<in> set (a # starts). x \<le> n \<Longrightarrow>
   tiles (base + int a) (base + int n) (map (shift base) (filter (\<lambda>(s, e). s < e) (zip (a # starts) (starts @ [n]))))"
proof (induction starts arbitrary: a)
  case (Cons b starts)
  then show ?case by (cases "a = b") auto
qed auto

lemma sentence_spans_tiles:
  assumes "spans_ordered span_tokenize"
  shows "tiles base (base + int (length t)) (map (shift base) (sentence_spans span_tokenize t))"
proof (cases "t = []")
  case False
  define starts0 where "starts0 = map fst (span_tokenize t)"
  define starts where "starts = (if starts0 = [] \<or> hd starts0 \<noteq> 0 then 0 # starts0 else starts0)"
  have ord: "sorted starts0" "\<forall>s \<in> set starts0. s \<le> length t"
    using assms unfolding spans_ordered_def starts0_def by blast+
  have "starts \<noteq> []" "hd starts = 0" by (simp_all add: starts_def)
  then obtain rest where rest: "starts = 0 # rest" by (cases starts) auto
  have "sorted (0 # rest)" "\<forall>x \<in> set (0 # rest). x \<le> length t"
    using ord unfolding rest [symmetric] starts_def by (auto split: if_splits)
  note tiled = zip_tiles [OF this, of base]
  have "sentence_spans span_tokenize t = filter (\<lambda>(s, e). s < e) (zip starts (tl starts @ [length t]))"
    using False unfolding sentence_spans_def starts_def starts0_def Let_def by (simp only: if_False)
  then show ?thesis using tiled by (simp add: rest)
qed (simp add: sentence_spans_def)

lemma atoms_ok:
  assumes "\<forall>c. fits tc [c]" and "spans_ordered span_tokenize"
  shows "tiles base (base + int (length t)) (atoms span_tokenize tc t base) \<and>
    (\<forall>w \<in> set (atoms span_tokenize tc t base). fits tc (window t base w))"
proof -
  let ?atom = "\<lambda>(s, e). if \<not> window_fits tc t s e then hard_windows tc (slice t s e) (base + int s)
         else [(base + int s, base + int e)]"
  have one: "tiles (base + int s) (base + int e) (?atom (s, e)) \<and> (\<forall>w \<in> set (?atom (s, e)). fits tc (window t base w))"
    if "s < e" "e \<le> length t" for s e
  proof (cases "window_fits tc t s e")
    case True
    then show ?thesis using that by (simp add: window_def window_fits_def)
  next
    case False
    have len: "length (slice t s e) = e - s" using that by (simp add: slice_def)
    have til: "tiles (base + int s) (base + int e) (hard_windows tc (slice t s e) (base + int s))"
      using hard_loop_tiles [of 0 "slice t s e" "base + int s" tc] that by (simp add: hard_windows_def len of_nat_diff)
    have "fits tc (window t base w)" if w: "w \<in> set (hard_windows tc (slice t s e) (base + int s))" for w
    proof -
      obtain a b where ab: "w = (a, b)" by (cases w)
      have "base + int s \<le> a" "a < b" "b \<le> base + int e" using tiles_range [OF til] w ab by auto
      then have "window (slice t s e) (base + int s) w = window t base w"
        unfolding window_def ab using slice_slice [of s "nat (b - (base + int s))" e t "nat (a - (base + int s))"]
        by (simp add: nat_diff_distrib algebra_simps flip: nat_add_distrib) (smt (verit) nat_0_le nat_add_distrib of_nat_nat int_nat_eq nat_int)
      then show ?thesis using hard_loop_fits [OF assms(1)] w unfolding hard_windows_def by metis
    qed
    then show ?thesis using til False by simp
  qed
  have "tiles (base + int a) b (map (shift base) ws) \<Longrightarrow> b \<le> base + int (length t) \<Longrightarrow>
      tiles (base + int a) b (concat (map ?atom ws)) \<and> (\<forall>w \<in> set (concat (map ?atom ws)). fits tc (window t base w))"
    for a b ws
  proof (induction ws arbitrary: a)
    case (Cons w ws)
    obtain s e where w: "w = (s, e)" by (cases w)
    have se: "s = a" "s < e" and rest: "tiles (base + int e) b (map (shift base) ws)" using Cons.prems w by auto
    have "e \<le> length t" using tiles_range [OF rest] Cons.prems(2) by linarith
    then show ?case using one [of s e] Cons.IH [OF rest Cons.prems(2)] se w tiles_append by auto
  qed simp
  from this [of 0 "base + int (length t)" "sentence_spans span_tokenize t"] show ?thesis
    using sentence_spans_tiles [OF assms(2), of base t] unfolding atoms_def by simp
qed

section \<open>Packing\<close>

lemma pack_loop_run:
  assumes "fits tc (window t base (rs, re))" and "rs < re"
    and "tiles re z pieces" and "\<forall>w \<in> set pieces. fits tc (window t base w)"
  shows "\<exists>ws. pack_loop tc t base parent pieces (Some (rs, re)) subs = subs @ map (\<lambda>(s, e). cut t base parent s e) ws \<and>
    tiles rs z ws \<and> (\<forall>w \<in> set ws. fits tc (window t base w))"
  using assms
proof (induction pieces arbitrary: rs re subs)
  case Nil
  then show ?case by (intro exI [of _ "[(rs, re)]"]) simp
next
  case (Cons piece pieces)
  obtain a b where piece: "piece = (a, b)" by (cases piece)
  have ab: "a = re" "a < b" "tiles b z pieces" using Cons.prems(3) piece by auto
  show ?case
  proof (cases "fits tc (window t base (rs, b))")
    case True
    have "rs < b" using ab Cons.prems(2) by simp
    from Cons.IH [OF True this ab(3)] Cons.prems(4) show ?thesis
      using True by (simp add: piece window_def)
  next
    case False
    have "fits tc (window t base (a, b))" using Cons.prems(4) piece by simp
    from Cons.IH [OF this ab(2,3), of "subs @ [cut t base parent rs re]"] Cons.prems(4)
    obtain ws where "pack_loop tc t base parent pieces (Some (a, b)) (subs @ [cut t base parent rs re]) =
        (subs @ [cut t base parent rs re]) @ map (\<lambda>(s, e). cut t base parent s e) ws"
      "tiles a z ws" "\<forall>w \<in> set ws. fits tc (window t base w)" by auto
    then show ?thesis using False Cons.prems(1,2) ab(1)
      by (intro exI [of _ "(rs, re) # ws"]) (simp add: piece window_def)
  qed
qed

lemma split_chunk_text_ok:
  assumes "\<forall>c. fits tc [c]" and "spans_ordered span_tokenize"
  shows "\<exists>ws. split_chunk_text span_tokenize tc t base parent = map (\<lambda>(s, e). cut t base parent s e) ws \<and>
    tiles base (base + int (length t)) ws \<and> (\<forall>w \<in> set ws. fits tc (window t base w))"
proof (cases "atoms span_tokenize tc t base")
  case Nil
  then show ?thesis using atoms_ok [OF assms, of base t] by (intro exI [of _ "[]"]) (simp add: split_chunk_text_def)
next
  case (Cons w ws)
  obtain s e where w: "w = (s, e)" by (cases w)
  have "fits tc (window t base (s, e))" "s = base" "s < e" "tiles e (base + int (length t)) ws" "\<forall>w \<in> set ws. fits tc (window t base w)"
    using atoms_ok [OF assms, of base t] Cons w by auto
  from pack_loop_run [OF this(1,3-5), of parent "[]"] this(2) show ?thesis
    by (simp add: split_chunk_text_def Cons w)
qed

section \<open>The longest window\<close>

definition prefix_monotone :: "(utext \<Rightarrow> nat) \<Rightarrow> bool" where
  "prefix_monotone tc \<longleftrightarrow> (\<forall>t n. tc (take n t) \<le> tc t)"

lemma utf8_size_take: "utf8_size (take n t) \<le> utf8_size t"
proof -
  have "utf8_size t = utf8_size (take n t) + utf8_size (drop n t)"
    unfolding utf8_size_def by (metis append_take_drop_id map_append sum_list_append)
  then show ?thesis by simp
qed

lemma window_fits_antimono:
  assumes "prefix_monotone tc" and "window_fits tc t i e" and "e' \<le> e"
  shows "window_fits tc t i e'"
proof -
  have "slice t i e' = take (e' - i) (slice t i e)" using assms(3) by (simp add: slice_def take_take min_absorb1)
  moreover have "utf8_size (slice t i e) \<le> HARD_MAX_CHUNK_BYTES" "tc (slice t i e) \<le> MAX_CHUNK_TOKENS"
    using assms(2) unfolding window_fits_def fits_def by blast+
  ultimately show ?thesis using utf8_size_take assms(1) unfolding window_fits_def fits_def prefix_monotone_def
    by (metis le_trans)
qed

lemma window_search_longest:
  assumes mono: "prefix_monotone tc"
  shows "0 \<le> lo \<Longrightarrow> lo \<le> int best + 1 \<Longrightarrow> \<forall>e. hi < int e \<longrightarrow> e \<le> n \<longrightarrow> \<not> window_fits tc t i e \<Longrightarrow>
    window_search tc t i lo hi best < e \<Longrightarrow> e \<le> n \<Longrightarrow> \<not> window_fits tc t i e"
proof (induction "nat (hi + 1 - lo)" arbitrary: lo hi best rule: less_induct)
  case less
  let ?mid = "(lo + hi) div 2"
  show ?case
  proof (cases "lo \<le> hi")
    case True
    then have mid: "lo \<le> ?mid" "?mid \<le> hi" "0 \<le> ?mid" using less.prems(1) by auto
    show ?thesis
    proof (cases "window_fits tc t i (nat ?mid)")
      case fit: True
      have "window_search tc t i lo hi best = window_search tc t i (?mid + 1) hi (nat ?mid)"
        by (subst window_search.simps) (simp add: True fit Let_def)
      then show ?thesis using less.hyps [of hi "?mid + 1" "nat ?mid"] less.prems(3-5) mid True by simp
    next
      case nofit: False
      have eq: "window_search tc t i lo hi best = window_search tc t i lo (?mid - 1) best"
        by (subst window_search.simps) (simp add: True nofit Let_def)
      have "\<not> window_fits tc t i e'" if "?mid - 1 < int e'" for e'
        using nofit window_fits_antimono [OF mono] that by (meson nat_le_iff zle_diff1_eq not_less linorder_not_le)
      then show ?thesis using less.hyps [of "?mid - 1" lo best] less.prems mid True unfolding eq by simp
    qed
  next
    case False
    then have "window_search tc t i lo hi best = best" by (subst window_search.simps) simp
    then have "hi < int e" using False less.prems(2,4) by simp
    then show ?thesis using less.prems(3,5) by blast
  qed
qed

lemma hard_loop_longest:
  assumes "prefix_monotone tc"
  shows "(s, e) \<in> set (hard_loop tc t off i) \<Longrightarrow> e < e' \<Longrightarrow> e' \<le> off + int (length t) \<Longrightarrow>
    \<not> fits tc (window t off (s, e'))"
  using assms
proof (induction tc t off i rule: hard_loop.induct)
  case (1 tc t off i)
  show ?case
  proof (cases "i < length t")
    case True
    then consider "s = off + int i" "e = off + int (window_end tc t i)" | "(s, e) \<in> set (hard_loop tc t off (window_end tc t i))"
      using "1.prems"(1) by (subst (asm) hard_loop.simps) auto
    then show ?thesis
    proof cases
      case 1
      then have "window_end tc t i < nat (e' - off)" "nat (e' - off) \<le> length t" using "1.prems"(2,3) by auto
      then have "\<not> window_fits tc t i (nat (e' - off))"
        using window_search_longest [OF \<open>prefix_monotone tc\<close>, of "int i + 1" "i + 1" "int (length t)" "length t" t i]
        unfolding window_end_def by auto
      then show ?thesis using 1 by (simp add: window_def window_fits_def)
    next
      case 2
      then show ?thesis using "1.IH" [OF True] "1.prems" by blast
    qed
  next
    case False
    then show ?thesis using "1.prems"(1) by (subst (asm) hard_loop.simps) simp
  qed
qed

section \<open>Properties\<close>

lemma single_fits: "\<forall>c. tc [c] \<le> MAX_CHUNK_TOKENS \<Longrightarrow> \<forall>c. fits tc [c]"
  by (simp add: fits_def utf8_size_def utf8_width_def HARD_MAX_CHUNK_BYTES_def)

definition oversized_chunk :: chunk where
  "oversized_chunk = \<lparr>ck_text = replicate 60001 97, ck_start_idx = 5, ck_end_idx = 60006, ck_parent_section = None\<rparr>"

lemma utf8_size_replicate: "utf8_size (replicate n 97) = n"
  by (simp add: utf8_size_def utf8_width_def sum_list_replicate)

definition one_piece :: "chunk \<Rightarrow> int \<times> int \<Rightarrow> chunk" where
  "one_piece c w = cut (ck_text c) (ck_start_idx c) (ck_parent_section c) (fst w) (snd w)"

text \<open>
  C9: the size pass loses nothing and always fits. If Punkt's spans are ordered and a single code
  point stays within the token window, every chunk it emits is at most 65535 UTF-8 bytes, the
  emitted texts concatenate to the original texts, a chunk within the trigger passes through
  unchanged, and an oversized one is replaced by sub-chunks that tile its offsets, carry its section,
  slice its text and fit both caps.
\<close>

theorem chunks_fit_and_tile:
  assumes "spans_ordered span_tokenize" and "\<forall>c. tc [c] \<le> MAX_CHUNK_TOKENS"
  shows "list_all (\<lambda>k. utf8_size (ck_text k) \<le> HARD_MAX_CHUNK_BYTES) (cap_oversized_chunks span_tokenize tc cs) \<and>
    concat (map ck_text (cap_oversized_chunks span_tokenize tc cs)) = concat (map ck_text cs) \<and>
    (if utf8_size (ck_text c) \<le> MAX_CHUNK_BYTES then cap_oversized_chunks span_tokenize tc [c] = [c]
     else \<exists>ws. cap_oversized_chunks span_tokenize tc [c] = map (one_piece c) ws \<and>
       tiles (ck_start_idx c) (ck_start_idx c + int (length (ck_text c))) ws \<and>
       list_all (\<lambda>k. fits tc (ck_text k)) (cap_oversized_chunks span_tokenize tc [c]))"
proof -
  note split = split_chunk_text_ok [OF single_fits [OF assms(2)] assms(1)]
  have pieces: "\<exists>ws. split_chunk_text span_tokenize tc (ck_text c) (ck_start_idx c) (ck_parent_section c) = map (one_piece c) ws \<and>
      tiles (ck_start_idx c) (ck_start_idx c + int (length (ck_text c))) ws \<and> (\<forall>w \<in> set ws. fits tc (ck_text (one_piece c w)))" for c :: chunk
    using split [of "ck_text c" "ck_start_idx c" "ck_parent_section c"]
    by (simp add: one_piece_def [abs_def] case_prod_beta' cut_def window_def)
  have big: "list_all (\<lambda>k. fits tc (ck_text k)) (split_chunk_text span_tokenize tc (ck_text c) (ck_start_idx c) (ck_parent_section c)) \<and>
      concat (map ck_text (split_chunk_text span_tokenize tc (ck_text c) (ck_start_idx c) (ck_parent_section c))) = ck_text c" for c :: chunk
  proof -
    obtain ws where ws: "split_chunk_text span_tokenize tc (ck_text c) (ck_start_idx c) (ck_parent_section c) = map (one_piece c) ws"
      "tiles (ck_start_idx c) (ck_start_idx c + int (length (ck_text c))) ws" "\<forall>w \<in> set ws. fits tc (ck_text (one_piece c w))"
      using pieces by blast
    have "map ck_text (map (one_piece c) ws) = map (window (ck_text c) (ck_start_idx c)) ws"
      by (simp add: one_piece_def cut_def window_def)
    moreover have "concat (map (window (ck_text c) (ck_start_idx c)) ws) = ck_text c"
      using window_tiles [OF ws(2), of "ck_start_idx c" "ck_text c"] by (simp add: window_def)
    ultimately have "concat (map ck_text (map (one_piece c) ws)) = ck_text c" by (simp only:)
    then show ?thesis using ws(3) unfolding ws(1) by (simp only: list_all_iff) simp
  qed
  have "list_all (\<lambda>k. utf8_size (ck_text k) \<le> HARD_MAX_CHUNK_BYTES) (cap_oversized_chunks span_tokenize tc cs) \<and>
    concat (map ck_text (cap_oversized_chunks span_tokenize tc cs)) = concat (map ck_text cs)"
  proof (induction cs)
    case (Cons c cs)
    have "utf8_size (ck_text k) \<le> HARD_MAX_CHUNK_BYTES" if "fits tc (ck_text k)" for k using that by (simp add: fits_def)
    then show ?case using Cons big [of c]
      by (auto simp: cap_oversized_chunks_def MAX_CHUNK_BYTES_def HARD_MAX_CHUNK_BYTES_def list_all_iff)
  qed (simp add: cap_oversized_chunks_def)
  then show ?thesis using pieces [of c] by (auto simp: cap_oversized_chunks_def list_all_iff)
qed

theorem chunks_fit_and_tile_witness:
  "concat (map ck_text (cap_oversized_chunks (\<lambda>_. []) length [oversized_chunk])) = replicate 60001 97 \<and>
   list_all (\<lambda>k. fits length (ck_text k)) (cap_oversized_chunks (\<lambda>_. []) length [oversized_chunk])"
proof -
  have "spans_ordered (\<lambda>_. [])" by (simp add: spans_ordered_def)
  moreover have "\<forall>c :: nat. length [c] \<le> MAX_CHUNK_TOKENS" by (simp add: MAX_CHUNK_TOKENS_def)
  moreover have "\<not> utf8_size (ck_text oversized_chunk) \<le> MAX_CHUNK_BYTES"
    by (simp add: oversized_chunk_def utf8_size_replicate MAX_CHUNK_BYTES_def)
  ultimately have "concat (map ck_text (cap_oversized_chunks (\<lambda>_. []) length [oversized_chunk])) = ck_text oversized_chunk \<and>
      list_all (\<lambda>k. fits length (ck_text k)) (cap_oversized_chunks (\<lambda>_. []) length [oversized_chunk])"
    using chunks_fit_and_tile [of "\<lambda>_. []" length "[oversized_chunk]" oversized_chunk] by auto
  then show ?thesis by (simp add: oversized_chunk_def)
qed



text \<open>
  Sub-word tokenizers are not monotone (a prefix of a known word may need more pieces than the word),
  and then the window need not be the longest: here three code points fit, but the search stops at one.
\<close>

definition splitting_count :: "utext \<Rightarrow> nat" where
  "splitting_count t = (if length t = 2 then 511 else 1)"

lemma longest_needs_monotone:
  "window_end splitting_count [1, 2, 3] 0 = 1 \<and> window_fits splitting_count [1, 2, 3] 0 3"
proof -
  have f: "window_fits splitting_count [1, 2, 3] 0 n \<longleftrightarrow> n \<noteq> 2" if "n \<in> {1, 2, 3}" for n
    using that by (auto simp: window_fits_def fits_def slice_def splitting_count_def utf8_size_def utf8_width_def
        HARD_MAX_CHUNK_BYTES_def MAX_CHUNK_TOKENS_def)
  have "window_search splitting_count [1, 2, 3] 0 1 3 1 = 1"
    using f [of 1] f [of 2] by (simp add: window_search.simps [of _ _ _ 1 3] window_search.simps [of _ _ _ 1 1] window_search.simps [of _ _ _ 2 1] Let_def)
  then show ?thesis using f [of 3] by (simp add: window_end_def)
qed

end
