(* ===== verification/Handler_Monad.thy ===== *)
theory Handler_Monad
  imports Tenancy
begin

text \<open>
  Handlers that thread a state through several fallible calls: a handler maps the state to a
  result and a new state. \<open>andThen\<close> is sequencing (an exception skips the rest), \<open>catch\<close> is
  \<open>try/except\<close>. The rules at the end carry a state property (\<open>keeps\<close>) and the tenant
  contract (\<open>tenant_local\<close>) through a handler's structure.
\<close>

named_theorems handler_simps \<open>evaluation of the handler combinators\<close>
named_theorems keeps_intros \<open>state properties through the handler combinators\<close>

type_synonym ('s, 'a) handler = "'s \<Rightarrow> 'a result \<times> 's"

definition ret :: "'a \<Rightarrow> ('s, 'a) handler" where
  "ret x = (\<lambda>s. (Inr x, s))"

definition raise :: "py_exn \<Rightarrow> ('s, 'a) handler" where
  "raise e = (\<lambda>s. (Inl e, s))"

definition of_result :: "'a result \<Rightarrow> ('s, 'a) handler" where
  "of_result r = (\<lambda>s. (r, s))"

definition andThen :: "('s, 'a) handler \<Rightarrow> ('a \<Rightarrow> ('s, 'b) handler) \<Rightarrow> ('s, 'b) handler" where
  "andThen m f = (\<lambda>s. case m s of (Inl e, s') \<Rightarrow> (Inl e, s') | (Inr x, s') \<Rightarrow> f x s')"

definition catch :: "('s, 'a) handler \<Rightarrow> (py_exn \<Rightarrow> ('s, 'a) handler) \<Rightarrow> ('s, 'a) handler" where
  "catch m h = (\<lambda>s. case m s of (Inl e, s') \<Rightarrow> h e s' | (Inr x, s') \<Rightarrow> (Inr x, s'))"

lemma handler_eval [handler_simps]:
  "ret x s = (Inr x, s)"
  "raise e s = (Inl e, s)"
  "of_result r s = (r, s)"
  "m s = (Inl e, s') \<Longrightarrow> andThen m f s = (Inl e, s')"
  "m s = (Inr x, s') \<Longrightarrow> andThen m f s = f x s'"
  "m s = (Inl e, s') \<Longrightarrow> catch m h s = h e s'"
  "m s = (Inr x, s') \<Longrightarrow> catch m h s = (Inr x, s')"
  by (simp_all add: ret_def raise_def of_result_def andThen_def catch_def)

lemma andThen_Inr:
  "andThen m f s = (Inr y, s'') \<Longrightarrow> (\<And>x s'. m s = (Inr x, s') \<Longrightarrow> f x s' = (Inr y, s'') \<Longrightarrow> thesis) \<Longrightarrow> thesis"
  by (auto simp: andThen_def split: prod.splits sum.splits)

lemma andThen_assoc: "andThen (andThen m f) g = andThen m (\<lambda>x. andThen (f x) g)"
  by (rule ext) (simp add: andThen_def split: prod.split sum.split)

lemma andThen_ret [simp]: "andThen m ret = m" "andThen (ret x) f = f x"
  by (rule ext, simp add: andThen_def ret_def split: prod.split sum.split)+

section \<open>State properties\<close>

definition keeps :: "('s \<Rightarrow> bool) \<Rightarrow> ('s, 'a) handler \<Rightarrow> bool" where
  "keeps P m \<longleftrightarrow> (\<forall>s. P s \<longrightarrow> P (snd (m s)))"

lemma keepsD: "keeps P m \<Longrightarrow> P s \<Longrightarrow> P (snd (m s))"
  by (simp add: keeps_def)

lemma keeps_eqD: "keeps P m \<Longrightarrow> m s = (r, s') \<Longrightarrow> P s \<Longrightarrow> P s'"
  by (metis keepsD snd_conv)

lemma keeps_base [keeps_intros]: "keeps P (ret x)" "keeps P (raise e)" "keeps P (of_result r)"
  by (simp_all add: keeps_def ret_def raise_def of_result_def)

lemma keeps_andThen [keeps_intros]: "keeps P m \<Longrightarrow> (\<And>x. keeps P (f x)) \<Longrightarrow> keeps P (andThen m f)"
  unfolding keeps_def andThen_def by (fastforce split: prod.split sum.split)

lemma keeps_catch [keeps_intros]: "keeps P m \<Longrightarrow> (\<And>e. keeps P (h e)) \<Longrightarrow> keeps P (catch m h)"
  unfolding keeps_def catch_def by (fastforce split: prod.split sum.split)

lemma keeps_cases [keeps_intros]:
  "(b \<Longrightarrow> keeps P m) \<Longrightarrow> (\<not> b \<Longrightarrow> keeps P m') \<Longrightarrow> keeps P (if b then m else m')"
  "(x = None \<Longrightarrow> keeps P m) \<Longrightarrow> (\<And>y. x = Some y \<Longrightarrow> keeps P (f y)) \<Longrightarrow> keeps P (case x of None \<Rightarrow> m | Some y \<Rightarrow> f y)"
  "(\<And>a b. p = (a, b) \<Longrightarrow> keeps P (g a b)) \<Longrightarrow> keeps P (case p of (a, b) \<Rightarrow> g a b)"
  "(\<And>e. r = Inl e \<Longrightarrow> keeps P (h e)) \<Longrightarrow> (\<And>y. r = Inr y \<Longrightarrow> keeps P (k y)) \<Longrightarrow>
   keeps P (case r of Inl e \<Rightarrow> h e | Inr y \<Rightarrow> k y)"
  by (simp_all split: option.split prod.split sum.split)

text \<open>Two-state claims: from \<open>P\<close>, whatever the outcome, to \<open>Q\<close>.\<close>

definition leads :: "('s \<Rightarrow> bool) \<Rightarrow> ('s \<Rightarrow> bool) \<Rightarrow> ('s, 'a) handler \<Rightarrow> bool" where
  "leads P Q m \<longleftrightarrow> (\<forall>s. P s \<longrightarrow> Q (snd (m s)))"

lemma leadsD: "leads P Q m \<Longrightarrow> P s \<Longrightarrow> Q (snd (m s))"
  by (simp add: leads_def)

lemma leads_keeps: "keeps P m \<Longrightarrow> (\<And>s. P s \<Longrightarrow> Q s) \<Longrightarrow> leads P Q m"
  by (simp add: leads_def keeps_def)

lemma leads_andThen:
  "keeps P m \<Longrightarrow> (\<And>x. leads P Q (f x)) \<Longrightarrow> (\<And>s. P s \<Longrightarrow> Q s) \<Longrightarrow> leads P Q (andThen m f)"
  unfolding keeps_def leads_def andThen_def by (fastforce split: prod.split sum.split)

lemma leads_then_keeps: "leads P Q m \<Longrightarrow> (\<And>x. keeps Q (f x)) \<Longrightarrow> leads P Q (andThen m f)"
  unfolding keeps_def leads_def andThen_def by (fastforce split: prod.split sum.split)

lemma leads_catch:
  "keeps P m \<Longrightarrow> (\<And>e. leads P Q (h e)) \<Longrightarrow> (\<And>s. P s \<Longrightarrow> Q s) \<Longrightarrow> leads P Q (catch m h)"
  unfolding keeps_def leads_def catch_def by (fastforce split: prod.split sum.split)

lemma leads_base: "(\<And>s. P s \<Longrightarrow> Q s) \<Longrightarrow> leads P Q (raise e)" "(\<And>s. P s \<Longrightarrow> Q s) \<Longrightarrow> leads P Q (ret x)"
  by (simp_all add: leads_def raise_def ret_def)

lemma leads_cases:
  "(b \<Longrightarrow> leads P Q m) \<Longrightarrow> (\<not> b \<Longrightarrow> leads P Q m') \<Longrightarrow> leads P Q (if b then m else m')"
  "(x = None \<Longrightarrow> leads P Q m) \<Longrightarrow> (\<And>y. x = Some y \<Longrightarrow> leads P Q (f y)) \<Longrightarrow>
   leads P Q (case x of None \<Rightarrow> m | Some y \<Rightarrow> f y)"
  by (simp_all split: option.split)

text \<open>Success keeps \<open>P\<close>, an exception may leave \<open>Q\<close>; and legs that always raise.\<close>

definition keeps_or :: "('s \<Rightarrow> bool) \<Rightarrow> ('s \<Rightarrow> bool) \<Rightarrow> ('s, 'a) handler \<Rightarrow> bool" where
  "keeps_or P Q m \<longleftrightarrow> (\<forall>s. P s \<longrightarrow> (case m s of (Inl _, s') \<Rightarrow> Q s' | (Inr _, s') \<Rightarrow> P s'))"

definition raises :: "('s, 'a) handler \<Rightarrow> bool" where
  "raises m \<longleftrightarrow> (\<forall>s. \<exists>e. fst (m s) = Inl e)"

lemma raises_intros: "raises (raise e)" "(\<And>x. raises (f x)) \<Longrightarrow> raises (andThen m f)"
    "(b \<Longrightarrow> raises m) \<Longrightarrow> (\<not> b \<Longrightarrow> raises m') \<Longrightarrow> raises (if b then m else m')"
  by (auto simp: raises_def raise_def andThen_def split: prod.split sum.split)

lemma leads_keeps_or: "keeps_or P Q m \<Longrightarrow> (\<And>x. leads P Q (f x)) \<Longrightarrow> leads P Q (andThen m f)"
  unfolding keeps_or_def leads_def andThen_def by (fastforce split: prod.splits sum.splits)

lemma keeps_or_catch:
  assumes "keeps P m" "\<And>e. leads P Q (h e)" "\<And>e. raises (h e)"
  shows "keeps_or P Q (catch m h)"
  unfolding keeps_or_def
proof (intro allI impI)
  fix s assume P: "P s"
  obtain r s' where ms: "m s = (r, s')" by (cases "m s")
  have P': "P s'" using keeps_eqD [OF assms(1) ms P] .
  show "case catch m h s of (Inl _, s') \<Rightarrow> Q s' | (Inr _, s') \<Rightarrow> P s'"
  proof (cases r)
    case (Inl e)
    obtain e' where "fst (h e s') = Inl e'" using assms(3) unfolding raises_def by blast
    then show ?thesis using leadsD [OF assms(2) P', of e] Inl ms
      by (simp add: catch_def case_prod_beta)
  qed (use P' ms in \<open>simp add: catch_def\<close>)
qed

section \<open>The tenant contract\<close>

text \<open>
  Over a state of which only \<open>get\<close>/\<open>put\<close>'s database is shared between tenants: the handler
  computes on the caller's slice and leaves every other slice alone, in states satisfying \<open>P\<close>.
\<close>

definition tenant_local ::
  "(db \<Rightarrow> 's \<Rightarrow> 's) \<Rightarrow> ('s \<Rightarrow> db) \<Rightarrow> ('s \<Rightarrow> bool) \<Rightarrow> uuid \<Rightarrow> ('s, 'a) handler \<Rightarrow> bool" where
  "tenant_local put get P u m \<longleftrightarrow>
     (\<forall>s. P s \<longrightarrow> P (snd (m s)) \<and>
        m (put (tenant_view u (get s)) s) =
          map_prod id (\<lambda>s'. put (tenant_view u (get s')) s') (m s) \<and>
        (\<forall>w. u \<noteq> w \<longrightarrow> tenant_view w (get (snd (m s))) = tenant_view w (get s)))"

lemma tenant_localD:
  assumes "tenant_local put get P u m" "P s"
  shows "P (snd (m s))"
    and "m (put (tenant_view u (get s)) s) = map_prod id (\<lambda>s'. put (tenant_view u (get s')) s') (m s)"
    and "u \<noteq> w \<Longrightarrow> tenant_view w (get (snd (m s))) = tenant_view w (get s)"
  using assms by (auto simp: tenant_local_def)

lemma tenant_local_base [keeps_intros]:
  "tenant_local put get P u (ret x)" "tenant_local put get P u (raise e)"
  "tenant_local put get P u (of_result r)"
  by (simp_all add: tenant_local_def ret_def raise_def of_result_def)

lemma tenant_local_andThen [keeps_intros]:
  assumes m: "tenant_local put get P u m" and f: "\<And>x. tenant_local put get P u (f x)"
  shows "tenant_local put get P u (andThen m f)"
  unfolding tenant_local_def
proof (intro allI impI)
  fix s assume P: "P s"
  obtain r s' where ms: "m s = (r, s')" by (cases "m s")
  note m' = tenant_localD [OF m P, unfolded ms, simplified]
  show "P (snd (andThen m f s)) \<and>
        andThen m f (put (tenant_view u (get s)) s) =
          map_prod id (\<lambda>s'. put (tenant_view u (get s')) s') (andThen m f s) \<and>
        (\<forall>w. u \<noteq> w \<longrightarrow> tenant_view w (get (snd (andThen m f s))) = tenant_view w (get s))"
  proof (cases r)
    case (Inl e)
    then show ?thesis using m' by (simp add: andThen_def ms)
  next
    case (Inr x)
    then show ?thesis using m' tenant_localD [OF f m'(1)] by (simp add: andThen_def ms)
  qed
qed

lemma tenant_local_catch [keeps_intros]:
  assumes m: "tenant_local put get P u m" and h: "\<And>e. tenant_local put get P u (h e)"
  shows "tenant_local put get P u (catch m h)"
  unfolding tenant_local_def
proof (intro allI impI)
  fix s assume P: "P s"
  obtain r s' where ms: "m s = (r, s')" by (cases "m s")
  note m' = tenant_localD [OF m P, unfolded ms, simplified]
  show "P (snd (catch m h s)) \<and>
        catch m h (put (tenant_view u (get s)) s) =
          map_prod id (\<lambda>s'. put (tenant_view u (get s')) s') (catch m h s) \<and>
        (\<forall>w. u \<noteq> w \<longrightarrow> tenant_view w (get (snd (catch m h s))) = tenant_view w (get s))"
  proof (cases r)
    case (Inl e)
    then show ?thesis using m' tenant_localD [OF h m'(1)] by (simp add: catch_def ms)
  next
    case (Inr x)
    then show ?thesis using m' by (simp add: catch_def ms)
  qed
qed

lemma tenant_local_cases [keeps_intros]:
  "(b \<Longrightarrow> tenant_local put get P u m) \<Longrightarrow> (\<not> b \<Longrightarrow> tenant_local put get P u m') \<Longrightarrow>
   tenant_local put get P u (if b then m else m')"
  "(x = None \<Longrightarrow> tenant_local put get P u m) \<Longrightarrow> (\<And>y. x = Some y \<Longrightarrow> tenant_local put get P u (f y)) \<Longrightarrow>
   tenant_local put get P u (case x of None \<Rightarrow> m | Some y \<Rightarrow> f y)"
  "(\<And>a b. p = (a, b) \<Longrightarrow> tenant_local put get P u (g a b)) \<Longrightarrow>
   tenant_local put get P u (case p of (a, b) \<Rightarrow> g a b)"
  "(\<And>e. r = Inl e \<Longrightarrow> tenant_local put get P u (k e)) \<Longrightarrow> (\<And>y. r = Inr y \<Longrightarrow> tenant_local put get P u (l y)) \<Longrightarrow>
   tenant_local put get P u (case r of Inl e \<Rightarrow> k e | Inr y \<Rightarrow> l y)"
  by (simp_all split: option.split prod.split sum.split)

end
