(* ===== verification/Crypto_Vault.thy ===== *)
theory Crypto_Vault
  imports Py_Base
begin

text \<open>
  \<open>api/crypto_vault.py\<close>: the validate-on-use key loader and the nonce-prepended AES-256-GCM
  vault. AES-GCM itself is the parameter \<open>aesgcm\<close> (the \<open>cryptography\<close> package); its
  documented law is \<open>gcm_law\<close>. Byte strings are \<^typ>\<open>string\<close>.
\<close>

section \<open>Bytes and text\<close>

text \<open>\<open>s.encode("utf-8")\<close> for code points below 256.\<close>

definition utf8_char :: "char \<Rightarrow> string" where
  "utf8_char c = (let n = of_char c :: nat in
     if n < 128 then [c] else [char_of (192 + n div 64), char_of (128 + n mod 64)])"

definition utf8_encode :: "string \<Rightarrow> string" where
  "utf8_encode s = concat (map utf8_char s)"

text \<open>
  \<open>b.decode("utf-8")\<close>; bytes that are not the encoding of code points below 256 are refused
  with the \<open>UnicodeDecodeError\<close>'s base class.
\<close>

fun utf8_decode :: "string \<Rightarrow> string result" where
  "utf8_decode [] = Inr []"
| "utf8_decode (b # bs) =
     (if (of_char b :: nat) < 128 then map_sum id (Cons b) (utf8_decode bs)
      else case bs of
        [] \<Rightarrow> Inl ValueError
      | c # cs \<Rightarrow>
          (let m = of_char b :: nat; n = of_char c :: nat
           in if (m = 194 \<or> m = 195) \<and> 128 \<le> n \<and> n < 192
              then map_sum id (Cons (char_of ((m - 192) * 64 + (n - 128)))) (utf8_decode cs)
              else Inl ValueError))"

text \<open>\<open>bytes.fromhex(s)\<close>: pairs of hex digits, ASCII whitespace between pairs.\<close>

definition ascii_space :: "char \<Rightarrow> bool" where
  "ascii_space c = (let n = of_char c :: nat in (9 \<le> n \<and> n \<le> 13) \<or> n = 32)"

fun bytes_fromhex :: "string \<Rightarrow> string option" where
  "bytes_fromhex [] = Some []"
| "bytes_fromhex (c # cs) =
     (if ascii_space c then bytes_fromhex cs
      else case cs of
        [] \<Rightarrow> None
      | e # es \<Rightarrow>
          (case (digit_val 16 c, digit_val 16 e, bytes_fromhex es) of
             (Some h, Some l, Some bs) \<Rightarrow> Some (char_of (16 * h + l) # bs)
           | _ \<Rightarrow> None))"

lemma utf8_decode_encode [simp]: "utf8_decode (utf8_encode s) = Inr s"
proof (induction s)
  case (Cons c s)
  let ?n = "of_char c :: nat"
  have n256: "?n < 256" by simp
  show ?case
  proof (cases "?n < 128")
    case True
    then show ?thesis using Cons by (simp add: utf8_encode_def utf8_char_def Let_def)
  next
    case False
    define q r where "q = ?n div 64" and "r = ?n mod 64"
    have n: "?n = 64 * q + r" by (simp add: q_def r_def)
    have r: "r < 64" by (simp add: r_def)
    have q: "q = 2 \<or> q = 3" using False n256 n r by presburger
    have b: "of_char (char_of (192 + q) :: char) = (192 + q :: nat)"
      "of_char (char_of (128 + r) :: char) = (128 + r :: nat)"
      using q r by (auto simp: of_char_of)
    have "char_of (64 * q + r) = c" using n by (metis char_of_char)
    then show ?thesis using Cons False q r b n
      by (auto simp: utf8_encode_def utf8_char_def Let_def q_def [symmetric] r_def [symmetric])
  qed
qed (simp add: utf8_encode_def)

section \<open>The vault\<close>

definition NONCE_BYTES :: nat where "NONCE_BYTES = 12"
definition KEY_BYTES :: nat where "KEY_BYTES = 32"

text \<open>\<open>AESGCM(key).encrypt(nonce, data, None)\<close> and \<open>.decrypt\<close> (\<open>InvalidTag\<close> on a bad blob).\<close>

record aesgcm =
  aes_encrypt :: "string \<Rightarrow> string \<Rightarrow> string \<Rightarrow> string"
  aes_decrypt :: "string \<Rightarrow> string \<Rightarrow> string \<Rightarrow> string result"

record vault =
  token_enc_key :: string
  gcm :: aesgcm

definition load_key :: "vault \<Rightarrow> string result" where
  "load_key v =
     (let raw = token_enc_key v
      in if raw = [] then Inl OAuthUnconfiguredError
         else case bytes_fromhex raw of
           None \<Rightarrow> Inl OAuthUnconfiguredError
         | Some key \<Rightarrow> if length key \<noteq> KEY_BYTES then Inl OAuthUnconfiguredError else Inr key)"

definition ensure_configured :: "vault \<Rightarrow> unit result" where
  "ensure_configured v = (case load_key v of Inl e \<Rightarrow> Inl e | Inr _ \<Rightarrow> Inr ())"

text \<open>\<open>nonce\<close> is what \<open>os.urandom(12)\<close> drew.\<close>

definition encrypt :: "vault \<Rightarrow> string \<Rightarrow> string \<Rightarrow> string result" where
  "encrypt v nonce plaintext =
     (case load_key v of
        Inl e \<Rightarrow> Inl e
      | Inr key \<Rightarrow> Inr (nonce @ aes_encrypt (gcm v) key nonce (utf8_encode plaintext)))"

definition decrypt :: "vault \<Rightarrow> string \<Rightarrow> string result" where
  "decrypt v blob =
     (let nonce = take NONCE_BYTES blob; ct = drop NONCE_BYTES blob
      in case load_key v of
           Inl e \<Rightarrow> Inl e
         | Inr key \<Rightarrow>
             (case aes_decrypt (gcm v) key nonce ct of
                Inl e \<Rightarrow> Inl e
              | Inr bs \<Rightarrow> utf8_decode bs))"

text \<open>The law of the package: decryption under the same key and nonce inverts encryption.\<close>

definition gcm_law :: "aesgcm \<Rightarrow> bool" where
  "gcm_law g \<longleftrightarrow> (\<forall>key nonce pt. aes_decrypt g key nonce (aes_encrypt g key nonce pt) = Inr pt)"

text \<open>A ciphertext this key wrote reads back, whatever the text and the nonce.\<close>

lemma decrypt_encrypt:
  assumes "gcm_law (gcm v)" "length nonce = NONCE_BYTES" "encrypt v nonce plaintext = Inr blob"
  shows "decrypt v blob = Inr plaintext"
  using assms by (auto simp: encrypt_def decrypt_def gcm_law_def Let_def split: sum.splits)

lemma encrypt_ok: "load_key v = Inr key \<Longrightarrow> \<exists>blob. encrypt v nonce t = Inr blob"
  by (simp add: encrypt_def)

lemma vault_unconfigured:
  "load_key v = Inl e \<Longrightarrow> e = OAuthUnconfiguredError \<and> encrypt v n t = Inl e \<and> decrypt v b = Inl e"
  by (auto simp: load_key_def encrypt_def decrypt_def Let_def split: if_splits option.splits)

end
