(* ===== verification/Drive_Client.thy ===== *)
theory Drive_Client
  imports Handler_Monad Crypto_Vault
begin

text \<open>
  \<open>api/drive_client.py\<close>: the access-token provider (cache, else refresh and persist) and the
  Drive calls, as handlers over the database and the list of HTTP requests sent so far. Google's
  servers are the parameter \<open>send\<close>: the reply to a request, given the requests that preceded it
  in the same run (so two identical requests may be answered differently). An
  \<open>httpx.HTTPError\<close> is \<open>HttpError\<close>; a reply carries its status, what \<open>resp.json()\<close> yields
  (\<open>None\<close> where it raises \<open>ValueError\<close>) and its text. Timestamps count microseconds since the
  Unix epoch.
\<close>

section \<open>HTTP\<close>

datatype http_method = GET | POST | DELETE

record http_request =
  rq_method :: http_method
  rq_url :: string
  rq_params :: "(string \<times> string) list"
  rq_headers :: "(string \<times> string) list"
  rq_data :: "(string \<times> string) list"
  rq_content :: string

datatype http_reply = HttpError | HttpReply (status_code: int) (json_body: "json option") (reply_text: string)

text \<open>
  The surroundings of one handler run: Google's replies, the clock (its n-th reading), the
  configured client, the vault and the randomness drawn; and the state it threads.
\<close>

record google_env =
  send :: "http_request list \<Rightarrow> http_request \<Rightarrow> http_reply"
  clock :: "nat \<Rightarrow> timestamp"
  google_client_id :: string
  google_client_secret :: string
  token_vault :: vault
  urandom :: string
  uuid4_hex :: string
  py_repr :: "json \<Rightarrow> string"

record run =
  r_db :: db
  r_log :: "http_request list"

definition exchange :: "google_env \<Rightarrow> http_request \<Rightarrow> (run, http_reply) handler" where
  "exchange env req = (\<lambda>s. (Inr (send env (r_log s) req), s\<lparr>r_log := r_log s @ [req]\<rparr>))"

text \<open>A read, and a transaction that commits on success and writes nothing on failure.\<close>

definition query :: "(db \<Rightarrow> 'a result) \<Rightarrow> (run, 'a) handler" where
  "query f = (\<lambda>s. (f (r_db s), s))"

definition transact :: "(db \<Rightarrow> 'a result \<times> db) \<Rightarrow> (run, 'a) handler" where
  "transact f = (\<lambda>s. case f (r_db s) of
     (Inl e, _) \<Rightarrow> (Inl e, s) | (Inr x, d) \<Rightarrow> (Inr x, s\<lparr>r_db := d\<rparr>))"

definition GOOGLE_TOKEN_URL :: string where
  "GOOGLE_TOKEN_URL = ''https://oauth2.googleapis.com/token''"

definition DRIVE_FILES_URL :: string where
  "DRIVE_FILES_URL = ''https://www.googleapis.com/drive/v3/files''"

definition DRIVE_UPLOAD_URL :: string where
  "DRIVE_UPLOAD_URL = ''https://www.googleapis.com/upload/drive/v3/files''"

definition GOOGLE_DOC_MIME :: string where
  "GOOGLE_DOC_MIME = ''application/vnd.google-apps.document''"

definition DRIVE_DOCX_MIME :: string where
  "DRIVE_DOCX_MIME = ''application/vnd.openxmlformats-officedocument.wordprocessingml.document''"

definition HTTP_OK :: int where "HTTP_OK = 200"
definition EXPIRY_SKEW_SECONDS :: int where "EXPIRY_SKEW_SECONDS = 60"

text \<open>\<open>body.get(key)\<close> of a decoded JSON body: only a dict has the method.\<close>

fun json_get :: "json \<Rightarrow> string \<Rightarrow> json option result" where
  "json_get (JObj kvs) k = Inr (map_of kvs k)"
| "json_get _ k = Inl AttributeError"

text \<open>\<open>resp.json().get(key)\<close>.\<close>

definition reply_get :: "json option \<Rightarrow> string \<Rightarrow> json option result" where
  "reply_get body k = (case body of None \<Rightarrow> Inl ValueError | Some j \<Rightarrow> json_get j k)"

text \<open>\<open>isinstance(v, str) and v\<close>.\<close>

fun nonempty_str :: "json option \<Rightarrow> string option" where
  "nonempty_str (Some (JStr s)) = (if s = [] then None else Some s)"
| "nonempty_str _ = None"

text \<open>\<open>t + timedelta(seconds=n)\<close> within the years 1 to 9999.\<close>

definition add_seconds :: "timestamp \<Rightarrow> int \<Rightarrow> timestamp result" where
  "add_seconds t n = (let r = t + n * 1000000
     in if -62135596800000000 \<le> r \<and> r \<le> 253402300799999999 then Inr r else Inl OverflowError)"

text \<open>\<open>isinstance(v, int)\<close>, of which \<open>bool\<close> is a subclass.\<close>

fun as_int :: "json option \<Rightarrow> int option" where
  "as_int (Some (JInt i)) = Some i"
| "as_int (Some (JBool b)) = Some (if b then 1 else 0)"
| "as_int _ = None"

section \<open>The access token\<close>

definition access_token_valid :: "timestamp \<Rightarrow> oauth_connection \<Rightarrow> bool" where
  "access_token_valid now c =
     (case (oc_access_token_ciphertext c, oc_token_expiry c) of
        (Some _, Some expiry) \<Rightarrow> now + EXPIRY_SKEW_SECONDS * 1000000 < expiry
      | _ \<Rightarrow> False)"

definition persist_access_token_stmt ::
  "uuid \<Rightarrow> uuid \<Rightarrow> string \<Rightarrow> timestamp \<Rightarrow> timestamp \<Rightarrow> db \<Rightarrow> db" where
  "persist_access_token_stmt connection_id u ciphertext expiry now d =
     d\<lparr>oauth_connections := update_where (\<lambda>r. oc_id r = connection_id \<and> oc_user_id r = u)
        (\<lambda>r. r\<lparr>oc_access_token_ciphertext := Some ciphertext, oc_token_expiry := Some expiry,
               oc_updated_at := now\<rparr>) (oauth_connections d)\<rparr>"

definition require_google_configured :: "google_env \<Rightarrow> (string \<times> string) result" where
  "require_google_configured env =
     (if google_client_id env = [] then Inl OAuthUnconfiguredError
      else if google_client_secret env = [] then Inl OAuthUnconfiguredError
      else Inr (google_client_id env, google_client_secret env))"

text \<open>The refresh POST and its verdict: the new token and its lifetime in seconds.\<close>

definition refresh_request :: "string \<Rightarrow> string \<Rightarrow> string \<Rightarrow> http_request" where
  "refresh_request refresh_token client_id client_secret =
     \<lparr>rq_method = POST, rq_url = GOOGLE_TOKEN_URL, rq_params = [], rq_headers = [],
      rq_data = [(''grant_type'', ''refresh_token''), (''refresh_token'', refresh_token),
                 (''client_id'', client_id), (''client_secret'', client_secret)], rq_content = []\<rparr>"

text \<open>
  A rejection: \<open>invalid_grant\<close> asks for a reconnect. A body that is not JSON counts as a plain
  failure; a JSON body that is not an object has no \<open>get\<close>.
\<close>

definition refresh_rejected :: "json option \<Rightarrow> py_exn" where
  "refresh_rejected body =
     (case reply_get body ''error'' of
        Inl e \<Rightarrow> if e = ValueError then DriveError else e
      | Inr v \<Rightarrow> if v = Some (JStr ''invalid_grant'') then DriveAuthError else DriveError)"

definition refresh_token_grant :: "http_reply \<Rightarrow> (string \<times> int) result" where
  "refresh_token_grant resp =
     (case resp of
        HttpError \<Rightarrow> Inl DriveError
      | HttpReply code body _ \<Rightarrow>
          if code \<noteq> HTTP_OK then Inl (refresh_rejected body)
          else (case (reply_get body ''access_token'', reply_get body ''expires_in'') of
                  (Inr token, Inr expires_in) \<Rightarrow>
                    (case nonempty_str token of
                       None \<Rightarrow> Inl DriveError
                     | Some t \<Rightarrow> Inr (t, case as_int expires_in of Some n \<Rightarrow> n | None \<Rightarrow> 0))
                | (Inl e, _) \<Rightarrow> Inl e
                | (_, Inl e) \<Rightarrow> Inl e))"

text \<open>From the grant to the commit.\<close>

definition store_access_token ::
  "google_env \<Rightarrow> oauth_connection \<Rightarrow> string \<Rightarrow> int \<Rightarrow> timestamp \<Rightarrow> (run, string) handler" where
  "store_access_token env c access_token expires_in now =
     andThen (of_result (add_seconds (clock env 1) expires_in)) (\<lambda>token_expiry.
     andThen (of_result (encrypt (token_vault env) (urandom env) access_token)) (\<lambda>ciphertext.
     transact (\<lambda>d. (Inr access_token,
       persist_access_token_stmt (oc_id c) (oc_user_id c) ciphertext token_expiry now d))))"

definition get_access_token ::
  "google_env \<Rightarrow> oauth_connection \<Rightarrow> timestamp \<Rightarrow> (run, string) handler" where
  "get_access_token env c now =
     (if access_token_valid (clock env 0) c
      then of_result (decrypt (token_vault env) (the (oc_access_token_ciphertext c)))
      else
        andThen (of_result (require_google_configured env)) (\<lambda>(client_id, client_secret).
        andThen (of_result (decrypt (token_vault env) (oc_refresh_token_ciphertext c))) (\<lambda>refresh_token.
        andThen (exchange env (refresh_request refresh_token client_id client_secret)) (\<lambda>resp.
        andThen (of_result (refresh_token_grant resp)) (\<lambda>(access_token, expires_in).
        store_access_token env c access_token expires_in now)))))"

section \<open>Addresses and bodies\<close>

definition auth_headers :: "string \<Rightarrow> (string \<times> string) list" where
  "auth_headers access_token = [(''Authorization'', ''Bearer '' @ access_token)]"

text \<open>\<open>urllib.parse.quote(s, safe="")\<close>.\<close>

definition unreserved :: "char \<Rightarrow> bool" where
  "unreserved c = (let n = of_char c :: nat in
     (48 \<le> n \<and> n \<le> 57) \<or> (65 \<le> n \<and> n \<le> 90) \<or> (97 \<le> n \<and> n \<le> 122) \<or> c \<in> set ''_.-~'')"

definition hex_upper :: "nat \<Rightarrow> char" where
  "hex_upper k = char_of (if k < 10 then 48 + k else 55 + k)"

definition quote_byte :: "char \<Rightarrow> string" where
  "quote_byte c = (let n = of_char c :: nat
     in if unreserved c then [c] else [CHR ''%'', hex_upper (n div 16), hex_upper (n mod 16)])"

definition url_quote :: "string \<Rightarrow> string" where
  "url_quote s = concat (map quote_byte (utf8_encode s))"

definition file_path :: "string \<Rightarrow> string" where
  "file_path file_id = DRIVE_FILES_URL @ ''/'' @ url_quote file_id"

text \<open>\<open>json.dumps\<close> with its default \<open>ensure_ascii\<close>: also DEL and above are escaped.\<close>

definition esc_ascii :: "char \<Rightarrow> string" where
  "esc_ascii c = (let n = of_char c :: nat
     in if 127 \<le> n then [CHR 0x5C, CHR ''u''] @ map digit_char (hex_digits 4 n) else esc_char c)"

definition json_ascii :: "string \<Rightarrow> string" where
  "json_ascii s = [CHR 0x22] @ concat (map esc_ascii s) @ [CHR 0x22]"

definition crlf :: string where "crlf = [CHR 0x0D, CHR 0x0A]"

definition build_related_multipart :: "google_env \<Rightarrow> string \<Rightarrow> string \<Rightarrow> string \<times> string" where
  "build_related_multipart env name docx_bytes =
     (let boundary = ''sermonguide-'' @ uuid4_hex env;
          metadata = ''{'' @ json_ascii ''name'' @ '': '' @ json_ascii name @ '', '' @
             json_ascii ''mimeType'' @ '': '' @ json_ascii GOOGLE_DOC_MIME @ ''}'';
          pieces = [''--'' @ boundary, ''Content-Type: application/json; charset=UTF-8'', [],
             metadata, ''--'' @ boundary, ''Content-Type: '' @ DRIVE_DOCX_MIME, []];
          body = join crlf pieces @ crlf @ docx_bytes @ crlf @ (''--'' @ boundary @ ''--'') @ crlf
      in (body, ''multipart/related; boundary='' @ boundary))"

section \<open>Drive calls\<close>

definition get_request :: "string \<Rightarrow> string \<Rightarrow> (string \<times> string) list \<Rightarrow> http_request" where
  "get_request access_token url params =
     \<lparr>rq_method = GET, rq_url = url, rq_params = params, rq_headers = auth_headers access_token,
      rq_data = [], rq_content = []\<rparr>"

definition upload_request :: "google_env \<Rightarrow> string \<Rightarrow> string \<Rightarrow> string \<Rightarrow> http_request" where
  "upload_request env access_token name docx_bytes =
     (let (body, content_type) = build_related_multipart env name docx_bytes
      in \<lparr>rq_method = POST, rq_url = DRIVE_UPLOAD_URL,
          rq_params = [(''uploadType'', ''multipart'')],
          rq_headers = auth_headers access_token @ [(''Content-Type'', content_type)],
          rq_data = [], rq_content = body\<rparr>)"

definition uploaded_id :: "http_reply \<Rightarrow> string result" where
  "uploaded_id resp =
     (case resp of
        HttpError \<Rightarrow> Inl DriveError
      | HttpReply code body _ \<Rightarrow>
          if code \<noteq> HTTP_OK then Inl DriveError
          else (case reply_get body ''id'' of
                  Inl e \<Rightarrow> Inl e
                | Inr v \<Rightarrow> (case nonempty_str v of None \<Rightarrow> Inl DriveError | Some i \<Rightarrow> Inr i)))"

definition upload_with_conversion ::
  "google_env \<Rightarrow> string \<Rightarrow> string \<Rightarrow> string \<Rightarrow> (run, string) handler" where
  "upload_with_conversion env access_token name docx_bytes =
     andThen (exchange env (upload_request env access_token name docx_bytes))
       (\<lambda>resp. of_result (uploaded_id resp))"

definition metadata_body :: "http_reply \<Rightarrow> json result" where
  "metadata_body resp =
     (case resp of
        HttpError \<Rightarrow> Inl DriveError
      | HttpReply code body _ \<Rightarrow>
          if code \<noteq> HTTP_OK then Inl DriveError
          else (case body of
                  None \<Rightarrow> Inl ValueError
                | Some (JObj kvs) \<Rightarrow> Inr (JObj kvs)
                | Some _ \<Rightarrow> Inl DriveError))"

definition files_get :: "google_env \<Rightarrow> string \<Rightarrow> string \<Rightarrow> string \<Rightarrow> (run, json) handler" where
  "files_get env access_token file_id field_names =
     andThen (exchange env (get_request access_token (file_path file_id) [(''fields'', field_names)]))
       (\<lambda>resp. of_result (metadata_body resp))"

definition get_web_view_link :: "google_env \<Rightarrow> string \<Rightarrow> string \<Rightarrow> (run, string) handler" where
  "get_web_view_link env access_token file_id =
     andThen (files_get env access_token file_id ''webViewLink'') (\<lambda>body.
     andThen (of_result (json_get body ''webViewLink'')) (\<lambda>v.
     case nonempty_str v of None \<Rightarrow> raise DriveError | Some url \<Rightarrow> ret url))"

text \<open>\<open>str(v)\<close> of a decoded value; the printing of floats and containers is a parameter.\<close>

fun py_str :: "google_env \<Rightarrow> json \<Rightarrow> string" where
  "py_str env (JStr s) = s"
| "py_str env (JInt i) = int_str i"
| "py_str env (JBool b) = (if b then ''True'' else ''False'')"
| "py_str env JNull = ''None''"
| "py_str env v = py_repr env v"

definition get_version :: "google_env \<Rightarrow> string \<Rightarrow> string \<Rightarrow> (run, string) handler" where
  "get_version env access_token file_id =
     andThen (files_get env access_token file_id ''version,modifiedTime'') (\<lambda>body.
     andThen (of_result (json_get body ''version'')) (\<lambda>v.
     case v of
       None \<Rightarrow> raise DriveError
     | Some version \<Rightarrow> if version = JNull then raise DriveError else ret (py_str env version)))"

definition exported_text :: "http_reply \<Rightarrow> string result" where
  "exported_text resp =
     (case resp of
        HttpError \<Rightarrow> Inl DriveError
      | HttpReply code _ text \<Rightarrow> if code \<noteq> HTTP_OK then Inl DriveError else Inr text)"

definition export_markdown :: "google_env \<Rightarrow> string \<Rightarrow> string \<Rightarrow> (run, string) handler" where
  "export_markdown env access_token file_id =
     andThen (exchange env (get_request access_token (file_path file_id @ ''/export'')
                              [(''mimeType'', ''text/markdown'')]))
       (\<lambda>resp. of_result (exported_text resp))"

text \<open>Best effort: the request is sent, no answer is an error.\<close>

definition delete_file :: "google_env \<Rightarrow> string \<Rightarrow> string \<Rightarrow> (run, unit) handler" where
  "delete_file env access_token file_id =
     andThen (exchange env ((get_request access_token (file_path file_id) [])\<lparr>rq_method := DELETE\<rparr>))
       (\<lambda>resp. case resp of HttpError \<Rightarrow> ret () | HttpReply _ _ _ \<Rightarrow> ret ())"

section \<open>What the steps leave alone\<close>

lemma keeps_query [keeps_intros]: "keeps P (query f)"
  by (simp add: keeps_def query_def)

lemma keeps_exchange: "(\<And>s r. P s \<Longrightarrow> P (s\<lparr>r_log := r\<rparr>)) \<Longrightarrow> keeps P (exchange env req)"
  by (simp add: keeps_def exchange_def)

lemma keeps_transact:
  "(\<And>s x d. P s \<Longrightarrow> f (r_db s) = (Inr x, d) \<Longrightarrow> P (s\<lparr>r_db := d\<rparr>)) \<Longrightarrow> keeps P (transact f)"
  by (auto simp: keeps_def transact_def split: prod.split sum.split)

text \<open>A property of the links table and nothing else.\<close>

lemma keeps_exchange_db [keeps_intros]: "keeps (\<lambda>s. P (r_db s)) (exchange env req)"
  by (rule keeps_exchange) simp

section \<open>Where the requests go\<close>

text \<open>
  The only addresses: Google's token endpoint, the upload endpoint, and \<open>files/{segment}\<close> with
  an optional \<open>/export\<close>, where the segment has no character that could end it.
\<close>

definition segment_safe :: "string \<Rightarrow> bool" where
  "segment_safe s \<longleftrightarrow> list_all (\<lambda>c. unreserved c \<or> c = CHR ''%'') s"

definition fixed_endpoint :: "(string \<Rightarrow> bool) \<Rightarrow> http_request \<Rightarrow> bool" where
  "fixed_endpoint ok_id r \<longleftrightarrow>
     rq_url r = GOOGLE_TOKEN_URL \<or> rq_url r = DRIVE_UPLOAD_URL \<or>
     (\<exists>i. ok_id i \<and> segment_safe (url_quote i) \<and>
        (rq_url r = DRIVE_FILES_URL @ ''/'' @ url_quote i \<or>
         rq_url r = DRIVE_FILES_URL @ ''/'' @ url_quote i @ ''/export''))"

lemma unreserved_hex: "k < 16 \<Longrightarrow> unreserved (hex_upper k)"
  by (auto simp: unreserved_def hex_upper_def Let_def of_char_of)

lemma segment_safe_quote: "segment_safe (url_quote s)"
proof -
  have "list_all (\<lambda>c. unreserved c \<or> c = CHR ''%'') (quote_byte b)" for b
  proof -
    have "(of_char b :: nat) < 256" by simp
    then have "(of_char b :: nat) div 16 < 16" "(of_char b :: nat) mod 16 < 16" by presburger+
    then show ?thesis by (simp add: quote_byte_def Let_def unreserved_hex)
  qed
  then show ?thesis by (auto simp: segment_safe_def url_quote_def list_all_iff)
qed

lemma segment_safe_no_separator:
  assumes "segment_safe s" "c \<in> set s"
  shows "c \<notin> set ''/?#:@&=''"
  using assms by (auto simp: segment_safe_def list_all_iff unreserved_def)

end
