(* ===== verification/Editor_Links.thy ===== *)
theory Editor_Links
  imports Drive_Client Documents_Correct
begin

text \<open>
  \<open>api/editor_links.py\<close>: linking a document to a native Google Doc, asking whether the Doc
  changed, pulling it back, and unlinking. Every route is a handler over the database and the
  requests sent to Google (\<open>Drive_Client\<close>); each database transaction is one \<open>transact\<close>.
  The docx and markdown conversions are parameters.
\<close>

section \<open>Constants and models\<close>

definition PROVIDER_GOOGLE :: string where "PROVIDER_GOOGLE = ''google''"
definition STATE_LINKED :: string where "STATE_LINKED = ''linked''"
definition STATE_ERROR :: string where "STATE_ERROR = ''error''"
definition STATE_UNLINKED :: string where "STATE_UNLINKED = ''unlinked''"

lemma state_names [simp]:
  "STATE_LINKED \<noteq> STATE_ERROR" "STATE_LINKED \<noteq> STATE_UNLINKED" "STATE_ERROR \<noteq> STATE_UNLINKED"
  "STATE_ERROR \<noteq> STATE_LINKED" "STATE_UNLINKED \<noteq> STATE_LINKED" "STATE_UNLINKED \<noteq> STATE_ERROR"
  by (simp_all add: STATE_LINKED_def STATE_ERROR_def STATE_UNLINKED_def)

record unlink_request =
  ur_mode :: string
  ur_extra :: "string list"

record editor_link_response =
  er_state :: string
  er_web_url :: string
  er_last_remote_version :: "string option"

record editor_link_status =
  es_state :: string
  es_web_url :: string
  es_remote_changed :: bool
  es_provider_account_email :: string

definition validate_unlink_request :: "unlink_request \<Rightarrow> bool" where
  "validate_unlink_request p \<longleftrightarrow> ur_extra p = [] \<and> ur_mode p \<in> {''pull-final'', ''keep-app''}"

text \<open>
  \<open>expired_read\<close> is what SQLAlchemy raises when an attribute of an instance that a
  \<open>session.rollback()\<close> expired is read in an async session (\<open>None\<close>: nothing, the value is
  still there).
\<close>

record link_env =
  google :: google_env
  to_docx :: "json \<Rightarrow> string result"
  from_markdown :: "string \<Rightarrow> json result"
  expired_read :: "py_exn option"

section \<open>Statements\<close>

definition connection_stmt :: "uuid \<Rightarrow> string \<Rightarrow> db \<Rightarrow> oauth_connection list" where
  "connection_stmt u provider d =
     select_where (\<lambda>r. oc_user_id r = u \<and> oc_provider r = provider) (oauth_connections d)"

definition linked_row_stmt :: "uuid \<Rightarrow> uuid \<Rightarrow> db \<Rightarrow> editor_link list" where
  "linked_row_stmt i u d =
     select_where (\<lambda>l. el_document_id l = i \<and> el_user_id l = u \<and> el_state l = STATE_LINKED) (editor_links d)"

text \<open>The insert and the partial unique index on \<open>(document_id) WHERE state = 'linked'\<close>.\<close>

definition link_insert_stmt ::
  "uuid \<Rightarrow> uuid \<Rightarrow> string \<Rightarrow> string \<Rightarrow> string \<Rightarrow> string \<Rightarrow> uuid \<Rightarrow> timestamp \<Rightarrow> db \<Rightarrow> uuid result \<times> db" where
  "link_insert_stmt i u provider file_id web_url version new_id now d =
     (if select_where (\<lambda>l. el_document_id l = i \<and> el_state l = STATE_LINKED) (editor_links d) \<noteq> []
      then (Inl IntegrityError, d)
      else (Inr new_id, d\<lparr>editor_links := editor_links d @
        [\<lparr>el_id = new_id, el_document_id = i, el_user_id = u, el_provider = provider,
          el_provider_file_id = file_id, el_web_url = web_url, el_state = STATE_LINKED,
          el_last_remote_version = Some version, el_created_at = now, el_updated_at = now\<rparr>]\<rparr>))"

definition set_version_stmt :: "uuid \<Rightarrow> uuid \<Rightarrow> string \<Rightarrow> timestamp \<Rightarrow> db \<Rightarrow> db" where
  "set_version_stmt link_id u version now d =
     d\<lparr>editor_links := update_where (\<lambda>l. el_id l = link_id \<and> el_user_id l = u)
        (\<lambda>l. l\<lparr>el_last_remote_version := Some version, el_updated_at := now\<rparr>) (editor_links d)\<rparr>"

definition set_state_stmt :: "uuid \<Rightarrow> uuid \<Rightarrow> string \<Rightarrow> timestamp \<Rightarrow> db \<Rightarrow> db" where
  "set_state_stmt link_id u st now d =
     d\<lparr>editor_links := update_where (\<lambda>l. el_id l = link_id \<and> el_user_id l = u)
        (\<lambda>l. l\<lparr>el_state := st, el_updated_at := now\<rparr>) (editor_links d)\<rparr>"

section \<open>Shared helpers\<close>

definition already_linked :: py_exn where
  "already_linked = HTTPException 409 ''Document is already linked to an external editor.''"

definition reconnect_required :: py_exn where
  "reconnect_required = HTTPException 502 ''Google access expired; reconnect required.''"

definition require_google_connection :: "uuid \<Rightarrow> db \<Rightarrow> oauth_connection result" where
  "require_google_connection u d =
     (case scalar_one_or_none (connection_stmt u PROVIDER_GOOGLE d) of
        Inl e \<Rightarrow> Inl e
      | Inr None \<Rightarrow> Inl (HTTPException 409 ''Connect your Google account before linking to Google Docs.'')
      | Inr (Some c) \<Rightarrow> Inr c)"

definition require_no_link :: "document \<Rightarrow> uuid \<Rightarrow> db \<Rightarrow> unit result" where
  "require_no_link r u d =
     (case scalar_one_or_none (linked_row_stmt (doc_document_id r) u d) of
        Inl e \<Rightarrow> Inl e
      | Inr None \<Rightarrow> Inr ()
      | Inr (Some _) \<Rightarrow> Inl already_linked)"

definition require_linked_row :: "document \<Rightarrow> uuid \<Rightarrow> db \<Rightarrow> editor_link result" where
  "require_linked_row r u d =
     (case scalar_one_or_none (linked_row_stmt (doc_document_id r) u d) of
        Inl e \<Rightarrow> Inl e
      | Inr None \<Rightarrow> Inl doc_not_found
      | Inr (Some l) \<Rightarrow> Inr l)"

text \<open>\<open>except ConversionError\<close> around a conversion.\<close>

definition converted :: "string \<Rightarrow> 'a result \<Rightarrow> 'a result" where
  "converted detail r = (case r of
     Inl e \<Rightarrow> Inl (if e = ConversionError then HTTPException 502 detail else e) | Inr x \<Rightarrow> Inr x)"

text \<open>Steps 3 to 6 of the pull: snapshot, overwrite, cursor, one commit.\<close>

definition pull_commit ::
  "document \<Rightarrow> editor_link \<Rightarrow> json \<Rightarrow> string \<Rightarrow> uuid \<Rightarrow> uuid \<Rightarrow> timestamp \<Rightarrow> db \<Rightarrow> document result \<times> db" where
  "pull_commit r link content fresh_version u rev_id now d =
     (case snapshot_and_overwrite r content ''pull'' u rev_id now d of
        (Inl e, _) \<Rightarrow> (Inl e, d)
      | (Inr row, d') \<Rightarrow> (Inr row, set_version_stmt (el_id link) u fresh_version now d'))"

definition run_pull_overwrite ::
  "link_env \<Rightarrow> document \<Rightarrow> editor_link \<Rightarrow> string \<Rightarrow> uuid \<Rightarrow> uuid \<Rightarrow> timestamp \<Rightarrow> (run, document_response) handler" where
  "run_pull_overwrite env r link access_token u rev_id now =
     andThen (get_version (google env) access_token (el_provider_file_id link)) (\<lambda>fresh_version.
     andThen (export_markdown (google env) access_token (el_provider_file_id link)) (\<lambda>markdown.
     andThen (of_result (converted ''Document pull failed.'' (from_markdown env markdown))) (\<lambda>content.
     andThen (of_result (require_content_within_cap content)) (\<lambda>_.
     andThen (transact (pull_commit r link content fresh_version u rev_id now)) (\<lambda>row.
     of_result (doc_to_response row))))))"

text \<open>\<open>_set_state_stmt\<close> and its commit.\<close>

definition commit_state :: "editor_link \<Rightarrow> uuid \<Rightarrow> string \<Rightarrow> timestamp \<Rightarrow> (run, unit) handler" where
  "commit_state link u st now = transact (\<lambda>d. (Inr (), set_state_stmt (el_id link) u st now d))"

section \<open>Routes\<close>

text \<open>The \<open>INSERT\<close>, its commit and the \<open>except IntegrityError\<close>.\<close>

definition link_write ::
  "document \<Rightarrow> uuid \<Rightarrow> string \<Rightarrow> string \<Rightarrow> string \<Rightarrow> uuid \<Rightarrow> timestamp \<Rightarrow> (run, uuid) handler" where
  "link_write r u file_id web_url version new_id now =
     catch (transact (link_insert_stmt (doc_document_id r) u PROVIDER_GOOGLE file_id web_url version new_id now))
       (\<lambda>e. raise (if e = IntegrityError then already_linked else e))"

definition link_document ::
  "link_env \<Rightarrow> string \<Rightarrow> uuid \<Rightarrow> uuid \<Rightarrow> timestamp \<Rightarrow> (run, editor_link_response) handler" where
  "link_document env document_id u new_id now =
     andThen (query (require_owned_document document_id u)) (\<lambda>r.
     andThen (query (require_no_link r u)) (\<lambda>_.
     andThen (query (require_google_connection u)) (\<lambda>connection.
     andThen (of_result (converted ''Document export failed.'' (to_docx env (doc_content r)))) (\<lambda>docx_bytes.
     andThen (get_access_token (google env) connection now) (\<lambda>access_token.
     andThen (upload_with_conversion (google env) access_token (doc_title r) docx_bytes) (\<lambda>file_id.
     andThen (get_web_view_link (google env) access_token file_id) (\<lambda>web_url.
     andThen (get_version (google env) access_token file_id) (\<lambda>version.
     andThen (link_write r u file_id web_url version new_id now) (\<lambda>_.
     ret \<lparr>er_state = STATE_LINKED, er_web_url = web_url, er_last_remote_version = Some version\<rparr>)))))))))"

text \<open>The gates status, pull and unlink open with: owned document, live link, connection.\<close>

definition linked_target ::
  "string \<Rightarrow> uuid \<Rightarrow> db \<Rightarrow> (document \<times> editor_link \<times> oauth_connection) result" where
  "linked_target document_id u d =
     (case require_owned_document document_id u d of
        Inl e \<Rightarrow> Inl e
      | Inr r \<Rightarrow>
          (case require_linked_row r u d of
             Inl e \<Rightarrow> Inl e
           | Inr link \<Rightarrow>
               (case require_google_connection u d of
                  Inl e \<Rightarrow> Inl e
                | Inr connection \<Rightarrow> Inr (r, link, connection))))"

definition link_status ::
  "link_env \<Rightarrow> string \<Rightarrow> uuid \<Rightarrow> timestamp \<Rightarrow> (run, editor_link_status) handler" where
  "link_status env document_id u now =
     andThen (query (linked_target document_id u)) (\<lambda>(r, link, connection).
     let answer = (\<lambda>st changed. \<lparr>es_state = st, es_web_url = el_web_url link,
           es_remote_changed = changed,
           es_provider_account_email = oc_provider_account_email connection\<rparr>)
     in catch
          (andThen (get_access_token (google env) connection now) (\<lambda>access_token.
           andThen (get_version (google env) access_token (el_provider_file_id link)) (\<lambda>version.
           ret (answer (el_state link) (Some version \<noteq> el_last_remote_version link)))))
          (\<lambda>e. if e = DriveAuthError
                then andThen (commit_state link u STATE_ERROR now) (\<lambda>_. ret (answer STATE_ERROR False))
                else if e = DriveError then raise (HTTPException 502 ''Document link status failed.'')
                else raise e))"

text \<open>
  The \<open>except\<close> clauses: after the rollback, \<open>link.id\<close> is read from the expired instance.
\<close>

definition pull_failed ::
  "link_env \<Rightarrow> editor_link \<Rightarrow> uuid \<Rightarrow> timestamp \<Rightarrow> py_exn \<Rightarrow> (run, 'a) handler" where
  "pull_failed env link u now e =
     (if e = DriveAuthError
      then (case expired_read env of
              Some e' \<Rightarrow> raise e'
            | None \<Rightarrow> andThen (commit_state link u STATE_ERROR now) (\<lambda>_. raise reconnect_required))
      else if e = DriveError then raise (HTTPException 502 ''Document pull failed.'')
      else raise e)"

definition pull_document ::
  "link_env \<Rightarrow> string \<Rightarrow> uuid \<Rightarrow> uuid \<Rightarrow> timestamp \<Rightarrow> (run, document_response) handler" where
  "pull_document env document_id u rev_id now =
     andThen (query (linked_target document_id u)) (\<lambda>(r, link, connection).
     catch
       (andThen (get_access_token (google env) connection now) (\<lambda>access_token.
        run_pull_overwrite env r link access_token u rev_id now))
       (pull_failed env link u now))"

definition token_for_unlink ::
  "link_env \<Rightarrow> editor_link \<Rightarrow> oauth_connection \<Rightarrow> uuid \<Rightarrow> timestamp \<Rightarrow> (run, string) handler" where
  "token_for_unlink env link connection u now =
     catch (get_access_token (google env) connection now)
       (\<lambda>e. if e = DriveAuthError
             then andThen (commit_state link u STATE_ERROR now) (\<lambda>_. raise reconnect_required)
             else if e = DriveError then raise (HTTPException 502 ''Document unlink failed.'')
             else raise e)"

text \<open>The \<open>pull-final\<close> branch; the second version read has no handler around it.\<close>

definition final_pull ::
  "link_env \<Rightarrow> document \<Rightarrow> editor_link \<Rightarrow> string \<Rightarrow> uuid \<Rightarrow> uuid \<Rightarrow> timestamp \<Rightarrow> (run, string option) handler" where
  "final_pull env r link access_token u rev_id now =
     andThen
       (catch (run_pull_overwrite env r link access_token u rev_id now)
          (\<lambda>e. if e \<in> {DriveError, DriveAuthError}
                then raise (HTTPException 502 ''Document unlink pull failed.'') else raise e)) (\<lambda>_.
     andThen (get_version (google env) access_token (el_provider_file_id link)) (\<lambda>version. ret (Some version)))"

definition unlink_document ::
  "link_env \<Rightarrow> string \<Rightarrow> unlink_request \<Rightarrow> uuid \<Rightarrow> uuid \<Rightarrow> timestamp \<Rightarrow> (run, editor_link_response) handler" where
  "unlink_document env document_id p u rev_id now =
     (if \<not> validate_unlink_request p then raise unprocessable
      else
        andThen (query (linked_target document_id u)) (\<lambda>(r, link, connection).
        andThen (token_for_unlink env link connection u now) (\<lambda>access_token.
        andThen (if ur_mode p = ''pull-final''
                 then final_pull env r link access_token u rev_id now
                 else ret (el_last_remote_version link)) (\<lambda>last_version.
        andThen (commit_state link u STATE_UNLINKED now) (\<lambda>_.
        andThen (delete_file (google env) access_token (el_provider_file_id link)) (\<lambda>_.
        ret \<lparr>er_state = STATE_UNLINKED, er_web_url = el_web_url link,
             er_last_remote_version = last_version\<rparr>))))))"

section \<open>The resource as one step\<close>

datatype link_op =
    LinkCreate string uuid
  | LinkStatus string
  | LinkPull string uuid
  | LinkUnlink string unlink_request uuid

datatype link_out =
    LinkOut "editor_link_response result"
  | LinkStatusOut "editor_link_status result"
  | LinkDocOut "document_response result"

fun link_run :: "link_env \<Rightarrow> uuid \<Rightarrow> timestamp \<times> link_op \<Rightarrow> run \<Rightarrow> link_out \<times> run" where
  "link_run env u (now, LinkCreate raw new_id) = (\<lambda>s. map_prod LinkOut id (link_document env raw u new_id now s))"
| "link_run env u (now, LinkStatus raw) = (\<lambda>s. map_prod LinkStatusOut id (link_status env raw u now s))"
| "link_run env u (now, LinkPull raw rev_id) = (\<lambda>s. map_prod LinkDocOut id (pull_document env raw u rev_id now s))"
| "link_run env u (now, LinkUnlink raw p rev_id) =
     (\<lambda>s. map_prod LinkOut id (unlink_document env raw p u rev_id now s))"

definition fresh_run :: "db \<Rightarrow> run" where
  "fresh_run d = \<lparr>r_db = d, r_log = []\<rparr>"

definition link_step :: "link_env \<Rightarrow> uuid \<Rightarrow> timestamp \<times> link_op \<Rightarrow> db \<Rightarrow> link_out \<times> db" where
  "link_step env u op d = map_prod id r_db (link_run env u op (fresh_run d))"

end
