(* ===== verification/Editor_Links_Correct.thy ===== *)
theory Editor_Links_Correct
  imports Editor_Links
begin

text \<open>
  What makes the Google-Docs round trip correct: at most one live link per document and a
  one-way life cycle of the rows, on every path and under the race past the pre-check; the
  pull is snapshot-first and all-or-nothing; every request goes to a fixed Google address with
  the caller's own file id; and the routes respect the tenant contract.
\<close>

section \<open>The rows\<close>

definition live_on :: "uuid \<Rightarrow> editor_link \<Rightarrow> bool" where
  "live_on i l \<longleftrightarrow> el_document_id l = i \<and> el_state l = STATE_LINKED"

definition links_ok :: "db \<Rightarrow> bool" where
  "links_ok d \<longleftrightarrow> distinct (map el_id (editor_links d)) \<and>
     (\<forall>l \<in> set (editor_links d). el_state l \<in> {STATE_LINKED, STATE_ERROR, STATE_UNLINKED}) \<and>
     (\<forall>i. length (filter (live_on i) (editor_links d)) \<le> 1)"

text \<open>A row up to its version cursor, and the legal life of a row.\<close>

definition el_fixed :: "editor_link \<Rightarrow> uuid \<times> uuid \<times> uuid \<times> string \<times> string \<times> string \<times> timestamp" where
  "el_fixed l = (el_id l, el_document_id l, el_user_id l, el_provider l, el_provider_file_id l,
     el_web_url l, el_created_at l)"

definition same_row :: "editor_link \<Rightarrow> editor_link \<Rightarrow> bool" where
  "same_row l l' \<longleftrightarrow> el_fixed l' = el_fixed l \<and> el_state l' = el_state l"

definition row_evolves :: "editor_link \<Rightarrow> editor_link \<Rightarrow> bool" where
  "row_evolves l l' \<longleftrightarrow> el_fixed l' = el_fixed l \<and>
     (el_state l' = el_state l \<or> el_state l = STATE_LINKED \<and> el_state l' \<in> {STATE_ERROR, STATE_UNLINKED})"

lemma same_row_refl [simp]: "same_row l l"
  by (simp add: same_row_def)

lemma same_row_version: "same_row l l' \<Longrightarrow> same_row l (l'\<lparr>el_last_remote_version := v, el_updated_at := t\<rparr>)"
  by (simp add: same_row_def el_fixed_def)

lemma same_row_fields:
  assumes "same_row l l'"
  shows "el_id l' = el_id l" "el_document_id l' = el_document_id l" "el_user_id l' = el_user_id l"
    "el_state l' = el_state l" "el_provider_file_id l' = el_provider_file_id l"
  using assms by (auto simp: same_row_def el_fixed_def)

lemma row_evolves_fields:
  assumes "row_evolves l l'"
  shows "el_id l' = el_id l" "el_document_id l' = el_document_id l"
    "el_state l' = STATE_LINKED \<Longrightarrow> el_state l = STATE_LINKED"
    "el_state l \<in> {STATE_LINKED, STATE_ERROR, STATE_UNLINKED} \<Longrightarrow>
     el_state l' \<in> {STATE_LINKED, STATE_ERROR, STATE_UNLINKED}"
  using assms by (auto simp: row_evolves_def el_fixed_def)

abbreviation "rows_same L d \<equiv> list_all2 same_row L (editor_links d)"
abbreviation "rows_evolved L d \<equiv> list_all2 row_evolves L (editor_links d)"

lemma rows_same_refl: "rows_same (editor_links d) d"
  by (simp add: list_all2_refl)

lemma rows_same_evolved: "rows_same L d \<Longrightarrow> rows_evolved L d"
  by (erule list_all2_mono) (simp add: row_evolves_def same_row_def)

text \<open>Evolution keeps the invariant: rows only leave the live set.\<close>

lemma evolved_links_ok:
  assumes "links_ok d" "rows_evolved (editor_links d) d'"
  shows "links_ok d'"
proof -
  let ?L = "editor_links d" and ?L' = "editor_links d'"
  have ids: "map el_id ?L' = map el_id ?L"
    using assms(2) by (induction rule: list_all2_induct) (simp_all add: row_evolves_fields)
  have st: "\<forall>l \<in> set ?L. el_state l \<in> {STATE_LINKED, STATE_ERROR, STATE_UNLINKED} \<Longrightarrow>
        \<forall>l \<in> set ?L'. el_state l \<in> {STATE_LINKED, STATE_ERROR, STATE_UNLINKED}"
    using assms(2)
  proof (induction rule: list_all2_induct)
    case (Cons l ls l' ls')
    then show ?case using row_evolves_fields(4) [OF Cons(1)] by simp
  qed simp
  have live: "length (filter (live_on i) ?L') \<le> length (filter (live_on i) ?L)" for i
    using assms(2)
  proof (induction rule: list_all2_induct)
    case (Cons l ls l' ls')
    then show ?case using row_evolves_fields(2,3) [OF Cons(1)] by (auto simp: live_on_def)
  qed simp
  show ?thesis using assms(1) st ids live unfolding links_ok_def by (metis (no_types, lifting) le_trans)
qed

lemma set_state_evolves:
  assumes "rows_same L d" "distinct (map el_id L)" "l \<in> set L" "el_state l = STATE_LINKED"
    and "st \<in> {STATE_ERROR, STATE_UNLINKED}"
  shows "rows_evolved L (set_state_stmt (el_id l) u st now d)"
proof -
  have "row_evolves k (if el_id k' = el_id l \<and> el_user_id k' = u then k'\<lparr>el_state := st, el_updated_at := now\<rparr> else k')"
    if k: "k \<in> set L" "same_row k k'" for k k'
  proof (cases "el_id k' = el_id l \<and> el_user_id k' = u")
    case True
    have "k = l" using True same_row_fields(1) [OF k(2)] k(1) assms(2,3) by (metis distinct_map inj_onD)
    then show ?thesis using True k(2) assms(4,5) by (auto simp: row_evolves_def same_row_def el_fixed_def)
  qed (use k in \<open>auto simp: row_evolves_def same_row_def\<close>)
  then have "list_all2 (\<lambda>k k'. row_evolves k (if el_id k' = el_id l \<and> el_user_id k' = u
      then k'\<lparr>el_state := st, el_updated_at := now\<rparr> else k')) L (editor_links d)"
    by (rule list.rel_mono_strong [OF assms(1)])
  then show ?thesis by (simp add: set_state_stmt_def update_where_def list_all2_map2 del: if_split)
qed

lemma set_version_same:
  assumes "rows_same L d"
  shows "rows_same L (set_version_stmt i u v now d)"
  using assms by (auto simp: set_version_stmt_def update_where_def list_all2_conv_all_nth same_row_version)

section \<open>What the steps leave alone\<close>

lemma persist_other_tables [simp]:
  "editor_links (persist_access_token_stmt i u c t now d) = editor_links d"
  "documents (persist_access_token_stmt i u c t now d) = documents d"
  "sermon_doc_revisions (persist_access_token_stmt i u c t now d) = sermon_doc_revisions d"
  by (simp_all add: persist_access_token_stmt_def)

lemma get_access_token_keeps:
  assumes "\<And>s i u c t now. P s \<Longrightarrow> P (s\<lparr>r_db := persist_access_token_stmt i u c t now (r_db s)\<rparr>)"
    and "\<And>s req. P s \<Longrightarrow> rq_url req = GOOGLE_TOKEN_URL \<Longrightarrow> P (s\<lparr>r_log := r_log s @ [req]\<rparr>)"
  shows "keeps P (get_access_token env c now)"
proof -
  have "keeps P (exchange env (refresh_request a b e))" for a b e
    unfolding keeps_def exchange_def using assms(2) by (simp add: refresh_request_def)
  moreover have "keeps P (store_access_token env c t n now)" for t n
    unfolding store_access_token_def by (intro keeps_intros keeps_transact) (use assms(1) in auto)
  ultimately show ?thesis unfolding get_access_token_def by (intro keeps_intros) (auto intro!: keeps_intros)
qed

section \<open>Life cycle\<close>

lemma rows_same_persist: "rows_same L (persist_access_token_stmt i u c t now d) = rows_same L d"
  by simp

lemma token_same_rows [keeps_intros]: "keeps (\<lambda>s. rows_same L (r_db s)) (get_access_token env c now)"
  by (rule get_access_token_keeps) simp_all

lemma drive_calls_keep [keeps_intros]:
  "keeps (\<lambda>s. P (r_db s)) (get_version env tok i)"
  "keeps (\<lambda>s. P (r_db s)) (get_web_view_link env tok i)"
  "keeps (\<lambda>s. P (r_db s)) (export_markdown env tok i)"
  "keeps (\<lambda>s. P (r_db s)) (upload_with_conversion env tok name bytes)"
  "keeps (\<lambda>s. P (r_db s)) (delete_file env tok i)"
  unfolding get_version_def get_web_view_link_def files_get_def export_markdown_def
    upload_with_conversion_def delete_file_def
  by (intro keeps_intros | simp add: keeps_base split: http_reply.split)+

lemma snapshot_links [simp]:
  "snapshot_and_overwrite r c src u i now d = (res, d') \<Longrightarrow> editor_links d' = editor_links d"
  by (auto dest!: snapshot_and_overwrite_touches)

lemma pull_commit_same_rows: "rows_same L d \<Longrightarrow> pull_commit r l c v u i now d = (Inr x, d') \<Longrightarrow> rows_same L d'"
  by (auto simp: pull_commit_def split: prod.splits sum.splits intro!: set_version_same)

lemma run_pull_same_rows [keeps_intros]:
  "keeps (\<lambda>s. rows_same L (r_db s)) (run_pull_overwrite env r l tok u i now)"
  unfolding run_pull_overwrite_def
  by (intro keeps_intros keeps_transact) (auto dest: pull_commit_same_rows)

lemma commit_state_evolves:
  assumes "distinct (map el_id L)" "l \<in> set L" "el_state l = STATE_LINKED" "st \<in> {STATE_ERROR, STATE_UNLINKED}"
  shows "leads (\<lambda>s. rows_same L (r_db s)) (\<lambda>s. rows_evolved L (r_db s)) (commit_state l u st now)"
  using set_state_evolves [OF _ assms] by (simp add: leads_def commit_state_def transact_def)

lemma linked_target_Inr:
  assumes "linked_target raw u d = Inr (r, l, c)"
  shows "require_owned_document raw u d = Inr r"
    and "linked_row_stmt (doc_document_id r) u d = [l]"
    and "connection_stmt u PROVIDER_GOOGLE d = [c]"
  using assms
  by (auto simp: linked_target_def require_linked_row_def require_google_connection_def scalar_Some_conv
      split: sum.splits option.splits)

lemma linked_row_mem:
  assumes "linked_row_stmt i u d = [l]"
  shows "l \<in> set (editor_links d)" "el_state l = STATE_LINKED" "el_document_id l = i" "el_user_id l = u"
proof -
  have "l \<in> set (linked_row_stmt i u d)" using assms by simp
  then show "l \<in> set (editor_links d)" "el_state l = STATE_LINKED" "el_document_id l = i" "el_user_id l = u"
    by (simp_all add: linked_row_stmt_def)
qed

text \<open>A route that opens with the gates and then ends on a leg that evolves the rows.\<close>

lemma gated_evolves:
  assumes "links_ok (r_db s)"
    and body: "\<And>r l c. linked_target raw u (r_db s) = Inr (r, l, c) \<Longrightarrow>
      distinct (map el_id (editor_links (r_db s))) \<Longrightarrow> l \<in> set (editor_links (r_db s)) \<Longrightarrow>
      el_state l = STATE_LINKED \<Longrightarrow>
      leads (\<lambda>t. rows_same (editor_links (r_db s)) (r_db t)) (\<lambda>t. rows_evolved (editor_links (r_db s)) (r_db t)) (f (r, l, c))"
  shows "rows_evolved (editor_links (r_db s)) (r_db (snd (andThen (query (linked_target raw u)) f s)))"
proof (cases "linked_target raw u (r_db s)")
  case (Inl e)
  then show ?thesis by (simp add: andThen_def query_def rows_same_evolved rows_same_refl)
next
  case (Inr x)
  obtain r l c where x: "x = (r, l, c)" by (cases x) auto
  have "leads (\<lambda>t. rows_same (editor_links (r_db s)) (r_db t)) (\<lambda>t. rows_evolved (editor_links (r_db s)) (r_db t)) (f (r, l, c))"
    using Inr x linked_row_mem [OF linked_target_Inr(2)] assms(1)
    by (intro body) (auto simp: links_ok_def)
  from leadsD [OF this rows_same_refl] show ?thesis using Inr x by (simp add: andThen_def query_def)
qed

lemma flip_leads:
  assumes "distinct (map el_id L)" "l \<in> set L" "el_state l = STATE_LINKED" "st \<in> {STATE_ERROR, STATE_UNLINKED}"
    and "\<And>x. keeps (\<lambda>s. rows_evolved L (r_db s)) (k x)"
  shows "leads (\<lambda>s. rows_same L (r_db s)) (\<lambda>s. rows_evolved L (r_db s)) (andThen (commit_state l u st now) k)"
  by (rule leads_then_keeps [OF commit_state_evolves [OF assms(1-4)] assms(5)])

lemmas leads_rules = leads_catch leads_cases leads_base flip_leads

lemma status_evolves:
  "links_ok (r_db s) \<Longrightarrow> rows_evolved (editor_links (r_db s)) (r_db (snd (link_status env raw u now s)))"
  unfolding link_status_def
proof (rule gated_evolves, assumption, goal_cases)
  case (1 r l c)
  then show ?case unfolding Let_def prod.case
    by (intro leads_rules keeps_intros) (auto intro: rows_same_evolved)
qed

lemma pull_failed_leads:
  assumes "distinct (map el_id L)" "l \<in> set L" "el_state l = STATE_LINKED"
  shows "leads (\<lambda>s. rows_same L (r_db s)) (\<lambda>s. rows_evolved L (r_db s)) (pull_failed env l u now e)"
  unfolding pull_failed_def using assms
  by (intro leads_rules keeps_intros) (auto intro: rows_same_evolved)

lemma pull_evolves:
  "links_ok (r_db s) \<Longrightarrow> rows_evolved (editor_links (r_db s)) (r_db (snd (pull_document env raw u i now s)))"
  unfolding pull_document_def
proof (rule gated_evolves, assumption, goal_cases)
  case (1 r l c)
  then show ?case unfolding prod.case
    by (intro leads_catch pull_failed_leads keeps_intros) (auto intro: rows_same_evolved)
qed

lemma final_pull_same_rows [keeps_intros]:
  "keeps (\<lambda>s. rows_same L (r_db s)) (final_pull env r l tok u i now)"
  unfolding final_pull_def by (intro keeps_intros)

lemma unlink_evolves:
  assumes "links_ok (r_db s)"
  shows "rows_evolved (editor_links (r_db s)) (r_db (snd (unlink_document env raw p u i now s)))"
proof (cases "validate_unlink_request p")
  case True
  have tok: "keeps_or (\<lambda>t. rows_same L (r_db t)) (\<lambda>t. rows_evolved L (r_db t)) (token_for_unlink env l c u now)"
    if "distinct (map el_id L)" "l \<in> set L" "el_state l = STATE_LINKED" for L l c
    unfolding token_for_unlink_def using that
    by (intro keeps_or_catch leads_rules keeps_intros raises_intros) (auto intro: rows_same_evolved)
  have eq: "unlink_document env raw p u i now = andThen (query (linked_target raw u))
     (\<lambda>(r, l, c). andThen (token_for_unlink env l c u now) (\<lambda>access_token.
        andThen (if ur_mode p = ''pull-final'' then final_pull env r l access_token u i now
             else ret (el_last_remote_version l)) (\<lambda>last_version.
        andThen (commit_state l u STATE_UNLINKED now) (\<lambda>_.
        andThen (delete_file (google env) access_token (el_provider_file_id l)) (\<lambda>_.
        ret \<lparr>er_state = STATE_UNLINKED, er_web_url = el_web_url l, er_last_remote_version = last_version\<rparr>)))))"
    using True by (simp add: unlink_document_def)
  show ?thesis unfolding eq
  proof (rule gated_evolves [OF assms], goal_cases)
    case (1 r l c)
    then show ?case unfolding prod.case
      by (intro leads_keeps_or [OF tok] leads_andThen keeps_intros flip_leads) (auto intro: rows_same_evolved)
  qed
qed (simp add: unlink_document_def raise_def rows_same_evolved rows_same_refl)

text \<open>The insert: refused while a live row exists, whoever wrote it since the pre-check.\<close>

lemma link_insert_ok:
  assumes "links_ok d" "link_insert_stmt i u prov f w v new_id now d = (Inr x, d')"
    and "new_id \<notin> el_id ` set (editor_links d)"
  shows "links_ok d'"
    and "\<exists>l. editor_links d' = editor_links d @ [l] \<and> live_on i l \<and> el_user_id l = u \<and> el_id l = new_id"
proof -
  have none: "filter (live_on i) (editor_links d) = []" and
    d': "d' = d\<lparr>editor_links := editor_links d @ [\<lparr>el_id = new_id, el_document_id = i, el_user_id = u,
          el_provider = prov, el_provider_file_id = f, el_web_url = w, el_state = STATE_LINKED,
          el_last_remote_version = Some v, el_created_at = now, el_updated_at = now\<rparr>]\<rparr>"
    using assms(2) by (auto simp: link_insert_stmt_def select_where_def live_on_def [abs_def] split: if_splits)
  show "\<exists>l. editor_links d' = editor_links d @ [l] \<and> live_on i l \<and> el_user_id l = u \<and> el_id l = new_id"
    by (simp add: d' live_on_def)
  have "length (filter (live_on j) (editor_links d')) \<le> 1" for j
  proof (cases "j = i")
    case False
    then show ?thesis using assms(1) by (simp add: d' links_ok_def live_on_def [of _ "\<lparr>el_id = _, el_document_id = _, el_user_id = _, el_provider = _, el_provider_file_id = _, el_web_url = _, el_state = _, el_last_remote_version = _, el_created_at = _, el_updated_at = _\<rparr>"])
  qed (simp add: d' none)
  then show "links_ok d'" using assms(1,3) by (simp add: links_ok_def d')
qed

lemma link_write_cases:
  "link_write r u f w v new_id now s =
   (if filter (live_on (doc_document_id r)) (editor_links (r_db s)) \<noteq> [] then (Inl already_linked, s)
    else (Inr new_id, s\<lparr>r_db := snd (link_insert_stmt (doc_document_id r) u PROVIDER_GOOGLE f w v new_id now (r_db s))\<rparr>))"
  by (simp add: link_write_def catch_def transact_def link_insert_stmt_def select_where_def live_on_def [abs_def] raise_def)

definition appended_live :: "uuid \<Rightarrow> editor_link list \<Rightarrow> run \<Rightarrow> bool" where
  "appended_live u L s \<longleftrightarrow> links_ok (r_db s) \<and> (editor_links (r_db s) = L \<or>
     (\<exists>l. editor_links (r_db s) = L @ [l] \<and> el_state l = STATE_LINKED \<and> el_user_id l = u))"

lemma link_write_leads:
  assumes "new_id \<notin> el_id ` set L"
  shows "leads (\<lambda>s. links_ok (r_db s) \<and> editor_links (r_db s) = L) (appended_live u L) (link_write r u f w v new_id now)"
  unfolding leads_def
proof (intro allI impI, elim conjE)
  fix s :: run assume ok: "links_ok (r_db s)" and L: "editor_links (r_db s) = L"
  let ?ins = "link_insert_stmt (doc_document_id r) u PROVIDER_GOOGLE f w v new_id now (r_db s)"
  show "appended_live u L (snd (link_write r u f w v new_id now s))"
  proof (cases "filter (live_on (doc_document_id r)) (editor_links (r_db s)) = []")
    case True
    then have ins: "?ins = (Inr new_id, snd ?ins)"
      by (simp add: link_insert_stmt_def select_where_def live_on_def [abs_def])
    show ?thesis using True link_insert_ok [OF ok ins] assms L
      by (auto simp: link_write_cases appended_live_def live_on_def)
  qed (simp add: link_write_cases appended_live_def ok L)
qed

lemma link_document_rows:
  assumes "links_ok (r_db s)" and "new_id \<notin> el_id ` set (editor_links (r_db s))"
  shows "appended_live u (editor_links (r_db s)) (snd (link_document env raw u new_id now s))"
proof -
  let ?P = "\<lambda>t. links_ok (r_db t) \<and> editor_links (r_db t) = editor_links (r_db s)"
  have tok: "keeps ?P (get_access_token env' c now)" for env' c
    by (rule get_access_token_keeps) (auto simp: links_ok_def)
  have calls: "keeps ?P (upload_with_conversion env' t n b)" "keeps ?P (get_web_view_link env' t i)"
    "keeps ?P (get_version env' t i)" for env' t n b i
    by (rule drive_calls_keep)+
  have "leads ?P (appended_live u (editor_links (r_db s))) (link_document env raw u new_id now)"
    unfolding link_document_def
    by (intro leads_andThen keeps_intros tok calls leads_then_keeps [OF link_write_leads [OF assms(2)]])
       (auto simp: appended_live_def)
  then show ?thesis by (rule leadsD) (use assms(1) in simp)
qed

definition legal_rows :: "uuid \<Rightarrow> editor_link list \<Rightarrow> db \<Rightarrow> bool" where
  "legal_rows u L d \<longleftrightarrow> links_ok d \<and> (\<exists>old new. editor_links d = old @ new \<and>
     list_all2 row_evolves L old \<and> length new \<le> 1 \<and>
     (\<forall>l \<in> set new. el_state l = STATE_LINKED \<and> el_user_id l = u))"

lemma legal_rows_appended: "appended_live u L s \<Longrightarrow> legal_rows u L (r_db s)"
proof -
  assume live: "appended_live u L s"
  then obtain new where "editor_links (r_db s) = L @ new" "length new \<le> 1"
    "\<forall>l \<in> set new. el_state l = STATE_LINKED \<and> el_user_id l = u"
    by (auto simp: appended_live_def)
  moreover have "list_all2 row_evolves L L" by (simp add: list_all2_refl row_evolves_def)
  moreover have "links_ok (r_db s)" using live by (simp add: appended_live_def)
  ultimately show ?thesis unfolding legal_rows_def by blast
qed

lemma legal_rows_evolved: "links_ok d \<Longrightarrow> rows_evolved (editor_links d) d' \<Longrightarrow> legal_rows u (editor_links d) d'"
  unfolding legal_rows_def using evolved_links_ok [of d d']
  by (metis append_Nil2 empty_iff le0 list.set(1) list.size(3))

lemma link_run_rows:
  assumes "links_ok (r_db s)"
    and "\<And>raw i. op = LinkCreate raw i \<Longrightarrow> i \<notin> el_id ` set (editor_links (r_db s))"
  shows "legal_rows u (editor_links (r_db s)) (r_db (snd (link_run env u (now, op) s)))"
  by (cases op) (use assms in \<open>simp_all add: legal_rows_appended link_document_rows
    legal_rows_evolved status_evolves pull_evolves unlink_evolves\<close>)

text \<open>
  C15: a document has at most one live external editor, always: every editor-link route keeps
  the links table consistent, and so does the insert that a concurrent link raced past its
  pre-check, which is refused with the same 409 and writes nothing. The rows live one way: a
  route changes no identity of an existing row, moves its state at most from \<open>linked\<close> to
  \<open>error\<close> or \<open>unlinked\<close>, and adds at most one row, live and owned by the caller.
\<close>

theorem editor_link_life_cycle:
  assumes "links_ok d" and "\<And>raw i. op = LinkCreate raw i \<Longrightarrow> i \<notin> el_id ` set (editor_links d)"
  shows "links_ok (snd (link_step env u (now, op) d)) \<and>
    (\<exists>old new. editor_links (snd (link_step env u (now, op) d)) = old @ new \<and>
       list_all2 row_evolves (editor_links d) old \<and> length new \<le> 1 \<and>
       (\<forall>l \<in> set new. el_state l = STATE_LINKED \<and> el_user_id l = u)) \<and>
    (filter (live_on (doc_document_id r)) (editor_links d) \<noteq> [] \<longrightarrow>
       link_write r u f w v new_id now (fresh_run d) = (Inl already_linked, fresh_run d))"
  using link_run_rows [of "fresh_run d" op u env now] assms
  by (simp add: link_step_def fresh_run_def link_write_cases legal_rows_def)

section \<open>The pull\<close>

lemma token_keeps_documents:
  "keeps (\<lambda>s. documents (r_db s) = D \<and> sermon_doc_revisions (r_db s) = R \<and> rows_same L (r_db s))
     (get_access_token env c now)"
  by (rule get_access_token_keeps) simp_all

lemma docs_wf_cong:
  "documents d' = documents d \<Longrightarrow> sermon_doc_revisions d' = sermon_doc_revisions d \<Longrightarrow> docs_wf d' = docs_wf d"
  by (simp add: docs_wf_def)

text \<open>The three outcomes of the pull body: nothing committed, or everything.\<close>

lemma run_pull_cases:
  assumes wf: "docs_wf (r_db t)" and act: "owned_active_stmt (doc_document_id r) u (r_db t) = [r]"
  obtains (none) e where "fst (run_pull_overwrite env r l tok u i now t) = Inl e"
      "r_db (snd (run_pull_overwrite env r l tok u i now t)) = r_db t"
    | (all) c v md resp t1 t2 where "fst (run_pull_overwrite env r l tok u i now t) = Inr resp"
      "get_version (google env) tok (el_provider_file_id l) t = (Inr v, t1)"
      "export_markdown (google env) tok (el_provider_file_id l) t1 = (Inr md, t2)"
      "from_markdown env md = Inr c" "content_byte_size c \<le> MAX_CONTENT_BYTES"
      "jsonb_storable c" "doc_to_response (apply_values (content_values c) now r) = Inr resp"
      "r_db (snd (run_pull_overwrite env r l tok u i now t)) = set_version_stmt (el_id l) u v now
         (snd (doc_update_stmt (doc_document_id r) u (content_values c) now
            (revision_insert_stmt r u ''pull'' i now (r_db t))))"
proof -
  let ?f = "el_provider_file_id l"
  obtain r1 t1 where v: "get_version (google env) tok ?f t = (r1, t1)" by (cases "get_version (google env) tok ?f t")
  have t1: "r_db t1 = r_db t" using keeps_eqD [OF drive_calls_keep(1) [of "\<lambda>d. d = r_db t"] v] by simp
  obtain r2 t2 where m: "export_markdown (google env) tok ?f t1 = (r2, t2)" by (cases "export_markdown (google env) tok ?f t1")
  have t2: "r_db t2 = r_db t" using keeps_eqD [OF drive_calls_keep(3) [of "\<lambda>d. d = r_db t"] m] t1 by simp
  consider (bad) e where "fst (run_pull_overwrite env r l tok u i now t) = Inl e"
      "r_db (snd (run_pull_overwrite env r l tok u i now t)) = r_db t"
    | (go) v md c where "r1 = Inr v" "r2 = Inr md" "from_markdown env md = Inr c" "require_content_within_cap c = Inr ()"
  proof (cases "\<exists>v md c. r1 = Inr v \<and> r2 = Inr md \<and> from_markdown env md = Inr c \<and> require_content_within_cap c = Inr ()")
    case False
    then have "\<exists>e. fst (run_pull_overwrite env r l tok u i now t) = Inl e \<and>
        r_db (snd (run_pull_overwrite env r l tok u i now t)) = r_db t" using v m t1 t2
      by (cases r1; cases r2)
         (auto simp: run_pull_overwrite_def andThen_def of_result_def converted_def split: sum.splits if_splits)
    then show thesis using bad by blast
  qed (use go in blast)
  then show thesis
  proof cases
    case bad
    then show ?thesis by (rule none)
  next
    case go
    have cap: "content_byte_size c \<le> MAX_CONTENT_BYTES" using go(4) cap_ok by blast
    show ?thesis
    proof (cases "jsonb_storable c")
      case False
      then show ?thesis
        by (intro none [of DataError]) (use go v m t2 in \<open>simp_all add: run_pull_overwrite_def andThen_def of_result_def
            converted_def transact_def pull_commit_def snapshot_and_overwrite_refused\<close>)
    next
      case True
      note snap = snapshot_and_overwrite_good(1) [OF wf act cap True, of "''pull''" i now]
      obtain resp where resp: "doc_to_response (apply_values (content_values c) now r) = Inr resp"
        using doc_to_response_ok [OF snapshot_and_overwrite_good(3) [OF wf act cap True]] by blast
      show ?thesis
        by (rule all [of resp v t1 md t2 c])
           (use go v m t2 snap resp cap True in \<open>simp_all add: run_pull_overwrite_def andThen_def of_result_def
              converted_def transact_def pull_commit_def\<close>)
    qed
  qed
qed

lemma cursor_moved:
  assumes "linked_row_stmt i u d = [l]" "rows_same (editor_links d) x" "el_user_id l = u"
  shows "map el_last_remote_version (linked_row_stmt i u (set_version_stmt (el_id l) u v now x)) = [Some v]"
proof -
  let ?p = "\<lambda>l. el_document_id l = i \<and> el_user_id l = u \<and> el_state l = STATE_LINKED"
  have p: "same_row k k' \<Longrightarrow> ?p k = ?p k'" for k k' using same_row_fields by metis
  have "list_all2 same_row (filter ?p (editor_links d)) (filter ?p (editor_links x))"
    using assms(2)
  proof (induction rule: list_all2_induct)
    case (Cons k ks k' ks')
    then show ?case using p [OF Cons(1)] by simp
  qed simp
  then obtain l' where l': "filter ?p (editor_links x) = [l']" "same_row l l'"
    using assms(1) by (auto simp: linked_row_stmt_def select_where_def list_all2_Cons1)
  have upd: "filter ?p (update_where q (\<lambda>l. l\<lparr>el_last_remote_version := Some v, el_updated_at := now\<rparr>) t) =
      update_where q (\<lambda>l. l\<lparr>el_last_remote_version := Some v, el_updated_at := now\<rparr>) (filter ?p t)" for q t
    by (induction t) (auto simp: update_where_def)
  show ?thesis
    using l' same_row_fields [OF l'(2)] assms(3)
    by (simp add: linked_row_stmt_def select_where_def set_version_stmt_def upd) (simp add: update_where_def)
qed

text \<open>The whole route: the token leg touches no document, and the handlers only the link.\<close>

definition snapshot_of :: "document \<Rightarrow> uuid \<Rightarrow> uuid \<Rightarrow> timestamp \<Rightarrow> sermon_doc_revision" where
  "snapshot_of r u rev_id now = \<lparr>rev_revision_id = rev_id, rev_document_id = doc_document_id r,
     rev_user_id = u, rev_content = doc_content r, rev_content_text = doc_content_text r,
     rev_schema_version = doc_schema_version r, rev_source = ''pull'', rev_created_at = now\<rparr>"

lemma commit_state_documents:
  "documents (r_db (snd (commit_state l u st now s))) = documents (r_db s)"
  "sermon_doc_revisions (r_db (snd (commit_state l u st now s))) = sermon_doc_revisions (r_db s)"
  by (simp_all add: commit_state_def transact_def set_state_stmt_def)

text \<open>What Drive answered for one file after \<open>s\<close>: the version first, then the markdown.\<close>

definition drive_read :: "link_env \<Rightarrow> string \<Rightarrow> string \<Rightarrow> run \<Rightarrow> string \<Rightarrow> string \<Rightarrow> bool" where
  "drive_read env tok file s v md \<longleftrightarrow>
     (case get_version (google env) tok file s of
        (Inl _, _) \<Rightarrow> False
      | (Inr v', s1) \<Rightarrow> v' = v \<and> fst (export_markdown (google env) tok file s1) = Inr md)"

lemma pull_after_token:
  assumes wf: "docs_wf d" and t: "linked_target raw u d = Inr (r, l, c)" and ids: "distinct (map el_id (editor_links d))"
    and tok: "get_access_token (google env) c now s = (Inr tok, s')" and s: "r_db s = d"
  shows "(\<exists>e. fst (run_pull_overwrite env r l tok u i now s') = Inl e \<and>
            documents (r_db (snd (run_pull_overwrite env r l tok u i now s'))) = documents d \<and>
            sermon_doc_revisions (r_db (snd (run_pull_overwrite env r l tok u i now s'))) = sermon_doc_revisions d) \<or>
         (\<exists>cont v md resp d'. run_pull_overwrite env r l tok u i now s' = (Inr resp, d') \<and>
            drive_read env tok (el_provider_file_id l) s' v md \<and> from_markdown env md = Inr cont \<and>
            documents (r_db d') = update_where (\<lambda>x. doc_document_id x = doc_document_id r \<and> doc_user_id x = u
               \<and> doc_deleted_at x = None) (apply_values (content_values cont) now) (documents d) \<and>
            sermon_doc_revisions (r_db d') = sermon_doc_revisions d @ [snapshot_of r u i now] \<and>
            map el_last_remote_version (linked_row_stmt (doc_document_id r) u (r_db d')) = [Some v] \<and>
            dr_content resp = cont \<and> dr_content_text resp = derive_content_text cont)"
proof -
  note target = linked_target_Inr [OF t]
  have kept: "documents (r_db s') = documents d" "sermon_doc_revisions (r_db s') = sermon_doc_revisions d"
    "rows_same (editor_links d) (r_db s')"
    using keeps_eqD [OF token_keeps_documents tok, of "documents d" "sermon_doc_revisions d" "editor_links d"] s rows_same_refl
    by auto
  have wf': "docs_wf (r_db s')" using docs_wf_cong [OF kept(1,2)] wf by simp
  have act: "owned_active_stmt (doc_document_id r) u (r_db s') = [r]"
    using gate_Inr(2) [OF target(1)] kept(1) by (simp add: owned_active_stmt_def)
  show ?thesis
  proof (cases rule: run_pull_cases [OF wf' act, of env l tok i now])
    case (1 e)
    then show ?thesis using kept by simp
  next
    case (2 cont v md resp s1 s2)
    have links: "map el_last_remote_version (linked_row_stmt (doc_document_id r) u (set_version_stmt (el_id l) u v now x)) = [Some v]"
      if "editor_links x = editor_links (r_db s')" for x
      using that kept(3) linked_row_mem(4) [OF target(2)] by (intro cursor_moved [OF target(2)]) simp_all
    have seen: "drive_read env tok (el_provider_file_id l) s' v md" using 2(2,3) by (simp add: drive_read_def)
    have "dr_content resp = cont \<and> dr_content_text resp = derive_content_text cont"
      using 2(7) by (auto simp: doc_to_response_def content_values_def split: sum.splits)
    then show ?thesis using 2 kept links seen
      by (intro disjI2 exI [of _ cont] exI [of _ v] exI [of _ md] exI [of _ resp] exI conjI prod_eqI)
         (auto simp: set_version_stmt_def doc_update_stmt_def revision_insert_stmt_def snapshot_of_def Let_def)
  qed
qed

lemma pull_failed_documents:
  "documents (r_db (snd (pull_failed env l u now e s))) = documents (r_db s)"
  "sermon_doc_revisions (r_db (snd (pull_failed env l u now e s))) = sermon_doc_revisions (r_db s)"
  "\<exists>e'. fst (pull_failed env l u now e s) = Inl e'"
  by (auto simp: pull_failed_def raise_def andThen_def commit_state_def transact_def set_state_stmt_def
      split: option.split)

text \<open>
  C16: a pull never destroys what it replaces. A successful pull read the version and then the
  markdown of the linked file with the caller's token; it has appended exactly one revision, the
  caller's document as it was (source \<open>pull\<close>), the document now holds the conversion of that markdown
  with a re-derived projection, and the live link's cursor is that version. A failed pull, on
  whichever of its legs, has changed no document and no revision.
\<close>

theorem pull_snapshot_first:
  assumes "docs_wf d" and "links_ok d"
    and run: "pull_document env raw u i now (fresh_run d) = (out, s')"
  shows "case out of
      Inl e \<Rightarrow> documents (r_db s') = documents d \<and> sermon_doc_revisions (r_db s') = sermon_doc_revisions d
    | Inr resp \<Rightarrow> \<exists>r l c tok s1 v md cont. linked_target raw u d = Inr (r, l, c) \<and>
        get_access_token (google env) c now (fresh_run d) = (Inr tok, s1) \<and>
        drive_read env tok (el_provider_file_id l) s1 v md \<and> from_markdown env md = Inr cont \<and>
        sermon_doc_revisions (r_db s') = sermon_doc_revisions d @ [snapshot_of r u i now] \<and>
        documents (r_db s') = update_where (\<lambda>x. doc_document_id x = doc_document_id r \<and> doc_user_id x = u
           \<and> doc_deleted_at x = None) (apply_values (content_values cont) now) (documents d) \<and>
        map el_last_remote_version (linked_row_stmt (doc_document_id r) u (r_db s')) = [Some v] \<and>
        dr_content resp = cont \<and> dr_content_text resp = derive_content_text cont"
proof (cases "linked_target raw u d")
  case (Inl e)
  then show ?thesis using run by (auto simp: pull_document_def andThen_def query_def fresh_run_def)
next
  case (Inr x)
  obtain r l c where x: "x = (r, l, c)" by (cases x) auto
  note t = Inr [unfolded x]
  have db: "r_db (fresh_run d) = d" by (simp add: fresh_run_def)
  obtain rt st where tok: "get_access_token (google env) c now (fresh_run d) = (rt, st)"
    by (cases "get_access_token (google env) c now (fresh_run d)")
  have st: "documents (r_db st) = documents d" "sermon_doc_revisions (r_db st) = sermon_doc_revisions d"
    using keeps_eqD [OF token_keeps_documents tok, of "documents d" "sermon_doc_revisions d" "editor_links d"] db rows_same_refl
    by auto
  have out: "pull_document env raw u i now (fresh_run d) = catch (andThen (get_access_token (google env) c now)
      (\<lambda>tok. run_pull_overwrite env r l tok u i now)) (pull_failed env l u now) (fresh_run d)"
    by (simp add: pull_document_def andThen_def query_def db t)
  have failed: ?thesis if "pull_failed env l u now e s0 = (out, s')" "documents (r_db s0) = documents d"
      "sermon_doc_revisions (r_db s0) = sermon_doc_revisions d" for e s0
  proof -
    have "\<exists>e'. fst (out, s') = Inl e'" unfolding that(1) [symmetric] by (rule pull_failed_documents(3))
    moreover have "documents (r_db (snd (out, s'))) = documents d"
      "sermon_doc_revisions (r_db (snd (out, s'))) = sermon_doc_revisions d"
      unfolding that(1) [symmetric] by (simp_all add: pull_failed_documents that(2,3))
    ultimately show ?thesis by auto
  qed
  show ?thesis
  proof (cases rt)
    case (Inl e)
    then show ?thesis using run out tok st by (intro failed [of e st]) (simp_all add: andThen_def catch_def)
  next
    case (Inr tk)
    have ids: "distinct (map el_id (editor_links d))" using assms(2) by (simp add: links_ok_def)
    note leg = pull_after_token [OF assms(1) t ids tok [unfolded Inr] db]
    have cat: "catch (\<lambda>s. run_pull_overwrite env r l tk u i now st) (pull_failed env l u now) (fresh_run d) = (out, s')"
      using run out tok Inr by (simp add: andThen_def catch_def)
    from leg [of i] show ?thesis
    proof (elim disjE exE conjE)
      fix e assume "fst (run_pull_overwrite env r l tk u i now st) = Inl e"
        "documents (r_db (snd (run_pull_overwrite env r l tk u i now st))) = documents d"
        "sermon_doc_revisions (r_db (snd (run_pull_overwrite env r l tk u i now st))) = sermon_doc_revisions d"
      then show ?thesis using cat
        by (intro failed [of e "snd (run_pull_overwrite env r l tk u i now st)"]) (simp_all add: catch_def case_prod_beta)
    qed (use cat t tok Inr in \<open>auto simp: catch_def\<close>)
  qed
qed

section \<open>An expired grant\<close>

lemma link_gone:
  assumes "linked_row_stmt i u d = [l]" "rows_same (editor_links d) x" "el_user_id l = u" "st \<noteq> STATE_LINKED"
  shows "linked_row_stmt i u (set_state_stmt (el_id l) u st now x) = []"
proof -
  let ?p = "\<lambda>l. el_document_id l = i \<and> el_user_id l = u \<and> el_state l = STATE_LINKED"
  define g where "g k = (if el_id k = el_id l \<and> el_user_id k = u then k\<lparr>el_state := st, el_updated_at := now\<rparr> else k)"
    for k :: editor_link
  have "\<not> ?p (g k')" if k: "k' \<in> set (editor_links x)" for k'
  proof
    assume "?p (g k')"
    then have p: "?p k'" "el_id k' \<noteq> el_id l" using assms(4) by (auto simp: g_def split: if_splits)
    obtain k where mem: "k \<in> set (editor_links d)" and same: "same_row k k'"
      using k assms(2) by (metis in_set_conv_nth list_all2_conv_all_nth)
    have "k \<in> set (linked_row_stmt i u d)"
      using p(1) mem same_row_fields [OF same] by (simp add: linked_row_stmt_def)
    then have "k = l" using assms(1) by simp
    then show False using p(2) same_row_fields(1) [OF same] by simp
  qed
  then have "filter ?p (map g (editor_links x)) = []" by (simp add: filter_empty_conv)
  then show ?thesis
    by (simp add: linked_row_stmt_def select_where_def set_state_stmt_def update_where_def g_def [abs_def] del: if_split)
qed

text \<open>What a refused grant leaves behind, whichever route met it.\<close>

lemma refused_grant:
  assumes t: "linked_target raw u d = Inr (r, l, c)"
    and tok: "get_access_token (google env) c now (fresh_run d) = (Inl DriveAuthError, s1)"
    and s2: "r_db s2 = set_state_stmt (el_id l) u STATE_ERROR now (r_db s1)"
  shows "require_owned_document raw u (r_db s2) = Inr r"
    and "linked_row_stmt (doc_document_id r) u (r_db s2) = []"
proof -
  note target = linked_target_Inr [OF t]
  have kept: "documents (r_db s1) = documents d" "rows_same (editor_links d) (r_db s1)"
    using keeps_eqD [OF token_keeps_documents tok, of "documents d" "sermon_doc_revisions d" "editor_links d"]
      rows_same_refl by (auto simp: fresh_run_def)
  have "owned_active_stmt j u (r_db s2) = owned_active_stmt j u d" for j
    using kept(1) by (simp add: owned_active_stmt_def s2 set_state_stmt_def)
  then show "require_owned_document raw u (r_db s2) = Inr r" 
    using target(1) by (simp add: require_owned_document_def cong: option.case_cong)
  show "linked_row_stmt (doc_document_id r) u (r_db s2) = []"
    unfolding s2 using kept(2) linked_row_mem(4) [OF target(2)] by (intro link_gone [OF target(2)]) simp_all
qed

lemma no_live_link:
  assumes "require_owned_document raw u d = Inr r" "linked_row_stmt (doc_document_id r) u d = []"
  shows "link_step env u (now, LinkStatus raw) d = (LinkStatusOut (Inl doc_not_found), d)"
    and "link_step env u (now, LinkPull raw i) d = (LinkDocOut (Inl doc_not_found), d)"
    and "validate_unlink_request p \<Longrightarrow> link_step env u (now, LinkUnlink raw p i) d = (LinkOut (Inl doc_not_found), d)"
    and "require_no_link r u d = Inr ()"
  using assms by (simp_all add: link_step_def fresh_run_def link_status_def pull_document_def unlink_document_def
      andThen_def query_def linked_target_def require_linked_row_def require_no_link_def)

text \<open>
  C18: a refresh token Google no longer accepts strands the link. Whichever of status, pull
  (where reading the expired instance works) and unlink meets the refusal first moves the row to
  \<open>error\<close>; from then on the same three routes answer 404 in every later environment, a
  reconnected account included, and write nothing, so the Doc's edits can no longer be pulled;
  only the link route's pre-check lets the document through, to a second Doc.
\<close>

theorem expired_grant_strands_link:
  assumes "linked_target raw u d = Inr (r, l, c)"
    and "fst (get_access_token (google env) c now (fresh_run d)) = Inl DriveAuthError"
    and "op = LinkStatus raw \<or> op = LinkPull raw i \<and> expired_read env = None \<or>
         op = LinkUnlink raw p i \<and> validate_unlink_request p"
    and "d' = snd (link_step env u (now, op) d)"
    and "validate_unlink_request q"
  shows "link_step env' u (later, LinkStatus raw) d' = (LinkStatusOut (Inl doc_not_found), d') \<and>
    link_step env' u (later, LinkPull raw j) d' = (LinkDocOut (Inl doc_not_found), d') \<and>
    link_step env' u (later, LinkUnlink raw q j) d' = (LinkOut (Inl doc_not_found), d') \<and>
    require_owned_document raw u d' = Inr r \<and> require_no_link r u d' = Inr ()"
proof -
  obtain s1 where tok: "get_access_token (google env) c now (fresh_run d) = (Inl DriveAuthError, s1)"
    using assms(2) by (cases "get_access_token (google env) c now (fresh_run d)") auto
  have "d' = set_state_stmt (el_id l) u STATE_ERROR now (r_db s1)"
    using assms(3) tok assms(1)
    by (auto simp: assms(4) link_step_def link_status_def pull_document_def unlink_document_def
        token_for_unlink_def pull_failed_def andThen_def query_def catch_def commit_state_def transact_def
        raise_def ret_def fresh_run_def)
  then have d': "r_db (s1\<lparr>r_db := d'\<rparr>) = set_state_stmt (el_id l) u STATE_ERROR now (r_db s1)" by simp
  note gone = refused_grant [OF assms(1) tok d', simplified]
  show ?thesis using no_live_link [OF gone] gone(1) assms(5) by simp
qed

section \<open>Where the requests go\<close>

abbreviation "log_fixed ok \<equiv> \<lambda>s. \<forall>q \<in> set (r_log s). fixed_endpoint ok q"

lemma exchange_fixed:
  "fixed_endpoint ok req \<Longrightarrow> keeps (log_fixed ok) (exchange env req)"
  by (simp add: keeps_def exchange_def)

lemma token_fixed [keeps_intros]: "keeps (log_fixed ok) (get_access_token env c now)"
  by (rule get_access_token_keeps) (simp_all add: fixed_endpoint_def)

lemma file_requests_fixed:
  assumes "ok i"
  shows "fixed_endpoint ok (get_request tok (file_path i) ps)"
    and "fixed_endpoint ok (get_request tok (file_path i @ ''/export'') ps)"
    and "fixed_endpoint ok ((get_request tok (file_path i) ps)\<lparr>rq_method := DELETE\<rparr>)"
    and "fixed_endpoint ok (upload_request env tok name bytes)"
  using assms segment_safe_quote [of i]
  by (auto simp: fixed_endpoint_def get_request_def file_path_def upload_request_def case_prod_beta)

lemma drive_calls_fixed:
  assumes "ok i"
  shows "keeps (log_fixed ok) (get_version env tok i)" "keeps (log_fixed ok) (get_web_view_link env tok i)"
    "keeps (log_fixed ok) (export_markdown env tok i)" "keeps (log_fixed ok) (delete_file env tok i)"
    "keeps (log_fixed ok) (upload_with_conversion env tok name bytes)"
  unfolding get_version_def get_web_view_link_def files_get_def export_markdown_def
    upload_with_conversion_def delete_file_def
  by (intro keeps_intros exchange_fixed file_requests_fixed [where ok = ok and i = i, OF assms] |
      simp add: keeps_base split: http_reply.split)+

lemma transact_fixed: "keeps (log_fixed ok) (transact f)" "keeps (log_fixed ok) (commit_state l u st now)"
  by (rule keeps_transact, simp, unfold commit_state_def, rule keeps_transact, simp)

lemma run_pull_fixed: "ok (el_provider_file_id l) \<Longrightarrow> keeps (log_fixed ok) (run_pull_overwrite env r l tok u i now)"
  unfolding run_pull_overwrite_def by (intro keeps_intros drive_calls_fixed transact_fixed)

text \<open>The legs of the three routes that start from an existing link.\<close>

lemma linked_routes_fixed:
  assumes "ok (el_provider_file_id l)"
  shows "keeps (log_fixed ok) (andThen (get_access_token env' c now) (\<lambda>tok. run_pull_overwrite env r l tok u i now))"
    and "keeps (log_fixed ok) (pull_failed env l u now e)"
    and "keeps (log_fixed ok) (token_for_unlink env l c u now)"
    and "keeps (log_fixed ok) (final_pull env r l tok u i now)"
  unfolding pull_failed_def token_for_unlink_def final_pull_def using assms
  by (intro keeps_intros transact_fixed run_pull_fixed drive_calls_fixed; assumption)+

lemma query_then:
  "P s \<Longrightarrow> (\<And>x. f (r_db s) = Inr x \<Longrightarrow> keeps P (k x)) \<Longrightarrow> P (snd (andThen (query f) k s))"
  by (auto simp: andThen_def query_def keeps_def split: sum.split)

lemma linked_run_fixed:
  assumes "op = LinkStatus raw \<or> op = LinkPull raw i \<or> op = LinkUnlink raw p i"
    and ok: "\<And>r l c. linked_target raw u (r_db s) = Inr (r, l, c) \<Longrightarrow> ok (el_provider_file_id l)"
    and log: "log_fixed ok s"
  shows "log_fixed ok (snd (link_run env u (now, op) s))"
proof -
  have st: "log_fixed ok (snd (link_status env raw u now s))"
    unfolding link_status_def
  proof (rule query_then [where P = "log_fixed ok"], goal_cases)
    case (2 x)
    then obtain r l c where x: "x = (r, l, c)" and "ok (el_provider_file_id l)" using ok by (cases x) auto
    then show ?case unfolding x prod.case Let_def
      by (intro keeps_intros drive_calls_fixed transact_fixed)
  qed (rule log)
  have pl: "log_fixed ok (snd (pull_document env raw u i now s))"
    unfolding pull_document_def
  proof (rule query_then [where P = "log_fixed ok"], goal_cases)
    case (2 x)
    then obtain r l c where x: "x = (r, l, c)" and "ok (el_provider_file_id l)" using ok by (cases x) auto
    then show ?case unfolding x prod.case by (intro keeps_catch linked_routes_fixed)
  qed (rule log)
  have ul: "log_fixed ok (snd (unlink_document env raw p u i now s))"
  proof (cases "validate_unlink_request p")
    case True
    show ?thesis unfolding unlink_document_def if_not_P [OF True [THEN iffD2 [OF not_not]]]
    proof (rule query_then [where P = "log_fixed ok"], goal_cases)
      case (2 x)
      then obtain r l c where x: "x = (r, l, c)" and "ok (el_provider_file_id l)" using ok by (cases x) auto
      then show ?case unfolding x prod.case
        by (intro keeps_andThen keeps_cases linked_routes_fixed transact_fixed drive_calls_fixed keeps_base)
    qed (rule log)
  qed (simp add: unlink_document_def raise_def log)
  show ?thesis using assms(1) st pl ul by (elim disjE) simp_all
qed

lemma link_create_fixed:
  assumes "log_fixed (\<lambda>_. True) s"
  shows "log_fixed (\<lambda>_. True) (snd (link_run env u (now, LinkCreate raw i) s))"
proof -
  have "keeps (log_fixed (\<lambda>_. True)) (link_document env raw u i now)"
    unfolding link_document_def link_write_def
    by (intro keeps_intros drive_calls_fixed transact_fixed) simp_all
  from keepsD [where P = "log_fixed (\<lambda>_. True)", OF this assms] show ?thesis by simp
qed

text \<open>
  C17: no request leaves for an address an attacker could shape. Every HTTP request of the
  editor-link routes goes to Google's token endpoint, the upload endpoint or
  \<open>files/{id}\<close> (with \<open>/export\<close>), where the id is one percent-encoded path segment without any
  character that ends a segment; and status, pull and unlink only ever name the file id of the
  caller's own live link for that document.
\<close>

theorem requests_to_fixed_endpoints:
  "(\<forall>q \<in> set (r_log (snd (link_run env u (now, op) (fresh_run d)))). fixed_endpoint (\<lambda>_. True) q) \<and>
   (op = LinkStatus raw \<or> op = LinkPull raw i \<or> op = LinkUnlink raw p i \<longrightarrow>
     (\<forall>q \<in> set (r_log (snd (link_run env u (now, op) (fresh_run d)))).
        fixed_endpoint (\<lambda>f. \<exists>l \<in> set (editor_links d). el_user_id l = u \<and> el_state l = STATE_LINKED \<and>
          parse_uuid raw = Some (el_document_id l) \<and> el_provider_file_id l = f) q)) \<and>
   (segment_safe (url_quote f) \<and> set (url_quote f) \<inter> set ''/?#:@&='' = {})"
proof (intro conjI impI)
  let ?own = "\<lambda>f. \<exists>l \<in> set (editor_links d). el_user_id l = u \<and> el_state l = STATE_LINKED \<and>
          parse_uuid raw = Some (el_document_id l) \<and> el_provider_file_id l = f"
  have log: "log_fixed ok (fresh_run d)" for ok by (simp add: fresh_run_def)
  show "log_fixed (\<lambda>_. True) (snd (link_run env u (now, op) (fresh_run d)))"
  proof (cases op)
    case (LinkCreate x j)
    show ?thesis unfolding LinkCreate by (rule link_create_fixed [OF log])
  next
    case (LinkStatus x)
    then show ?thesis by (intro linked_run_fixed [where raw = x] log) simp_all
  next
    case (LinkPull x j)
    then show ?thesis by (intro linked_run_fixed [where raw = x and i = j] log) simp_all
  next
    case (LinkUnlink x y j)
    then show ?thesis by (intro linked_run_fixed [where raw = x and i = j and p = y] log) simp_all
  qed
  show "log_fixed ?own (snd (link_run env u (now, op) (fresh_run d)))"
    if "op = LinkStatus raw \<or> op = LinkPull raw i \<or> op = LinkUnlink raw p i"
  proof (rule linked_run_fixed [OF that _ log])
    fix r l c assume "linked_target raw u (r_db (fresh_run d)) = Inr (r, l, c)"
    note t = linked_target_Inr [OF this]
    show "?own (el_provider_file_id l)"
      using linked_row_mem [OF t(2)] gate_Inr(1) [OF t(1)] by (auto simp: fresh_run_def)
  qed
  show "segment_safe (url_quote f)" by (rule segment_safe_quote)
  show "set (url_quote f) \<inter> set ''/?#:@&='' = {}"
    using segment_safe_no_separator [OF segment_safe_quote] by blast
qed

section \<open>The cached token\<close>

lemma store_access_token_Inr:
  assumes "store_access_token env c t n now s = (Inr tok, s')"
  shows "\<exists>e ct. tok = t \<and> encrypt (token_vault env) (urandom env) t = Inr ct \<and>
    s' = s\<lparr>r_db := persist_access_token_stmt (oc_id c) (oc_user_id c) ct e now (r_db s)\<rparr>"
  using assms by (auto simp: store_access_token_def andThen_def of_result_def transact_def split: sum.splits)

lemma get_access_token_refreshed:
  assumes "\<not> access_token_valid (clock env 0) c" "get_access_token env c now s = (Inr tok, s')"
  shows "\<exists>e ct. encrypt (token_vault env) (urandom env) tok = Inr ct \<and>
    r_db s' = persist_access_token_stmt (oc_id c) (oc_user_id c) ct e now (r_db s)"
proof -
  obtain t n s1 where "store_access_token env c t n now s1 = (Inr tok, s')" "r_db s1 = r_db s"
    using assms
    by (auto simp: get_access_token_def andThen_def of_result_def exchange_def split: sum.splits prod.splits)
  then show ?thesis using store_access_token_Inr by fastforce
qed

text \<open>
  A refreshed access token is used again, not fetched again. After a refresh the caller's
  connection row holds it encrypted, with its refresh token as before; until sixty seconds
  before the stored expiry every later call on that row, in whatever state, returns exactly that
  token without sending a request or writing a row.
\<close>

theorem refreshed_token_reused:
  assumes law: "gcm_law (gcm (token_vault env))" and nonce: "length (urandom env) = NONCE_BYTES"
    and c: "c \<in> set (oauth_connections (r_db s))" and ids: "distinct (map oc_id (oauth_connections (r_db s)))"
    and stale: "\<not> access_token_valid (clock env 0) c"
    and run: "get_access_token env c now s = (Inr tok, s')"
  shows "\<exists>c' expiry. select_where (\<lambda>r. oc_id r = oc_id c) (oauth_connections (r_db s')) = [c'] \<and>
     oc_user_id c' = oc_user_id c \<and> oc_refresh_token_ciphertext c' = oc_refresh_token_ciphertext c \<and>
     oc_token_expiry c' = Some expiry \<and>
     (\<forall>env' now' t. token_vault env' = token_vault env \<and> clock env' 0 + 60000000 < expiry \<longrightarrow>
        get_access_token env' c' now' t = (Inr tok, t))"
proof -
  obtain e ct where ct: "encrypt (token_vault env) (urandom env) tok = Inr ct"
    and s': "r_db s' = persist_access_token_stmt (oc_id c) (oc_user_id c) ct e now (r_db s)"
    using get_access_token_refreshed [OF stale run] by blast
  let ?c = "c\<lparr>oc_access_token_ciphertext := Some ct, oc_token_expiry := Some e, oc_updated_at := now\<rparr>"
  have "filter (\<lambda>r. oc_id r = oc_id c) (oauth_connections (r_db s)) = [c]"
    using distinct_key_lookup [OF ids c, of "\<lambda>_. True"] by simp
  moreover have "select_where (\<lambda>r. oc_id r = oc_id c) (update_where q g t) =
      update_where q g (filter (\<lambda>r. oc_id r = oc_id c) t)"
    if "\<And>r. oc_id (g r) = oc_id r" for q g and t :: "oauth_connection list"
    using that by (induction t) (auto simp: update_where_def select_where_def)
  ultimately have "select_where (\<lambda>r. oc_id r = oc_id c) (oauth_connections (r_db s')) = [?c]"
    by (simp add: s' persist_access_token_stmt_def) (simp add: update_where_def)
  moreover have "decrypt (token_vault env) ct = Inr tok" by (rule decrypt_encrypt [OF law nonce ct])
  ultimately show ?thesis
    by (intro exI [of _ ?c] exI [of _ e])
       (simp add: get_access_token_def access_token_valid_def
          EXPIRY_SKEW_SECONDS_def of_result_def)
qed

section \<open>Concrete runs\<close>

definition demo_vault :: vault where
  "demo_vault = \<lparr>token_enc_key = replicate 64 (CHR ''0''),
     gcm = \<lparr>aes_encrypt = (\<lambda>key nonce pt. pt), aes_decrypt = (\<lambda>key nonce ct. Inr ct)\<rparr>\<rparr>"

definition demo_google :: "http_reply \<Rightarrow> google_env" where
  "demo_google token_reply = \<lparr>
     send = (\<lambda>log req. if rq_url req = GOOGLE_TOKEN_URL then token_reply
        else HttpReply 200 (Some (JObj [(''version'', JStr ''8'')])) ''# Amen''),
     clock = (\<lambda>_. 1000), google_client_id = ''id'', google_client_secret = ''secret'',
     token_vault = demo_vault, urandom = replicate 12 (CHR ''n''), uuid4_hex = ''0'', py_repr = (\<lambda>_. [])\<rparr>"

definition granted :: http_reply where
  "granted = HttpReply 200 (Some (JObj [(''access_token'', JStr ''tok''), (''expires_in'', JInt 3600)])) []"

definition revoked :: http_reply where
  "revoked = HttpReply 400 (Some (JObj [(''error'', JStr ''invalid_grant'')])) []"

definition demo_link_env :: "http_reply \<Rightarrow> link_env" where
  "demo_link_env token_reply = \<lparr>google = demo_google token_reply, to_docx = (\<lambda>_. Inr ''PK''),
     from_markdown = (\<lambda>_. Inr demo_body), expired_read = None\<rparr>"

definition demo_conn :: oauth_connection where
  "demo_conn = \<lparr>oc_id = 2, oc_user_id = 1, oc_provider = ''google'', oc_provider_account_email = ''a@b'',
     oc_refresh_token_ciphertext = replicate 12 (CHR ''n'') @ ''refresh'', oc_access_token_ciphertext = None,
     oc_token_expiry = None, oc_scopes = ''drive'', oc_created_at = 5, oc_updated_at = 5\<rparr>"

definition demo_link :: editor_link where
  "demo_link = \<lparr>el_id = 3, el_document_id = 7, el_user_id = 1, el_provider = ''google'',
     el_provider_file_id = ''f/1'', el_web_url = ''https://docs'', el_state = ''linked'',
     el_last_remote_version = Some ''7'', el_created_at = 6, el_updated_at = 6\<rparr>"

definition demo_link_db :: db where
  "demo_link_db = demo_db\<lparr>oauth_connections := [demo_conn], editor_links := [demo_link]\<rparr>"

lemma demo_key: "load_key demo_vault = Inr (replicate 32 (CHR 0x00))"
  by code_simp

lemma demo_links_ok: "links_ok demo_link_db"
  by (simp add: links_ok_def demo_link_db_def demo_db_def empty_db_def demo_link_def STATE_LINKED_def)

lemma demo_link_docs_wf: "docs_wf demo_link_db"
  using demo_db_wf by (simp add: docs_wf_def demo_link_db_def demo_db_def)

lemma demo_target: "linked_target (str_uuid 7) 1 demo_link_db = Inr (demo_doc, demo_link, demo_conn)"
  by (simp add: linked_target_def require_owned_document_def owned_active_stmt_def require_linked_row_def
      linked_row_stmt_def require_google_connection_def connection_stmt_def demo_link_db_def demo_db_def
      empty_db_def select_where_def demo_doc_def demo_link_def demo_conn_def STATE_LINKED_def PROVIDER_GOOGLE_def)

lemma demo_refresh_token: "decrypt demo_vault (oc_refresh_token_ciphertext demo_conn) = Inr ''refresh''"
  by code_simp

lemma demo_stale: "\<not> access_token_valid t demo_conn"
  by (simp add: access_token_valid_def demo_conn_def)

lemma demo_revoked_grant:
  "fst (get_access_token (google (demo_link_env revoked)) demo_conn now (fresh_run d)) = Inl DriveAuthError"
  using demo_stale demo_refresh_token
  by (simp add: get_access_token_def demo_link_env_def demo_google_def require_google_configured_def andThen_def
      of_result_def exchange_def fresh_run_def refresh_request_def revoked_def refresh_token_grant_def
      HTTP_OK_def refresh_rejected_def reply_get_def)

theorem editor_link_life_cycle_witness:
  "links_ok (snd (link_step (demo_link_env granted) 1 (9, LinkCreate (str_uuid 7) 4) demo_link_db)) \<and>
   link_write demo_doc 1 ''g'' ''u'' ''1'' 5 9 (fresh_run demo_link_db) = (Inl already_linked, fresh_run demo_link_db)"
proof -
  have fresh: "(4 :: uuid) \<notin> el_id ` set (editor_links demo_link_db)"
    by (simp add: demo_link_db_def demo_link_def)
  have live: "filter (live_on (doc_document_id demo_doc)) (editor_links demo_link_db) \<noteq> []"
    by (simp add: demo_link_db_def demo_link_def demo_doc_def live_on_def STATE_LINKED_def)
  show ?thesis
    using editor_link_life_cycle [OF demo_links_ok, where op = "LinkCreate (str_uuid 7) 4"
        and env = "demo_link_env granted" and u = 1 and now = 9 and r = demo_doc and f = "''g''" and w = "''u''"
        and v = "''1''" and new_id = 5] fresh live
    by auto
qed

lemma demo_token: "fst (get_access_token (google (demo_link_env granted)) demo_conn now (fresh_run d)) = Inr ''tok''"
  and demo_token_log: "rq_url ` set (r_log (snd (get_access_token (google (demo_link_env granted)) demo_conn now (fresh_run d)))) = {GOOGLE_TOKEN_URL}"
  using demo_stale demo_refresh_token
  by (simp_all add: get_access_token_def demo_link_env_def demo_google_def require_google_configured_def andThen_def
      of_result_def exchange_def fresh_run_def refresh_request_def granted_def refresh_token_grant_def
      HTTP_OK_def reply_get_def store_access_token_def add_seconds_def encrypt_def demo_key transact_def)

lemma endpoints_differ: "DRIVE_FILES_URL @ x \<noteq> GOOGLE_TOKEN_URL"
  by (simp add: DRIVE_FILES_URL_def GOOGLE_TOKEN_URL_def)

lemma demo_reads:
  "\<exists>s'. get_version (google (demo_link_env granted)) tk f s = (Inr ''8'', s') \<and> r_db s' = r_db s"
  "\<exists>s'. export_markdown (google (demo_link_env granted)) tk f s = (Inr ''# Amen'', s') \<and> r_db s' = r_db s"
  by (simp_all add: get_version_def files_get_def export_markdown_def andThen_def of_result_def exchange_def
      demo_link_env_def demo_google_def get_request_def file_path_def endpoints_differ metadata_body_def
      exported_text_def HTTP_OK_def ret_def)

lemma demo_run_pull:
  assumes s: "documents (r_db s) = documents demo_link_db" "sermon_doc_revisions (r_db s) = sermon_doc_revisions demo_link_db"
  shows "is_ok (fst (run_pull_overwrite (demo_link_env granted) demo_doc demo_link tk 1 i now s))"
proof -
  have wf: "docs_wf (r_db s)" using docs_wf_cong [OF s] demo_link_docs_wf by simp
  have act: "owned_active_stmt (doc_document_id demo_doc) 1 (r_db s) = [demo_doc]"
    using s(1) by (simp add: owned_active_stmt_def demo_link_db_def demo_db_def select_where_def demo_doc_def)
  have cap: "content_byte_size demo_body \<le> MAX_CONTENT_BYTES" using demo_body_size by simp
  obtain s1 where v: "get_version (google (demo_link_env granted)) tk (el_provider_file_id demo_link) s = (Inr ''8'', s1)"
    "r_db s1 = r_db s" using demo_reads(1) by blast
  obtain s2 where m: "export_markdown (google (demo_link_env granted)) tk (el_provider_file_id demo_link) s1 = (Inr ''# Amen'', s2)"
    "r_db s2 = r_db s" using demo_reads(2) v(2) by metis
  have conv: "from_markdown (demo_link_env granted) ''# Amen'' = Inr demo_body" by (simp add: demo_link_env_def)
  have "require_content_within_cap demo_body = Inr ()" using cap_ok cap by simp
  moreover obtain resp where "doc_to_response (apply_values (content_values demo_body) now demo_doc) = Inr resp"
    using doc_to_response_ok [OF snapshot_and_overwrite_good(3) [OF wf act cap demo_body_storable]] by blast
  ultimately show ?thesis
    using v m by (simp add: run_pull_overwrite_def andThen_def of_result_def converted_def conv transact_def
        pull_commit_def snapshot_and_overwrite_good(1) [OF wf act cap demo_body_storable])
qed

theorem pull_snapshot_first_witness:
  "case pull_document (demo_link_env granted) (str_uuid 7) 1 8 9 (fresh_run demo_link_db) of
     (Inl e, s') \<Rightarrow> False
   | (Inr resp, s') \<Rightarrow> dr_content resp = demo_body \<and>
       map el_last_remote_version (linked_row_stmt 7 1 (r_db s')) = [Some ''8'']"
proof -
  let ?tok = "get_access_token (google (demo_link_env granted)) demo_conn 9 (fresh_run demo_link_db)"
  let ?run = "pull_document (demo_link_env granted) (str_uuid 7) 1 8 9 (fresh_run demo_link_db)"
  obtain s1 where tok: "?tok = (Inr ''tok'', s1)" using demo_token by (metis prod.collapse)
  have "documents (r_db s1) = documents demo_link_db" "sermon_doc_revisions (r_db s1) = sermon_doc_revisions demo_link_db"
    using keeps_eqD [OF token_keeps_documents tok, of "documents demo_link_db" "sermon_doc_revisions demo_link_db"
        "editor_links demo_link_db"] rows_same_refl by (auto simp: fresh_run_def)
  note ok = demo_run_pull [OF this, of "''tok''" 8 9]
  obtain resp s2 where run: "run_pull_overwrite (demo_link_env granted) demo_doc demo_link ''tok'' 1 8 9 s1 = (Inr resp, s2)"
    using ok by (cases "run_pull_overwrite (demo_link_env granted) demo_doc demo_link ''tok'' 1 8 9 s1";
        cases "fst (run_pull_overwrite (demo_link_env granted) demo_doc demo_link ''tok'' 1 8 9 s1)") auto
  have eq: "?run = (Inr resp, s2)" using tok run
    by (simp add: pull_document_def andThen_def query_def demo_target catch_def) (simp add: fresh_run_def demo_target)
  have "cont = demo_body" if "from_markdown (demo_link_env granted) md = Inr cont" for md cont
    using that by (simp add: demo_link_env_def)
  moreover have "v = ''8''" if "drive_read (demo_link_env granted) tk f s v md" for tk f s v md
  proof -
    obtain s1 where "get_version (google (demo_link_env granted)) tk f s = (Inr ''8'', s1)" using demo_reads(1) by blast
    then show ?thesis using that by (simp add: drive_read_def)
  qed
  moreover have "doc_document_id r = 7" if "linked_target (str_uuid 7) 1 demo_link_db = Inr (r, l, c)" for r l c
    using that by (auto simp: demo_target demo_doc_def)
  ultimately show ?thesis using pull_snapshot_first [OF demo_link_docs_wf demo_links_ok eq] unfolding eq by fastforce
qed

theorem expired_grant_strands_link_witness:
  "link_step (demo_link_env granted) 1 (20, LinkPull (str_uuid 7) 5)
     (snd (link_step (demo_link_env revoked) 1 (9, LinkStatus (str_uuid 7)) demo_link_db)) =
   (LinkDocOut (Inl doc_not_found), snd (link_step (demo_link_env revoked) 1 (9, LinkStatus (str_uuid 7)) demo_link_db))"
  using expired_grant_strands_link [OF demo_target demo_revoked_grant, where op = "LinkStatus (str_uuid 7)"
      and q = "\<lparr>ur_mode = ''keep-app'', ur_extra = []\<rparr>" and env' = "demo_link_env granted" and later = 20 and j = 5
      and d' = "snd (link_step (demo_link_env revoked) 1 (9, LinkStatus (str_uuid 7)) demo_link_db)" and now = 9]
  by (simp add: validate_unlink_request_def)

theorem requests_to_fixed_endpoints_witness:
  "list_all (fixed_endpoint (\<lambda>f. f = ''f/1''))
     (r_log (snd (link_run (demo_link_env granted) 1 (9, LinkPull (str_uuid 7) 8) (fresh_run demo_link_db))))"
proof -
  let ?log = "r_log (snd (link_run (demo_link_env granted) 1 (9, LinkPull (str_uuid 7) 8) (fresh_run demo_link_db)))"
  have own: "(\<lambda>f. \<exists>l \<in> set (editor_links demo_link_db). el_user_id l = 1 \<and> el_state l = STATE_LINKED \<and>
          parse_uuid (str_uuid 7) = Some (el_document_id l) \<and> el_provider_file_id l = f) = (\<lambda>f. f = ''f/1'')"
    by (auto simp: demo_link_db_def demo_link_def STATE_LINKED_def fun_eq_iff)
  have "\<forall>q \<in> set ?log. fixed_endpoint (\<lambda>f. f = ''f/1'') q"
    using requests_to_fixed_endpoints [of "demo_link_env granted" 1 9 "LinkPull (str_uuid 7) 8" demo_link_db
        "str_uuid 7" 8, unfolded own] by blast
  then show ?thesis by (simp only: list_all_iff)
qed

theorem refreshed_token_reused_witness:
  "\<exists>c' expiry. oc_token_expiry c' = Some expiry \<and>
     (\<forall>now t. get_access_token ((demo_google revoked)\<lparr>clock := \<lambda>_. expiry - 60000001\<rparr>) c' now t = (Inr ''tok'', t))"
proof -
  let ?env = "google (demo_link_env granted)"
  have law: "gcm_law (gcm (token_vault ?env))" "length (urandom ?env) = NONCE_BYTES"
    by (simp_all add: gcm_law_def demo_link_env_def demo_google_def demo_vault_def NONCE_BYTES_def)
  have c: "demo_conn \<in> set (oauth_connections (r_db (fresh_run demo_link_db)))"
    "distinct (map oc_id (oauth_connections (r_db (fresh_run demo_link_db))))"
    by (simp_all add: fresh_run_def demo_link_db_def)
  obtain s1 where tok: "get_access_token ?env demo_conn 9 (fresh_run demo_link_db) = (Inr ''tok'', s1)"
    using demo_token by (metis prod.collapse)
  have vault: "token_vault ((demo_google revoked)\<lparr>clock := f\<rparr>) = token_vault ?env" for f
    by (simp add: demo_google_def demo_link_env_def)
  from refreshed_token_reused [OF law c demo_stale tok] show ?thesis using vault by fastforce
qed

end
