(* ===== verification/Editor_Links_Tenancy.thy ===== *)
theory Editor_Links_Tenancy
  imports Editor_Links_Correct
begin

text \<open>
  The editor-link routes under the tenant contract. Their one statement that looks beyond the
  caller's rows is the partial unique index; where every link belongs to the owner of its
  document (\<open>links_owned\<close>) it sees the caller's rows only.
\<close>

abbreviation put_db :: "db \<Rightarrow> run \<Rightarrow> run" where
  "put_db d s \<equiv> s\<lparr>r_db := d\<rparr>"

abbreviation run_local :: "(db \<Rightarrow> bool) \<Rightarrow> uuid \<Rightarrow> (run, 'a) handler \<Rightarrow> bool" where
  "run_local Q u m \<equiv> tenant_local put_db r_db (\<lambda>s. Q (r_db s)) u m"

definition links_owned :: "db \<Rightarrow> bool" where
  "links_owned d \<longleftrightarrow> distinct (map doc_document_id (documents d)) \<and>
     (\<forall>l \<in> set (editor_links d). \<exists>x \<in> set (documents d).
        doc_document_id x = el_document_id l \<and> doc_user_id x = el_user_id l)"

text \<open>The same with a document the caller is known to own.\<close>

definition owns_doc :: "uuid \<Rightarrow> uuid \<Rightarrow> db \<Rightarrow> bool" where
  "owns_doc u i d \<longleftrightarrow> links_owned d \<and> (\<exists>x \<in> set (documents d). doc_document_id x = i \<and> doc_user_id x = u)"

definition doc_keys :: "db \<Rightarrow> (uuid \<times> uuid) list" where
  "doc_keys d = map (\<lambda>x. (doc_document_id x, doc_user_id x)) (documents d)"

definition link_keys :: "db \<Rightarrow> (uuid \<times> uuid) list" where
  "link_keys d = map (\<lambda>l. (el_document_id l, el_user_id l)) (editor_links d)"

lemma links_owned_keys:
  "links_owned d \<longleftrightarrow> distinct (map fst (doc_keys d)) \<and> set (link_keys d) \<subseteq> set (doc_keys d)"
proof -
  have "(i, u) \<in> set (doc_keys d) \<longleftrightarrow> (\<exists>x \<in> set (documents d). doc_document_id x = i \<and> doc_user_id x = u)" for i u
    by (auto simp: doc_keys_def)
  then show ?thesis by (simp add: links_owned_def link_keys_def image_subset_iff) (simp add: doc_keys_def comp_def)
qed

lemma owns_doc_keys: "owns_doc u i d \<longleftrightarrow> links_owned d \<and> (i, u) \<in> set (doc_keys d)"
  by (auto simp: owns_doc_def doc_keys_def)

lemma owns_doc_link: "owns_doc u i d \<Longrightarrow> l \<in> set (editor_links d) \<Longrightarrow> el_document_id l = i \<Longrightarrow> el_user_id l = u"
  using eq_key_imp_eq_value [of "doc_keys d" i u "el_user_id l"]
  by (fastforce simp: owns_doc_keys links_owned_keys link_keys_def)

text \<open>A condition on the two key lists.\<close>

definition on_keys :: "(db \<Rightarrow> bool) \<Rightarrow> bool" where
  "on_keys Q \<longleftrightarrow> (\<forall>d d'. doc_keys d = doc_keys d' \<longrightarrow> link_keys d = link_keys d' \<longrightarrow> Q d = Q d')"

lemma on_keys_links_owned: "on_keys links_owned" "on_keys (owns_doc u i)"
  by (simp_all add: on_keys_def links_owned_keys owns_doc_keys)

lemma local_exchange: "run_local Q u (exchange env req)"
  by (simp add: tenant_local_def exchange_def)

lemma local_query:
  "(\<And>d. f (tenant_view u d) = f d) \<Longrightarrow> run_local Q u (query f)"
  by (simp add: tenant_local_def query_def)

lemma local_transact:
  assumes "\<And>d. Q d \<Longrightarrow> f (tenant_view u d) = map_prod id (tenant_view u) (f d)"
    and "\<And>d w. Q d \<Longrightarrow> u \<noteq> w \<Longrightarrow> tenant_view w (snd (f d)) = tenant_view w d"
    and "\<And>d. Q d \<Longrightarrow> Q (snd (f d))"
  shows "run_local Q u (transact f)"
  unfolding tenant_local_def
proof (intro allI impI)
  fix s :: run assume q: "Q (r_db s)"
  obtain r d where f: "f (r_db s) = (r, d)" by (cases "f (r_db s)")
  note at = assms(1) [OF q, unfolded f] assms(2) [OF q, unfolded f] assms(3) [OF q, unfolded f]
  show "Q (r_db (snd (transact f s))) \<and>
        transact f (put_db (tenant_view u (r_db s)) s) =
          map_prod id (\<lambda>s'. put_db (tenant_view u (r_db s')) s') (transact f s) \<and>
        (\<forall>w. u \<noteq> w \<longrightarrow> tenant_view w (r_db (snd (transact f s))) = tenant_view w (r_db s))"
    using at q by (cases r) (simp_all add: transact_def f)
qed

lemma local_query_then:
  assumes f: "\<And>d. f (tenant_view u d) = f d"
    and R: "\<And>d x. Q d \<Longrightarrow> f d = Inr x \<Longrightarrow> R x d" and RQ: "\<And>d x. R x d \<Longrightarrow> Q d"
    and k: "\<And>x. run_local (R x) u (k x)"
  shows "run_local Q u (andThen (query f) k)"
  unfolding tenant_local_def
proof (intro allI impI)
  fix s :: run assume q: "Q (r_db s)"
  show "Q (r_db (snd (andThen (query f) k s))) \<and>
        andThen (query f) k (put_db (tenant_view u (r_db s)) s) =
          map_prod id (\<lambda>s'. put_db (tenant_view u (r_db s')) s') (andThen (query f) k s) \<and>
        (\<forall>w. u \<noteq> w \<longrightarrow> tenant_view w (r_db (snd (andThen (query f) k s))) = tenant_view w (r_db s))"
  proof (cases "f (r_db s)")
    case (Inr x)
    note at = tenant_localD [OF k R [OF q Inr]]
    then show ?thesis using Inr RQ by (simp add: andThen_def query_def f)
  qed (simp add: andThen_def query_def f q)
qed

section \<open>Statements and legs\<close>

lemma link_stmts_tenant_view [tenant_simps]:
  "connection_stmt u p (tenant_view u d) = connection_stmt u p d"
  "linked_row_stmt i u (tenant_view u d) = linked_row_stmt i u d"
  "persist_access_token_stmt i u ct e now (tenant_view u d) = tenant_view u (persist_access_token_stmt i u ct e now d)"
  "set_version_stmt i u v now (tenant_view u d) = tenant_view u (set_version_stmt i u v now d)"
  "set_state_stmt i u st now (tenant_view u d) = tenant_view u (set_state_stmt i u st now d)"
  by (simp_all add: connection_stmt_def linked_row_stmt_def persist_access_token_stmt_def
      set_version_stmt_def set_state_stmt_def tenant_simps)

lemma link_stmts_frame [tenant_simps]:
  "u \<noteq> w \<Longrightarrow> tenant_view w (persist_access_token_stmt i u ct e now d) = tenant_view w d"
  "u \<noteq> w \<Longrightarrow> tenant_view w (set_version_stmt i u v now d) = tenant_view w d"
  "u \<noteq> w \<Longrightarrow> tenant_view w (set_state_stmt i u st now d) = tenant_view w d"
  by (simp_all add: persist_access_token_stmt_def set_version_stmt_def set_state_stmt_def tenant_simps tenant_frame)

lemma link_gates_tenant_view [tenant_simps]:
  "require_google_connection u (tenant_view u d) = require_google_connection u d"
  "require_no_link r u (tenant_view u d) = require_no_link r u d"
  "require_linked_row r u (tenant_view u d) = require_linked_row r u d"
  "linked_target raw u (tenant_view u d) = linked_target raw u d"
  by (simp_all add: require_google_connection_def require_no_link_def require_linked_row_def linked_target_def
      tenant_simps cong: sum.case_cong)

lemma keys_simps [simp]:
  "doc_keys (persist_access_token_stmt i u ct e now d) = doc_keys d"
  "link_keys (persist_access_token_stmt i u ct e now d) = link_keys d"
  "doc_keys (set_version_stmt i u v now d) = doc_keys d" "link_keys (set_version_stmt i u v now d) = link_keys d"
  "doc_keys (set_state_stmt i u st now d) = doc_keys d" "link_keys (set_state_stmt i u st now d) = link_keys d"
  "doc_keys (revision_insert_stmt r u src i now d) = doc_keys d"
  "link_keys (revision_insert_stmt r u src i now d) = link_keys d"
  "doc_keys (snd (doc_update_stmt i u vals now d)) = doc_keys d"
  "link_keys (snd (doc_update_stmt i u vals now d)) = link_keys d"
  by (simp_all add: doc_keys_def link_keys_def persist_access_token_stmt_def set_version_stmt_def set_state_stmt_def
      revision_insert_stmt_def doc_update_stmt_def Let_def update_where_def comp_def if_distrib cong: if_cong)

lemma on_keysD: "on_keys Q \<Longrightarrow> doc_keys d' = doc_keys d \<Longrightarrow> link_keys d' = link_keys d \<Longrightarrow> Q d \<Longrightarrow> Q d'"
  unfolding on_keys_def by blast

lemma snapshot_keys:
  "doc_keys (snd (snapshot_and_overwrite r c src u i now d)) = doc_keys d"
  "link_keys (snd (snapshot_and_overwrite r c src u i now d)) = link_keys d"
  by (simp_all add: snapshot_and_overwrite_def case_prod_beta split: sum.split)

lemma pull_commit_scoped:
  "pull_commit r l c v u i now (tenant_view u d) = map_prod id (tenant_view u) (pull_commit r l c v u i now d)"
  "u \<noteq> w \<Longrightarrow> tenant_view w (snd (pull_commit r l c v u i now d)) = tenant_view w d"
  using scopedD [OF snapshot_and_overwrite_scoped [of u r c "''pull''" i now]]
  by (simp_all add: pull_commit_def case_prod_beta tenant_simps split: sum.split)

lemma pull_commit_keys:
  "doc_keys (snd (pull_commit r l c v u i now d)) = doc_keys d"
  "link_keys (snd (pull_commit r l c v u i now d)) = link_keys d"
  using snapshot_keys [of r c "''pull''" u i now d]
  by (simp_all add: pull_commit_def case_prod_beta split: sum.split)

lemma commit_state_local: "on_keys Q \<Longrightarrow> run_local Q u (commit_state l u st now)"
  unfolding commit_state_def
  by (rule local_transact) (auto simp: tenant_simps elim: on_keysD)

lemma token_local: "on_keys Q \<Longrightarrow> oc_user_id c = u \<Longrightarrow> run_local Q u (get_access_token env c now)"
  unfolding get_access_token_def store_access_token_def
  by (intro keeps_intros local_exchange local_transact) (auto simp: tenant_simps elim: on_keysD)

lemma drive_calls_local:
  "run_local Q u (get_version env tok i)" "run_local Q u (get_web_view_link env tok i)"
  "run_local Q u (export_markdown env tok i)" "run_local Q u (delete_file env tok i)"
  "run_local Q u (upload_with_conversion env tok name bytes)"
  unfolding get_version_def get_web_view_link_def files_get_def export_markdown_def
    upload_with_conversion_def delete_file_def
  by (intro keeps_intros local_exchange | simp add: tenant_local_base split: http_reply.split)+

lemma run_pull_local: "on_keys Q \<Longrightarrow> run_local Q u (run_pull_overwrite env r l tok u i now)"
  unfolding run_pull_overwrite_def
  by (intro keeps_intros drive_calls_local local_transact)
     (auto simp: pull_commit_scoped pull_commit_keys elim: on_keysD)

section \<open>Routes\<close>

lemma link_insert_scoped:
  assumes "owns_doc u i d"
  shows "link_insert_stmt i u p f w v n now (tenant_view u d) = map_prod id (tenant_view u) (link_insert_stmt i u p f w v n now d)"
    and "u \<noteq> x \<Longrightarrow> tenant_view x (snd (link_insert_stmt i u p f w v n now d)) = tenant_view x d"
    and "owns_doc u i (snd (link_insert_stmt i u p f w v n now d))"
proof -
  have own: "el_user_id l = u" if "l \<in> set (editor_links d)" "el_document_id l = i" for l
    using owns_doc_link [OF assms] that by blast
  then have "select_where (\<lambda>l. el_document_id l = i \<and> el_state l = STATE_LINKED) (owned_rows el_user_id u (editor_links d)) =
      select_where (\<lambda>l. el_document_id l = i \<and> el_state l = STATE_LINKED) (editor_links d)"
    by (auto simp: select_where_def owned_rows_def intro!: filter_cong)
  then show "link_insert_stmt i u p f w v n now (tenant_view u d) = map_prod id (tenant_view u) (link_insert_stmt i u p f w v n now d)"
    by (simp add: link_insert_stmt_def tenant_simps)
  show "u \<noteq> x \<Longrightarrow> tenant_view x (snd (link_insert_stmt i u p f w v n now d)) = tenant_view x d"
    by (simp add: link_insert_stmt_def tenant_simps)
  show "owns_doc u i (snd (link_insert_stmt i u p f w v n now d))"
  proof (cases "select_where (\<lambda>l. el_document_id l = i \<and> el_state l = STATE_LINKED) (editor_links d) = []")
    case True
    have "doc_keys (snd (link_insert_stmt i u p f w v n now d)) = doc_keys d"
      "link_keys (snd (link_insert_stmt i u p f w v n now d)) = link_keys d @ [(i, u)]"
      using True by (simp_all add: link_insert_stmt_def doc_keys_def link_keys_def)
    then show ?thesis using assms by (auto simp: owns_doc_keys links_owned_keys)
  qed (simp add: link_insert_stmt_def assms)
qed

lemma link_write_local: "run_local (owns_doc u (doc_document_id r)) u (link_write r u f w v n now)"
  unfolding link_write_def
  by (intro keeps_intros local_transact) (rule link_insert_scoped; assumption)+

lemma connection_owner: "require_google_connection u d = Inr c \<Longrightarrow> oc_user_id c = u"
proof -
  assume "require_google_connection u d = Inr c"
  then have "connection_stmt u PROVIDER_GOOGLE d = [c]"
    by (auto simp: require_google_connection_def scalar_Some_conv split: sum.splits option.splits)
  then have "c \<in> set (connection_stmt u PROVIDER_GOOGLE d)" by simp
  then show ?thesis by (simp add: connection_stmt_def)
qed

lemma link_document_local: "run_local links_owned u (link_document env raw u n now)"
  unfolding link_document_def
proof (rule local_query_then [where R = "\<lambda>r. owns_doc u (doc_document_id r)"], goal_cases)
  case (2 d r)
  have "r \<in> set (documents d)" "doc_user_id r = u" using owned_active_mem [OF gate_Inr(2) [OF 2(2)]] by simp_all
  then show ?case using 2(1) by (auto simp: owns_doc_def)
next
  case (4 r)
  show ?case
  proof (rule tenant_local_andThen [OF local_query], simp add: tenant_simps,
      rule local_query_then [where R = "\<lambda>c d. owns_doc u (doc_document_id r) d \<and> oc_user_id c = u"], goal_cases)
    case (4 _ c)
    have on: "on_keys (owns_doc u (doc_document_id r))" by (rule on_keys_links_owned)
    show ?case
    proof (cases "oc_user_id c = u")
      case True
      show ?thesis
        by (simp only: True simp_thms, intro keeps_intros drive_calls_local token_local [OF on True] link_write_local)
    qed (simp add: tenant_local_def)
  qed (auto simp: tenant_simps connection_owner)
qed (simp_all add: tenant_simps owns_doc_def)

lemma linked_target_owner: "linked_target raw u d = Inr (r, l, c) \<Longrightarrow> oc_user_id c = u"
  by (auto simp: linked_target_def dest!: connection_owner split: sum.splits)

lemma linked_local:
  assumes "on_keys Q" and k: "\<And>r l c. oc_user_id c = u \<Longrightarrow> run_local Q u (k (r, l, c))"
  shows "run_local Q u (andThen (query (linked_target raw u)) k)"
proof (rule local_query_then [where R = "\<lambda>x d. Q d \<and> oc_user_id (snd (snd x)) = u"], goal_cases)
  case (4 x)
  obtain r l c where x: "x = (r, l, c)" by (cases x) auto
  show ?case
  proof (cases "oc_user_id c = u")
    case True
    then show ?thesis using k [OF True, of r l] by (simp add: x)
  qed (simp add: tenant_local_def x)
qed (auto simp: tenant_simps dest: linked_target_owner)

lemma linked_legs_local:
  assumes on: "on_keys Q" and c: "oc_user_id c = u"
  shows "run_local Q u (pull_failed env l u now e)"
    and "run_local Q u (token_for_unlink env l c u now)"
    and "run_local Q u (final_pull env r l tok u i now)"
  unfolding pull_failed_def token_for_unlink_def final_pull_def
  by (intro keeps_intros drive_calls_local token_local [OF on c] run_pull_local [OF on] commit_state_local [OF on])+

lemma linked_routes_local:
  assumes on: "on_keys Q"
  shows "run_local Q u (link_status env raw u now)"
    and "run_local Q u (pull_document env raw u i now)"
    and "run_local Q u (unlink_document env raw p u i now)"
proof -
  note legs = linked_legs_local [OF on] drive_calls_local token_local [OF on] run_pull_local [OF on] commit_state_local [OF on]
  show "run_local Q u (link_status env raw u now)"
    unfolding link_status_def Let_def by (rule linked_local [OF on], unfold prod.case, intro keeps_intros legs)
  show "run_local Q u (pull_document env raw u i now)"
    unfolding pull_document_def by (rule linked_local [OF on], unfold prod.case, intro keeps_intros legs)
  show "run_local Q u (unlink_document env raw p u i now)"
    unfolding unlink_document_def
    by (intro tenant_local_cases(1) tenant_local_base linked_local [OF on], unfold prod.case, intro keeps_intros legs)
qed

text \<open>The resource as a tenant step, admissible where every link belongs to its document's owner.\<close>

lemma link_run_local: "run_local links_owned u (\<lambda>s. map_prod Inr id (link_run env u op s))"
proof -
  obtain now x where op: "op = (now, x)" by (cases op)
  have out: "run_local Q u m \<Longrightarrow> run_local Q u (\<lambda>s. map_prod Inr id (map_prod f id (m s)))"
    for Q and m :: "(run, 'a) handler" and f :: "'a result \<Rightarrow> link_out"
    by (simp add: tenant_local_def prod.map_comp comp_def)
  show ?thesis
    by (cases x) (simp_all only: op link_run.simps, (rule out, (rule link_document_local | rule linked_routes_local [OF on_keys_links_owned(1)]))+)
qed

lemma link_step_scoped: "scoped_if links_owned u (link_step env u op)"
proof (rule scoped_ifI)
  fix d w assume Q: "links_owned d"
  then have run: "links_owned (r_db (fresh_run d))" by (simp add: fresh_run_def)
  have view: "put_db (tenant_view u d) (fresh_run d) = fresh_run (tenant_view u d)" by (simp add: fresh_run_def)
  note at = tenant_localD [OF link_run_local [of u env op] run]
  show "link_step env u op (tenant_view u d) = map_prod id (tenant_view u) (link_step env u op d)"
    using at(2) by (simp add: link_step_def view [symmetric] prod_eq_iff) (simp add: fresh_run_def)
  show "tenant_view w (snd (link_step env u op d)) = tenant_view w d" if "u \<noteq> w"
    using at(3) [OF that] by (simp add: link_step_def) (simp add: fresh_run_def)
qed

text \<open>Besides, the invariant survives.\<close>

lemma link_step_owned: "links_owned d \<Longrightarrow> links_owned (snd (link_step env u op d))"
  using tenant_localD(1) [OF link_run_local [of u env op], of "fresh_run d"] by (simp add: link_step_def fresh_run_def)

interpretation links: tenant_step tenant_view "link_step env" "\<lambda>_. links_owned"
  by (rule scoped_step) (rule link_step_scoped)

end
