(* ===== verification/Base64url.thy ===== *)
theory Base64url
  imports Py_Base
begin

text \<open>
  The unpadded URL-safe base64 of \<open>api/integrations.py\<close> (\<open>_b64url\<close>, \<open>_b64url_decode\<close>) over
  the standard library: \<open>urlsafe_b64encode\<close>, and \<open>urlsafe_b64decode\<close> with its lenient scanner
  (characters outside the alphabet are skipped, a complete padding ends the input).
\<close>

text \<open>Six-bit groups of a byte string, and back.\<close>

fun sextets :: "nat list \<Rightarrow> nat list" where
  "sextets [] = []"
| "sextets [a] = [a div 4, (a mod 4) * 16]"
| "sextets [a, b] = [a div 4, (a mod 4) * 16 + b div 16, (b mod 16) * 4]"
| "sextets (a # b # c # rest) =
     [a div 4, (a mod 4) * 16 + b div 16, (b mod 16) * 4 + c div 64, c mod 64] @ sextets rest"

definition b64_char :: "nat \<Rightarrow> char" where
  "b64_char v = (if v < 26 then char_of (65 + v) else if v < 52 then char_of (71 + v)
     else if v < 62 then char_of (v - 4) else if v = 62 then CHR ''-'' else CHR ''_'')"

text \<open>The decoding table after the translation of \<open>-_\<close> to \<open>+/\<close>: both spellings are read.\<close>

definition b64_value :: "char \<Rightarrow> nat option" where
  "b64_value c = (let n = of_char c :: nat in
     if 65 \<le> n \<and> n \<le> 90 then Some (n - 65)
     else if 97 \<le> n \<and> n \<le> 122 then Some (n - 71)
     else if 48 \<le> n \<and> n \<le> 57 then Some (n + 4)
     else if c \<in> set ''-+'' then Some 62
     else if c \<in> set ''_/'' then Some 63 else None)"

definition b64url :: "string \<Rightarrow> string" where
  "b64url raw = map b64_char (sextets (map of_char raw))"

text \<open>
  \<open>binascii.a2b_base64\<close>, non-strict: position in the quad, the bits left over, the pads seen.
\<close>

fun a2b_base64 :: "nat \<Rightarrow> nat \<Rightarrow> nat \<Rightarrow> string \<Rightarrow> nat list option" where
  "a2b_base64 q left pads [] = (if q = 0 then Some [] else None)"
| "a2b_base64 q left pads (c # cs) =
     (if c = CHR ''='' then
        (if 2 \<le> q \<and> 4 \<le> q + (pads + 1) then Some []
         else a2b_base64 q left (if 2 \<le> q then pads + 1 else pads) cs)
      else case b64_value c of
        None \<Rightarrow> a2b_base64 q left pads cs
      | Some v \<Rightarrow>
          if q = 0 then a2b_base64 1 v 0 cs
          else if q = 1 then map_option (Cons (left * 4 + v div 16)) (a2b_base64 2 (v mod 16) 0 cs)
          else if q = 2 then map_option (Cons (left * 16 + v div 4)) (a2b_base64 3 (v mod 4) 0 cs)
          else map_option (Cons (left * 64 + v)) (a2b_base64 0 0 0 cs))"

definition b64url_decode :: "string \<Rightarrow> string result" where
  "b64url_decode s =
     (if \<exists>c \<in> set s. 128 \<le> (of_char c :: nat) then Inl ValueError
      else case a2b_base64 0 0 0 (s @ replicate (nat (- int (length s) mod 4)) (CHR ''='')) of
        None \<Rightarrow> Inl ValueError
      | Some bs \<Rightarrow> Inr (map char_of bs))"

section \<open>Round trip\<close>

lemma b64_value_char: "v < 64 \<Longrightarrow> b64_value (b64_char v) = Some v"
  by (auto simp: b64_value_def b64_char_def Let_def of_char_of)

lemma b64_char_not: "v < 64 \<Longrightarrow> b64_char v \<noteq> CHR ''='' \<and> b64_char v \<noteq> CHR ''.'' \<and> (of_char (b64_char v) :: nat) < 128"
proof -
  assume v: "v < 64"
  have "b64_value CHR ''='' = None" "b64_value CHR ''.'' = None" by code_simp+
  moreover have "(of_char (b64_char v) :: nat) < 128" using v by (auto simp: b64_char_def of_char_of)
  ultimately show ?thesis using b64_value_char [OF v] by auto
qed

lemma quot_rem:
  fixes x y m :: nat
  assumes "y < m"
  shows "(x * m + y) div m = x" "(x * m + y) mod m = y"
  using assms by simp_all

lemma byte_split:
  fixes a b c :: nat
  shows "b < 256 \<Longrightarrow> a div 4 * 4 + (a mod 4 * 16 + b div 16) div 16 = a"
    and "c < 256 \<Longrightarrow> b < 256 \<Longrightarrow> (a mod 4 * 16 + b div 16) mod 16 * 16 + (b mod 16 * 4 + c div 64) div 4 = b"
    and "c < 256 \<Longrightarrow> (b mod 16 * 4 + c div 64) mod 4 * 64 + c mod 64 = c"
proof -
  have b16: "b div 16 < 16" if "b < 256" using that by (simp add: div_less_iff_less_mult)
  have c64: "c div 64 < 4" if "c < 256" using that by (simp add: div_less_iff_less_mult)
  show "b < 256 \<Longrightarrow> a div 4 * 4 + (a mod 4 * 16 + b div 16) div 16 = a"
    using quot_rem(1) [OF b16] by simp
  show "c < 256 \<Longrightarrow> b < 256 \<Longrightarrow> (a mod 4 * 16 + b div 16) mod 16 * 16 + (b mod 16 * 4 + c div 64) div 4 = b"
    using quot_rem(2) [OF b16] quot_rem(1) [OF c64] by simp
  show "c < 256 \<Longrightarrow> (b mod 16 * 4 + c div 64) mod 4 * 64 + c mod 64 = c"
    using quot_rem(2) [OF c64] by simp
qed

lemma sextet_bounds:
  fixes a b c :: nat
  shows "a < 256 \<Longrightarrow> a div 4 < 64" "a mod 4 * 16 < 64" "b < 256 \<Longrightarrow> a mod 4 * 16 + b div 16 < 64"
    "b mod 16 * 4 < 64" "c < 256 \<Longrightarrow> b mod 16 * 4 + c div 64 < 64" "c mod 64 < 64"
proof -
  have m: "a mod 4 \<le> 3" "b mod 16 \<le> 15" by (simp_all add: less_Suc_eq_le [symmetric])
  show "a < 256 \<Longrightarrow> a div 4 < 64" by (simp add: div_less_iff_less_mult)
  show "a mod 4 * 16 < 64" "b mod 16 * 4 < 64" using m by simp_all
  show "a mod 4 * 16 + b div 16 < 64" if "b < 256"
  proof -
    have "b div 16 < 16" using that by (simp add: div_less_iff_less_mult)
    then show ?thesis using m(1) by linarith
  qed
  show "b mod 16 * 4 + c div 64 < 64" if "c < 256"
  proof -
    have "c div 64 < 4" using that by (simp add: div_less_iff_less_mult)
    then show ?thesis using m(2) by linarith
  qed
  show "c mod 64 < 64" by simp
qed

lemma sextets_bound: "\<forall>b \<in> set bs. b < 256 \<Longrightarrow> v \<in> set (sextets bs) \<Longrightarrow> v < 64"
  by (induction bs rule: sextets.induct) (auto simp: sextet_bounds)

lemma length_sextets: "length (sextets bs) mod 4 = (if length bs mod 3 = 0 then 0 else length bs mod 3 + 1)"
  by (induction bs rule: sextets.induct) auto

lemma a2b_char:
  assumes "v < 64"
  shows "a2b_base64 0 l p (b64_char v # cs) = a2b_base64 1 v 0 cs"
    "a2b_base64 (Suc 0) l p (b64_char v # cs) = map_option (Cons (l * 4 + v div 16)) (a2b_base64 2 (v mod 16) 0 cs)"
    "a2b_base64 2 l p (b64_char v # cs) = map_option (Cons (l * 16 + v div 4)) (a2b_base64 3 (v mod 4) 0 cs)"
    "a2b_base64 3 l p (b64_char v # cs) = map_option (Cons (l * 64 + v)) (a2b_base64 0 0 0 cs)"
  using b64_char_not [OF assms] b64_value_char [OF assms] by simp_all

lemma a2b_pad:
  "a2b_base64 2 l 0 [CHR ''='', CHR ''=''] = Some []" "a2b_base64 3 l 0 [CHR ''=''] = Some []"
  "a2b_base64 0 l 0 [] = Some []"
  by simp_all

declare a2b_base64.simps [simp del]

lemma replicate_two: "replicate 2 x = [x, x]"
  by (simp add: numeral_2_eq_2)

lemma pad_length:
  fixes n r :: nat
  assumes "n mod 4 = (if r = 0 then 0 else r + 1)" "r < 3"
  shows "nat (- int n mod 4) = (3 - r) mod 3"
proof -
  have "r = 0 \<or> r = 1 \<or> r = 2" using assms(2) by linarith
  moreover have "int n mod 4 = int (n mod 4)" by (simp add: zmod_int)
  ultimately consider "int n mod 4 = 0" "r = 0" | "int n mod 4 = 2" "r = 1" | "int n mod 4 = 3" "r = 2"
    using assms(1) by auto
  then show ?thesis
  proof cases
    case 1
    then have "- int n mod 4 = 0" by presburger
    with 1 show ?thesis by simp
  next
    case 2
    then have "- int n mod 4 = 2" by presburger
    with 2 show ?thesis by simp
  next
    case 3
    then have "- int n mod 4 = 1" by presburger
    with 3 show ?thesis by simp
  qed
qed

lemma a2b_sextets:
  assumes "\<forall>b \<in> set bs. b < 256"
  shows "a2b_base64 0 0 0 (map b64_char (sextets bs) @
     replicate ((3 - length bs mod 3) mod 3) (CHR ''='')) = Some bs"
  using assms
proof (induction bs rule: sextets.induct)
  case (2 a)
  then show ?case using byte_split(1) [of 0 a]
    by (simp add: a2b_char sextet_bounds a2b_pad replicate_two numeral_2_eq_2 [symmetric])
next
  case (3 a b)
  then show ?case using byte_split(1) [of b a] byte_split(2) [of 0 b a]
    by (simp add: a2b_char sextet_bounds a2b_pad)
next
  case (4 a b c rest)
  have "b div 16 < 16" "c div 64 < 4" using 4(2) by (simp_all add: div_less_iff_less_mult)
  then have "b div 16 div 16 = 0" "b div 16 mod 16 = b div 16" "c div 64 div 4 = 0" "c div 64 mod 4 = c div 64"
    by simp_all
  then show ?case using 4 by (simp add: a2b_char sextet_bounds del: if_split)
qed (simp add: a2b_pad)

lemma b64url_decode_encode [simp]: "b64url_decode (b64url bs) = Inr bs"
proof -
  let ?ns = "map of_char bs :: nat list"
  have b: "\<forall>n \<in> set ?ns. n < 256" by simp
  have low: "(of_char c :: nat) < 128" if "c \<in> set (b64url bs)" for c
    using that b64_char_not sextets_bound [OF b] by (auto simp: b64url_def)
  have len: "length (b64url bs) mod 4 = (if length bs mod 3 = 0 then 0 else length bs mod 3 + 1)"
    using length_sextets [of ?ns] by (simp add: b64url_def)
  have "nat (- int (length (b64url bs)) mod 4) = (3 - length bs mod 3) mod 3"
    using pad_length [OF len] by simp
  then have "a2b_base64 0 0 0 (b64url bs @ replicate (nat (- int (length (b64url bs)) mod 4)) (CHR ''='')) = Some ?ns"
    using a2b_sextets [OF b] by (simp add: b64url_def del: if_split)
  moreover have "map char_of ?ns = bs" by (simp add: comp_def)
  ultimately show ?thesis using low by (auto simp: b64url_decode_def not_le)
qed

lemma dot_notin_b64url: "CHR ''.'' \<notin> set (b64url bs)"
proof -
  have b: "\<forall>n \<in> set (map of_char bs :: nat list). n < 256" by simp
  show ?thesis using b64_char_not sextets_bound [OF b] by (fastforce simp: b64url_def)
qed

end
