(* ===== verification/Integrations.thy ===== *)
theory Integrations
  imports Drive_Client Base64url
begin

text \<open>
  \<open>api/integrations.py\<close>: the OAuth connection of a provider. The signed \<open>state\<close> token, the
  single-use PKCE verifier in Redis, the callback with its validation order, listing and
  revoking. HMAC-SHA256 and SHA-256 are parameters, and so is \<open>parse_state\<close>, pydantic's
  validation of the decoded payload (\<open>None\<close> where it or \<open>json.loads\<close> refuses); Google is the
  transport of \<open>Drive_Client\<close>.
\<close>

section \<open>Constants and state\<close>

definition GOOGLE_AUTH_URL :: string where
  "GOOGLE_AUTH_URL = ''https://accounts.google.com/o/oauth2/v2/auth''"
definition GOOGLE_USERINFO_URL :: string where
  "GOOGLE_USERINFO_URL = ''https://openidconnect.googleapis.com/v1/userinfo''"
definition GOOGLE_REVOKE_URL :: string where
  "GOOGLE_REVOKE_URL = ''https://oauth2.googleapis.com/revoke''"
definition GOOGLE_SCOPES :: string where
  "GOOGLE_SCOPES = ''openid email profile https://www.googleapis.com/auth/drive.file''"
definition STATE_TTL_SECONDS :: int where "STATE_TTL_SECONDS = 600"
definition PKCE_KEY_PREFIX :: string where "PKCE_KEY_PREFIX = ''oauth:pkce:''"
definition ALLOWED_PROVIDERS :: "string list" where "ALLOWED_PROVIDERS = [''google'']"

record state_payload =
  sp_user_id :: string
  sp_nonce :: string
  sp_provider :: string
  sp_exp :: int

record oauth_env =
  goog :: google_env
  oauth_state_secret :: string
  jwt_secret :: string
  web_origin :: string
  hmac_sha256 :: "string \<Rightarrow> string \<Rightarrow> string"
  sha256 :: "string \<Rightarrow> string"
  parse_state :: "string \<Rightarrow> state_payload option"
  redis_fault :: "py_exn option"
  redis_now :: timestamp
  second_nonce :: string

text \<open>The database with the requests sent, and Redis: key, value, instant of expiry.\<close>

record oauth_run =
  o_run :: run
  o_pkce :: "(string \<times> string \<times> timestamp) list"

definition on_run :: "(run, 'a) handler \<Rightarrow> (oauth_run, 'a) handler" where
  "on_run m = (\<lambda>s. case m (o_run s) of (r, s') \<Rightarrow> (r, s\<lparr>o_run := s'\<rparr>))"

text \<open>\<open>SET key value EX 600\<close> and the atomic \<open>GETDEL\<close>.\<close>

definition redis_set :: "oauth_env \<Rightarrow> string \<Rightarrow> string \<Rightarrow> (oauth_run, unit) handler" where
  "redis_set env key val = (\<lambda>s. case redis_fault env of
     Some e \<Rightarrow> (Inl e, s)
   | None \<Rightarrow> (Inr (), s\<lparr>o_pkce := (key, val, redis_now env + STATE_TTL_SECONDS * 1000000) #
                filter (\<lambda>(k, _). k \<noteq> key) (o_pkce s)\<rparr>))"

definition redis_getdel :: "oauth_env \<Rightarrow> string \<Rightarrow> (oauth_run, string option) handler" where
  "redis_getdel env key = (\<lambda>s. case redis_fault env of
     Some e \<Rightarrow> (Inl e, s)
   | None \<Rightarrow> (Inr (case map_of (o_pkce s) key of
                      Some (val, deadline) \<Rightarrow> if redis_now env < deadline then Some val else None
                    | None \<Rightarrow> None),
              s\<lparr>o_pkce := filter (\<lambda>(k, _). k \<noteq> key) (o_pkce s)\<rparr>))"

section \<open>The state token\<close>

definition state_secret :: "oauth_env \<Rightarrow> string" where
  "state_secret env = utf8_encode
     (if oauth_state_secret env \<noteq> [] then oauth_state_secret env else jwt_secret env)"

text \<open>\<open>json.dumps\<close> with compact separators and sorted keys.\<close>

definition state_json :: "state_payload \<Rightarrow> string" where
  "state_json p = ''{'' @ json_ascii ''exp'' @ '':'' @ int_str (sp_exp p) @ '','' @
     json_ascii ''nonce'' @ '':'' @ json_ascii (sp_nonce p) @ '','' @
     json_ascii ''provider'' @ '':'' @ json_ascii (sp_provider p) @ '','' @
     json_ascii ''user_id'' @ '':'' @ json_ascii (sp_user_id p) @ ''}''"

definition minted :: "oauth_env \<Rightarrow> uuid \<Rightarrow> string \<Rightarrow> string \<Rightarrow> state_payload" where
  "minted env u nonce provider = \<lparr>sp_user_id = str_uuid u, sp_nonce = nonce, sp_provider = provider,
     sp_exp = (clock (goog env) 0 + STATE_TTL_SECONDS * 1000000) div 1000000\<rparr>"

definition sign :: "oauth_env \<Rightarrow> string \<Rightarrow> string" where
  "sign env payload = hmac_sha256 env (state_secret env) payload"

definition mint_state :: "oauth_env \<Rightarrow> uuid \<Rightarrow> string \<Rightarrow> string \<Rightarrow> string" where
  "mint_state env u nonce provider =
     (let payload = utf8_encode (state_json (minted env u nonce provider))
      in b64url payload @ ''.'' @ b64url (sign env payload))"

definition bad_state :: py_exn where
  "bad_state = HTTPException 400 ''Invalid OAuth state.''"

text \<open>\<open>state.partition(".")\<close>: \<open>None\<close> without a separator.\<close>

definition partition_dot :: "string \<Rightarrow> (string \<times> string) option" where
  "partition_dot s = (let a = takeWhile (\<lambda>c. c \<noteq> CHR ''.'') s; b = dropWhile (\<lambda>c. c \<noteq> CHR ''.'') s
     in if b = [] then None else Some (a, tl b))"

definition verify_state :: "oauth_env \<Rightarrow> string \<Rightarrow> state_payload result" where
  "verify_state env st =
     (case partition_dot st of
        None \<Rightarrow> Inl bad_state
      | Some (payload_b64, sig_b64) \<Rightarrow>
          (case (b64url_decode payload_b64, b64url_decode sig_b64) of
             (Inr payload, Inr sig) \<Rightarrow>
               if sig \<noteq> sign env payload then Inl bad_state
               else (case parse_state env payload of None \<Rightarrow> Inl bad_state | Some p \<Rightarrow> Inr p)
           | _ \<Rightarrow> Inl bad_state))"

section \<open>Helpers\<close>

definition code_challenge :: "oauth_env \<Rightarrow> string \<Rightarrow> string" where
  "code_challenge env code_verifier = b64url (sha256 env code_verifier)"

definition redirect_uri :: "oauth_env \<Rightarrow> string \<Rightarrow> string" where
  "redirect_uri env provider =
     rstrip_by (\<lambda>c. c = CHR ''/'') (web_origin env) @ ''/api/integrations/'' @ provider @ ''/callback''"

definition require_provider :: "string \<Rightarrow> unit result" where
  "require_provider provider =
     (if provider \<in> set ALLOWED_PROVIDERS then Inr () else Inl (HTTPException 404 ''Unknown integration provider.''))"

definition quote_plus :: "string \<Rightarrow> string" where
  "quote_plus s = concat (map (\<lambda>c. if c = CHR '' '' then ''+'' else quote_byte c) (utf8_encode s))"

definition urlencode :: "(string \<times> string) list \<Rightarrow> string" where
  "urlencode ps = join ''&'' (map (\<lambda>(k, v). quote_plus k @ ''='' @ quote_plus v) ps)"

section \<open>Statements\<close>

record connection_out =
  cn_provider :: string
  cn_provider_account_email :: string
  cn_scopes :: string
  cn_connected_at :: timestamp
  cn_token_expiry :: "timestamp option"

definition conn_list_stmt :: "uuid \<Rightarrow> db \<Rightarrow> oauth_connection list" where
  "conn_list_stmt u d = sort_key (\<lambda>r. - oc_created_at r)
     (select_where (\<lambda>r. oc_user_id r = u) (oauth_connections d))"

definition oauth_connection_stmt :: "uuid \<Rightarrow> string \<Rightarrow> db \<Rightarrow> oauth_connection list" where
  "oauth_connection_stmt u provider d =
     select_where (\<lambda>r. oc_user_id r = u \<and> oc_provider r = provider) (oauth_connections d)"

text \<open>\<open>INSERT ... ON CONFLICT (user_id, provider) DO UPDATE\<close>.\<close>

definition upsert_stmt ::
  "uuid \<Rightarrow> string \<Rightarrow> string \<Rightarrow> string \<Rightarrow> string \<Rightarrow> timestamp option \<Rightarrow> string \<Rightarrow> uuid \<Rightarrow> timestamp \<Rightarrow> db \<Rightarrow> db" where
  "upsert_stmt u provider email refresh_ct access_ct expiry scopes new_id now d =
     (if oauth_connection_stmt u provider d = []
      then d\<lparr>oauth_connections := oauth_connections d @
        [\<lparr>oc_id = new_id, oc_user_id = u, oc_provider = provider, oc_provider_account_email = email,
          oc_refresh_token_ciphertext = refresh_ct, oc_access_token_ciphertext = Some access_ct,
          oc_token_expiry = expiry, oc_scopes = scopes, oc_created_at = now, oc_updated_at = now\<rparr>]\<rparr>
      else d\<lparr>oauth_connections := update_where (\<lambda>r. oc_user_id r = u \<and> oc_provider r = provider)
        (\<lambda>r. r\<lparr>oc_provider_account_email := email, oc_refresh_token_ciphertext := refresh_ct,
               oc_access_token_ciphertext := Some access_ct, oc_token_expiry := expiry,
               oc_scopes := scopes, oc_updated_at := now\<rparr>) (oauth_connections d)\<rparr>)"

definition conn_delete_stmt :: "uuid \<Rightarrow> string \<Rightarrow> db \<Rightarrow> uuid list \<times> db" where
  "conn_delete_stmt u provider d =
     (let p = (\<lambda>r. oc_user_id r = u \<and> oc_provider r = provider)
      in (map oc_id (select_where p (oauth_connections d)),
          d\<lparr>oauth_connections := delete_where p (oauth_connections d)\<rparr>))"

section \<open>Google\<close>

definition post_form :: "string \<Rightarrow> (string \<times> string) list \<Rightarrow> http_request" where
  "post_form url data = \<lparr>rq_method = POST, rq_url = url, rq_params = [], rq_headers = [], rq_data = data, rq_content = []\<rparr>"

definition token_body :: "http_reply \<Rightarrow> json result" where
  "token_body resp = (case resp of
     HttpError \<Rightarrow> Inl HTTPXError
   | HttpReply code body _ \<Rightarrow>
       if code \<noteq> HTTP_OK then Inl (HTTPException 400 ''OAuth token exchange failed.'')
       else (case body of None \<Rightarrow> Inl ValueError | Some j \<Rightarrow> Inr j))"

definition exchange_code ::
  "google_env \<Rightarrow> string \<Rightarrow> string \<Rightarrow> string \<Rightarrow> string \<Rightarrow> string \<Rightarrow> (run, json) handler" where
  "exchange_code env code code_verifier uri client_id client_secret =
     andThen (exchange env (post_form GOOGLE_TOKEN_URL
       [(''code'', code), (''client_id'', client_id), (''client_secret'', client_secret),
        (''redirect_uri'', uri), (''grant_type'', ''authorization_code''), (''code_verifier'', code_verifier)]))
       (\<lambda>resp. of_result (token_body resp))"

definition userinfo_failed :: py_exn where
  "userinfo_failed = HTTPException 400 ''OAuth userinfo fetch failed.''"

definition userinfo_email :: "http_reply \<Rightarrow> string result" where
  "userinfo_email resp = (case resp of
     HttpError \<Rightarrow> Inl HTTPXError
   | HttpReply code body _ \<Rightarrow>
       if code \<noteq> HTTP_OK then Inl userinfo_failed
       else (case reply_get body ''email'' of
               Inl e \<Rightarrow> Inl e
             | Inr v \<Rightarrow> (case nonempty_str v of None \<Rightarrow> Inl userinfo_failed | Some email \<Rightarrow> Inr email)))"

definition fetch_email :: "google_env \<Rightarrow> string \<Rightarrow> (run, string) handler" where
  "fetch_email env access_token =
     andThen (exchange env (get_request access_token GOOGLE_USERINFO_URL []))
       (\<lambda>resp. of_result (userinfo_email resp))"

text \<open>The request is sent; no answer is an error.\<close>

definition best_effort_revoke :: "google_env \<Rightarrow> string \<Rightarrow> (run, unit) handler" where
  "best_effort_revoke env refresh_token =
     andThen (exchange env (post_form GOOGLE_REVOKE_URL [(''token'', refresh_token)]))
       (\<lambda>resp. case resp of HttpError \<Rightarrow> ret () | HttpReply _ _ _ \<Rightarrow> ret ())"

section \<open>Routes\<close>

definition list_connections :: "uuid \<Rightarrow> db \<Rightarrow> connection_out list" where
  "list_connections u d = map (\<lambda>r. \<lparr>cn_provider = oc_provider r,
     cn_provider_account_email = oc_provider_account_email r, cn_scopes = oc_scopes r,
     cn_connected_at = oc_created_at r, cn_token_expiry = oc_token_expiry r\<rparr>) (conn_list_stmt u d)"

definition authorize ::
  "oauth_env \<Rightarrow> string \<Rightarrow> uuid \<Rightarrow> string \<Rightarrow> string \<Rightarrow> (oauth_run, string) handler" where
  "authorize env provider u nonce code_verifier =
     andThen (of_result (require_provider provider)) (\<lambda>_.
     andThen (of_result (require_google_configured (goog env))) (\<lambda>(client_id, _).
     andThen (of_result (ensure_configured (token_vault (goog env)))) (\<lambda>_.
     andThen (redis_set env (PKCE_KEY_PREFIX @ nonce) (utf8_encode code_verifier)) (\<lambda>_.
     ret (GOOGLE_AUTH_URL @ ''?'' @ urlencode
       [(''client_id'', client_id), (''redirect_uri'', redirect_uri env provider),
        (''response_type'', ''code''), (''scope'', GOOGLE_SCOPES),
        (''state'', mint_state env u nonce provider),
        (''code_challenge'', code_challenge env code_verifier),
        (''code_challenge_method'', ''S256''), (''access_type'', ''offline''), (''prompt'', ''consent'')])))))"

text \<open>Steps a to d: everything about the state that needs no Redis.\<close>

definition check_state :: "oauth_env \<Rightarrow> string \<Rightarrow> string \<Rightarrow> uuid \<Rightarrow> state_payload result" where
  "check_state env provider st u =
     (case verify_state env st of
        Inl e \<Rightarrow> Inl e
      | Inr payload \<Rightarrow>
          if sp_exp payload \<le> clock (goog env) 0 div 1000000 then Inl bad_state
          else if sp_provider payload \<noteq> provider then Inl bad_state
          else if sp_user_id payload \<noteq> str_uuid u then Inl bad_state
          else Inr payload)"

text \<open>\<open>expires_in\<close> may be absent here.\<close>

definition callback_expiry :: "timestamp \<Rightarrow> json option \<Rightarrow> timestamp option result" where
  "callback_expiry now v = (case as_int v of
     None \<Rightarrow> Inr None
   | Some n \<Rightarrow> (case add_seconds now n of Inl e \<Rightarrow> Inl e | Inr t \<Rightarrow> Inr (Some t)))"

definition granted_scopes :: "json option \<Rightarrow> string" where
  "granted_scopes v = (case nonempty_str v of Some s \<Rightarrow> s | None \<Rightarrow> GOOGLE_SCOPES)"

text \<open>From the tokens to the commit.\<close>

definition required_token :: "json option \<Rightarrow> string result" where
  "required_token v = (case nonempty_str v of None \<Rightarrow> Inl bad_state | Some t \<Rightarrow> Inr t)"

definition store_connection ::
  "oauth_env \<Rightarrow> string \<Rightarrow> json \<Rightarrow> uuid \<Rightarrow> uuid \<Rightarrow> timestamp \<Rightarrow> (run, string) handler" where
  "store_connection env provider tokens u new_id now =
     andThen (of_result (json_get tokens ''refresh_token'')) (\<lambda>rtok.
     andThen (of_result (json_get tokens ''access_token'')) (\<lambda>atok.
     andThen (of_result (required_token rtok)) (\<lambda>refresh_token.
     andThen (of_result (required_token atok)) (\<lambda>access_token.
     andThen (fetch_email (goog env) access_token) (\<lambda>email.
     andThen (of_result (json_get tokens ''scope'')) (\<lambda>scope.
     andThen (of_result (json_get tokens ''expires_in'')) (\<lambda>expires_in.
     andThen (of_result (callback_expiry (clock (goog env) 1) expires_in)) (\<lambda>expiry.
     andThen (of_result (encrypt (token_vault (goog env)) (urandom (goog env)) refresh_token)) (\<lambda>refresh_ct.
     andThen (of_result (encrypt (token_vault (goog env)) (second_nonce env) access_token)) (\<lambda>access_ct.
     andThen (transact (\<lambda>d. (Inr (), upsert_stmt u provider email refresh_ct access_ct expiry
                (granted_scopes scope) new_id now d))) (\<lambda>_.
     ret email)))))))))))"

definition callback ::
  "oauth_env \<Rightarrow> string \<Rightarrow> string \<Rightarrow> string \<Rightarrow> uuid \<Rightarrow> uuid \<Rightarrow> timestamp \<Rightarrow> (oauth_run, string \<times> string) handler" where
  "callback env provider code st u new_id now =
     andThen (of_result (require_provider provider)) (\<lambda>_.
     andThen (of_result (require_google_configured (goog env))) (\<lambda>(client_id, client_secret).
     andThen (of_result (check_state env provider st u)) (\<lambda>payload.
     andThen (redis_getdel env (PKCE_KEY_PREFIX @ sp_nonce payload)) (\<lambda>raw_verifier.
     case raw_verifier of
       None \<Rightarrow> raise bad_state
     | Some raw \<Rightarrow>
         andThen (of_result (utf8_decode raw)) (\<lambda>code_verifier.
         andThen (on_run (exchange_code (goog env) code code_verifier (redirect_uri env provider) client_id client_secret)) (\<lambda>tokens.
         andThen (on_run (store_connection env provider tokens u new_id now)) (\<lambda>email.
         ret (provider, email))))))))"

definition not_connected :: py_exn where
  "not_connected = HTTPException 404 ''Integration not connected.''"

definition revoke :: "oauth_env \<Rightarrow> string \<Rightarrow> uuid \<Rightarrow> (run, unit) handler" where
  "revoke env provider u =
     andThen (of_result (require_provider provider)) (\<lambda>_.
     andThen (query (\<lambda>d. case scalar_one_or_none (oauth_connection_stmt u provider d) of
         Inl e \<Rightarrow> Inl e | Inr None \<Rightarrow> Inl not_connected | Inr (Some c) \<Rightarrow> Inr c)) (\<lambda>connection.
     andThen (of_result (decrypt (token_vault (goog env)) (oc_refresh_token_ciphertext connection))) (\<lambda>refresh_token.
     andThen (best_effort_revoke (goog env) refresh_token) (\<lambda>_.
     transact (\<lambda>d. case conn_delete_stmt u provider d of (ids, d') \<Rightarrow>
       (case scalar_one_or_none ids of
          Inl e \<Rightarrow> (Inl e, d)
        | Inr None \<Rightarrow> (Inl not_connected, d)
        | Inr (Some _) \<Rightarrow> (Inr (), d')))))))"

end
