(* ===== verification/Integrations_Correct.thy ===== *)
theory Integrations_Correct
  imports Integrations
begin

text \<open>
  What makes the OAuth connection safe: a minted state verifies to its payload; a callback
  reaches Google or a table only past all five checks, and then only the caller's row; every
  issued verifier is redeemed at most once, in any history; and an authorization completed in
  time stores a row from which the refresh token reads back.
\<close>

section \<open>The state token\<close>

lemma partition_dot_append: "CHR ''.'' \<notin> set a \<Longrightarrow> partition_dot (a @ ''.'' @ b) = Some (a, b)"
  by (induction a) (auto simp: partition_dot_def Let_def split: if_splits)

text \<open>Two runs of the same deployment share the secrets and the primitives.\<close>

definition same_deployment :: "oauth_env \<Rightarrow> oauth_env \<Rightarrow> bool" where
  "same_deployment e e' \<longleftrightarrow> oauth_state_secret e' = oauth_state_secret e \<and> jwt_secret e' = jwt_secret e \<and>
     hmac_sha256 e' = hmac_sha256 e \<and> sha256 e' = sha256 e \<and> parse_state e' = parse_state e \<and>
     web_origin e' = web_origin e \<and> token_vault (goog e') = token_vault (goog e) \<and>
     google_client_id (goog e') = google_client_id (goog e) \<and>
     google_client_secret (goog e') = google_client_secret (goog e)"

lemma sign_same: "same_deployment e e' \<Longrightarrow> sign e' = sign e"
  by (rule ext) (simp add: sign_def state_secret_def same_deployment_def)

lemma verify_minted:
  assumes "same_deployment env env'"
    and "parse_state env (utf8_encode (state_json (minted env u nonce provider))) = Some (minted env u nonce provider)"
  shows "verify_state env' (mint_state env u nonce provider) = Inr (minted env u nonce provider)"
  using assms sign_same [OF assms(1)]
  by (simp add: verify_state_def mint_state_def Let_def partition_dot_append dot_notin_b64url same_deployment_def
      del: append.simps append_assoc)

text \<open>Only signed payloads verify: what the signature covers is what is returned.\<close>

lemma verify_signed:
  "verify_state env st = Inr p \<Longrightarrow> \<exists>payload. parse_state env payload = Some p \<and>
     (\<exists>a b. st = a @ ''.'' @ b \<and> b64url_decode a = Inr payload \<and> b64url_decode b = Inr (sign env payload))"
proof -
  assume v: "verify_state env st = Inr p"
  then obtain a b where ab: "partition_dot st = Some (a, b)"
    by (auto simp: verify_state_def split: option.splits)
  have "st = a @ ''.'' @ b"
  proof -
    obtain c cs where c: "dropWhile (\<lambda>c. c \<noteq> CHR ''.'') st = c # cs" "a = takeWhile (\<lambda>c. c \<noteq> CHR ''.'') st" "b = cs"
      using ab by (cases "dropWhile (\<lambda>c. c \<noteq> CHR ''.'') st") (auto simp: partition_dot_def Let_def)
    have "c = CHR ''.''" using hd_dropWhile [of "\<lambda>c. c \<noteq> CHR ''.''" st] c(1) by auto
    then show ?thesis using c takeWhile_dropWhile_id [of "\<lambda>c. c \<noteq> CHR ''.''" st] by simp
  qed
  then show ?thesis using v ab
    by (auto simp: verify_state_def split: option.splits sum.splits if_splits)
qed

section \<open>The callback\<close>

definition pkce_key :: "string \<Rightarrow> string" where
  "pkce_key nonce = PKCE_KEY_PREFIX @ nonce"

definition live_verifier :: "oauth_env \<Rightarrow> string \<Rightarrow> oauth_run \<Rightarrow> string option" where
  "live_verifier env nonce s = (case map_of (o_pkce s) (pkce_key nonce) of
     Some (val, deadline) \<Rightarrow> if redis_now env < deadline then Some val else None
   | None \<Rightarrow> None)"

definition without_nonce :: "string \<Rightarrow> oauth_run \<Rightarrow> oauth_run" where
  "without_nonce nonce s = s\<lparr>o_pkce := filter (\<lambda>(k, _). k \<noteq> pkce_key nonce) (o_pkce s)\<rparr>"

text \<open>The two ways a callback goes: refused without a request, or past every check.\<close>

definition admits :: "oauth_env \<Rightarrow> string \<Rightarrow> string \<Rightarrow> uuid \<Rightarrow> oauth_run \<Rightarrow> (state_payload \<times> string) option" where
  "admits env provider st u s =
     (if require_provider provider = Inr () \<and> redis_fault env = None then
        (case (require_google_configured (goog env), check_state env provider st u) of
           (Inr _, Inr payload) \<Rightarrow>
             (case live_verifier env (sp_nonce payload) s of
                Some raw \<Rightarrow> (case utf8_decode raw of Inr code_verifier \<Rightarrow> Some (payload, code_verifier) | Inl _ \<Rightarrow> None)
              | None \<Rightarrow> None)
         | _ \<Rightarrow> None)
      else None)"

definition redeem :: "oauth_env \<Rightarrow> string \<Rightarrow> string \<Rightarrow> string \<Rightarrow> uuid \<Rightarrow> uuid \<Rightarrow> timestamp \<Rightarrow> (run, string \<times> string) handler" where
  "redeem env provider code code_verifier u new_id now =
     andThen (exchange_code (goog env) code code_verifier (redirect_uri env provider)
                (google_client_id (goog env)) (google_client_secret (goog env))) (\<lambda>tokens.
     andThen (store_connection env provider tokens u new_id now) (\<lambda>email.
     ret (provider, email)))"

lemma on_run_andThen: "on_run (andThen m f) = andThen (on_run m) (\<lambda>x. on_run (f x))"
  by (rule ext) (simp add: on_run_def andThen_def split: prod.split sum.split)

lemma on_run_ret [simp]: "on_run (ret x) = ret x"
  by (rule ext) (simp add: on_run_def ret_def)

lemma callback_admitted:
  assumes "admits env provider st u s = Some (payload, code_verifier)"
  shows "callback env provider code st u new_id now s =
    on_run (redeem env provider code code_verifier u new_id now) (without_nonce (sp_nonce payload) s)"
proof -
  note adm = assms [unfolded admits_def]
  have ok: "require_provider provider = Inr ()" "redis_fault env = None" "check_state env provider st u = Inr payload"
    using adm by (auto split: if_splits sum.splits option.splits)
  obtain raw where raw: "live_verifier env (sp_nonce payload) s = Some raw" "utf8_decode raw = Inr code_verifier"
    using adm ok by (auto split: if_splits sum.splits option.splits)
  have conf: "require_google_configured (goog env) = Inr (google_client_id (goog env), google_client_secret (goog env))"
    using adm by (auto simp: require_google_configured_def split: if_splits)
  have get: "redis_getdel env (PKCE_KEY_PREFIX @ sp_nonce payload) s = (Inr (Some raw), without_nonce (sp_nonce payload) s)"
    using raw(1) by (simp add: redis_getdel_def ok(2) live_verifier_def without_nonce_def pkce_key_def)
  show ?thesis
    unfolding callback_def redeem_def on_run_andThen on_run_ret
    by (simp add: andThen_def of_result_def ok conf get raw(2))
qed

lemma callback_refused:
  assumes "admits env provider st u s = None"
  shows "\<exists>e. fst (callback env provider code st u new_id now s) = Inl e \<and>
    o_run (snd (callback env provider code st u new_id now s)) = o_run s \<and>
    set (o_pkce (snd (callback env provider code st u new_id now s))) \<subseteq> set (o_pkce s)"
  using assms
  by (auto simp: callback_def andThen_def of_result_def admits_def redis_getdel_def live_verifier_def pkce_key_def
      raise_def require_provider_def split: sum.splits option.splits if_splits)

text \<open>What redeeming does: the exchange first, then at most the caller's row.\<close>

lemma exchange_code_sends:
  "r_log (snd (exchange_code env code ver uri i sec s)) =
     r_log s @ [post_form GOOGLE_TOKEN_URL
       [(''code'', code), (''client_id'', i), (''client_secret'', sec), (''redirect_uri'', uri),
        (''grant_type'', ''authorization_code''), (''code_verifier'', ver)]]"
  by (simp add: exchange_code_def andThen_def exchange_def of_result_def)

definition log_extends :: "http_request list \<Rightarrow> run \<Rightarrow> bool" where
  "log_extends L s \<longleftrightarrow> (\<exists>rest. r_log s = L @ rest)"

lemma log_extends_keeps [keeps_intros]:
  "keeps (log_extends L) (exchange env req)" "keeps (log_extends L) (transact f)"
  by (auto simp: keeps_def log_extends_def exchange_def transact_def split: prod.split sum.split)

lemma upsert_frame: "u \<noteq> w \<Longrightarrow> tenant_view w (upsert_stmt u p e r a x sc n now d) = tenant_view w d"
  by (simp add: upsert_stmt_def tenant_simps tenant_frame)

lemma store_connection_keeps:
  assumes "\<And>s req. P s \<Longrightarrow> P (s\<lparr>r_log := r_log s @ [req]\<rparr>)"
    and "\<And>s e r a x sc. P s \<Longrightarrow> P (s\<lparr>r_db := upsert_stmt u provider e r a x sc n now (r_db s)\<rparr>)"
  shows "keeps P (store_connection env provider tokens u n now)"
proof -
  have "keeps P (exchange env' req)" for env' req by (simp add: keeps_def exchange_def assms(1))
  then show ?thesis unfolding store_connection_def fetch_email_def
    by (intro keeps_intros keeps_transact) (auto intro: assms(2))
qed

lemma redeem_frame:
  "u \<noteq> w \<Longrightarrow> tenant_view w (r_db (snd (redeem env provider code ver u n now s))) = tenant_view w (r_db s)"
proof -
  assume "u \<noteq> w"
  then have "keeps (\<lambda>t. tenant_view w (r_db t) = tenant_view w (r_db s)) (redeem env provider code ver u n now)"
    unfolding redeem_def exchange_code_def
    by (intro keeps_intros keeps_exchange store_connection_keeps) (simp_all add: upsert_frame)
  then show ?thesis by (simp add: keeps_def)
qed

lemma redeem_log:
  "\<exists>rest. r_log (snd (redeem env provider code ver u n now s)) = r_log s @ post_form GOOGLE_TOKEN_URL
       [(''code'', code), (''client_id'', google_client_id (goog env)), (''client_secret'', google_client_secret (goog env)),
        (''redirect_uri'', redirect_uri env provider), (''grant_type'', ''authorization_code''),
        (''code_verifier'', ver)] # rest"
proof -
  let ?ex = "exchange_code (goog env) code ver (redirect_uri env provider) (google_client_id (goog env)) (google_client_secret (goog env))"
  obtain r s1 where ex: "?ex s = (r, s1)" by (cases "?ex s")
  obtain L where L: "L = r_log s1" by simp
  have "keeps (log_extends L) (andThen (store_connection env provider t u n now) (\<lambda>email. ret (provider, email)))" for t
    by (intro keeps_intros store_connection_keeps) (auto simp: log_extends_def)
  then have "log_extends L (snd (redeem env provider code ver u n now s))"
    using ex L by (cases r) (simp_all add: redeem_def andThen_def log_extends_def keeps_def)
  moreover have "L = r_log s @ [post_form GOOGLE_TOKEN_URL
       [(''code'', code), (''client_id'', google_client_id (goog env)), (''client_secret'', google_client_secret (goog env)),
        (''redirect_uri'', redirect_uri env provider), (''grant_type'', ''authorization_code''),
        (''code_verifier'', ver)]]"
    using exchange_code_sends [of "goog env" code ver "redirect_uri env provider" "google_client_id (goog env)"
        "google_client_secret (goog env)" s] by (simp add: ex L)
  ultimately show ?thesis by (auto simp: log_extends_def)
qed

lemma check_state_Inr:
  assumes "check_state env provider st u = Inr p"
  shows "verify_state env st = Inr p" "clock (goog env) 0 div 1000000 < sp_exp p" "sp_provider p = provider"
    "sp_user_id p = str_uuid u"
  using assms by (auto simp: check_state_def split: sum.splits if_splits)

text \<open>
  C28: the callback is bound to the account and to one authorization. Unless the state carries a
  valid signature over its payload, has not expired, names the path's provider and the caller
  herself, and its verifier is live in Redis, the callback fails without sending a request or
  touching a table; otherwise the verifier is gone from Redis whatever happens next, the first
  request is the code exchange carrying exactly that verifier, and no other tenant's row changes.
\<close>

theorem callback_bound:
  "case admits env provider st u s of
     None \<Rightarrow> \<not> is_ok (fst (callback env provider code st u n now s)) \<and>
       o_run (snd (callback env provider code st u n now s)) = o_run s
   | Some (payload, ver) \<Rightarrow>
       (\<exists>bytes a b. st = a @ ''.'' @ b \<and> b64url_decode a = Inr bytes \<and> b64url_decode b = Inr (sign env bytes) \<and>
          parse_state env bytes = Some payload) \<and>
       clock (goog env) 0 div 1000000 < sp_exp payload \<and> sp_provider payload = provider \<and>
       sp_user_id payload = str_uuid u \<and>
       (\<exists>raw. live_verifier env (sp_nonce payload) s = Some raw \<and> utf8_decode raw = Inr ver) \<and>
       map_of (o_pkce (snd (callback env provider code st u n now s))) (pkce_key (sp_nonce payload)) = None \<and>
       (\<exists>rest. r_log (o_run (snd (callback env provider code st u n now s))) = r_log (o_run s) @
          post_form GOOGLE_TOKEN_URL
            [(''code'', code), (''client_id'', google_client_id (goog env)), (''client_secret'', google_client_secret (goog env)),
             (''redirect_uri'', redirect_uri env provider), (''grant_type'', ''authorization_code''),
             (''code_verifier'', ver)] # rest) \<and>
       (\<forall>w. u \<noteq> w \<longrightarrow> tenant_view w (r_db (o_run (snd (callback env provider code st u n now s)))) =
                       tenant_view w (r_db (o_run s)))"
proof (cases "admits env provider st u s")
  case None
  then show ?thesis using callback_refused [OF None, of code n now] by auto
next
  case (Some pv)
  obtain payload ver where pv: "pv = (payload, ver)" by (cases pv)
  note cb = callback_admitted [OF Some [unfolded pv], of code n now]
  have chk: "check_state env provider st u = Inr payload"
    using Some pv by (auto simp: admits_def split: if_splits sum.splits option.splits)
  have live: "\<exists>raw. live_verifier env (sp_nonce payload) s = Some raw \<and> utf8_decode raw = Inr ver"
    using Some pv chk by (auto simp: admits_def split: if_splits sum.splits option.splits)
  have gone: "map_of (filter (\<lambda>(k, _). k \<noteq> key) xs) key = None" for key and xs :: "(string \<times> string \<times> timestamp) list"
    by (auto simp: map_of_eq_None_iff)
  let ?s = "without_nonce (sp_nonce payload) s"
  have o_run: "o_run ?s = o_run s" by (simp add: without_nonce_def)
  have end_: "o_run (snd (callback env provider code st u n now s)) = snd (redeem env provider code ver u n now (o_run s))"
    "o_pkce (snd (callback env provider code st u n now s)) = o_pkce ?s"
    by (simp_all add: cb on_run_def o_run case_prod_beta)
  show ?thesis unfolding Some pv option.case prod.case end_
    using verify_signed [OF check_state_Inr(1) [OF chk]] check_state_Inr(2-4) [OF chk] live redeem_log redeem_frame
    by (intro conjI allI impI) (blast | simp add: without_nonce_def gone)+
qed

section \<open>Any history\<close>

text \<open>
  What happens to the connections, in order, each run in its own surroundings; the requests of
  one run are counted from an empty log.
\<close>

datatype oauth_event =
    Authorize string uuid string string
  | Callback string string string uuid uuid timestamp
  | Revoke string uuid

fun oauth_step :: "oauth_env \<times> oauth_event \<Rightarrow> oauth_run \<Rightarrow> oauth_run" where
  "oauth_step (env, Authorize provider u nonce ver) s = snd (authorize env provider u nonce ver s)"
| "oauth_step (env, Callback provider code st u n now) s = snd (callback env provider code st u n now s)"
| "oauth_step (env, Revoke provider u) s = snd (on_run (revoke env provider u) s)"

text \<open>Code exchanges that redeem a nonce, and authorizations that issue it.\<close>

fun redeemed :: "string \<Rightarrow> (oauth_env \<times> oauth_event) list \<Rightarrow> oauth_run \<Rightarrow> nat" where
  "redeemed nonce [] s = 0"
| "redeemed nonce ((env, ev) # evs) s =
     (case ev of
        Callback provider code st u n now \<Rightarrow>
          (case admits env provider st u s of
             Some (payload, _) \<Rightarrow> if sp_nonce payload = nonce then 1 else 0
           | None \<Rightarrow> 0)
      | _ \<Rightarrow> 0) + redeemed nonce evs (oauth_step (env, ev) s)"

fun issued :: "string \<Rightarrow> (oauth_env \<times> oauth_event) list \<Rightarrow> oauth_run \<Rightarrow> nat" where
  "issued nonce [] s = 0"
| "issued nonce ((env, ev) # evs) s =
     (case ev of
        Authorize provider u nonce' ver \<Rightarrow>
          if nonce' = nonce \<and> is_ok (fst (authorize env provider u nonce' ver s)) then 1 else 0
      | _ \<Rightarrow> 0) + issued nonce evs (oauth_step (env, ev) s)"

definition stored :: "string \<Rightarrow> oauth_run \<Rightarrow> nat" where
  "stored nonce s = (if map_of (o_pkce s) (pkce_key nonce) = None then 0 else 1)"

lemma pkce_key_inject [simp]: "pkce_key a = pkce_key b \<longleftrightarrow> a = b"
  by (simp add: pkce_key_def)

lemma map_of_filter_key:
  "map_of (filter (\<lambda>(k, _). k \<noteq> key) xs) k' = (if k' = key then None else map_of xs k')"
  by (induction xs) auto

lemma stored_authorize:
  "stored nonce (snd (authorize env provider u nonce' ver s)) \<le>
   stored nonce s + (if nonce' = nonce \<and> is_ok (fst (authorize env provider u nonce' ver s)) then 1 else 0)"
  by (auto simp: authorize_def andThen_def of_result_def redis_set_def ret_def stored_def pkce_key_def [symmetric]
      map_of_filter_key split: sum.split option.split prod.split)

lemma stored_callback:
  "stored nonce (snd (callback env provider code st u n now s)) +
     (case admits env provider st u s of Some (payload, _) \<Rightarrow> if sp_nonce payload = nonce then 1 else 0 | None \<Rightarrow> 0)
   \<le> stored nonce s"
proof (cases "admits env provider st u s")
  case None
  have "set (o_pkce (snd (callback env provider code st u n now s))) \<subseteq> set (o_pkce s)"
    using callback_refused [OF None, of code n now] by blast
  then have "map_of (o_pkce s) k = None \<Longrightarrow> map_of (o_pkce (snd (callback env provider code st u n now s))) k = None" for k
    by (auto simp: map_of_eq_None_iff)
  then show ?thesis by (auto simp: None stored_def)
next
  case (Some pv)
  obtain payload ver where pv: "pv = (payload, ver)" by (cases pv)
  have "o_pkce (snd (callback env provider code st u n now s)) = o_pkce (without_nonce (sp_nonce payload) s)"
    using callback_admitted [OF Some [unfolded pv], of code n now] by (simp add: on_run_def case_prod_beta)
  moreover have "map_of (o_pkce s) (pkce_key (sp_nonce payload)) \<noteq> None"
    using Some pv by (auto simp: admits_def live_verifier_def split: if_splits sum.splits option.splits)
  ultimately show ?thesis by (auto simp: Some pv stored_def without_nonce_def map_of_filter_key)
qed

lemma stored_revoke: "stored nonce (snd (on_run (revoke env provider u) s)) = stored nonce s"
  by (simp add: stored_def on_run_def case_prod_beta)

text \<open>
  C29: a verifier is redeemed at most once per issue, in every history of authorizations,
  callbacks and revocations by any users under any behaviour of the clock, Redis and Google: the
  code exchanges that used a nonce never outnumber the authorizations that issued it (plus one
  if it lay in Redis at the start), so a replayed callback never reaches Google.
\<close>

theorem verifier_single_use:
  "redeemed nonce evs s \<le> issued nonce evs s + stored nonce s"
proof (induction evs arbitrary: s)
  case (Cons x evs)
  obtain env ev where x: "x = (env, ev)" by (cases x)
  show ?case
  proof (cases ev)
    case (Authorize provider u nonce' ver)
    then show ?thesis using Cons [of "oauth_step x s"] stored_authorize [of nonce env provider u nonce' ver s]
      by (simp add: x split: if_splits)
  next
    case (Callback provider code st u n now)
    then show ?thesis using Cons [of "oauth_step x s"] stored_callback [of nonce env provider code st u n now s]
      by (simp add: x)
  next
    case (Revoke provider u)
    then show ?thesis using Cons [of "oauth_step x s"] stored_revoke [of nonce env provider u s] by (simp add: x)
  qed
qed simp

section \<open>Authorize, then call back\<close>

lemma authorize_Inr:
  assumes "authorize env provider u nonce ver s = (Inr url, s1)"
  shows "require_provider provider = Inr ()" "is_ok (require_google_configured (goog env))"
    "o_run s1 = o_run s"
    "map_of (o_pkce s1) (pkce_key nonce) = Some (utf8_encode ver, redis_now env + STATE_TTL_SECONDS * 1000000)"
  using assms
  by (auto simp: authorize_def andThen_def of_result_def redis_set_def ret_def pkce_key_def
      split: sum.splits option.splits prod.splits)

lemma redeem_stores:
  assumes law: "gcm_law (gcm (token_vault (goog env)))" "length (urandom (goog env)) = NONCE_BYTES"
    and one: "length (oauth_connection_stmt u provider (r_db s)) \<le> 1"
    and run: "redeem env provider code ver u n now s = (Inr res, s')"
  shows "\<exists>c rt tokens. oauth_connection_stmt u provider (r_db s') = [c] \<and>
     decrypt (token_vault (goog env)) (oc_refresh_token_ciphertext c) = Inr rt \<and>
     fst (exchange_code (goog env) code ver (redirect_uri env provider) (google_client_id (goog env))
       (google_client_secret (goog env)) s) = Inr tokens \<and>
     json_get tokens ''refresh_token'' = Inr (Some (JStr rt)) \<and> oc_provider_account_email c = snd res"
proof -
  obtain tokens t where ex: "exchange_code (goog env) code ver (redirect_uri env provider) (google_client_id (goog env))
       (google_client_secret (goog env)) s = (Inr tokens, t)" and
    st: "andThen (store_connection env provider tokens u n now) (\<lambda>email. ret (provider, email)) t = (Inr res, s')"
    using run unfolding redeem_def by (rule andThen_Inr)
  have t: "r_db t = r_db s" using ex by (auto simp: exchange_code_def andThen_def exchange_def of_result_def)
  obtain email where st': "store_connection env provider tokens u n now t = (Inr email, s')" and res: "res = (provider, email)"
    using st by (auto simp: ret_def elim!: andThen_Inr)
  have nonempty: "nonempty_str v = Some x \<Longrightarrow> v = Some (JStr x)" for v x
    by (cases v rule: nonempty_str.cases) (auto split: if_splits)
  obtain rt act e expiry sc rct where
    rt: "json_get tokens ''refresh_token'' = Inr (Some (JStr rt))" "encrypt (token_vault (goog env)) (urandom (goog env)) rt = Inr rct"
    and s': "r_db s' = upsert_stmt u provider email rct act expiry sc n now (r_db s)"
    using st' t
    by (auto dest!: nonempty simp: store_connection_def fetch_email_def exchange_def of_result_def transact_def ret_def required_token_def
        split: option.splits elim!: andThen_Inr)
  let ?p = "\<lambda>r. oc_user_id r = u \<and> oc_provider r = provider"
  have "\<exists>c. oauth_connection_stmt u provider (r_db s') = [c] \<and> oc_refresh_token_ciphertext c = rct \<and>
      oc_provider_account_email c = email"
  proof (cases "oauth_connection_stmt u provider (r_db s)")
    case Nil
    then show ?thesis by (simp add: s' upsert_stmt_def oauth_connection_stmt_def select_where_def)
  next
    case (Cons c cs)
    then have "oauth_connection_stmt u provider (r_db s) = [c]" using one by simp
    then show ?thesis by (simp add: s' upsert_stmt_def oauth_connection_stmt_def select_where_update)
  qed
  then show ?thesis using ex rt res decrypt_encrypt [OF law rt(2)] by auto
qed

text \<open>
  C30: an authorization completed in time connects the account, once and only for the user who
  asked. With the state it minted, a callback of the same user before both deadlines goes through
  exactly as Google answers it; the caller then has one connection row for the provider, whose
  ciphertext decrypts to the refresh token Google sent and whose email is the one returned;
  the same state is refused to every other user, and refused again to everybody afterwards.
\<close>

theorem connect_roundtrip:
  assumes dep: "same_deployment env env'"
    and parse: "parse_state env (utf8_encode (state_json (minted env u nonce provider))) = Some (minted env u nonce provider)"
    and auth: "authorize env provider u nonce ver s = (Inr url, s1)"
    and intime: "clock (goog env') 0 div 1000000 < sp_exp (minted env u nonce provider)"
      "redis_fault env' = None" "redis_now env' < redis_now env + STATE_TTL_SECONDS * 1000000"
    and law: "gcm_law (gcm (token_vault (goog env')))" "length (urandom (goog env')) = NONCE_BYTES"
    and one: "length (oauth_connection_stmt u provider (r_db (o_run s1))) \<le> 1"
    and google: "redeem env' provider code ver u n now (o_run s1) = (Inr res, r2)"
    and s2: "s2 = snd (callback env' provider code (mint_state env u nonce provider) u n now s1)"
  shows "fst (callback env' provider code (mint_state env u nonce provider) u n now s1) = Inr res \<and> o_run s2 = r2 \<and>
    (\<exists>c rt tokens. oauth_connection_stmt u provider (r_db r2) = [c] \<and>
       decrypt (token_vault (goog env')) (oc_refresh_token_ciphertext c) = Inr rt \<and>
       fst (exchange_code (goog env') code ver (redirect_uri env' provider) (google_client_id (goog env'))
         (google_client_secret (goog env')) (o_run s1)) = Inr tokens \<and>
       json_get tokens ''refresh_token'' = Inr (Some (JStr rt)) \<and> oc_provider_account_email c = snd res) \<and>
    (\<forall>v env''. v \<noteq> u \<and> same_deployment env env'' \<longrightarrow> admits env'' provider (mint_state env u nonce provider) v s1 = None) \<and>
    (\<forall>v env''. same_deployment env env'' \<longrightarrow> admits env'' provider (mint_state env u nonce provider) v s2 = None)"
proof -
  let ?st = "mint_state env u nonce provider" and ?p = "minted env u nonce provider"
  note au = authorize_Inr [OF auth]
  have ver: "verify_state e ?st = Inr ?p" if "same_deployment env e" for e
    by (rule verify_minted [OF that parse])
  have fields: "sp_nonce ?p = nonce" "sp_provider ?p = provider" "sp_user_id ?p = str_uuid u" by (simp_all add: minted_def)
  have conf: "is_ok (require_google_configured (goog env'))"
    using au(2) dep by (simp add: require_google_configured_def same_deployment_def split: if_splits)
  have live: "live_verifier env' nonce s1 = Some (utf8_encode ver)" using au(4) intime(3) by (simp add: live_verifier_def)
  have chk: "check_state env' provider ?st u = Inr ?p" using ver [OF dep] intime(1) fields by (simp add: check_state_def)
  have adm: "admits env' provider ?st u s1 = Some (?p, ver)"
    using conf by (cases "require_google_configured (goog env')") (simp_all add: admits_def au(1) intime(2) chk fields live)
  note cb = callback_admitted [OF adm, of code n now, unfolded fields]
  have run: "callback env' provider code ?st u n now s1 = (Inr res, (without_nonce nonce s1)\<lparr>o_run := r2\<rparr>)"
    using google by (simp add: cb on_run_def without_nonce_def)
  have gone: "live_verifier e nonce s2 = None" for e
    by (simp add: s2 run live_verifier_def without_nonce_def map_of_filter_key)
  have sees: "check_state e provider ?st v = Inr p \<Longrightarrow> p = ?p \<and> v = u" if "same_deployment env e" for e v p
    using ver [OF that] fields by (auto simp: check_state_def split: if_splits)
  have "admits e provider ?st v s1 = None" if "v \<noteq> u" "same_deployment env e" for e v
    using sees [OF that(2)] that(1) by (auto simp: admits_def split: sum.split)
  moreover have "admits e provider ?st v s2 = None" if "same_deployment env e" for e v
    using sees [OF that] gone fields by (auto simp: admits_def split: sum.split)
  moreover note redeem_stores [OF law one google]
  ultimately show ?thesis using run by (simp add: s2)
qed

section \<open>A concrete run\<close>

definition demo_goog :: google_env where
  "demo_goog = \<lparr>
     send = (\<lambda>log req. if rq_url req = GOOGLE_TOKEN_URL
        then HttpReply 200 (Some (JObj [(''refresh_token'', JStr ''R''), (''access_token'', JStr ''A'')])) []
        else HttpReply 200 (Some (JObj [(''email'', JStr ''a@b'')])) []),
     clock = (\<lambda>_. 0), google_client_id = ''id'', google_client_secret = ''secret'',
     token_vault = \<lparr>token_enc_key = replicate 64 (CHR ''0''),
       gcm = \<lparr>aes_encrypt = (\<lambda>key nonce pt. pt), aes_decrypt = (\<lambda>key nonce ct. Inr ct)\<rparr>\<rparr>,
     urandom = replicate 12 (CHR ''n''), uuid4_hex = [], py_repr = (\<lambda>_. [])\<rparr>"

definition demo_payload :: state_payload where
  "demo_payload = \<lparr>sp_user_id = str_uuid 1, sp_nonce = ''n'', sp_provider = ''google'', sp_exp = 600\<rparr>"

definition demo_oauth :: oauth_env where
  "demo_oauth = \<lparr>goog = demo_goog, oauth_state_secret = ''s'', jwt_secret = ''j'', web_origin = ''https://w/'',
     hmac_sha256 = (\<lambda>k m. k @ m), sha256 = id,
     parse_state = (\<lambda>b. if b = utf8_encode (state_json demo_payload) then Some demo_payload else None),
     redis_fault = None, redis_now = 0, second_nonce = replicate 12 (CHR ''m'')\<rparr>"

definition demo_start :: oauth_run where
  "demo_start = \<lparr>o_run = \<lparr>r_db = empty_db, r_log = []\<rparr>, o_pkce = []\<rparr>"

definition demo_issued :: oauth_run where
  "demo_issued = snd (authorize demo_oauth ''google'' 1 ''n'' ''v'' demo_start)"

abbreviation "demo_state \<equiv> mint_state demo_oauth 1 ''n'' ''google''"

lemma demo_minted: "minted demo_oauth 1 ''n'' ''google'' = demo_payload"
  by (simp add: minted_def demo_payload_def demo_oauth_def demo_goog_def STATE_TTL_SECONDS_def)

lemma demo_oauth_key: "load_key (token_vault (goog demo_oauth)) = Inr (replicate 32 (CHR 0x00))"
proof -
  have "load_key \<lparr>token_enc_key = replicate 64 (CHR ''0''), gcm = g\<rparr> = Inr (replicate 32 (CHR 0x00))" for g
    by (simp add: load_key_def KEY_BYTES_def) code_simp
  then show ?thesis by (simp add: demo_oauth_def demo_goog_def)
qed

lemma demo_authorize: "\<exists>url. authorize demo_oauth ''google'' 1 ''n'' ''v'' demo_start = (Inr url, demo_issued)"
  using demo_oauth_key
  by (simp add: demo_issued_def authorize_def andThen_def of_result_def require_provider_def ALLOWED_PROVIDERS_def
      require_google_configured_def ensure_configured_def redis_set_def ret_def)
     (simp add: demo_oauth_def demo_goog_def)

lemma demo_run: "o_run demo_issued = \<lparr>r_db = empty_db, r_log = []\<rparr>"
  using demo_authorize authorize_Inr(3) by (metis demo_start_def oauth_run.select_convs(1))

lemma demo_redeem:
  "\<exists>r2. redeem demo_oauth ''google'' ''c'' ''v'' 1 9 20 (o_run demo_issued) = (Inr (''google'', ''a@b''), r2)"
proof -
  have enc: "encrypt (token_vault (goog demo_oauth)) n t = Inr (n @ utf8_encode t)" for n t
    unfolding encrypt_def demo_oauth_key by (simp add: demo_oauth_def demo_goog_def)
  have snd': "send (goog demo_oauth) L req = (if rq_url req = GOOGLE_TOKEN_URL
        then HttpReply 200 (Some (JObj [(''refresh_token'', JStr ''R''), (''access_token'', JStr ''A'')])) []
        else HttpReply 200 (Some (JObj [(''email'', JStr ''a@b'')])) [])" for L req
    by (simp add: demo_oauth_def demo_goog_def)
  have "GOOGLE_USERINFO_URL \<noteq> GOOGLE_TOKEN_URL" by (simp add: GOOGLE_USERINFO_URL_def GOOGLE_TOKEN_URL_def)
  then show ?thesis
    by (simp add: redeem_def exchange_code_def andThen_def exchange_def of_result_def snd' post_form_def token_body_def
        HTTP_OK_def store_connection_def required_token_def fetch_email_def get_request_def userinfo_email_def
        reply_get_def callback_expiry_def enc transact_def ret_def)
qed

lemma demo_law: "gcm_law (gcm (token_vault (goog demo_oauth)))" "length (urandom (goog demo_oauth)) = NONCE_BYTES"
  by (simp_all add: demo_oauth_def demo_goog_def gcm_law_def NONCE_BYTES_def)

theorem connect_roundtrip_witness:
  "fst (callback demo_oauth ''google'' ''c'' demo_state 1 9 20 demo_issued) = Inr (''google'', ''a@b'') \<and>
   admits demo_oauth ''google'' demo_state 2 demo_issued = None"
proof -
  obtain url where auth: "authorize demo_oauth ''google'' 1 ''n'' ''v'' demo_start = (Inr url, demo_issued)"
    using demo_authorize by blast
  obtain r2 where google: "redeem demo_oauth ''google'' ''c'' ''v'' 1 9 20 (o_run demo_issued) = (Inr (''google'', ''a@b''), r2)"
    using demo_redeem by blast
  have dep: "same_deployment demo_oauth demo_oauth" by (simp add: same_deployment_def)
  have parse: "parse_state demo_oauth (utf8_encode (state_json (minted demo_oauth 1 ''n'' ''google''))) =
      Some (minted demo_oauth 1 ''n'' ''google'')" unfolding demo_minted by (simp add: demo_oauth_def)
  have time: "clock (goog demo_oauth) 0 div 1000000 < sp_exp (minted demo_oauth 1 ''n'' ''google'')"
    "redis_fault demo_oauth = None" "redis_now demo_oauth < redis_now demo_oauth + STATE_TTL_SECONDS * 1000000"
    unfolding demo_minted by (simp_all add: demo_oauth_def demo_goog_def demo_payload_def STATE_TTL_SECONDS_def)
  have one: "length (oauth_connection_stmt 1 ''google'' (r_db (o_run demo_issued))) \<le> 1"
    by (simp add: demo_run oauth_connection_stmt_def empty_db_def select_where_def)
  show ?thesis using connect_roundtrip [OF dep parse auth time demo_law one google refl] dep by simp
qed

theorem callback_bound_witness:
  "o_run (snd (callback demo_oauth ''google'' ''c'' ''forged'' 1 9 20 demo_issued)) = o_run demo_issued"
proof -
  have "partition_dot ''forged'' = None" by (simp add: partition_dot_def)
  then have "admits demo_oauth ''google'' ''forged'' 1 demo_issued = None"
    by (simp add: admits_def check_state_def verify_state_def split: sum.split)
  then show ?thesis using callback_bound [where env = demo_oauth and provider = "''google''"
        and st = "''forged''" and u = 1 and s = demo_issued and code = "''c''" and n = 9 and now = 20] by simp
qed

end
