(* ===== verification/Uploads.thy ===== *)
theory Uploads
  imports Handler_Monad Ingest
begin

text \<open>
  \<open>api/uploads.py\<close> and \<open>api/tasks_client.py\<close>: a multipart upload is sniffed, staged in a directory
  of its own, recorded as a row of \<open>upload_tasks\<close> and sent to the worker as a Celery message; the
  status of a task is read back by its owner. The state is the disk under \<open>upload_dir\<close>, the
  broker's queue and the database. libmagic, the file system's refusals, the broker's failures and
  the result backend are parameters.
\<close>

section \<open>Names\<close>

definition upload_sanitize_filename :: "string option \<Rightarrow> string" where
  "upload_sanitize_filename raw =
     (case raw of
        None \<Rightarrow> ''upload.bin''
      | Some [] \<Rightarrow> ''upload.bin''
      | Some s \<Rightarrow>
          let base = dropWhile (\<lambda>c. c = CHR ''.'') (path_name (map (\<lambda>c. if c = CHR 0x5C then CHR ''/'' else c) s));
              cleaned = map (\<lambda>c. if filename_char c then c else CHR ''_'') base
          in if cleaned = [] then ''upload.bin'' else cleaned)"

section \<open>State and environment\<close>

text \<open>\<open>celery_client.send_task(INGEST_TASK_NAME, args=[path, user_id], task_id=..., headers=...)\<close>.\<close>

record message =
  msg_name :: string
  msg_path :: string
  msg_user_id :: string
  msg_task_id :: string
  msg_correlation_id :: string

record staging =
  sg_subdirs :: "uuid list"
  sg_files :: "((uuid \<times> string) \<times> string) list"
  sg_queue :: "message list"
  sg_db :: db

datatype celery_result = ResultDict json | ResultOther

text \<open>
  \<open>accepts\<close>: the file system can create a file of that base name; \<open>can_write n\<close>: the write after
  \<open>n\<close> bytes succeeds; \<open>broker\<close>: the exception of \<open>send_task\<close>, if it fails; \<open>backend\<close>: status and result
  the Celery backend holds under a task id.
\<close>

record upload_env =
  sniff_upload :: "string \<Rightarrow> string"
  accepts :: "string \<Rightarrow> bool"
  can_write :: "nat \<Rightarrow> bool"
  broker :: "message \<Rightarrow> py_exn option"
  backend :: "string \<Rightarrow> string \<times> celery_result"
  upload_dir :: string
  upload_max_bytes :: nat

definition CHUNK_BYTES :: nat where "CHUNK_BYTES = 1048576"
definition SNIFF_BYTES :: nat where "SNIFF_BYTES = 8192"

definition ALLOWED_UPLOAD_MIMES :: "string list" where
  "ALLOWED_UPLOAD_MIMES = [''application/epub+zip'', ''application/pdf'']"

definition INGEST_TASK_NAME :: string where "INGEST_TASK_NAME = ''tasks.ingest.ingest_book''"

record upload_response =
  ur_task_id :: string
  ur_upload_id :: uuid
  ur_filename :: string

record task_status_response =
  ts_task_id :: string
  ts_status :: string
  ts_result :: "json option"

section \<open>Staging\<close>

definition unsupported_upload :: "string \<Rightarrow> py_exn" where
  "unsupported_upload mime = HTTPException 415
     (''Unsupported upload content (sniffed '' @ [CHR 0x27] @ mime @ [CHR 0x27] @ ''); expected EPUB or PDF.'')"

definition upload_too_large :: "nat \<Rightarrow> py_exn" where
  "upload_too_large max_bytes = HTTPException 413 (''Upload exceeds '' @ nat_str max_bytes @ '' bytes.'')"

definition read_sniffed_head :: "upload_env \<Rightarrow> string \<Rightarrow> string result" where
  "read_sniffed_head env body =
     (let head = take CHUNK_BYTES body; mime = sniff_upload env (take SNIFF_BYTES head)
      in if mime \<notin> set ALLOWED_UPLOAD_MIMES then Inl (unsupported_upload mime) else Inr head)"

text \<open>
  The copy loop: the chunk in hand, the rest of the body, the bytes written. The second component
  is what is at \<open>dest\<close> afterwards, nothing once it was unlinked.
\<close>

function stream_loop :: "(nat \<Rightarrow> bool) \<Rightarrow> nat \<Rightarrow> string \<Rightarrow> string \<Rightarrow> string \<Rightarrow> nat result \<times> string option" where
  "stream_loop writes max_bytes chunk rest out =
     (if chunk = [] then (Inr (length out), Some out)
      else if max_bytes < length out + length chunk then (Inl (upload_too_large max_bytes), None)
      else if \<not> writes (length out) then (Inl OSError, Some out)
      else stream_loop writes max_bytes (take CHUNK_BYTES rest) (drop CHUNK_BYTES rest) (out @ chunk))"
  by auto
termination
  by (relation "measure (\<lambda>(_, _, chunk, rest, _). length chunk + length rest)") (auto simp: min_def)

declare stream_loop.simps [simp del]

definition stream_to_disk :: "upload_env \<Rightarrow> string \<Rightarrow> uuid \<times> string \<Rightarrow> string \<Rightarrow> (staging, nat) handler" where
  "stream_to_disk env body dest head = (\<lambda>s.
     if \<not> accepts env (snd dest) then (Inl OSError, s)
     else let (r, content) = stream_loop (can_write env) (upload_max_bytes env) head (drop (length head) body) []
          in (r, case content of
                None \<Rightarrow> s\<lparr>sg_files := filter (\<lambda>(d, _). d \<noteq> dest) (sg_files s)\<rparr>
              | Some c \<Rightarrow> s\<lparr>sg_files := AList.update dest c (sg_files s)\<rparr>))"

definition make_subdir :: "uuid \<Rightarrow> (staging, unit) handler" where
  "make_subdir i = (\<lambda>s. if i \<in> set (sg_subdirs s) then (Inl OSError, s)
     else (Inr (), s\<lparr>sg_subdirs := sg_subdirs s @ [i]\<rparr>))"

section \<open>Row, message, route\<close>

definition task_insert :: "uuid \<Rightarrow> uuid \<Rightarrow> string \<Rightarrow> timestamp \<Rightarrow> (staging, unit) handler" where
  "task_insert t u filename now = (\<lambda>s.
     if t \<in> ut_task_id ` set (upload_tasks (sg_db s)) then (Inl IntegrityError, s)
     else (Inr (), s\<lparr>sg_db := (sg_db s)\<lparr>upload_tasks := upload_tasks (sg_db s) @
       [\<lparr>ut_task_id = t, ut_user_id = u, ut_book_id = None, ut_filename = filename, ut_created_at = now\<rparr>]\<rparr>\<rparr>))"

definition enqueue_ingest :: "upload_env \<Rightarrow> string option \<Rightarrow> string \<Rightarrow> string \<Rightarrow> string \<Rightarrow> string \<Rightarrow> (staging, string) handler" where
  "enqueue_ingest env bound fresh_hex path user_id task_id = (\<lambda>s.
     let correlation_id = (case bound of None \<Rightarrow> fresh_hex | Some [] \<Rightarrow> fresh_hex | Some c \<Rightarrow> c);
         m = \<lparr>msg_name = INGEST_TASK_NAME, msg_path = path, msg_user_id = user_id, msg_task_id = task_id,
              msg_correlation_id = correlation_id\<rparr>
     in case broker env m of
          Some e \<Rightarrow> (Inl e, s)
        | None \<Rightarrow> (Inr task_id, s\<lparr>sg_queue := sg_queue s @ [m]\<rparr>))"

definition staged_path :: "upload_env \<Rightarrow> uuid \<Rightarrow> string \<Rightarrow> string" where
  "staged_path env i filename = upload_dir env @ ''/'' @ str_uuid i @ ''/'' @ filename"

text \<open>The parts of one request that the server mints.\<close>

record minted_ids =
  mi_upload :: uuid
  mi_task :: uuid
  mi_hex :: string
  mi_now :: timestamp

definition upload :: "upload_env \<Rightarrow> string option \<Rightarrow> string \<Rightarrow> string option \<Rightarrow> uuid \<Rightarrow> minted_ids \<Rightarrow>
    (staging, upload_response) handler" where
  "upload env raw_name body bound u ids =
     andThen (of_result (read_sniffed_head env body)) (\<lambda>head.
     andThen (make_subdir (mi_upload ids)) (\<lambda>_.
     let filename = upload_sanitize_filename raw_name in
     andThen (stream_to_disk env body (mi_upload ids, filename) head) (\<lambda>_.
     andThen (task_insert (mi_task ids) u filename (mi_now ids)) (\<lambda>_.
     andThen (enqueue_ingest env bound (mi_hex ids) (staged_path env (mi_upload ids) filename) (str_uuid u)
       (str_uuid (mi_task ids))) (\<lambda>task_id.
     ret \<lparr>ur_task_id = task_id, ur_upload_id = mi_upload ids, ur_filename = filename\<rparr>)))))"

definition ownership_stmt :: "uuid \<Rightarrow> uuid \<Rightarrow> db \<Rightarrow> uuid list" where
  "ownership_stmt t u d = map ut_task_id (select_where (\<lambda>r. ut_task_id r = t \<and> ut_user_id r = u) (upload_tasks d))"

definition task_not_found :: py_exn where
  "task_not_found = HTTPException 404 ''Task not found.''"

definition require_owned_task :: "string \<Rightarrow> uuid \<Rightarrow> db \<Rightarrow> uuid result" where
  "require_owned_task task_id u d =
     (case parse_uuid task_id of
        None \<Rightarrow> Inl task_not_found
      | Some t \<Rightarrow>
          (case scalar_one_or_none (ownership_stmt t u d) of
             Inl e \<Rightarrow> Inl e
           | Inr None \<Rightarrow> Inl task_not_found
           | Inr (Some r) \<Rightarrow> Inr r))"

definition get_task_status :: "upload_env \<Rightarrow> string \<Rightarrow> uuid \<Rightarrow> db \<Rightarrow> task_status_response result" where
  "get_task_status env task_id u d =
     (case require_owned_task task_id u d of
        Inl e \<Rightarrow> Inl e
      | Inr _ \<Rightarrow>
          let (state, raw) = backend env task_id;
              payload = (if state = ''SUCCESS'' then (case raw of ResultDict j \<Rightarrow> Some j | ResultOther \<Rightarrow> None) else None)
          in Inr \<lparr>ts_task_id = task_id, ts_status = state, ts_result = payload\<rparr>)"

interpretation task_gate: owned_gate require_owned_task "\<lambda>t u d. ownership_stmt t u d \<noteq> []" id task_not_found
proof
  show "require_owned_task raw u d = Inl task_not_found" if "parse_uuid raw = None" for raw u d
    using that by (simp add: require_owned_task_def)
  show "require_owned_task raw u d = Inl task_not_found"
    if "parse_uuid raw = Some i" "\<not> ownership_stmt i u d \<noteq> []" for raw i u d
    using that by (simp add: require_owned_task_def)
  show "ownership_stmt i u d \<noteq> [] \<and> id r = i"
    if "parse_uuid raw = Some i" "require_owned_task raw u d = Inr r" for raw i u d r
  proof -
    have "r \<in> set (ownership_stmt i u d)"
      using that by (auto simp: require_owned_task_def scalar_Some_conv split: sum.splits option.splits)
    then show ?thesis by (auto simp: ownership_stmt_def select_where_def filter_empty_conv)
  qed
qed

end
