(* ===== verification/Uploads_Correct.thy ===== *)
theory Uploads_Correct
  imports Uploads Ingest_Correct
begin

text \<open>
  What an upload promises: nothing is staged before the sniff, the body is on disk whole or (past
  the cap) not at all, the name stays in its directory, the ownership row precedes the message,
  and the message, once the worker runs it, puts the book into the uploader's library and nobody
  else's. The worker's copy of the name sanitizer agrees with the api's.
\<close>

section \<open>Names\<close>

definition safe_name :: "string \<Rightarrow> bool" where
  "safe_name f \<longleftrightarrow> f \<noteq> [] \<and> list_all filename_char f \<and> hd f \<noteq> CHR ''.''"

lemma filename_char_facts: "filename_char CHR ''_''" "\<not> filename_char CHR ''/''" "\<not> filename_char CHR 0x00"
  by code_simp+

lemma upload_bin_safe: "safe_name ''upload.bin''" by code_simp

lemma map_hd_dropWhile: "map f (dropWhile P xs) \<noteq> [] \<Longrightarrow> hd (map f (dropWhile P xs)) = f (hd (dropWhile P xs))"
  by (cases "dropWhile P xs") simp_all

lemma sanitized_safe: "safe_name (upload_sanitize_filename raw)"
proof -
  have "safe_name (map (\<lambda>c. if filename_char c then c else CHR ''_'') (dropWhile (\<lambda>c. c = CHR ''.'') s))"
    if "map (\<lambda>c. if filename_char c then c else CHR ''_'') (dropWhile (\<lambda>c. c = CHR ''.'') s) \<noteq> []" for s
    using that hd_dropWhile [of "\<lambda>c. c = CHR ''.''" s]
    by (auto simp: safe_name_def list_all_iff filename_char_facts map_hd_dropWhile)
  then show ?thesis
    by (auto simp: upload_sanitize_filename_def Let_def upload_bin_safe split: option.split list.split)
qed

lemma take_map_empty: "0 < n \<Longrightarrow> take n (map f xs) = [] \<longleftrightarrow> map f xs = []" by simp

lemma sanitizers_agree:
  "sanitize_filename raw = take MAX_FILENAME_CHARS (upload_sanitize_filename raw)"
  by (auto simp: sanitize_filename_def upload_sanitize_filename_def Let_def MAX_FILENAME_CHARS_def
      split: option.split list.split)

lemma split_on_plain: "sep \<notin> set s \<Longrightarrow> split_on sep cur s = [cur @ s]"
  by (induction s arbitrary: cur) auto

lemma split_on_append:
  "split_on sep cur (s @ [sep] @ t) = split_on sep cur s @ split_on sep [] t"
  by (induction s arbitrary: cur) auto

lemma path_name_snoc: "split_on CHR ''/'' [] p = xs @ [f] \<Longrightarrow> f \<noteq> [] \<Longrightarrow> f \<noteq> ''.'' \<Longrightarrow> path_name p = f"
  by (cases "filter (\<lambda>c. c \<noteq> [] \<and> c \<noteq> ''.'') xs") (simp_all add: path_name_def)

lemma staged_path_name:
  assumes "safe_name f" shows "path_name (staged_path env i f) = f"
proof -
  have plain: "CHR ''/'' \<notin> set f" using assms filename_char_facts(2) by (auto simp: safe_name_def list_all_iff)
  have "split_on CHR ''/'' [] (staged_path env i f) =
      split_on CHR ''/'' [] (upload_dir env @ ''/'' @ str_uuid i) @ [f]"
    using split_on_append [of "CHR ''/''" "[]" "upload_dir env @ ''/'' @ str_uuid i" f] split_on_plain [OF plain, of "[]"]
    by (simp add: staged_path_def)
  moreover have "f \<noteq> []" "f \<noteq> ''.''" using assms by (auto simp: safe_name_def)
  ultimately show ?thesis
    by (rule path_name_snoc)
qed

section \<open>The copy loop\<close>

text \<open>What the loop leaves of \<open>body\<close>: all of it, nothing past the cap, or a prefix when the disk fails.\<close>

definition streamed :: "nat \<Rightarrow> (nat \<Rightarrow> bool) \<Rightarrow> string \<Rightarrow> nat result \<times> string option \<Rightarrow> bool" where
  "streamed M w body p \<longleftrightarrow> (case fst p of
      Inr n \<Rightarrow> snd p = Some body \<and> n = length body \<and> n \<le> M
    | Inl e \<Rightarrow> (e = upload_too_large M \<and> snd p = None \<and> M < length body) \<or>
        (e = OSError \<and> (\<exists>k. snd p = Some (take k body) \<and> k \<le> M \<and> \<not> w k)))"

lemma streamed_fails: "k \<le> M \<Longrightarrow> \<not> w k \<Longrightarrow> c = take k body \<Longrightarrow> streamed M w body (Inl OSError, Some c)"
  by (auto simp: streamed_def)

lemma stream_loop_spec:
  assumes "chunk = [] \<longrightarrow> rest = []" "length out \<le> M"
  shows "streamed M w (out @ chunk @ rest) (stream_loop w M chunk rest out)"
  using assms
proof (induction w M chunk rest out rule: stream_loop.induct)
  case (1 w M chunk rest out)
  consider "chunk = []" | "chunk \<noteq> []" "M < length out + length chunk"
    | "chunk \<noteq> []" "\<not> M < length out + length chunk" "\<not> w (length out)"
    | "chunk \<noteq> []" "\<not> M < length out + length chunk" "w (length out)" by blast
  then show ?case
  proof cases
    case 3
    have "streamed M w (out @ chunk @ rest) (Inl OSError, Some out)"
      by (rule streamed_fails [where k = "length out"]) (use 3 1(3) in simp_all)
    moreover have "stream_loop w M chunk rest out = (Inl OSError, Some out)"
      using 3 by (subst stream_loop.simps) simp
    ultimately show ?thesis by simp
  next
    case 4
    have "take CHUNK_BYTES rest = [] \<longrightarrow> drop CHUNK_BYTES rest = []" by (simp add: CHUNK_BYTES_def)
    moreover have "length (out @ chunk) \<le> M" using 4 by simp
    ultimately have "streamed M w ((out @ chunk) @ take CHUNK_BYTES rest @ drop CHUNK_BYTES rest)
        (stream_loop w M (take CHUNK_BYTES rest) (drop CHUNK_BYTES rest) (out @ chunk))"
      using 1(1) 4 by blast
    then have "streamed M w (out @ chunk @ rest)
        (stream_loop w M (take CHUNK_BYTES rest) (drop CHUNK_BYTES rest) (out @ chunk))" by simp
    then show ?thesis using 4 by (subst stream_loop.simps) simp
  qed (use 1 in \<open>subst stream_loop.simps, simp add: streamed_def\<close>)+
qed

lemma stream_body:
  "streamed M w body (stream_loop w M (take CHUNK_BYTES body) (drop (length (take CHUNK_BYTES body)) body) [])"
proof -
  have rest: "drop (length (take CHUNK_BYTES body)) body = drop CHUNK_BYTES body"
    by (cases "CHUNK_BYTES \<le> length body") (simp_all add: min_def)
  have "take CHUNK_BYTES body = [] \<longrightarrow> drop CHUNK_BYTES body = []" by (simp add: CHUNK_BYTES_def)
  from stream_loop_spec [OF this, of "[]" M w] show ?thesis unfolding rest by simp
qed

section \<open>One upload\<close>

text \<open>A message the worker can act on: its file is staged, its task is owned by its user.\<close>

definition deliverable :: "upload_env \<Rightarrow> staging \<Rightarrow> message \<Rightarrow> bool" where
  "deliverable env s m \<longleftrightarrow> (\<exists>t u i f. msg_task_id m = str_uuid t \<and> msg_user_id m = str_uuid u \<and>
     msg_path m = staged_path env i f \<and> safe_name f \<and> (i, f) \<in> fst ` set (sg_files s) \<and>
     (t, u) \<in> (\<lambda>r. (ut_task_id r, ut_user_id r)) ` set (upload_tasks (sg_db s)))"

definition staging_ok :: "upload_env \<Rightarrow> staging \<Rightarrow> bool" where
  "staging_ok env s \<longleftrightarrow> distinct (map ut_task_id (upload_tasks (sg_db s))) \<and>
     fst ` fst ` set (sg_files s) \<subseteq> set (sg_subdirs s) \<and> list_all (deliverable env s) (sg_queue s)"

lemma deliverable_mono:
  assumes "deliverable env s m" "fst ` set (sg_files s) \<subseteq> fst ` set (sg_files s')"
    "set (upload_tasks (sg_db s)) \<subseteq> set (upload_tasks (sg_db s'))"
  shows "deliverable env s' m"
  using assms unfolding deliverable_def by blast

text \<open>Growing the directories, the files and the rows keeps the queue deliverable.\<close>

lemma staging_ok_grow:
  assumes "staging_ok env s" "set (sg_subdirs s) \<subseteq> set (sg_subdirs s')"
    "fst ` set (sg_files s) \<subseteq> fst ` set (sg_files s')" "fst ` fst ` set (sg_files s') \<subseteq> set (sg_subdirs s')"
    "set (upload_tasks (sg_db s)) \<subseteq> set (upload_tasks (sg_db s'))"
    "distinct (map ut_task_id (upload_tasks (sg_db s')))" "sg_queue s' = sg_queue s"
  shows "staging_ok env s'"
  using assms deliverable_mono [OF _ assms(3,5)] by (auto simp: staging_ok_def list_all_iff)

lemma staging_okD:
  "staging_ok env s \<Longrightarrow> distinct (map ut_task_id (upload_tasks (sg_db s)))"
  "staging_ok env s \<Longrightarrow> fst ` fst ` set (sg_files s) \<subseteq> set (sg_subdirs s)"
  by (simp_all add: staging_ok_def)

lemma subdir_keeps:
  assumes "staging_ok env s" shows "staging_ok env (s\<lparr>sg_subdirs := sg_subdirs s @ [i]\<rparr>)"
  by (rule staging_ok_grow [OF assms]) (use staging_okD [OF assms] in auto)

lemma file_keeps:
  assumes "staging_ok env s" "i \<in> set (sg_subdirs s)"
  shows "staging_ok env (s\<lparr>sg_files := AList.update (i, f) c (sg_files s)\<rparr>)"
  by (rule staging_ok_grow [OF assms(1)]) (use staging_okD [OF assms(1)] assms(2) in \<open>auto simp: dom_update\<close>)

definition task_row :: "uuid \<Rightarrow> uuid \<Rightarrow> string \<Rightarrow> timestamp \<Rightarrow> upload_task" where
  "task_row t u f now = \<lparr>ut_task_id = t, ut_user_id = u, ut_book_id = None, ut_filename = f, ut_created_at = now\<rparr>"

lemma task_keeps:
  assumes "staging_ok env s" "t \<notin> ut_task_id ` set (upload_tasks (sg_db s))"
  shows "staging_ok env (s\<lparr>sg_db := (sg_db s)\<lparr>upload_tasks := upload_tasks (sg_db s) @ [task_row t u f now]\<rparr>\<rparr>)"
  by (rule staging_ok_grow [OF assms(1)]) (use staging_okD [OF assms(1)] assms(2) in \<open>auto simp: task_row_def\<close>)

lemma queue_keeps:
  assumes "staging_ok env s" "deliverable env s m" shows "staging_ok env (s\<lparr>sg_queue := sg_queue s @ [m]\<rparr>)"
  using assms by (auto simp: staging_ok_def list_all_iff deliverable_def)

text \<open>A fresh directory holds no file, so unlinking in it touches no other upload.\<close>

lemma unlink_fresh:
  assumes "staging_ok env s" "fst dest \<notin> set (sg_subdirs s)"
  shows "filter (\<lambda>(d, _). d \<noteq> dest) (sg_files s) = sg_files s"
proof -
  have "fst x \<noteq> dest" if "x \<in> set (sg_files s)" for x
    using staging_okD(2) [OF assms(1)] assms(2) that by (metis image_eqI subset_iff)
  then show ?thesis by (simp add: filter_id_conv case_prod_beta)
qed

text \<open>What happens to the disk, and the message that is sent.\<close>

definition place :: "uuid \<times> string \<Rightarrow> string option \<Rightarrow> staging \<Rightarrow> staging" where
  "place dest content s = (case content of
      None \<Rightarrow> s\<lparr>sg_files := filter (\<lambda>(d, _). d \<noteq> dest) (sg_files s)\<rparr>
    | Some c \<Rightarrow> s\<lparr>sg_files := AList.update dest c (sg_files s)\<rparr>)"

definition ingest_message :: "upload_env \<Rightarrow> string option \<Rightarrow> string \<Rightarrow> uuid \<Rightarrow> minted_ids \<Rightarrow> message" where
  "ingest_message env bound f u ids = \<lparr>msg_name = INGEST_TASK_NAME, msg_path = staged_path env (mi_upload ids) f,
     msg_user_id = str_uuid u, msg_task_id = str_uuid (mi_task ids),
     msg_correlation_id = (case bound of None \<Rightarrow> mi_hex ids | Some [] \<Rightarrow> mi_hex ids | Some c \<Rightarrow> c)\<rparr>"

abbreviation sniffs_as_book :: "upload_env \<Rightarrow> string \<Rightarrow> bool" where
  "sniffs_as_book env body \<equiv> sniff_upload env (take SNIFF_BYTES (take CHUNK_BYTES body)) \<in> set ALLOWED_UPLOAD_MIMES"

abbreviation copied :: "upload_env \<Rightarrow> string \<Rightarrow> nat result \<times> string option" where
  "copied env body \<equiv> stream_loop (can_write env) (upload_max_bytes env) (take CHUNK_BYTES body)
     (drop (length (take CHUNK_BYTES body)) body) []"

lemma upload_eval:
  "upload env raw body bound u ids s =
     (let i = mi_upload ids; f = upload_sanitize_filename raw; t = mi_task ids;
          s1 = s\<lparr>sg_subdirs := sg_subdirs s @ [i]\<rparr>; s2 = place (i, f) (snd (copied env body)) s1;
          s3 = s2\<lparr>sg_db := (sg_db s2)\<lparr>upload_tasks := upload_tasks (sg_db s2) @ [task_row t u f (mi_now ids)]\<rparr>\<rparr>;
          m = ingest_message env bound f u ids
      in if \<not> sniffs_as_book env body then
           (Inl (unsupported_upload (sniff_upload env (take SNIFF_BYTES (take CHUNK_BYTES body)))), s)
         else if i \<in> set (sg_subdirs s) then (Inl OSError, s)
         else if \<not> accepts env f then (Inl OSError, s1)
         else case fst (copied env body) of
           Inl e \<Rightarrow> (Inl e, s2)
         | Inr n \<Rightarrow>
             if t \<in> ut_task_id ` set (upload_tasks (sg_db s2)) then (Inl IntegrityError, s2)
             else case broker env m of
               Some e \<Rightarrow> (Inl e, s3)
             | None \<Rightarrow> (Inr \<lparr>ur_task_id = str_uuid t, ur_upload_id = i, ur_filename = f\<rparr>,
                 s3\<lparr>sg_queue := sg_queue s3 @ [m]\<rparr>))"
  by (simp add: upload_def andThen_def of_result_def ret_def read_sniffed_head_def make_subdir_def stream_to_disk_def
      task_insert_def enqueue_ingest_def place_def ingest_message_def task_row_def Let_def case_prod_beta
      split: sum.split option.split)

lemma place_files: "sg_subdirs (place x c s) = sg_subdirs s" "sg_queue (place x c s) = sg_queue s" "sg_db (place x c s) = sg_db s"
  by (simp_all add: place_def split: option.split)

lemma place_keeps:
  assumes "staging_ok env s" "i \<notin> set (sg_subdirs s)"
  shows "staging_ok env (place (i, f) c (s\<lparr>sg_subdirs := sg_subdirs s @ [i]\<rparr>))"
proof (cases c)
  case None
  then show ?thesis using unlink_fresh [OF assms(1), of "(i, f)"] subdir_keeps [OF assms(1), of i] assms(2)
    by (simp add: place_def)
next
  case (Some b)
  then show ?thesis using file_keeps [OF subdir_keeps [OF assms(1), of i], of i f b] by (simp add: place_def)
qed

text \<open>
  The whole route: whatever happens, the queue stays deliverable; the two results differ in what
  was left.
\<close>

lemma upload_keeps:
  assumes ok: "staging_ok env s"
  shows "staging_ok env (snd (upload env raw body bound u ids s))"
proof -
  let ?i = "mi_upload ids" and ?f = "upload_sanitize_filename raw"
  let ?s1 = "s\<lparr>sg_subdirs := sg_subdirs s @ [?i]\<rparr>"
  let ?s2 = "place (?i, ?f) (snd (copied env body)) ?s1"
  let ?s3 = "?s2\<lparr>sg_db := (sg_db ?s2)\<lparr>upload_tasks := upload_tasks (sg_db ?s2) @ [task_row (mi_task ids) u ?f (mi_now ids)]\<rparr>\<rparr>"
  have s1: "staging_ok env ?s1" by (rule subdir_keeps [OF ok])
  have s2: "staging_ok env ?s2" if "?i \<notin> set (sg_subdirs s)" by (rule place_keeps [OF ok that])
  have s3: "staging_ok env ?s3" if "?i \<notin> set (sg_subdirs s)" "mi_task ids \<notin> ut_task_id ` set (upload_tasks (sg_db ?s2))"
    by (rule task_keeps [OF s2 [OF that(1)] that(2)])
  have m: "deliverable env ?s3 (ingest_message env bound ?f u ids)" if "fst (copied env body) = Inr n" for n
  proof -
    have "snd (copied env body) = Some body"
      using stream_body [of "upload_max_bytes env" "can_write env" body] that by (simp add: streamed_def)
    then have "(?i, ?f) \<in> fst ` set (sg_files ?s3)" by (simp add: place_def dom_update)
    moreover have "(mi_task ids, u) \<in> (\<lambda>r. (ut_task_id r, ut_user_id r)) ` set (upload_tasks (sg_db ?s3))"
      by (simp add: task_row_def)
    ultimately show ?thesis unfolding deliverable_def ingest_message_def using sanitized_safe [of raw] by auto
  qed
  show ?thesis unfolding upload_eval Let_def using ok s1 s2 s3 queue_keeps [OF s3 m]
    by (auto split: sum.split option.split)
qed

text \<open>
  C32: An upload is all or nothing where it matters. From a state whose queued messages are all
  deliverable (their file is staged under a safe name, their task row belongs to their user), every
  outcome leaves such a state. An accepted upload stored exactly the body, within the cap and
  sniffed as EPUB or PDF, under a name that cannot leave its directory, committed one row of the
  caller's and sent one message about it. A refused one sends nothing; other content changes
  nothing at all; a body past the cap leaves no file and no row. And an acceptable upload on a
  working disk and broker is accepted.
\<close>

theorem upload_outcome:
  assumes ok: "staging_ok env s" and run: "upload env raw body bound u ids s = (r, s')"
  shows "staging_ok env s' \<and>
    (case r of
       Inr resp \<Rightarrow> sniffs_as_book env body \<and> length body \<le> upload_max_bytes env \<and> safe_name (ur_filename resp) \<and>
         map_of (sg_files s') (ur_upload_id resp, ur_filename resp) = Some body \<and>
         upload_tasks (sg_db s') = upload_tasks (sg_db s) @ [task_row (mi_task ids) u (ur_filename resp) (mi_now ids)] \<and>
         sg_queue s' = sg_queue s @ [ingest_message env bound (ur_filename resp) u ids]
     | Inl e \<Rightarrow> sg_queue s' = sg_queue s) \<and>
    (\<not> sniffs_as_book env body \<longrightarrow> s' = s) \<and>
    (upload_max_bytes env < length body \<and> (\<forall>n. can_write env n) \<longrightarrow>
       \<not> is_ok r \<and> sg_files s' = sg_files s \<and> sg_db s' = sg_db s) \<and>
    (sniffs_as_book env body \<and> length body \<le> upload_max_bytes env \<and> (\<forall>n. can_write env n) \<and>
       mi_upload ids \<notin> set (sg_subdirs s) \<and> mi_task ids \<notin> ut_task_id ` set (upload_tasks (sg_db s)) \<and>
       accepts env (upload_sanitize_filename raw) \<and> (\<forall>m. broker env m = None) \<longrightarrow> is_ok r)"
proof (intro conjI impI)
  note streamed = stream_body [of "upload_max_bytes env" "can_write env" body, unfolded streamed_def]
  show "staging_ok env s'" using upload_keeps [OF ok, of raw body bound u ids] run by simp
  show "s' = s" if "\<not> sniffs_as_book env body" using run that by (auto simp: upload_eval Let_def)
  show "case r of
       Inr resp \<Rightarrow> sniffs_as_book env body \<and> length body \<le> upload_max_bytes env \<and> safe_name (ur_filename resp) \<and>
         map_of (sg_files s') (ur_upload_id resp, ur_filename resp) = Some body \<and>
         upload_tasks (sg_db s') = upload_tasks (sg_db s) @ [task_row (mi_task ids) u (ur_filename resp) (mi_now ids)] \<and>
         sg_queue s' = sg_queue s @ [ingest_message env bound (ur_filename resp) u ids]
     | Inl e \<Rightarrow> sg_queue s' = sg_queue s"
    using run streamed sanitized_safe [of raw]
    by (auto simp: upload_eval Let_def place_files place_def update_conv split: if_splits sum.splits option.splits)
  have over: "fst (copied env body) = Inl (upload_too_large (upload_max_bytes env)) \<and> snd (copied env body) = None"
    if "upload_max_bytes env < length body" "\<forall>n. can_write env n"
    using streamed that by (auto split: sum.splits)
  show "\<not> is_ok r" "sg_files s' = sg_files s" "sg_db s' = sg_db s"
    if "upload_max_bytes env < length body \<and> (\<forall>n. can_write env n)"
    using run over that unlink_fresh [OF ok, of "(mi_upload ids, upload_sanitize_filename raw)"]
    by (auto simp: upload_eval Let_def place_def split: if_splits)
  show "is_ok r" if "sniffs_as_book env body \<and> length body \<le> upload_max_bytes env \<and> (\<forall>n. can_write env n) \<and>
       mi_upload ids \<notin> set (sg_subdirs s) \<and> mi_task ids \<notin> ut_task_id ` set (upload_tasks (sg_db s)) \<and>
       accepts env (upload_sanitize_filename raw) \<and> (\<forall>m. broker env m = None)"
    using run streamed that by (auto simp: upload_eval Let_def place_files split: if_splits sum.splits option.splits)
qed

section \<open>An upload\<close>

definition demo_upload_env :: "(string \<Rightarrow> string \<times> celery_result) \<Rightarrow> upload_env" where
  "demo_upload_env results = \<lparr>sniff_upload = (\<lambda>_. ''application/pdf''), accepts = (\<lambda>_. True), can_write = (\<lambda>_. True),
     broker = (\<lambda>_. None), backend = results, upload_dir = ''/u'', upload_max_bytes = 10\<rparr>"

definition demo_staging :: staging where
  "demo_staging = \<lparr>sg_subdirs = [], sg_files = [], sg_queue = [], sg_db = empty_db\<rparr>"

definition demo_ids :: minted_ids where
  "demo_ids = \<lparr>mi_upload = 2, mi_task = 5, mi_hex = ''c'', mi_now = 0\<rparr>"

definition demo_upload :: "upload_response result \<times> staging" where
  "demo_upload = upload (demo_upload_env (\<lambda>_. (''PENDING'', ResultOther))) (Some ''a b.pdf'') ''%PDF'' None 1 demo_ids demo_staging"

lemma demo_staging_ok: "staging_ok env demo_staging"
  by (simp add: staging_ok_def demo_staging_def empty_db_def)

lemma demo_copied: "copied (demo_upload_env r) ''%PDF'' = (Inr 4, Some ''%PDF'')"
  using stream_body [of 10 "\<lambda>_. True" "''%PDF''"]
  by (auto simp: streamed_def demo_upload_env_def prod_eq_iff split: sum.splits)

lemma demo_accepted:
  "demo_upload = (Inr \<lparr>ur_task_id = str_uuid 5, ur_upload_id = 2, ur_filename = upload_sanitize_filename (Some ''a b.pdf'')\<rparr>,
     snd demo_upload)"
  "upload_tasks (sg_db (snd demo_upload)) = [task_row 5 1 (upload_sanitize_filename (Some ''a b.pdf'')) 0]"
  "sg_queue (snd demo_upload) = [ingest_message (demo_upload_env (\<lambda>_. (''PENDING'', ResultOther))) None
     (upload_sanitize_filename (Some ''a b.pdf'')) 1 demo_ids]"
  "chunks (sg_db (snd demo_upload)) = []" "user_library (sg_db (snd demo_upload)) = []"
  "global_books (sg_db (snd demo_upload)) = []"
  unfolding demo_upload_def upload_eval Let_def demo_copied
  by (simp_all add: demo_upload_env_def demo_staging_def demo_ids_def place_files ALLOWED_UPLOAD_MIMES_def empty_db_def
      place_def)

lemma demo_upload_run:
  "upload (demo_upload_env (\<lambda>_. (''PENDING'', ResultOther))) (Some ''a b.pdf'') ''%PDF'' None 1 demo_ids demo_staging =
   (Inr \<lparr>ur_task_id = str_uuid 5, ur_upload_id = 2, ur_filename = upload_sanitize_filename (Some ''a b.pdf'')\<rparr>,
    snd demo_upload)"
  using demo_accepted(1) by (simp only: demo_upload_def [symmetric])

theorem upload_outcome_witness:
  "map_of (sg_files (snd demo_upload)) (2, upload_sanitize_filename (Some ''a b.pdf'')) = Some ''%PDF''"
  using upload_outcome [OF demo_staging_ok demo_upload_run] by auto

end
