(* ===== verification/Reader.thy ===== *)
theory Reader
  imports Tenancy
begin

text \<open>
  \<open>api/reader.py\<close> (the windowed chunk pages and the saved reading position of a book, behind the
  \<open>user_library\<close> gate) and \<open>api/library.py\<close> (the caller's books with their reading progress).
  A scroll ratio is a rational number; the \<open>chunk_index\<close> columns are 32-bit, and a bound value
  outside that range is refused by the driver (\<open>DataError\<close>).
\<close>

section \<open>Models\<close>

definition DEFAULT_WINDOW :: int where "DEFAULT_WINDOW = 40"
definition MAX_WINDOW :: int where "MAX_WINDOW = 100"

record chunk_item =
  ci_chunk_index :: int
  ci_content :: string

record position_response =
  po_book_id :: uuid
  po_chunk_index :: "int option"
  po_offset_ratio :: "rat option"
  po_updated_at :: "timestamp option"

record position_update =
  pu_chunk_index :: int
  pu_offset_ratio :: "rat option"
  pu_extra :: "string list"

definition rdr_unprocessable :: py_exn where
  "rdr_unprocessable = HTTPException 422 ''Unprocessable Entity''"

definition validate_position_update :: "position_update \<Rightarrow> bool" where
  "validate_position_update p \<longleftrightarrow> pu_extra p = [] \<and> 0 \<le> pu_chunk_index p \<and>
     (case pu_offset_ratio p of None \<Rightarrow> True | Some r \<Rightarrow> 0 \<le> r \<and> r \<le> 1)"

text \<open>Query parameters of the window: \<open>start >= 0\<close>, \<open>limit >= 1\<close>.\<close>

definition validate_window :: "int \<Rightarrow> int \<Rightarrow> bool" where
  "validate_window start limit \<longleftrightarrow> 0 \<le> start \<and> 1 \<le> limit"

definition int32_bind :: "int \<Rightarrow> unit result" where
  "int32_bind i = (if - (2 ^ 31) \<le> i \<and> i < 2 ^ 31 then Inr () else Inl DataError)"

section \<open>Statements\<close>

definition membership_stmt :: "uuid \<Rightarrow> uuid \<Rightarrow> db \<Rightarrow> uuid list" where
  "membership_stmt b u d =
     map ul_book_id (select_where (\<lambda>r. ul_book_id r = b \<and> ul_user_id r = u) (user_library d))"

definition chunk_window_stmt :: "uuid \<Rightarrow> int \<Rightarrow> int \<Rightarrow> db \<Rightarrow> (int \<times> string) list" where
  "chunk_window_stmt b start limit d = take (nat limit) (map (\<lambda>c. (chk_chunk_index c, chk_content c))
     (sort_key chk_chunk_index
       (select_where (\<lambda>c. chk_book_id c = b \<and> start \<le> chk_chunk_index c) (chunks d))))"

definition position_stmt :: "uuid \<Rightarrow> uuid \<Rightarrow> db \<Rightarrow> reading_position list" where
  "position_stmt b u d = select_where (\<lambda>r. rp_book_id r = b \<and> rp_user_id r = u) (reading_positions d)"

text \<open>\<open>INSERT ... ON CONFLICT (user_id, book_id) DO UPDATE ... RETURNING\<close>.\<close>

definition position_upsert_stmt ::
  "uuid \<Rightarrow> uuid \<Rightarrow> int \<Rightarrow> rat option \<Rightarrow> uuid \<Rightarrow> timestamp \<Rightarrow> db \<Rightarrow> reading_position list \<times> db" where
  "position_upsert_stmt u b i ratio new_id now d =
     (let p = (\<lambda>r. rp_book_id r = b \<and> rp_user_id r = u);
          upd = (\<lambda>r. r\<lparr>rp_chunk_index := i, rp_offset_ratio := ratio, rp_updated_at := now\<rparr>);
          new = \<lparr>rp_position_id = new_id, rp_user_id = u, rp_book_id = b, rp_chunk_index = i,
                 rp_offset_ratio = ratio, rp_updated_at = now\<rparr>
      in if position_stmt b u d = []
         then ([new], d\<lparr>reading_positions := reading_positions d @ [new]\<rparr>)
         else (map upd (position_stmt b u d),
               d\<lparr>reading_positions := update_where p upd (reading_positions d)\<rparr>))"

section \<open>Routes\<close>

definition book_not_found :: py_exn where
  "book_not_found = HTTPException 404 ''Book not found.''"

definition require_owned_book :: "string \<Rightarrow> uuid \<Rightarrow> db \<Rightarrow> uuid result" where
  "require_owned_book book_id u d =
     (case parse_uuid book_id of
        None \<Rightarrow> Inl book_not_found
      | Some b \<Rightarrow>
          (case scalar_one_or_none (membership_stmt b u d) of
             Inl e \<Rightarrow> Inl e
           | Inr None \<Rightarrow> Inl book_not_found
           | Inr (Some _) \<Rightarrow> Inr b))"

definition get_chunk_window :: "string \<Rightarrow> int \<Rightarrow> int \<Rightarrow> uuid \<Rightarrow> db \<Rightarrow> (uuid \<times> chunk_item list) result" where
  "get_chunk_window book_id start limit u d =
     (if \<not> validate_window start limit then Inl rdr_unprocessable
      else case require_owned_book book_id u d of
        Inl e \<Rightarrow> Inl e
      | Inr b \<Rightarrow>
          (case int32_bind start of
             Inl e \<Rightarrow> Inl e
           | Inr _ \<Rightarrow> Inr (b, map (\<lambda>(i, c). \<lparr>ci_chunk_index = i, ci_content = c\<rparr>)
               (chunk_window_stmt b start (min limit MAX_WINDOW) d))))"

definition position_of :: "uuid \<Rightarrow> reading_position \<Rightarrow> position_response" where
  "position_of b r = \<lparr>po_book_id = b, po_chunk_index = Some (rp_chunk_index r),
     po_offset_ratio = rp_offset_ratio r, po_updated_at = Some (rp_updated_at r)\<rparr>"

definition get_position :: "string \<Rightarrow> uuid \<Rightarrow> db \<Rightarrow> position_response result" where
  "get_position book_id u d =
     (case require_owned_book book_id u d of
        Inl e \<Rightarrow> Inl e
      | Inr b \<Rightarrow>
          (case scalar_one_or_none (position_stmt b u d) of
             Inl e \<Rightarrow> Inl e
           | Inr None \<Rightarrow> Inr \<lparr>po_book_id = b, po_chunk_index = None, po_offset_ratio = None, po_updated_at = None\<rparr>
           | Inr (Some r) \<Rightarrow> Inr (position_of b r)))"

definition put_position ::
  "string \<Rightarrow> position_update \<Rightarrow> uuid \<Rightarrow> uuid \<Rightarrow> timestamp \<Rightarrow> db \<Rightarrow> position_response result \<times> db" where
  "put_position book_id p u new_id now d =
     (if \<not> validate_position_update p then (Inl rdr_unprocessable, d)
      else case require_owned_book book_id u d of
        Inl e \<Rightarrow> (Inl e, d)
      | Inr b \<Rightarrow>
          (case int32_bind (pu_chunk_index p) of
             Inl e \<Rightarrow> (Inl e, d)
           | Inr _ \<Rightarrow>
               let (rows, d') = position_upsert_stmt u b (pu_chunk_index p) (pu_offset_ratio p) new_id now d
               in case one_row rows of
                    Inl e \<Rightarrow> (Inl e, d)
                  | Inr r \<Rightarrow> (Inr (position_of b r), d')))"

section \<open>The library\<close>

record library_book =
  lb_book_id :: uuid
  lb_title :: string
  lb_author :: "string option"
  lb_category :: "string option"
  lb_added_at :: timestamp
  lb_chunk_count :: "int option"
  lb_last_chunk_index :: "int option"
  lb_progress :: "rat option"

text \<open>The grouped count joined from the left: no row for a book without chunks.\<close>

definition chunk_count_of :: "uuid \<Rightarrow> db \<Rightarrow> int option" where
  "chunk_count_of b d = (let n = length (select_where (\<lambda>c. chk_book_id c = b) (chunks d))
     in if n = 0 then None else Some (int n))"

text \<open>The left join on user and book: each position of the caller's, or one null row.\<close>

definition last_indexes :: "uuid \<Rightarrow> uuid \<Rightarrow> db \<Rightarrow> int option list" where
  "last_indexes u b d = (case select_where (\<lambda>r. rp_user_id r = u \<and> rp_book_id r = b) (reading_positions d) of
     [] \<Rightarrow> [None] | rs \<Rightarrow> map (\<lambda>r. Some (rp_chunk_index r)) rs)"

definition library_stmt ::
  "uuid \<Rightarrow> db \<Rightarrow> (user_library_entry \<times> global_book \<times> int option \<times> int option) list" where
  "library_stmt u d = concat (map (\<lambda>e. concat (map (\<lambda>g. map (\<lambda>i. (e, g, chunk_count_of (ul_book_id e) d, i))
          (last_indexes (ul_user_id e) (ul_book_id e) d))
        (select_where (\<lambda>g. gb_book_id g = ul_book_id e) (global_books d))))
     (sort_key (\<lambda>e. - ul_added_at e) (select_where (\<lambda>e. ul_user_id e = u) (user_library d))))"

definition progress :: "int option \<Rightarrow> int option \<Rightarrow> rat option" where
  "progress last_chunk_index chunk_count = (case (last_chunk_index, chunk_count) of
     (Some i, Some n) \<Rightarrow> if n = 0 then None else Some (min (of_int (i + 1) / of_int n) 1)
   | _ \<Rightarrow> None)"

definition list_library :: "uuid \<Rightarrow> db \<Rightarrow> library_book list" where
  "list_library u d = map (\<lambda>(e, g, count, i).
     \<lparr>lb_book_id = ul_book_id e, lb_title = gb_title g, lb_author = gb_author g, lb_category = ul_category e,
      lb_added_at = ul_added_at e, lb_chunk_count = count, lb_last_chunk_index = i,
      lb_progress = progress i count\<rparr>) (library_stmt u d)"

section \<open>Tenant contract\<close>

lemma reader_stmts_tenant_view [tenant_simps]:
  "membership_stmt b u (tenant_view u d) = membership_stmt b u d"
  "chunk_window_stmt b start limit (tenant_view u d) = chunk_window_stmt b start limit d"
  "position_stmt b u (tenant_view u d) = position_stmt b u d"
  "position_upsert_stmt u b i r n now (tenant_view u d) = map_prod id (tenant_view u) (position_upsert_stmt u b i r n now d)"
  by (simp_all add: membership_stmt_def chunk_window_stmt_def position_stmt_def position_upsert_stmt_def Let_def
      tenant_simps)

lemma position_upsert_frame [tenant_simps]:
  "u \<noteq> w \<Longrightarrow> tenant_view w (snd (position_upsert_stmt u b i r n now d)) = tenant_view w d"
  by (simp add: position_upsert_stmt_def Let_def tenant_simps tenant_frame)

lemma require_owned_book_tenant_view [tenant_simps]:
  "require_owned_book raw u (tenant_view u d) = require_owned_book raw u d"
  by (simp only: require_owned_book_def reader_stmts_tenant_view)

lemma library_stmt_tenant_view [tenant_simps]: "library_stmt u (tenant_view u d) = library_stmt u d"
proof -
  have pos: "last_indexes u b (tenant_view u d) = last_indexes u b d" for b
    by (simp add: last_indexes_def tenant_simps)
  have count: "chunk_count_of b (tenant_view u d) = chunk_count_of b d" for b
    by (simp add: chunk_count_of_def tenant_simps)
  let ?mine = "\<lambda>d. sort_key (\<lambda>e. - ul_added_at e) (select_where (\<lambda>e. ul_user_id e = u) (user_library d))"
  have rows: "?mine (tenant_view u d) = ?mine d"
    by (simp add: user_library_tenant_view select_owned)
  have own: "ul_user_id e = u" if "e \<in> set (?mine d)" for e using that by simp
  show ?thesis unfolding library_stmt_def rows
    by (rule arg_cong [where f = concat], rule map_cong [OF refl])
      (simp only: own pos count global_books_tenant_view)
qed

datatype reader_op =
    ReadWindow string int int
  | ReadPosition string
  | PutPosition string position_update uuid
  | ListLibrary

datatype reader_out =
    WindowOut "(uuid \<times> chunk_item list) result"
  | PositionOut "position_response result"
  | LibraryOut "library_book list"

fun reader_step :: "uuid \<Rightarrow> timestamp \<times> reader_op \<Rightarrow> db \<Rightarrow> reader_out \<times> db" where
  "reader_step u (now, ReadWindow raw start limit) = (\<lambda>d. (WindowOut (get_chunk_window raw start limit u d), d))"
| "reader_step u (now, ReadPosition raw) = (\<lambda>d. (PositionOut (get_position raw u d), d))"
| "reader_step u (now, PutPosition raw p n) = (\<lambda>d. map_prod PositionOut id (put_position raw p u n now d))"
| "reader_step u (now, ListLibrary) = (\<lambda>d. (LibraryOut (list_library u d), d))"

lemma put_position_scoped: "scoped u (put_position raw p u n now)"
  by (rule scopedI) (simp_all add: put_position_def tenant_simps split: sum.split)

lemma reader_step_scoped: "scoped u (reader_step u op)"
proof -
  obtain now x where op: "op = (now, x)" by (cases op)
  show ?thesis
    by (cases x) (simp_all add: op scoped_out scoped_read put_position_scoped get_chunk_window_def get_position_def
        list_library_def tenant_simps cong: sum.case_cong)
qed

interpretation reader: tenant_step tenant_view reader_step "\<lambda>_ _. True"
  by (rule scoped_step) (rule reader_step_scoped)

interpretation book_gate: owned_gate require_owned_book "\<lambda>b u d. membership_stmt b u d \<noteq> []" id book_not_found
proof
  show "require_owned_book raw u d = Inl book_not_found" if "parse_uuid raw = None" for raw u d
    using that by (simp add: require_owned_book_def)
  show "require_owned_book raw u d = Inl book_not_found"
    if "parse_uuid raw = Some i" "\<not> membership_stmt i u d \<noteq> []" for raw i u d
    using that by (simp add: require_owned_book_def)
  show "membership_stmt i u d \<noteq> [] \<and> id r = i"
    if "parse_uuid raw = Some i" "require_owned_book raw u d = Inr r" for raw i u d r
    using that by (auto simp: require_owned_book_def split: sum.splits option.splits)
qed

end
