(* ===== verification/Reader_Correct.thy ===== *)
theory Reader_Correct
  imports Reader
begin

text \<open>
  What the reader promises. On a book whose chunk indexes are dense (which every ingest
  establishes) a window is the corresponding slice of the book, so windows side by side are the
  book; a saved position is read back whole by the same user, by the reader and by the library
  listing, and is invisible to everybody else; there is one position per user and book.
\<close>

section \<open>Windows\<close>

text \<open>The chunks of a book in reading order, and their density.\<close>

definition book_chunks :: "uuid \<Rightarrow> db \<Rightarrow> chunk_row list" where
  "book_chunks b d = sort_key chk_chunk_index (select_where (\<lambda>c. chk_book_id c = b) (chunks d))"

definition dense :: "uuid \<Rightarrow> db \<Rightarrow> bool" where
  "dense b d \<longleftrightarrow> map chk_chunk_index (book_chunks b d) = map int [0..<length (book_chunks b d)]"

definition item_of :: "chunk_row \<Rightarrow> chunk_item" where
  "item_of c = \<lparr>ci_chunk_index = chk_chunk_index c, ci_content = chk_content c\<rparr>"

lemma filter_from_dense:
  "map f xs = map int [k..<k + length xs] \<Longrightarrow> filter (\<lambda>x. int s \<le> f x) xs = drop (s - k) xs"
proof (induction xs arbitrary: k)
  case (Cons x xs)
  have x: "f x = int k" and xs: "map f xs = map int [Suc k..<Suc k + length xs]"
    using Cons.prems by (simp_all add: upt_rec)
  note IH = Cons.IH [OF xs]
  show ?case
  proof (cases "s \<le> k")
    case True
    then show ?thesis using IH x by simp
  next
    case False
    then have "s - k = Suc (s - Suc k)" by simp
    then show ?thesis using False IH x by simp
  qed
qed simp

lemma chunk_window_dense:
  assumes "dense b d" "0 \<le> start"
  shows "chunk_window_stmt b start limit d =
     take (nat limit) (map (\<lambda>c. (chk_chunk_index c, chk_content c)) (drop (nat start) (book_chunks b d)))"
proof -
  have "sort_key chk_chunk_index (select_where (\<lambda>c. chk_book_id c = b \<and> start \<le> chk_chunk_index c) (chunks d)) =
      filter (\<lambda>c. start \<le> chk_chunk_index c) (book_chunks b d)"
    by (simp add: book_chunks_def select_where_def filter_sort conj_commute)
  also have "\<dots> = drop (nat start) (book_chunks b d)"
    using filter_from_dense [where f = chk_chunk_index and k = 0 and s = "nat start"] assms
    by (simp add: dense_def)
  finally show ?thesis by (simp add: chunk_window_stmt_def)
qed

lemma window_slice:
  assumes "require_owned_book raw u d = Inr b" "dense b d" "0 \<le> start" "start < 2 ^ 31" "1 \<le> limit"
  shows "get_chunk_window raw start limit u d =
     Inr (b, take (nat (min limit MAX_WINDOW)) (drop (nat start) (map item_of (book_chunks b d))))"
  using assms
  by (simp add: get_chunk_window_def validate_window_def int32_bind_def chunk_window_dense take_map drop_map
      item_of_def o_def)

lemma concat_pages: "concat (map (\<lambda>k. take w (drop (k * w) xs)) [0..<n]) = take (n * w) xs"
proof (induction n)
  case (Suc n)
  have "take (n * w + w) xs = take (n * w) xs @ take w (drop (n * w) xs)" by (rule take_add)
  then show ?case using Suc by (simp add: add.commute)
qed simp

definition window_items :: "(uuid \<times> chunk_item list) result \<Rightarrow> chunk_item list" where
  "window_items r = (case r of Inl _ \<Rightarrow> [] | Inr (_, items) \<Rightarrow> items)"

text \<open>
  On a book of the caller's whose chunk indexes are dense, a window is the slice
  \<open>start .. start + min limit 100\<close> of the book in reading order (empty past its end), and the
  windows of a reader who pages by \<open>w\<close> through it are, side by side, the whole book: every
  chunk once, in order.
\<close>

theorem windows_are_the_book:
  assumes owned: "require_owned_book raw u d = Inr b" and dense: "dense b d"
    and start: "0 \<le> start" "start < 2 ^ 31" "1 \<le> limit"
    and pages: "1 \<le> w" "w \<le> 100" "length (book_chunks b d) \<le> n * w" "n * w < 2 ^ 31"
  shows "get_chunk_window raw start limit u d =
      Inr (b, take (nat (min limit 100)) (drop (nat start) (map item_of (book_chunks b d)))) \<and>
    concat (map (\<lambda>k. window_items (get_chunk_window raw (int (k * w)) (int w) u d)) [0..<n]) =
      map item_of (book_chunks b d)"
proof
  show "get_chunk_window raw start limit u d =
      Inr (b, take (nat (min limit 100)) (drop (nat start) (map item_of (book_chunks b d))))"
    using window_slice [OF owned dense start] by (simp add: MAX_WINDOW_def)
  have "window_items (get_chunk_window raw (int (k * w)) (int w) u d) =
      take w (drop (k * w) (map item_of (book_chunks b d)))" if "k < n" for k
  proof -
    have "k * w < n * w" using that pages(1) by simp
    then have "k * w < 2 ^ 31" using pages(4) by (rule less_trans)
    then have "int (k * w) < int (2 ^ 31)" by (simp only: of_nat_less_iff)
    then have "int (k * w) < 2 ^ 31" by (simp only: of_nat_power of_nat_numeral)
    moreover have "nat (min (int w) MAX_WINDOW) = w" using pages(2) by (simp add: MAX_WINDOW_def)
    ultimately show ?thesis
      using window_slice [OF owned dense, of "int (k * w)" "int w"] pages(1)
      by (simp add: window_items_def del: of_nat_mult)
  qed
  then have "map (\<lambda>k. window_items (get_chunk_window raw (int (k * w)) (int w) u d)) [0..<n] =
      map (\<lambda>k. take w (drop (k * w) (map item_of (book_chunks b d)))) [0..<n]"
    by (intro map_cong refl) simp
  then show "concat (map (\<lambda>k. window_items (get_chunk_window raw (int (k * w)) (int w) u d)) [0..<n]) =
      map item_of (book_chunks b d)"
    using pages(3) by (simp only: concat_pages) simp
qed

text \<open>The page index is a 32-bit column: a \<open>start\<close> beyond it is an error, not an empty list.\<close>

lemma start_past_int32:
  assumes "require_owned_book raw u d = Inr b" "2 ^ 31 \<le> start" "1 \<le> limit"
  shows "get_chunk_window raw start limit u d = Inl DataError \<and> status_of DataError = 500"
  using assms by (simp add: get_chunk_window_def validate_window_def int32_bind_def)

section \<open>Positions\<close>

definition positions_ok :: "db \<Rightarrow> bool" where
  "positions_ok d \<longleftrightarrow> distinct (map (\<lambda>r. (rp_user_id r, rp_book_id r)) (reading_positions d))"

lemma position_stmt_le_one: "positions_ok d \<Longrightarrow> length (position_stmt b u d) \<le> 1"
  using distinct_key_select [where key = "\<lambda>r. (rp_user_id r, rp_book_id r)" and k = "(u, b)" and q = "\<lambda>_. True"]
  by (simp add: positions_ok_def position_stmt_def select_where_def conj_commute)

lemma upsert_positions_ok:
  assumes "positions_ok d" shows "positions_ok (snd (position_upsert_stmt u b i r n now d))"
proof (cases "position_stmt b u d = []")
  case True
  then have "(u, b) \<notin> (\<lambda>r. (rp_user_id r, rp_book_id r)) ` set (reading_positions d)"
    by (auto simp: position_stmt_def select_where_def filter_empty_conv)
  then show ?thesis using assms True by (auto simp: position_upsert_stmt_def positions_ok_def Let_def)
next
  case False
  then show ?thesis using assms by (simp add: position_upsert_stmt_def Let_def positions_ok_def map_update_where)
qed

definition saved :: "uuid \<Rightarrow> position_update \<Rightarrow> timestamp \<Rightarrow> position_response" where
  "saved b p now = \<lparr>po_book_id = b, po_chunk_index = Some (pu_chunk_index p), po_offset_ratio = pu_offset_ratio p,
     po_updated_at = Some now\<rparr>"

lemma upsert_row:
  assumes "positions_ok d"
  shows "\<exists>r. fst (position_upsert_stmt u b i ratio n now d) = [r] \<and>
      position_stmt b u (snd (position_upsert_stmt u b i ratio n now d)) = [r] \<and>
      rp_user_id r = u \<and> rp_book_id r = b \<and> rp_chunk_index r = i \<and> rp_offset_ratio r = ratio \<and> rp_updated_at r = now"
proof (cases "position_stmt b u d")
  case Nil
  then show ?thesis by (simp add: position_upsert_stmt_def position_stmt_def select_where_def Let_def)
next
  case (Cons r rs)
  then have "rs = []" using position_stmt_le_one [OF assms, of b u] by simp
  with Cons have one: "select_where (\<lambda>r. rp_book_id r = b \<and> rp_user_id r = u) (reading_positions d) = [r]"
    by (simp add: position_stmt_def)
  then have "r \<in> set (select_where (\<lambda>r. rp_book_id r = b \<and> rp_user_id r = u) (reading_positions d))" by simp
  then have "rp_book_id r = b" "rp_user_id r = u" by simp_all
  with one show ?thesis
    by (simp add: position_upsert_stmt_def position_stmt_def Let_def select_where_update)
qed

lemma put_position_Inr:
  assumes "positions_ok d" "require_owned_book raw u d = Inr b" "validate_position_update p"
    "pu_chunk_index p < 2 ^ 31"
  shows "put_position raw p u n now d =
     (Inr (saved b p now), snd (position_upsert_stmt u b (pu_chunk_index p) (pu_offset_ratio p) n now d))"
  using upsert_row [OF assms(1), of u b "pu_chunk_index p" "pu_offset_ratio p" n now] assms(2-4)
  by (auto simp: put_position_def int32_bind_def validate_position_update_def case_prod_beta position_of_def
      saved_def)

lemma membership_upsert [simp]:
  "membership_stmt b' w (snd (position_upsert_stmt u b i r n now d)) = membership_stmt b' w d"
  by (simp add: position_upsert_stmt_def membership_stmt_def Let_def)

lemma gate_upsert [simp]:
  "require_owned_book raw w (snd (position_upsert_stmt u b i r n now d)) = require_owned_book raw w d"
  by (simp only: require_owned_book_def membership_upsert)

lemma position_upsert_elsewhere:
  "b' \<noteq> b \<or> w \<noteq> u \<Longrightarrow> position_stmt b' w (snd (position_upsert_stmt u b i r n now d)) = position_stmt b' w d"
  by (auto simp: position_upsert_stmt_def position_stmt_def Let_def select_where_update_other)

text \<open>
  A saved position is the position: after an accepted PUT the same user's GET returns the
  chunk and the ratio that were sent (an omitted ratio is null, whatever was stored before), and
  its library row for that book the same chunk; every other user's position, also on the same
  shared book, and the user's positions in other books are what they were; and there is still
  one position per user and book.
\<close>

theorem position_roundtrip:
  assumes "positions_ok d" and "require_owned_book raw u d = Inr b" and "validate_position_update p"
    and "pu_chunk_index p < 2 ^ 31"
  shows "\<exists>d'. put_position raw p u n now d = (Inr (saved b p now), d') \<and>
    get_position raw u d' = Inr (saved b p now) \<and>
    last_indexes u b d' = [Some (pu_chunk_index p)] \<and>
    (w \<noteq> u \<or> require_owned_book other w d \<noteq> Inr b \<longrightarrow> get_position other w d' = get_position other w d) \<and>
    positions_ok d' \<and> user_library d' = user_library d \<and> chunks d' = chunks d"
proof -
  let ?d = "snd (position_upsert_stmt u b (pu_chunk_index p) (pu_offset_ratio p) n now d)"
  obtain r where r: "position_stmt b u ?d = [r]" "rp_chunk_index r = pu_chunk_index p"
      "rp_offset_ratio r = pu_offset_ratio p" "rp_updated_at r = now"
    using upsert_row [OF assms(1)] by blast
  have mine: "get_position raw u ?d = Inr (saved b p now)"
    using assms(2) r by (simp add: get_position_def position_of_def saved_def)
  have listed: "last_indexes u b ?d = [Some (pu_chunk_index p)]"
    using r by (simp add: last_indexes_def position_stmt_def select_where_def conj_commute)
  have else_where: "get_position other w ?d = get_position other w d" if "w \<noteq> u \<or> require_owned_book other w d \<noteq> Inr b"
    using that by (cases "require_owned_book other w d") (auto simp: get_position_def position_upsert_elsewhere)
  have "user_library ?d = user_library d" "chunks ?d = chunks d"
    by (simp_all add: position_upsert_stmt_def Let_def)
  then show ?thesis
    using put_position_Inr [OF assms] mine listed else_where upsert_positions_ok [OF assms(1)] by blast
qed

section \<open>A reader\<close>

definition demo_chunk :: "int \<Rightarrow> string \<Rightarrow> chunk_row" where
  "demo_chunk i content = \<lparr>chk_chunk_id = 10, chk_book_id = 5, chk_chunk_index = i, chk_content = content,
     chk_parent_section = None, chk_filename = ''f'', chk_created_at = 0\<rparr>"

definition demo_reader_db :: db where
  "demo_reader_db = empty_db\<lparr>user_library := [\<lparr>ul_entry_id = 1, ul_user_id = 1, ul_book_id = 5,
      ul_category = None, ul_added_at = 0\<rparr>], chunks := [demo_chunk 1 ''b'', demo_chunk 0 ''a'']\<rparr>"

lemma demo_reader: "require_owned_book (str_uuid 5) 1 demo_reader_db = Inr 5" "positions_ok demo_reader_db"
    "book_chunks 5 demo_reader_db = [demo_chunk 0 ''a'', demo_chunk 1 ''b'']"
  by (simp_all add: require_owned_book_def membership_stmt_def demo_reader_db_def select_where_def positions_ok_def
      empty_db_def book_chunks_def demo_chunk_def)

theorem windows_are_the_book_witness:
  "get_chunk_window (str_uuid 5) 1 500 1 demo_reader_db = Inr (5, [\<lparr>ci_chunk_index = 1, ci_content = ''b''\<rparr>])"
proof -
  have "dense 5 demo_reader_db" by (simp add: dense_def demo_reader demo_chunk_def)
  from windows_are_the_book [OF demo_reader(1) this, of 1 500 1 2]
  show ?thesis by (simp add: demo_reader(3) item_of_def demo_chunk_def)
qed

theorem position_roundtrip_witness:
  "\<exists>d'. get_position (str_uuid 5) 1 d' = Inr \<lparr>po_book_id = 5, po_chunk_index = Some 1, po_offset_ratio = None,
     po_updated_at = Some 7\<rparr>"
  using position_roundtrip [OF demo_reader(2,1), where p = "\<lparr>pu_chunk_index = 1, pu_offset_ratio = None, pu_extra = []\<rparr>"
      and n = 9 and now = 7 and w = 1 and other = "[]"]
  by (auto simp: validate_position_update_def saved_def)

end
