(* ===== verification/Upload_Pipeline.thy ===== *)
theory Upload_Pipeline
  imports Uploads_Correct Reader_Correct
begin

text \<open>
  The way of a book through the system: the api stages it and sends the message
  (\<open>Uploads\<close>), the worker ingests it (\<open>Ingest\<close>), the uploader polls the task and reads
  the book (\<open>Reader\<close>).
\<close>

section \<open>The library after a run\<close>

definition library_ok :: "db \<Rightarrow> bool" where
  "library_ok d \<longleftrightarrow> distinct (map (\<lambda>e. (ul_user_id e, ul_book_id e)) (user_library d))"

definition in_library :: "uuid \<Rightarrow> uuid \<Rightarrow> db \<Rightarrow> bool" where
  "in_library u b d \<longleftrightarrow> (u, b) \<in> (\<lambda>e. (ul_user_id e, ul_book_id e)) ` set (user_library d)"

lemma new_book_upserts:
  "snd (new_book_plan ext rd a s b) = Inr r \<Longrightarrow>
   UpsertUserLibrary (ia_user_id a) (ir_book_id r) \<in> set (fst (new_book_plan ext rd a s b))"
  by (erule new_book_shape) simp

lemma plan_upserts:
  assumes "snd (ingest_plan ext rd b a idx d) = Inr r"
  shows "UpsertUserLibrary (ia_user_id a) (ir_book_id r) \<in> set (fst (ingest_plan ext rd b a idx d))"
  using assms new_book_upserts
  by (auto simp: ingest_plan_def prepend_def converged_def Let_def split: sum.splits option.splits if_splits)

lemma upsert_in_library: "in_library u b (upsert_user_library rd u b d)"
  by (auto simp: in_library_def upsert_user_library_def select_where_def filter_empty_conv)

lemma effect_in_library: "in_library u b (w_db w) \<Longrightarrow> in_library u b (w_db (apply_effect rd x w))"
  by (cases x) (auto simp: in_library_def upsert_user_library_def record_claim_def set_pointer_if_null_def)

lemma effect_library_ok: "library_ok (w_db w) \<Longrightarrow> library_ok (w_db (apply_effect rd x w))"
  by (cases x) (auto simp: library_ok_def upsert_user_library_def record_claim_def set_pointer_if_null_def
      select_where_def filter_empty_conv)

definition task_owners :: "db \<Rightarrow> (uuid \<times> uuid) list" where
  "task_owners d = map (\<lambda>r. (ut_task_id r, ut_user_id r)) (upload_tasks d)"

lemma effect_task_owners: "task_owners (w_db (apply_effect rd x w)) = task_owners (w_db w)"
  by (cases x) (auto simp: task_owners_def upsert_user_library_def record_claim_def set_pointer_if_null_def
      map_update_where)

text \<open>What every write of a run keeps.\<close>

lemma effects_keep:
  "in_library u b (w_db w) \<Longrightarrow> in_library u b (w_db (apply_effects rd es w))"
  "library_ok (w_db w) \<Longrightarrow> library_ok (w_db (apply_effects rd es w))"
  "task_owners (w_db (apply_effects rd es w)) = task_owners (w_db w)"
  by (induction es arbitrary: w) (simp_all add: effect_in_library effect_library_ok effect_task_owners)

lemma effects_upsert:
  "UpsertUserLibrary u b \<in> set es \<Longrightarrow> in_library u b (w_db (apply_effects rd es w))"
proof (induction es arbitrary: w)
  case (Cons x es)
  then show ?case by (auto simp: upsert_in_library intro: effects_keep(1))
qed simp

lemma library_gate:
  assumes "library_ok d" "in_library u b d" shows "require_owned_book (str_uuid b) u d = Inr b"
proof -
  obtain e where e: "e \<in> set (user_library d)" "ul_user_id e = u" "ul_book_id e = b"
    using assms(2) by (auto simp: in_library_def)
  have "filter (\<lambda>x. (ul_user_id x, ul_book_id x) = (ul_user_id e, ul_book_id e) \<and> True) (user_library d) = [e]"
    by (rule distinct_key_lookup) (use assms(1) e in \<open>simp_all add: library_ok_def\<close>)
  then have "select_where (\<lambda>r. ul_book_id r = b \<and> ul_user_id r = u) (user_library d) = [e]"
    using e by (simp add: select_where_def conj_commute)
  then show ?thesis using e by (simp add: require_owned_book_def membership_stmt_def)
qed

section \<open>Dense books\<close>

lemma chunk_rows_indexes: "map chk_chunk_index (chunk_rows rd b cs f) = map int [0..<length cs]"
  by (auto simp: chunk_rows_def enumerate_eq_zip intro!: nth_equalityI)

lemma chunk_rows_book: "c \<in> set (chunk_rows rd b cs f) \<Longrightarrow> chk_book_id c = b"
  by (auto simp: chunk_rows_def)

lemma length_chunk_rows [simp]: "length (chunk_rows rd b cs f) = length cs"
  by (simp add: chunk_rows_def)

lemma chunk_rows_Nil: "chunk_rows rd b [] f = []"
  by (simp add: chunk_rows_def)

lemma sort_enumerated: "sort_key chk_chunk_index (chunk_rows rd b cs f) = chunk_rows rd b cs f"
  by (rule sort_key_id_if_sorted) (simp add: chunk_rows_indexes sorted_iff_nth_mono)

fun inserted :: "effect \<Rightarrow> chunk_row list" where
  "inserted (InsertBook _ rows) = rows"
| "inserted _ = []"

lemma chunks_after: "chunks (w_db (apply_effects rd es w)) = chunks (w_db w) @ concat (map inserted es)"
proof (induction es arbitrary: w)
  case (Cons x es)
  have "chunks (w_db (apply_effect rd x w)) = chunks (w_db w) @ inserted x"
    by (cases x) (simp_all add: upsert_user_library_def record_claim_def set_pointer_if_null_def)
  then show ?case by (simp add: Cons)
qed simp

lemma new_book_inserts:
  "concat (map inserted (fst (new_book_plan ext rd a s b))) = [] \<or>
   (\<exists>cs. concat (map inserted (fst (new_book_plan ext rd a s b))) = chunk_rows rd b cs (ia_filename a))"
  by (auto simp: new_book_plan_def Let_def split: option.split sum.split list.split)

lemma backfill_inserts: "backfill_original b f c d = Inr es \<Longrightarrow> concat (map inserted es) = []"
  by (auto simp: backfill_original_def Let_def split: sum.splits option.splits)

lemma plan_inserts:
  assumes "ia_task_id a = Some t" "read_claim t d = Inr None"
  shows "concat (map inserted (fst (ingest_plan ext rd b a idx d))) = [] \<or>
    (\<exists>cs. concat (map inserted (fst (ingest_plan ext rd b a idx d))) = chunk_rows rd b cs (ia_filename a))"
  using assms new_book_inserts [of ext rd a _ b] backfill_inserts
  by (auto simp: ingest_plan_def prepend_def Let_def split: sum.split option.split)

lemma dense_insert:
  assumes "dense b' d" "\<forall>c \<in> set (chunks d). chk_book_id c \<noteq> b" "chunks d' = chunks d @ chunk_rows rd b cs f"
  shows "dense b' d'"
proof (cases "b' = b")
  case True
  have "filter (\<lambda>c. chk_book_id c = b) (chunks d) = []" using assms(2) by (simp add: filter_empty_conv)
  moreover have "filter (\<lambda>c. chk_book_id c = b) (chunk_rows rd b cs f) = chunk_rows rd b cs f"
    using chunk_rows_book by (auto simp: filter_id_conv)
  ultimately have "book_chunks b d' = chunk_rows rd b cs f"
    by (simp add: book_chunks_def select_where_def assms(3) sort_enumerated)
  then show ?thesis using True by (simp add: dense_def chunk_rows_indexes)
next
  case False
  have "filter (\<lambda>c. chk_book_id c = b') (chunk_rows rd b cs f) = []"
    using chunk_rows_book False by (auto simp: filter_empty_conv)
  then have "book_chunks b' d' = book_chunks b' d"
    by (simp add: book_chunks_def select_where_def assms(3))
  then show ?thesis using assms(1) by (simp add: dense_def)
qed

text \<open>A run whose task holds no claim: the result's book is in the caller's library, books stay dense.\<close>

lemma ingest_run:
  assumes run: "ingest_markdown ext rd b a w = (Inr r, w')"
    and task: "ia_task_id a = Some t" "read_claim t (w_db w) = Inr None"
    and fresh: "\<forall>c \<in> set (chunks (w_db w)). chk_book_id c \<noteq> b" and dense: "\<forall>b'. dense b' (w_db w)"
    and lib: "library_ok (w_db w)"
  shows "require_owned_book (str_uuid (ir_book_id r)) (ia_user_id a) (w_db w') = Inr (ir_book_id r)"
    and "untouched (ia_user_id a) (ia_task_id a) (w_db w) (w_db w')"
    and "\<forall>b'. dense b' (w_db w')" and "task_owners (w_db w') = task_owners (w_db w)"
proof -
  obtain es w1 where p: "plan_in ext rd b a w = ((es, Inr r), w1)"
    using run by (auto simp: ingest_markdown_def Let_def split: prod.splits)
  then obtain idx where plan: "ingest_plan ext rd b a idx (w_db w) = (es, Inr r)"
    by (auto simp: plan_in_def split: option.splits sum.splits)
  have w': "w' = apply_effects rd es w1" using run p by (simp add: ingest_markdown_def)
  have db: "w_db w1 = w_db w" by (rule plan_in_shape(1) [OF p])
  have "in_library (ia_user_id a) (ir_book_id r) (w_db w')"
    unfolding w' using plan_upserts [of ext rd b a idx "w_db w" r] plan by (intro effects_upsert) simp
  moreover have "library_ok (w_db w')" unfolding w' using lib db by (intro effects_keep(2)) simp
  ultimately show "require_owned_book (str_uuid (ir_book_id r)) (ia_user_id a) (w_db w') = Inr (ir_book_id r)"
    by (intro library_gate)
  show "untouched (ia_user_id a) (ia_task_id a) (w_db w) (w_db w')"
    using effects_untouched [OF plan_in_shape(5) [OF p], of w1 rd] unfolding w' db .
  show "task_owners (w_db w') = task_owners (w_db w)" unfolding w' effects_keep(3) db ..
  have rows: "chunks (w_db w') = chunks (w_db w) @ concat (map inserted es)" unfolding w' chunks_after db ..
  have "\<exists>cs. concat (map inserted es) = chunk_rows rd b cs (ia_filename a)"
    using plan_inserts [OF task, of ext rd b idx] plan chunk_rows_Nil by (metis fst_conv)
  then obtain cs where "concat (map inserted es) = chunk_rows rd b cs (ia_filename a)" by blast
  then show "\<forall>b'. dense b' (w_db w')"
    using dense dense_insert [OF _ fresh, where d' = "w_db w'"] rows by metis
qed

lemma others_keep_their_library:
  assumes "untouched u t d d'" "v \<noteq> u"
  shows "require_owned_book raw v d' = require_owned_book raw v d"
proof -
  have "filter (\<lambda>r. ul_book_id r = b \<and> ul_user_id r = v) (user_library d') =
      filter (\<lambda>r. ul_book_id r = b \<and> ul_user_id r = v) (user_library d)" for b
  proof -
    have split: "filter (\<lambda>r. ul_book_id r = b \<and> ul_user_id r = v) t =
        filter (\<lambda>r. ul_book_id r = b \<and> ul_user_id r = v) (filter (\<lambda>e. ul_user_id e \<noteq> u) t)" for t
      using assms(2) by (auto intro!: filter_cong)
    show ?thesis using assms(1) split [of "user_library d"] split [of "user_library d'"] by (simp add: untouched_def)
  qed
  then have "membership_stmt b v d' = membership_stmt b v d" for b by (simp add: membership_stmt_def select_where_def)
  then show ?thesis by (simp only: require_owned_book_def)
qed

section \<open>Polling\<close>

lemma ownership_owners:
  "ownership_stmt t u d = map fst (filter (\<lambda>p. p = (t, u)) (task_owners d))"
  by (simp add: ownership_stmt_def task_owners_def select_where_def filter_map o_def)

text \<open>Only the owner of a task gets an answer about it.\<close>

lemma task_gate_owner:
  assumes "distinct (map fst (task_owners d))" "(t, u) \<in> set (task_owners d)"
  shows "require_owned_task (str_uuid t) u d = Inr t"
    and "v \<noteq> u \<Longrightarrow> require_owned_task (str_uuid t) v d = Inl task_not_found"
proof -
  have "filter (\<lambda>p. fst p = fst (t, u) \<and> p = (t, u)) (task_owners d) = [(t, u)]"
    by (rule distinct_key_lookup) (use assms in simp_all)
  then have "filter (\<lambda>p. p = (t, u)) (task_owners d) = [(t, u)]"
    by (metis (mono_tags, lifting) filter_cong)
  then show "require_owned_task (str_uuid t) u d = Inr t"
    by (simp add: require_owned_task_def ownership_owners)
  have "filter (\<lambda>p. p = (t, v)) (task_owners d) = []" if "v \<noteq> u"
  proof -
    have "(t, v) \<notin> set (task_owners d)"
      using assms that by (metis eq_key_imp_eq_value prod.inject)
    then show ?thesis by (auto simp: filter_empty_conv)
  qed
  then show "v \<noteq> u \<Longrightarrow> require_owned_task (str_uuid t) v d = Inl task_not_found"
    by (simp add: require_owned_task_def ownership_owners)
qed

section \<open>End to end\<close>

lemma accepted_upload:
  assumes ok: "staging_ok env s" and run: "upload env raw body bound u ids s = (Inr resp, s')"
  shows "ur_task_id resp = str_uuid (mi_task ids)" "safe_name (ur_filename resp)"
    "sg_queue s' = sg_queue s @ [ingest_message env bound (ur_filename resp) u ids]"
    "distinct (map fst (task_owners (sg_db s')))" "(mi_task ids, u) \<in> set (task_owners (sg_db s'))"
    "read_claim (mi_task ids) (sg_db s') = Inr None"
proof -
  let ?t = "mi_task ids"
  have shape: "ur_task_id resp = str_uuid ?t \<and> ur_filename resp = upload_sanitize_filename raw \<and>
      sg_queue s' = sg_queue s @ [ingest_message env bound (ur_filename resp) u ids] \<and>
      upload_tasks (sg_db s') = upload_tasks (sg_db s) @ [task_row ?t u (ur_filename resp) (mi_now ids)] \<and>
      ?t \<notin> ut_task_id ` set (upload_tasks (sg_db s))"
    using run by (auto simp: upload_eval Let_def place_files split: if_splits sum.splits option.splits)
  have keep: "staging_ok env s'" using upload_keeps [OF ok, of raw body bound u ids] run by simp
  show "ur_task_id resp = str_uuid ?t" "safe_name (ur_filename resp)"
    "sg_queue s' = sg_queue s @ [ingest_message env bound (ur_filename resp) u ids]"
    using shape sanitized_safe by simp_all
  show "distinct (map fst (task_owners (sg_db s')))"
    using staging_okD(1) [OF keep] by (simp add: task_owners_def o_def)
  show "(?t, u) \<in> set (task_owners (sg_db s'))" using shape by (simp add: task_owners_def task_row_def)
  have "select_where (\<lambda>r. ut_task_id r = ?t) (upload_tasks (sg_db s)) = []"
    using shape unfolding select_where_def filter_empty_conv by (metis image_eqI)
  then show "read_claim ?t (sg_db s') = Inr None" using shape by (simp add: read_claim_def task_row_def)
qed

text \<open>The message of an upload, run by the worker.\<close>

definition run_message :: "(string \<Rightarrow> string result) \<Rightarrow> (string \<Rightarrow> string) \<Rightarrow> ingest_externals \<Rightarrow> row_defaults \<Rightarrow> uuid \<Rightarrow>
    message \<Rightarrow> world \<Rightarrow> json result \<times> world" where
  "run_message extract file_bytes ext rd minted m w =
     ingest_book extract file_bytes ext rd minted (Some (msg_task_id m)) (msg_path m) (msg_user_id m) w"

lemma run_message_Inr:
  assumes "run_message extract file_bytes ext rd b (ingest_message env bound f u ids) w = (Inr j, w')"
  obtains a r where "ingest_markdown ext rd b a w = (Inr r, w')" "ia_task_id a = Some (mi_task ids)" "ia_user_id a = u"
    "j = JObj [(''book_id'', JStr (str_uuid (ir_book_id r))), (''was_duplicate'', JBool (ir_was_duplicate r)),
       (''rows_inserted'', JInt (int (ir_rows_inserted r)))]"
  using assms
  by (auto simp: run_message_def ingest_book_def ingest_def ingest_message_def request_task_uuid_def Let_def
      split: sum.splits prod.splits)


section \<open>One book\<close>

definition demo_uploaded :: world where
  "demo_uploaded = \<lparr>w_db = sg_db (snd demo_upload), w_vectors = [], w_objects = [], w_index = None\<rparr>"

lemma demo_ingested:
  "\<exists>j w'. run_message (\<lambda>_. Inr ''Grace.'') (\<lambda>_. ''%PDF'') demo_ingest demo_defaults 7 (last (sg_queue (snd demo_upload)))
     demo_uploaded = (Inr j, w')"
proof -
  define a where "a = \<lparr>ia_markdown = ''Grace.'', ia_filename = path_name (msg_path (last (sg_queue (snd demo_upload)))),
      ia_user_id = 1, ia_title = Some (path_stem (msg_path (last (sg_queue (snd demo_upload))))), ia_author = None,
      ia_original = Some ''%PDF'', ia_task_id = Some 5\<rparr>"
  have claim: "read_claim 5 (w_db demo_uploaded) = Inr None"
    by (simp add: read_claim_def demo_uploaded_def demo_accepted(2) task_row_def)
  have idx: "load_index (w_db demo_uploaded) = Inr []" "w_index demo_uploaded = None"
    by (simp_all add: load_index_def demo_uploaded_def demo_accepted(6))
  have a5: "ia_task_id a = Some 5" "ia_markdown a = ''Grace.''" by (simp_all add: a_def)
  obtain r where "snd (new_book_plan demo_ingest demo_defaults a (signature_of demo_ingest a) 7) = Inr r"
    using demo_new_book_any [OF a5(2)] by blast
  then have "fst (ingest_markdown demo_ingest demo_defaults 7 a demo_uploaded) = Inr r"
    using run_unloaded(2) [OF idx(2,1)] plan_new [OF demo_lookup a5(1) claim] by (simp add: prepend_def)
  then show ?thesis
    by (simp add: run_message_def ingest_book_def ingest_def request_task_uuid_def a_def demo_accepted(3)
        ingest_message_def demo_ids_def Let_def case_prod_beta)
qed


end
