(* ===== verification/Ratelimit.thy ===== *)
theory Ratelimit
  imports Tenancy
begin

text \<open>
  \<open>api/ratelimit.py\<close> and the rate strings of \<open>api/settings.py\<close>: fixed-window counters in Redis.
  A key of the store carries its count and the instant it expires; times are milliseconds, \<open>TTL\<close>
  answers whole seconds rounded to the nearest, as Redis does. A Redis that cannot be reached is
  the verdict \<open>up = False\<close> of the environment.
\<close>

section \<open>Rate strings\<close>

definition before_char :: "char \<Rightarrow> string \<Rightarrow> string" where
  "before_char c s = takeWhile (\<lambda>x. x \<noteq> c) s"

definition after_char :: "char \<Rightarrow> string \<Rightarrow> string" where
  "after_char c s = drop 1 (dropWhile (\<lambda>x. x \<noteq> c) s)"

definition parse_rate :: "string \<Rightarrow> (int \<times> int) result" where
  "parse_rate value =
     (case (py_int 10 (before_char CHR ''/'' value), py_int 10 (after_char CHR ''/'' value)) of
        (Some limit, Some window) \<Rightarrow>
          if CHR ''/'' \<notin> set value \<or> limit < 1 \<or> window < 1 then Inl ValueError else Inr (limit, window)
      | _ \<Rightarrow> Inl ValueError)"

record rate_settings =
  ratelimit_enabled :: bool
  ratelimit_signup_ip :: string
  ratelimit_login_ip :: string
  ratelimit_summary_user :: string
  trust_proxy_headers :: bool

text \<open>\<open>_rate_strings_must_parse\<close>: settings with a malformed bucket do not load.\<close>

definition rates_parse :: "rate_settings \<Rightarrow> bool" where
  "rates_parse cfg \<longleftrightarrow> is_ok (parse_rate (ratelimit_signup_ip cfg)) \<and> is_ok (parse_rate (ratelimit_login_ip cfg)) \<and>
     is_ok (parse_rate (ratelimit_summary_user cfg))"

definition BUCKETS :: "rate_settings \<Rightarrow> string \<Rightarrow> string option" where
  "BUCKETS cfg = map_of [(''signup_ip'', ratelimit_signup_ip cfg), (''login_ip'', ratelimit_login_ip cfg),
     (''summary_user'', ratelimit_summary_user cfg)]"

section \<open>Addresses\<close>

text \<open>\<open>ipaddress.ip_address\<close> of the standard library, as a verdict.\<close>

fun split_at :: "char \<Rightarrow> string \<Rightarrow> string list" where
  "split_at c [] = [[]]"
| "split_at c (x # xs) = (if x = c then [] # split_at c xs
     else case split_at c xs of [] \<Rightarrow> [[x]] | y # ys \<Rightarrow> (x # y) # ys)"

definition octet :: "string \<Rightarrow> bool" where
  "octet s \<longleftrightarrow> s \<noteq> [] \<and> length s \<le> 3 \<and> list_all (\<lambda>c. digit_val 10 c \<noteq> None) s \<and> (s = ''0'' \<or> hd s \<noteq> CHR ''0'') \<and>
     (case py_int 10 s of None \<Rightarrow> False | Some n \<Rightarrow> n \<le> 255)"

definition ipv4 :: "string \<Rightarrow> bool" where
  "ipv4 s \<longleftrightarrow> CHR ''/'' \<notin> set s \<and> length (split_at CHR ''.'' s) = 4 \<and> list_all octet (split_at CHR ''.'' s)"

definition hextet :: "string \<Rightarrow> bool" where
  "hextet s \<longleftrightarrow> s \<noteq> [] \<and> length s \<le> 4 \<and> list_all (\<lambda>c. digit_val 16 c \<noteq> None) s"

text \<open>The groups between colons, a trailing dotted quad counted as two.\<close>

definition ipv6_groups :: "string list \<Rightarrow> bool" where
  "ipv6_groups ps = (let inner = filter (\<lambda>i. ps ! i = []) [1..<length ps - 1] in
     length ps \<le> 9 \<and>
     (case inner of
        [] \<Rightarrow> length ps = 8 \<and> list_all hextet ps
      | [k] \<Rightarrow>
          let hi = (if hd ps = [] then k - 1 else k);
              lo = (if last ps = [] then length ps - k - 2 else length ps - k - 1)
          in (hd ps = [] \<longrightarrow> hi = 0) \<and> (last ps = [] \<longrightarrow> lo = 0) \<and> hi + lo \<le> 7 \<and>
             list_all hextet (take hi ps) \<and> list_all hextet (drop (length ps - lo) ps)
      | _ \<Rightarrow> False))"

definition ipv6 :: "string \<Rightarrow> bool" where
  "ipv6 s = (let scope = after_char CHR ''%'' s; ps = split_at CHR '':'' (before_char CHR ''%'' s)
     in CHR ''/'' \<notin> set s \<and> (CHR ''%'' \<in> set s \<longrightarrow> scope \<noteq> [] \<and> CHR ''%'' \<notin> set scope) \<and> 3 \<le> length ps \<and>
        (if CHR ''.'' \<in> set (last ps) then ipv4 (last ps) \<and> ipv6_groups (butlast ps @ [''0'', ''0''])
         else ipv6_groups ps))"

definition is_ip_address :: "string \<Rightarrow> bool" where
  "is_ip_address s \<longleftrightarrow> ipv4 s \<or> ipv6 s"

text \<open>The TCP peer, or the rightmost forwarded hop behind a trusted proxy.\<close>

definition client_ip :: "rate_settings \<Rightarrow> string option \<Rightarrow> string option \<Rightarrow> string" where
  "client_ip cfg forwarded_for peer =
     (let fallback = (case peer of None \<Rightarrow> ''unknown'' | Some host \<Rightarrow> host);
          forwarded = (case forwarded_for of None \<Rightarrow> [] | Some h \<Rightarrow> h);
          tail = py_strip (last (split_at CHR '','' forwarded));
          bare = before_char CHR '']'' (if startswith tail ''['' then drop 1 tail else tail)
      in if trust_proxy_headers cfg \<and> tail \<noteq> [] \<and> is_ip_address bare then tail else fallback)"

section \<open>Counters\<close>

text \<open>The live keys of the store: count and expiry.\<close>

type_synonym limiter_store = "string \<Rightarrow> (nat \<times> int) option"

definition ttl_seconds :: "int \<Rightarrow> int \<Rightarrow> int" where
  "ttl_seconds expiry now = (expiry - now + 500) div 1000"

definition hit :: "string \<Rightarrow> int \<Rightarrow> int \<Rightarrow> limiter_store \<Rightarrow> (nat \<times> int) \<times> limiter_store" where
  "hit key window now st =
     (let (count, expiry) = (case st key of
            None \<Rightarrow> (1, now + window * 1000)
          | Some (c, e) \<Rightarrow> if e \<le> now then (1, now + window * 1000) else (c + 1, e))
      in ((count, max (ttl_seconds expiry now) 1), st(key \<mapsto> (count, expiry))))"

text \<open>Passed on, or 429 with its \<open>Retry-After\<close>; a bucket nobody registered or a bad rate raises.\<close>

datatype verdict = Pass | TooMany int

definition limiter_key :: "string \<Rightarrow> string \<Rightarrow> string" where
  "limiter_key bucket identity = ''ratelimit:'' @ bucket @ '':'' @ identity"

definition enforce :: "rate_settings \<Rightarrow> bool \<Rightarrow> string \<Rightarrow> string \<Rightarrow> int \<Rightarrow> limiter_store \<Rightarrow> verdict result \<times> limiter_store" where
  "enforce cfg up bucket identity now st =
     (if \<not> ratelimit_enabled cfg then (Inr Pass, st)
      else case BUCKETS cfg bucket of
        None \<Rightarrow> (Inl KeyError, st)
      | Some rate \<Rightarrow>
          (case parse_rate rate of
             Inl e \<Rightarrow> (Inl e, st)
           | Inr (limit, window) \<Rightarrow>
               if \<not> up then (Inr Pass, st)
               else let ((count, retry_after), st') = hit (limiter_key bucket identity) window now st
                    in (Inr (if limit < int count then TooMany retry_after else Pass), st')))"

definition too_many_requests :: py_exn where
  "too_many_requests = HTTPException 429 ''Too many requests. Please try again shortly.''"

text \<open>What a route sees of the dependency.\<close>

definition limiter_gate :: "verdict result \<Rightarrow> unit result" where
  "limiter_gate v = (case v of Inl e \<Rightarrow> Inl e | Inr Pass \<Rightarrow> Inr () | Inr (TooMany _) \<Rightarrow> Inl too_many_requests)"

record ip_request =
  ip_forwarded_for :: "string option"
  ip_peer :: "string option"

text \<open>\<open>ip_limit\<close>: the bucket is looked up when the route is wired, the request counted when it arrives.\<close>

definition ip_limit :: "rate_settings \<Rightarrow> string \<Rightarrow>
    (bool \<Rightarrow> ip_request \<Rightarrow> int \<Rightarrow> limiter_store \<Rightarrow> verdict result \<times> limiter_store) result" where
  "ip_limit cfg bucket =
     (if BUCKETS cfg bucket = None then Inl KeyError
      else Inr (\<lambda>up r now st. enforce cfg up bucket (client_ip cfg (ip_forwarded_for r) (ip_peer r)) now st))"

end
