(* ===== verification/Ratelimit_Correct.thy ===== *)
theory Ratelimit_Correct
  imports Ratelimit
begin

text \<open>
  What the limiter promises: one identity's verdicts do not depend on the others (through the same
  contract that isolates the tenants), at most twice the limit passes in any window-long interval,
  a refused client that waits for its \<open>Retry-After\<close> is served, and a quiet client's first requests
  all pass.
\<close>

section \<open>Keys\<close>

definition registered :: "string list" where
  "registered = [''signup_ip'', ''login_ip'', ''summary_user'']"

lemma BUCKETS_registered: "BUCKETS cfg b = Some r \<Longrightarrow> b \<in> set registered"
  by (auto simp: BUCKETS_def registered_def split: if_splits)

lemma limiter_key_inject:
  "b \<in> set registered \<Longrightarrow> b' \<in> set registered \<Longrightarrow> limiter_key b i = limiter_key b' i' \<Longrightarrow> b = b' \<and> i = i'"
  by (auto simp: registered_def limiter_key_def)

section \<open>Isolation\<close>

definition limiter_view :: "string \<Rightarrow> limiter_store \<Rightarrow> limiter_store" where
  "limiter_view i st = st |` {k. \<exists>b \<in> set registered. k = limiter_key b i}"

definition limiter_step :: "rate_settings \<Rightarrow> string \<Rightarrow> bool \<times> string \<times> int \<Rightarrow> limiter_store \<Rightarrow> verdict result \<times> limiter_store" where
  "limiter_step cfg i op st = (case op of (up, b, now) \<Rightarrow> enforce cfg up b i now st)"

lemma hit_view: "k = limiter_key b i \<Longrightarrow> b \<in> set registered \<Longrightarrow>
    hit k w now (limiter_view i st) = map_prod id (limiter_view i) (hit k w now st)"
  by (auto simp: hit_def limiter_view_def Let_def case_prod_beta restrict_map_def fun_eq_iff)

lemma hit_frame: "b \<in> set registered \<Longrightarrow> i \<noteq> j \<Longrightarrow>
    limiter_view j (snd (hit (limiter_key b i) w now st)) = limiter_view j st"
  by (auto simp: hit_def limiter_view_def Let_def case_prod_beta restrict_map_def fun_eq_iff dest: limiter_key_inject)

interpretation limiter: tenant_step limiter_view "limiter_step cfg" "\<lambda>_ _. True"
proof
  show "limiter_step cfg i op (limiter_view i st) = map_prod id (limiter_view i) (limiter_step cfg i op st)" for i op st
    using hit_view [OF refl BUCKETS_registered]
    by (auto simp: limiter_step_def enforce_def Let_def case_prod_beta split: option.split sum.split)
  show "limiter_view j (snd (limiter_step cfg i op st)) = limiter_view j st" if "i \<noteq> j" for i j op st
    using hit_frame [OF BUCKETS_registered that]
    by (auto simp: limiter_step_def enforce_def Let_def case_prod_beta split: option.split sum.split)
qed

section \<open>The window\<close>

type_synonym limited_request = "string \<times> string \<times> int"

text \<open>The requests of a history that pass, Redis being up.\<close>

fun passes :: "rate_settings \<Rightarrow> limited_request list \<Rightarrow> limiter_store \<Rightarrow> limited_request list" where
  "passes cfg [] st = []"
| "passes cfg ((b, i, now) # rs) st =
     (let (v, st') = enforce cfg True b i now st
      in (if v = Inr Pass then [(b, i, now)] else []) @ passes cfg rs st')"

definition in_window :: "string \<Rightarrow> string \<Rightarrow> int \<Rightarrow> int \<Rightarrow> limited_request \<Rightarrow> bool" where
  "in_window b i t w r \<longleftrightarrow> (case r of (b', i', now) \<Rightarrow> b' = b \<and> i' = i \<and> t \<le> now \<and> now < t + w)"

text \<open>How many more can pass before \<open>t + w\<close>, by what the key holds.\<close>

definition potential :: "int \<Rightarrow> int \<Rightarrow> int \<Rightarrow> (nat \<times> int) option \<Rightarrow> nat" where
  "potential limit t w entry = (case entry of
      None \<Rightarrow> 2 * nat limit
    | Some (c, e) \<Rightarrow> if t + w \<le> e then nat limit - c else if t \<le> e then (nat limit - c) + nat limit else 2 * nat limit)"

lemma enforce_key:
  assumes "ratelimit_enabled cfg" "BUCKETS cfg b = Some rate" "parse_rate rate = Inr (limit, window)"
  shows "enforce cfg True b i now st =
    (let ((count, retry_after), st') = hit (limiter_key b i) window now st
     in (Inr (if limit < int count then TooMany retry_after else Pass), st'))"
  using assms by (simp add: enforce_def)

lemma enforce_other_key:
  assumes "BUCKETS cfg b = Some rate" "(b', i') \<noteq> (b, i)"
  shows "snd (enforce cfg up b' i' now st) (limiter_key b i) = st (limiter_key b i)"
proof -
  have "limiter_key b' i' \<noteq> limiter_key b i" if "BUCKETS cfg b' = Some r" for r
    using limiter_key_inject BUCKETS_registered [OF assms(1)] BUCKETS_registered [OF that] assms(2) by blast
  then show ?thesis by (auto simp: enforce_def hit_def Let_def case_prod_beta split: option.split sum.split)
qed

lemma rate_positive: "parse_rate rate = Inr (limit, window) \<Longrightarrow> 1 \<le> limit \<and> 1 \<le> window"
  by (auto simp: parse_rate_def split: option.splits if_splits)

text \<open>A request on the key itself uses up potential when it passes.\<close>

lemma hit_potential:
  assumes "1 \<le> limit" "1 \<le> window" "hit k window now st = ((count, ra), st')" "now < t + window * 1000"
  shows "(if t \<le> now \<and> int count \<le> limit then 1 else 0) +
      potential limit t (window * 1000) (st' k) \<le> potential limit t (window * 1000) (st k)"
  using assms
  by (auto simp: hit_def potential_def Let_def split: option.splits if_splits)

lemma in_window_later:
  "\<forall>r \<in> set rs. t + w \<le> snd (snd r) \<Longrightarrow> filter (in_window b i t w) rs = []"
  by (auto simp: in_window_def filter_empty_conv)

lemma set_passes: "set (passes cfg rs st) \<subseteq> set rs"
proof (induction cfg rs st rule: passes.induct)
  case (2 cfg b i now rs st)
  obtain v st' where e: "enforce cfg True b i now st = (v, st')" by fastforce
  show ?case using 2 [OF e [symmetric]] e by auto
qed simp

lemma passes_potential:
  assumes cfg: "ratelimit_enabled cfg" "BUCKETS cfg b = Some rate" "parse_rate rate = Inr (limit, window)"
    and order: "sorted (map (\<lambda>r. snd (snd r)) rs)"
  shows "length (filter (in_window b i t (window * 1000)) (passes cfg rs st)) \<le>
    potential limit t (window * 1000) (st (limiter_key b i))"
  using order
proof (induction rs arbitrary: st)
  case (Cons r rs)
  obtain b' i' now where r: "r = (b', i', now)" by (cases r)
  obtain v st' where e: "enforce cfg True b' i' now st = (v, st')" by fastforce
  have step: "passes cfg (r # rs) st = (if v = Inr Pass then [r] else []) @ passes cfg rs st'" by (simp add: r e)
  have IH: "length (filter (in_window b i t (window * 1000)) (passes cfg rs st')) \<le>
      potential limit t (window * 1000) (st' (limiter_key b i))" using Cons by simp
  show ?case
  proof (cases "t + window * 1000 \<le> now")
    case True
    then have "\<forall>x \<in> set (r # rs). t + window * 1000 \<le> snd (snd x)" using Cons.prems by (force simp: r)
    then have "\<forall>x \<in> set (passes cfg (r # rs) st). t + window * 1000 \<le> snd (snd x)"
      using set_passes by blast
    then show ?thesis by (simp only: in_window_later list.size le0)
  next
    case early: False
    show ?thesis
    proof (cases "(b', i') = (b, i)")
      case True
      obtain count ra where h: "hit (limiter_key b i) window now st = ((count, ra), st')"
          "v = Inr (if limit < int count then TooMany ra else Pass)"
        using e True enforce_key [OF cfg, of i now st] by (auto simp: Let_def case_prod_beta prod_eq_iff)
      have "(if t \<le> now \<and> int count \<le> limit then 1 else 0) + potential limit t (window * 1000) (st' (limiter_key b i))
          \<le> potential limit t (window * 1000) (st (limiter_key b i))"
        using rate_positive [OF cfg(3)] early by (intro hit_potential [OF _ _ h(1)]) auto
      moreover have "in_window b i t (window * 1000) r \<longleftrightarrow> t \<le> now" using True early by (auto simp: r in_window_def)
      moreover have "v = Inr Pass \<longleftrightarrow> int count \<le> limit" using h(2) by auto
      ultimately show ?thesis using IH unfolding step by auto
    next
      case False
      then have "st' (limiter_key b i) = st (limiter_key b i)"
        using enforce_other_key [OF cfg(2) False, of True now st] e by simp
      moreover have "\<not> in_window b i t (window * 1000) r" using False by (auto simp: r in_window_def)
      ultimately show ?thesis using IH unfolding step by simp
    qed
  qed
qed simp

lemma expired_passes:
  assumes "ratelimit_enabled cfg" "BUCKETS cfg b = Some rate" "parse_rate rate = Inr (limit, window)"
    "case st (limiter_key b i) of None \<Rightarrow> True | Some (c, e) \<Rightarrow> e \<le> now"
  shows "fst (enforce cfg True b i now st) = Inr Pass"
  using assms(4) rate_positive [OF assms(3)]
  by (auto simp: enforce_key [OF assms(1-3)] hit_def Let_def split: option.splits)

lemma retry_after_expires:
  assumes "ratelimit_enabled cfg" "BUCKETS cfg b = Some rate" "parse_rate rate = Inr (limit, window)"
    "enforce cfg True b i now st = (Inr (TooMany ra), st')" "now + ra * 1000 + 500 \<le> later"
  shows "case st' (limiter_key b i) of None \<Rightarrow> True | Some (c, e) \<Rightarrow> e \<le> later"
proof -
  obtain count ra' where h: "hit (limiter_key b i) window now st = ((count, ra'), st')" "ra = ra'"
    using assms(4) by (auto simp: enforce_key [OF assms(1-3)] Let_def case_prod_beta prod_eq_iff split: if_splits)
  then obtain e where e: "st' (limiter_key b i) = Some (count, e)" "ra = max (ttl_seconds e now) 1"
    by (auto simp: hit_def Let_def split: option.splits if_splits)
  have "e - now + 500 < (ttl_seconds e now + 1) * 1000" by (simp add: ttl_seconds_def)
  moreover have "ttl_seconds e now \<le> ra" using e(2) by simp
  ultimately have "e \<le> later" using assms(5) by (simp add: distrib_right)
  then show ?thesis by (simp add: e(1))
qed

text \<open>
  C34: Whatever the interleaving of buckets and identities and whatever the store holds, at most
  twice the limit of requests of one identity passes one bucket in any interval as long as its
  window. Conversely the limiter does not lock out: a request to an expired key passes, and so does
  the next request of a refused client that waits for its \<open>Retry-After\<close> and half a second, the
  rounding of Redis' TTL.
\<close>

theorem limiter_bound:
  assumes "ratelimit_enabled cfg" and "BUCKETS cfg b = Some rate" and "parse_rate rate = Inr (limit, window)"
    and "sorted (map (\<lambda>r. snd (snd r)) rs)"
  shows "length (filter (in_window b i t (window * 1000)) (passes cfg rs st)) \<le> 2 * nat limit \<and>
    ((case st (limiter_key b i) of None \<Rightarrow> True | Some (c, e) \<Rightarrow> e \<le> now) \<longrightarrow>
      fst (enforce cfg True b i now st) = Inr Pass) \<and>
    (\<forall>ra st'. enforce cfg True b i now st = (Inr (TooMany ra), st') \<and> now + ra * 1000 + 500 \<le> later \<longrightarrow>
      fst (enforce cfg True b i later st') = Inr Pass)"
proof (intro conjI allI impI)
  have "potential limit t (window * 1000) (st (limiter_key b i)) \<le> 2 * nat limit"
    by (auto simp: potential_def split: option.split)
  then show "length (filter (in_window b i t (window * 1000)) (passes cfg rs st)) \<le> 2 * nat limit"
    using passes_potential [OF assms, of i t st] by linarith
  show "fst (enforce cfg True b i now st) = Inr Pass"
    if "case st (limiter_key b i) of None \<Rightarrow> True | Some (c, e) \<Rightarrow> e \<le> now"
    using expired_passes [where b = b and i = i and now = now and st = st] assms(1-3) that by blast
  fix ra st' assume refused: "enforce cfg True b i now st = (Inr (TooMany ra), st') \<and> now + ra * 1000 + 500 \<le> later"
  then show "fst (enforce cfg True b i later st') = Inr Pass"
    using expired_passes [OF assms(1-3), where now = later and st = st' and i = i]
      retry_after_expires [OF assms(1-3), of i now st ra st' later] by blast
qed

text \<open>
  One identity's verdicts in a history of everybody's requests, over all buckets and through
  outages of the store, are the verdicts of its own requests alone: nobody can use up another's
  allowance.
\<close>

theorem limiter_isolation:
  "serve (limiter_step cfg) (only_of i reqs) (limiter_view i st) =
   map_prod (only_of i) (limiter_view i) (serve (limiter_step cfg) reqs st)"
  by (rule limiter.noninterference) (rule served_ok_always)

section \<open>A limiter\<close>

definition demo_rates :: rate_settings where
  "demo_rates = \<lparr>ratelimit_enabled = True, ratelimit_signup_ip = ''5/60'', ratelimit_login_ip = ''1/60'',
     ratelimit_summary_user = ''5/60'', trust_proxy_headers = True\<rparr>"

lemma demo_rate: "ratelimit_enabled demo_rates" "BUCKETS demo_rates ''login_ip'' = Some ''1/60''"
    "parse_rate ''1/60'' = Inr (1, 60)" "parse_rate ''0/60'' = Inl ValueError" "parse_rate ''10'' = Inl ValueError"
  by code_simp+

theorem limiter_bound_witness:
  "length (filter (in_window ''login_ip'' ''::1'' 0 60000)
     (passes demo_rates [(''login_ip'', ''::1'', 0), (''login_ip'', ''::1'', 1)] Map.empty)) \<le> 2"
  using limiter_bound [OF demo_rate(1,2,3), of "[(''login_ip'', ''::1'', 0), (''login_ip'', ''::1'', 1)]" "''::1''" 0
      Map.empty 0 0] by simp

text \<open>The forwarded hop that counts is the last one; a prefix the client wrote does not.\<close>

lemma client_ip_examples:
  "client_ip demo_rates (Some ''1.2.3.4, 10.0.0.9'') (Some ''172.18.0.3'') = ''10.0.0.9''"
  "client_ip demo_rates (Some ''10.0.0.9, evil'') (Some ''172.18.0.3'') = ''172.18.0.3''"
  "map is_ip_address [''::1'', ''2001:db8::7'', ''1::2::3'', ''::ffff:1.2.3.4'', ''1.2.3.256'', ''01.2.3.4'', ''fe80::1%eth0''] =
   [True, True, False, True, False, False, True]"
  by code_simp+

end
