(* ===== verification/Auth.thy ===== *)
theory Auth
  imports Crypto_Vault Ratelimit
begin

text \<open>
  \<open>api/auth.py\<close> (signup, login, the bearer-token dependency) and the boot guards of
  \<open>api/main.py\<close>. bcrypt (passlib), JWT (python-jose) and the e-mail syntax (email-validator) are
  parameters with their documented laws, passlib's refusal of a NUL in a password included (a
  \<open>ValueError\<close> nobody catches); the limiter's verdict precedes the validation of a body.
\<close>

section \<open>Models\<close>

definition BCRYPT_MAX_BYTES :: nat where "BCRYPT_MAX_BYTES = 72"

type_synonym jwt_claims = "(string \<times> json) list"

record auth_env =
  email_str :: "string \<Rightarrow> string option"
  pwd_hash :: "string \<Rightarrow> string \<Rightarrow> string result"
  pwd_verify :: "string \<Rightarrow> string \<Rightarrow> bool result"
  jwt_encode :: "string \<Rightarrow> string \<Rightarrow> jwt_claims \<Rightarrow> string"
  jwt_decode :: "string \<Rightarrow> string list \<Rightarrow> int \<Rightarrow> string \<Rightarrow> jwt_claims option"
  jwt_secret :: string
  jwt_algorithm :: string
  jwt_ttl_seconds :: int

record credentials =
  cr_email :: string
  cr_password :: string
  cr_extra :: "string list"

record signup_response =
  sr_user_id :: uuid
  sr_email :: string

definition auth_unprocessable :: py_exn where
  "auth_unprocessable = HTTPException 422 ''Unprocessable Entity''"

definition validate_signup :: "auth_env \<Rightarrow> credentials \<Rightarrow> string option" where
  "validate_signup env p =
     (if cr_extra p = [] \<and> 8 \<le> length (cr_password p) \<and> length (cr_password p) \<le> 128 then email_str env (cr_email p) else None)"

definition validate_login :: "auth_env \<Rightarrow> credentials \<Rightarrow> string option" where
  "validate_login env p =
     (if cr_extra p = [] \<and> 1 \<le> length (cr_password p) \<and> length (cr_password p) \<le> 128 then email_str env (cr_email p) else None)"

section \<open>Passwords and tokens\<close>

definition hash_password :: "auth_env \<Rightarrow> string \<Rightarrow> string \<Rightarrow> string result" where
  "hash_password env salt password =
     (if BCRYPT_MAX_BYTES < length (utf8_encode password)
      then Inl (HTTPException 400 ''Password exceeds 72-byte bcrypt input limit.'')
      else pwd_hash env salt password)"

definition verify_password :: "auth_env \<Rightarrow> string \<Rightarrow> string \<Rightarrow> bool result" where
  "verify_password env password password_hash = pwd_verify env password password_hash"

definition unix_seconds :: "timestamp \<Rightarrow> int" where
  "unix_seconds now = now div 1000000"

definition issue_token :: "auth_env \<Rightarrow> uuid \<Rightarrow> timestamp \<Rightarrow> string" where
  "issue_token env u now = jwt_encode env (jwt_secret env) (jwt_algorithm env)
     [(''sub'', JStr (str_uuid u)), (''iat'', JInt (unix_seconds now)),
      (''exp'', JInt (unix_seconds (now + jwt_ttl_seconds env * 1000000)))]"

section \<open>Routes\<close>

definition email_taken :: py_exn where
  "email_taken = HTTPException 409 ''Email is already registered.''"

definition signup :: "auth_env \<Rightarrow> unit result \<Rightarrow> string \<Rightarrow> credentials \<Rightarrow> uuid \<Rightarrow> timestamp \<Rightarrow> db \<Rightarrow>
    signup_response result \<times> db" where
  "signup env limiter salt p new_id now d =
     (case limiter of
        Inl e \<Rightarrow> (Inl e, d)
      | Inr _ \<Rightarrow>
          (case validate_signup env p of
             None \<Rightarrow> (Inl auth_unprocessable, d)
           | Some email \<Rightarrow>
               (case hash_password env salt (cr_password p) of
                  Inl e \<Rightarrow> (Inl e, d)
                | Inr h \<Rightarrow>
                    if email \<in> usr_email ` set (users d) \<or> new_id \<in> usr_user_id ` set (users d)
                    then (Inl email_taken, d)
                    else (Inr \<lparr>sr_user_id = new_id, sr_email = email\<rparr>,
                      d\<lparr>users := users d @ [\<lparr>usr_user_id = new_id, usr_email = email, usr_password_hash = h,
                                             usr_created_at = now\<rparr>]\<rparr>))))"

definition invalid_credentials :: py_exn where
  "invalid_credentials = HTTPException 401 ''Invalid credentials.''"

definition login :: "auth_env \<Rightarrow> unit result \<Rightarrow> credentials \<Rightarrow> timestamp \<Rightarrow> db \<Rightarrow> string result" where
  "login env limiter p now d =
     (case limiter of
        Inl e \<Rightarrow> Inl e
      | Inr _ \<Rightarrow>
          (case validate_login env p of
             None \<Rightarrow> Inl auth_unprocessable
           | Some email \<Rightarrow>
               (case scalar_one_or_none (select_where (\<lambda>r. usr_email r = email) (users d)) of
                  Inl e \<Rightarrow> Inl e
                | Inr None \<Rightarrow> Inl invalid_credentials
                | Inr (Some r) \<Rightarrow>
                    (case verify_password env (cr_password p) (usr_password_hash r) of
                       Inl e \<Rightarrow> Inl e
                     | Inr same \<Rightarrow> if \<not> same then Inl invalid_credentials
                                   else Inr (issue_token env (usr_user_id r) now)))))"

definition unauth :: py_exn where
  "unauth = HTTPException 401 ''Could not validate credentials.''"

text \<open>The lookup by primary key.\<close>

definition get_user :: "uuid \<Rightarrow> db \<Rightarrow> user_row option" where
  "get_user u d = (case filter (\<lambda>r. usr_user_id r = u) (users d) of [] \<Rightarrow> None | r # _ \<Rightarrow> Some r)"

definition get_current_user :: "auth_env \<Rightarrow> string option \<Rightarrow> timestamp \<Rightarrow> db \<Rightarrow> user_row result" where
  "get_current_user env token now d =
     (case token of
        None \<Rightarrow> Inl unauth
      | Some t \<Rightarrow>
          (case jwt_decode env (jwt_secret env) [jwt_algorithm env] (unix_seconds now) t of
             None \<Rightarrow> Inl unauth
           | Some claims \<Rightarrow>
               (case map_of claims ''sub'' of
                  Some (JStr sub) \<Rightarrow>
                    (case parse_uuid sub of
                       None \<Rightarrow> Inl unauth
                     | Some u \<Rightarrow> (case get_user u d of None \<Rightarrow> Inl unauth | Some r \<Rightarrow> Inr r))
                | _ \<Rightarrow> Inl unauth)))"

section \<open>Boot guards\<close>

definition DEV_JWT_SECRET :: string where
  "DEV_JWT_SECRET = ''change-me-in-production-this-is-local-dev-only''"

definition guard_jwt_secret :: "string \<Rightarrow> string \<Rightarrow> unit result" where
  "guard_jwt_secret posture secret =
     (if posture = ''dev'' then Inr () else if secret \<noteq> [] \<and> secret \<noteq> DEV_JWT_SECRET then Inr () else Inl RuntimeError)"

definition LOOPBACK_HOSTS :: "string list" where
  "LOOPBACK_HOSTS = [''localhost'', ''127.0.0.1'', ''0.0.0.0'', ''::1'']"

text \<open>\<open>urlsplit(origin).hostname or ""\<close> for an origin: scheme, \<open>//\<close>, authority.\<close>

definition scheme_char :: "char \<Rightarrow> bool" where
  "scheme_char c = (let n = of_char c :: nat in
     (65 \<le> n \<and> n \<le> 90) \<or> (97 \<le> n \<and> n \<le> 122) \<or> (48 \<le> n \<and> n \<le> 57) \<or> n = 43 \<or> n = 45 \<or> n = 46)"

definition drop_scheme :: "string \<Rightarrow> string" where
  "drop_scheme s = (let scheme = before_char CHR '':'' s; n = of_char (hd scheme) :: nat
     in if CHR '':'' \<in> set s \<and> scheme \<noteq> [] \<and> ((65 \<le> n \<and> n \<le> 90) \<or> (97 \<le> n \<and> n \<le> 122)) \<and> list_all scheme_char scheme
        then after_char CHR '':'' s else s)"

definition url_hostname :: "string \<Rightarrow> string result" where
  "url_hostname origin =
     (let u = drop_scheme (filter (\<lambda>c. of_char c \<notin> {9, 10, 13 :: nat}) (dropWhile (\<lambda>c. (of_char c :: nat) \<le> 32) origin));
          netloc = takeWhile (\<lambda>c. c \<notin> {CHR ''/'', CHR ''?'', CHR ''#''}) (drop 2 u);
          info = rev (before_char CHR ''@'' (rev netloc));
          host = (if CHR ''['' \<in> set info then before_char CHR '']'' (after_char CHR ''['' info) else before_char CHR '':'' info)
      in if \<not> startswith u ''//'' then Inr []
         else if (CHR ''['' \<in> set netloc) \<noteq> (CHR '']'' \<in> set netloc) then Inl ValueError
         else if CHR ''['' \<in> set netloc \<and> \<not> ipv6 host \<and> \<not> startswith host ''v'' then Inl ValueError
         else Inr (map lower_char (before_char CHR ''%'' host) @ dropWhile (\<lambda>c. c \<noteq> CHR ''%'') host))"

definition bad_origin :: "string \<Rightarrow> bool result" where
  "bad_origin origin =
     (if CHR ''*'' \<in> set origin \<or> py_strip origin = [] then Inr True
      else case url_hostname origin of Inl e \<Rightarrow> Inl e | Inr h \<Rightarrow> Inr (h \<in> set LOOPBACK_HOSTS))"

fun offenders :: "string list \<Rightarrow> string list result" where
  "offenders [] = Inr []"
| "offenders (x # xs) =
     (case bad_origin x of
        Inl e \<Rightarrow> Inl e
      | Inr bad \<Rightarrow> (case offenders xs of Inl e \<Rightarrow> Inl e | Inr ys \<Rightarrow> Inr (if bad then x # ys else ys)))"

definition guard_cors_origins :: "string \<Rightarrow> string list \<Rightarrow> unit result" where
  "guard_cors_origins posture origins =
     (if posture = ''dev'' then Inr ()
      else case offenders origins of
        Inl e \<Rightarrow> Inl e
      | Inr bad \<Rightarrow> if origins \<noteq> [] \<and> bad = [] then Inr () else Inl RuntimeError)"

definition lifespan :: "string \<Rightarrow> string \<Rightarrow> string list \<Rightarrow> unit result" where
  "lifespan posture secret origins =
     (case guard_jwt_secret posture secret of Inl e \<Rightarrow> Inl e | Inr _ \<Rightarrow> guard_cors_origins posture origins)"

end
