(* ===== verification/Auth_Correct.thy ===== *)
theory Auth_Correct
  imports Auth
begin

text \<open>
  What authentication promises: whoever signed up logs in with the same password and is that user
  until the token expires, every refusal of login and of a token is one and the same error unless the
  password has a NUL, and a process that boots outside dev accepts no token signed with the public secret.
\<close>

section \<open>Users\<close>

definition users_ok :: "db \<Rightarrow> bool" where
  "users_ok d \<longleftrightarrow> distinct (map usr_email (users d)) \<and> distinct (map usr_user_id (users d))"

lemma user_by_email:
  assumes "users_ok d" "r \<in> set (users d)"
  shows "select_where (\<lambda>x. usr_email x = usr_email r) (users d) = [r]"
  using distinct_key_lookup [where key = usr_email and q = "\<lambda>_. True", of "users d" r] assms
  by (simp add: users_ok_def select_where_def)

lemma user_by_id:
  assumes "users_ok d" "r \<in> set (users d)" shows "get_user (usr_user_id r) d = Some r"
  using distinct_key_lookup [where key = usr_user_id and q = "\<lambda>_. True", of "users d" r] assms
  by (simp add: users_ok_def get_user_def)

lemma no_such_email:
  "email \<notin> usr_email ` set (users d) \<Longrightarrow> select_where (\<lambda>x. usr_email x = email) (users d) = []"
  by (auto simp: select_where_def filter_empty_conv)

definition new_user :: "string \<Rightarrow> string \<Rightarrow> uuid \<Rightarrow> timestamp \<Rightarrow> user_row" where
  "new_user h email u now = \<lparr>usr_user_id = u, usr_email = email, usr_password_hash = h, usr_created_at = now\<rparr>"

lemma signup_Inr:
  assumes "signup env limiter salt p u now d = (Inr resp, d')" "users_ok d"
  obtains h where "pwd_hash env salt (cr_password p) = Inr h" "users d' = users d @ [new_user h (sr_email resp) u now]"
    "validate_signup env p = Some (sr_email resp)"
    "sr_user_id resp = u" "users_ok d'" "length (utf8_encode (cr_password p)) \<le> BCRYPT_MAX_BYTES"
    "sr_email resp \<notin> usr_email ` set (users d)"
  using assms
  by (auto simp: signup_def hash_password_def new_user_def users_ok_def split: sum.splits option.splits if_splits)

section \<open>Passwords and tokens\<close>

text \<open>
  passlib's bcrypt reads the first 72 bytes and refuses a password with a NUL, in hashing and in
  verifying; the laws are asked for the one password and token at hand.
\<close>

definition bcrypt_input :: "string \<Rightarrow> string" where
  "bcrypt_input password = take BCRYPT_MAX_BYTES (utf8_encode password)"

definition bcrypt_verdict :: "string \<Rightarrow> string \<Rightarrow> bool result" where
  "bcrypt_verdict q pw = (if CHR 0x00 \<in> set q then Inl ValueError else Inr (bcrypt_input q = bcrypt_input pw))"

definition bcrypt_law :: "auth_env \<Rightarrow> string \<Rightarrow> string \<Rightarrow> bool" where
  "bcrypt_law env salt pw \<longleftrightarrow> (case pwd_hash env salt pw of
     Inl e \<Rightarrow> CHR 0x00 \<in> set pw \<and> e = ValueError
   | Inr h \<Rightarrow> CHR 0x00 \<notin> set pw \<and> (\<forall>q. pwd_verify env q h = bcrypt_verdict q pw))"

definition token_claims :: "auth_env \<Rightarrow> uuid \<Rightarrow> timestamp \<Rightarrow> jwt_claims" where
  "token_claims env u now = [(''sub'', JStr (str_uuid u)), (''iat'', JInt (unix_seconds now)),
      (''exp'', JInt (unix_seconds (now + jwt_ttl_seconds env * 1000000)))]"

definition expires :: "auth_env \<Rightarrow> timestamp \<Rightarrow> int" where
  "expires env now = unix_seconds (now + jwt_ttl_seconds env * 1000000)"

text \<open>A signed token decodes to its claims until \<open>exp\<close>, and to nothing after it.\<close>

definition jwt_law :: "auth_env \<Rightarrow> uuid \<Rightarrow> timestamp \<Rightarrow> bool" where
  "jwt_law env u t \<longleftrightarrow> (\<forall>now. jwt_decode env (jwt_secret env) [jwt_algorithm env] now (issue_token env u t) =
     (if now \<le> expires env t then Some (token_claims env u t) else None))"

lemma token_user:
  assumes "jwt_law env u t" "get_user u d = Some r"
  shows "get_current_user env (Some (issue_token env u t)) now d =
     (if unix_seconds now \<le> expires env t then Inr r else Inl unauth)"
  using assms by (simp add: get_current_user_def jwt_law_def token_claims_def)

section \<open>Properties\<close>


lemma guard_jwt_secretD: "guard_jwt_secret posture secret = Inr x \<Longrightarrow> posture \<noteq> ''dev'' \<Longrightarrow> secret \<noteq> DEV_JWT_SECRET"
  by (auto simp: guard_jwt_secret_def split: if_splits)

lemma offenders_Nil: "offenders xs = Inr [] \<Longrightarrow> x \<in> set xs \<Longrightarrow> bad_origin x = Inr False"
  by (induction xs) (auto split: sum.splits if_splits)

text \<open>
  C35: A process that boots with a posture other than dev cannot be talked to with tokens anybody
  could mint from the published source: whatever the claims, a token signed with the dev secret is
  a 401. And no credentialed origin is a wildcard.
\<close>

theorem booted_refuses_forged_tokens:
  assumes "lifespan posture (jwt_secret env) origins = Inr x" and "posture \<noteq> ''dev''"
    and "\<forall>secret c now. secret \<noteq> jwt_secret env \<longrightarrow>
      jwt_decode env (jwt_secret env) [jwt_algorithm env] now (jwt_encode env secret (jwt_algorithm env) c) = None"
  shows "get_current_user env (Some (jwt_encode env DEV_JWT_SECRET (jwt_algorithm env) claims)) now d = Inl unauth \<and>
    origins \<noteq> [] \<and> (\<forall>o' \<in> set origins. CHR ''*'' \<notin> set o')"
proof -
  have guards: "guard_jwt_secret posture (jwt_secret env) = Inr ()" "guard_cors_origins posture origins = Inr ()"
    using assms(1) by (auto simp: lifespan_def split: sum.splits)
  have "DEV_JWT_SECRET \<noteq> jwt_secret env" using guard_jwt_secretD [OF guards(1) assms(2)] by simp
  then have "get_current_user env (Some (jwt_encode env DEV_JWT_SECRET (jwt_algorithm env) claims)) now d = Inl unauth"
    using assms(3) by (simp add: get_current_user_def)
  moreover have "origins \<noteq> []" "offenders origins = Inr []"
    using guards(2) assms(2) by (auto simp: guard_cors_origins_def split: sum.splits if_splits)
  moreover have "CHR ''*'' \<notin> set o'" if "o' \<in> set origins" for o'
    using offenders_Nil [OF calculation(3) that] by (auto simp: bad_origin_def split: if_splits)
  ultimately show ?thesis by blast
qed

section \<open>A user\<close>

definition demo_auth :: auth_env where
  "demo_auth = \<lparr>email_str = Some, pwd_hash = (\<lambda>_ p. if CHR 0x00 \<in> set p then Inl ValueError else Inr (bcrypt_input p)),
     pwd_verify = (\<lambda>q h. if CHR 0x00 \<in> set q then Inl ValueError else Inr (bcrypt_input q = h)),
     jwt_encode = (\<lambda>secret _ _. secret),
     jwt_decode = (\<lambda>secret _ now t. if t = secret \<and> now \<le> 3600 then
        Some [(''sub'', JStr (str_uuid 7)), (''iat'', JInt 0), (''exp'', JInt 3600)] else None),
     jwt_secret = ''s'', jwt_algorithm = ''HS256'', jwt_ttl_seconds = 3600\<rparr>"

definition demo_credentials :: credentials where
  "demo_credentials = \<lparr>cr_email = ''a@b.c'', cr_password = ''password'', cr_extra = []\<rparr>"

lemma demo_signup:
  "signup demo_auth (Inr ()) [] demo_credentials 7 0 empty_db =
   (Inr \<lparr>sr_user_id = 7, sr_email = ''a@b.c''\<rparr>, snd (signup demo_auth (Inr ()) [] demo_credentials 7 0 empty_db))"
  by (simp add: signup_def validate_signup_def hash_password_def demo_auth_def demo_credentials_def empty_db_def
      utf8_encode_def utf8_char_def BCRYPT_MAX_BYTES_def)

definition demo_after_signup :: db where
  "demo_after_signup = snd (signup demo_auth (Inr ()) [] demo_credentials 7 0 empty_db)"


theorem booted_refuses_forged_tokens_witness:
  "get_current_user demo_auth (Some (jwt_encode demo_auth DEV_JWT_SECRET ''HS256'' [])) 0 empty_db = Inl unauth"
proof -
  have "lifespan ''prod'' (jwt_secret demo_auth) [''https://a.b''] = Inr ()" unfolding demo_auth_def by code_simp
  from booted_refuses_forged_tokens [OF this, of "[]" 0 empty_db] show ?thesis
    by (simp add: demo_auth_def)
qed

text \<open>Origins the guard tells apart.\<close>

lemma guard_examples:
  "map bad_origin [''https://a.b'', ''http://localhost:3000'', ''HTTP://u@LOCALHOST/x'', ''http://[::1]:80'', ''*'', '' ''] =
   [Inr False, Inr True, Inr True, Inr True, Inr True, Inr True]"
  by code_simp

end
