(* ===== verification/Sweep.thy ===== *)
theory Sweep
  imports Ingest_Correct "HOL-Library.List_Lexorder" "HOL-Library.Char_ord"
begin

text \<open>
  \<open>worker/scripts/sweep_orphans.py\<close>: the inventory of both stores, the pure classification, and
  the destructive run. Other processes go on working between the scan and each deletion: what they
  do before a step is the argument \<open>others\<close>, an arbitrary change of the world.
\<close>

section \<open>Facts and plan\<close>

record book_facts =
  bf_book_id :: string
  bf_in_global_books :: bool
  bf_chunk_count :: nat
  bf_library_ref_count :: nat
  bf_vector_count :: nat
  bf_claimed :: bool

record sweep_plan =
  sp_milvus_orphans :: "book_facts list"
  sp_pg_orphans :: "book_facts list"
  sp_refusals :: "book_facts list"
  sp_skipped_claims :: "book_facts list"

definition safe_book_id_char :: "char \<Rightarrow> bool" where
  "safe_book_id_char c = filename_char c"

definition book_id_expr :: "string \<Rightarrow> string result" where
  "book_id_expr book_id =
     (if book_id = [] \<or> 64 < length book_id \<or> \<not> list_all safe_book_id_char book_id then Inl ValueError
      else Inr (''book_id == '' @ [CHR 0x22] @ book_id @ [CHR 0x22]))"

definition milvus_only :: "book_facts \<Rightarrow> bool" where
  "milvus_only f \<longleftrightarrow> \<not> bf_in_global_books f \<and> 0 < bf_vector_count f"

definition pg_empty :: "book_facts \<Rightarrow> bool" where
  "pg_empty f \<longleftrightarrow> bf_in_global_books f \<and> bf_chunk_count f = 0 \<and> bf_vector_count f = 0"

fun classify_loop :: "book_facts list \<Rightarrow> sweep_plan \<Rightarrow> sweep_plan" where
  "classify_loop [] p = p"
| "classify_loop (f # fs) p = classify_loop fs
     (if \<not> (milvus_only f \<or> pg_empty f) then p
      else if 0 < bf_library_ref_count f then p\<lparr>sp_refusals := sp_refusals p @ [f]\<rparr>
      else if bf_claimed f then p\<lparr>sp_skipped_claims := sp_skipped_claims p @ [f]\<rparr>
      else if milvus_only f then p\<lparr>sp_milvus_orphans := sp_milvus_orphans p @ [f]\<rparr>
      else p\<lparr>sp_pg_orphans := sp_pg_orphans p @ [f]\<rparr>)"

definition classify :: "book_facts list \<Rightarrow> sweep_plan" where
  "classify fs = classify_loop fs
     \<lparr>sp_milvus_orphans = [], sp_pg_orphans = [], sp_refusals = [], sp_skipped_claims = []\<rparr>"

section \<open>Inventory\<close>

definition claimed_book_ids :: "db \<Rightarrow> string list" where
  "claimed_book_ids d = concat (map (\<lambda>r. case ut_book_id r of None \<Rightarrow> [] | Some b \<Rightarrow> [str_uuid b]) (upload_tasks d))"

definition library_ref_count :: "string \<Rightarrow> db \<Rightarrow> nat" where
  "library_ref_count book_id d =
     (case parse_uuid book_id of
        None \<Rightarrow> 0
      | Some b \<Rightarrow> length (select_where (\<lambda>e. ul_book_id e = b) (user_library d)))"

definition fact_of :: "vector_row list \<Rightarrow> db \<Rightarrow> string \<Rightarrow> book_facts" where
  "fact_of vs d i = \<lparr>bf_book_id = i,
     bf_in_global_books = (i \<in> (\<lambda>g. str_uuid (gb_book_id g)) ` set (global_books d)),
     bf_chunk_count = length (select_where (\<lambda>c. str_uuid (chk_book_id c) = i) (chunks d)),
     bf_library_ref_count = length (select_where (\<lambda>e. str_uuid (ul_book_id e) = i) (user_library d)),
     bf_vector_count = length (select_where (\<lambda>v. vr_book_id v = i) vs),
     bf_claimed = (i \<in> set (claimed_book_ids d))\<rparr>"

definition gather_facts :: "vector_row list \<Rightarrow> db \<Rightarrow> book_facts list" where
  "gather_facts vs d =
     map (fact_of vs d) (sort (fromkeys (map vr_book_id vs @ map (\<lambda>g. str_uuid (gb_book_id g)) (global_books d))))"

section \<open>Deletion\<close>

text \<open>The row with everything that cascades from it; \<open>user_library\<close> restricts.\<close>

definition delete_global_book :: "uuid \<Rightarrow> db \<Rightarrow> db result" where
  "delete_global_book b d =
     (if select_where (\<lambda>e. ul_book_id e = b) (user_library d) \<noteq> [] then Inl IntegrityError
      else Inr (d\<lparr>global_books := delete_where (\<lambda>g. gb_book_id g = b) (global_books d),
        chunks := delete_where (\<lambda>c. chk_book_id c = b) (chunks d),
        reading_positions := delete_where (\<lambda>r. rp_book_id r = b) (reading_positions d),
        collection_books := delete_where (\<lambda>c. cb_book_id c = b) (collection_books d)\<rparr>))"

definition delete_vectors :: "string \<Rightarrow> world \<Rightarrow> world" where
  "delete_vectors i w = w\<lparr>w_vectors := delete_where (\<lambda>v. vr_book_id v = i) (w_vectors w)\<rparr>"

datatype step_end = Deleted | Unsafe | Skipped | Refused

definition sweep_vectors :: "book_facts \<Rightarrow> world \<Rightarrow> step_end \<times> world" where
  "sweep_vectors f w =
     (case book_id_expr (bf_book_id f) of
        Inl _ \<Rightarrow> (Unsafe, w)
      | Inr _ \<Rightarrow>
          let landed = (case parse_uuid (bf_book_id f) of
                None \<Rightarrow> False
              | Some b \<Rightarrow> select_where (\<lambda>g. gb_book_id g = b) (global_books (w_db w)) \<noteq> [])
          in if landed then (Skipped, w) else (Deleted, delete_vectors (bf_book_id f) w))"

definition sweep_row :: "book_facts \<Rightarrow> world \<Rightarrow> step_end result \<times> world" where
  "sweep_row f w =
     (case parse_uuid (bf_book_id f) of
        None \<Rightarrow> (Inr Skipped, w)
      | Some b \<Rightarrow>
          if 0 < library_ref_count (bf_book_id f) (w_db w) then (Inr Refused, w)
          else if 0 < length (select_where (\<lambda>c. chk_book_id c = b) (chunks (w_db w))) then (Inr Skipped, w)
          else case book_id_expr (bf_book_id f) of
            Inl e \<Rightarrow> (Inl e, w)
          | Inr _ \<Rightarrow>
              let w' = delete_vectors (bf_book_id f) w
              in (case delete_global_book b (w_db w') of
                    Inl e \<Rightarrow> (Inl e, w')
                  | Inr d \<Rightarrow> (Inr Deleted, w'\<lparr>w_db := d\<rparr>)))"

type_synonym interference = "book_facts \<Rightarrow> world \<Rightarrow> world"

text \<open>The two loops; the unsafe identifiers are collected, a refusal ends the second.\<close>

fun vectors_loop :: "interference \<Rightarrow> book_facts list \<Rightarrow> string list \<Rightarrow> world \<Rightarrow> string list \<times> world" where
  "vectors_loop others [] unsafe w = (unsafe, w)"
| "vectors_loop others (f # fs) unsafe w =
     (let (end_of, w') = sweep_vectors f (others f w)
      in vectors_loop others fs (if end_of = Unsafe then unsafe @ [bf_book_id f] else unsafe) w')"

definition EXIT_OK :: nat where "EXIT_OK = 0"
definition EXIT_NO_COLLECTION :: nat where "EXIT_NO_COLLECTION = 2"
definition EXIT_TENANT_REFUSAL :: nat where "EXIT_TENANT_REFUSAL = 3"

fun rows_loop :: "interference \<Rightarrow> book_facts list \<Rightarrow> world \<Rightarrow> nat result \<times> world" where
  "rows_loop others [] w = (Inr EXIT_OK, w)"
| "rows_loop others (f # fs) w =
     (case sweep_row f (others f w) of
        (Inl e, w') \<Rightarrow> (Inl e, w')
      | (Inr Refused, w') \<Rightarrow> (Inr EXIT_TENANT_REFUSAL, w')
      | (Inr _, w') \<Rightarrow> rows_loop others fs w')"

definition execute_sweep :: "interference \<Rightarrow> sweep_plan \<Rightarrow> world \<Rightarrow> nat result \<times> world" where
  "execute_sweep others plan w =
     (if filter (\<lambda>f. 0 < library_ref_count (bf_book_id f) (w_db w)) (sp_milvus_orphans plan @ sp_pg_orphans plan) \<noteq> []
      then (Inr EXIT_TENANT_REFUSAL, w)
      else let (unsafe, w') = vectors_loop others (sp_milvus_orphans plan) [] w
           in rows_loop others (sp_pg_orphans plan) w')"

text \<open>\<open>before\<close> is the interference between the scan and the run.\<close>

definition sweep :: "(world \<Rightarrow> world) \<Rightarrow> interference \<Rightarrow> bool \<Rightarrow> bool \<Rightarrow> world \<Rightarrow> nat result \<times> world" where
  "sweep before others has_collection execute w =
     (if \<not> has_collection then (Inr EXIT_NO_COLLECTION, w)
      else let plan = classify (gather_facts (w_vectors w) (w_db w))
           in if sp_refusals plan \<noteq> [] then (Inr EXIT_TENANT_REFUSAL, w)
              else if sp_milvus_orphans plan = [] \<and> sp_pg_orphans plan = [] then (Inr EXIT_OK, w)
              else if \<not> execute then (Inr EXIT_OK, w)
              else execute_sweep others plan (before w))"

end
