(* ===== verification/Sweep_Correct.thy ===== *)
theory Sweep_Correct
  imports Sweep
begin

text \<open>
  What the sweep promises: a book that stays in somebody's library is intact afterwards, whatever
  other processes did meanwhile; a second run finds nothing left; and what the claims of finished
  uploads cost.
\<close>

section \<open>The classification\<close>

definition unprotected :: "book_facts \<Rightarrow> bool" where
  "unprotected f \<longleftrightarrow> bf_library_ref_count f = 0 \<and> \<not> bf_claimed f"

lemma classify_loop_sets:
  "set (sp_milvus_orphans (classify_loop fs p)) =
     set (sp_milvus_orphans p) \<union> {f \<in> set fs. milvus_only f \<and> unprotected f}"
  "set (sp_pg_orphans (classify_loop fs p)) = set (sp_pg_orphans p) \<union> {f \<in> set fs. pg_empty f \<and> unprotected f}"
  "set (sp_refusals (classify_loop fs p)) =
     set (sp_refusals p) \<union> {f \<in> set fs. (milvus_only f \<or> pg_empty f) \<and> 0 < bf_library_ref_count f}"
  by (induction fs p rule: classify_loop.induct) (auto simp: unprotected_def milvus_only_def pg_empty_def)

lemma classify_sets:
  "set (sp_milvus_orphans (classify fs)) = {f \<in> set fs. milvus_only f \<and> unprotected f}"
  "set (sp_pg_orphans (classify fs)) = {f \<in> set fs. pg_empty f \<and> unprotected f}"
  "set (sp_refusals (classify fs)) = {f \<in> set fs. (milvus_only f \<or> pg_empty f) \<and> 0 < bf_library_ref_count f}"
  by (simp_all add: classify_def classify_loop_sets)

section \<open>Steps spare what is in use\<close>

text \<open>
  What the stores hold of a book: some rows, some chunks, some vectors. It is in use once its row is
  there and a library or a chunk refers to it.
\<close>

definition material :: "uuid \<Rightarrow> global_book set \<Rightarrow> chunk_row set \<Rightarrow> vector_row set \<Rightarrow> world \<Rightarrow> bool" where
  "material b gs cs vs w \<longleftrightarrow> gs \<subseteq> {g \<in> set (global_books (w_db w)). gb_book_id g = b} \<and>
     cs \<subseteq> {c \<in> set (chunks (w_db w)). chk_book_id c = b} \<and> vs \<subseteq> {v \<in> set (w_vectors w). vr_book_id v = str_uuid b}"

definition referred :: "uuid \<Rightarrow> db \<Rightarrow> bool" where
  "referred b d \<longleftrightarrow> b \<in> gb_book_id ` set (global_books d) \<and> (b \<in> ul_book_id ` set (user_library d) \<or> b \<in> chk_book_id ` set (chunks d))"

definition in_use :: "uuid \<Rightarrow> global_book set \<Rightarrow> chunk_row set \<Rightarrow> vector_row set \<Rightarrow> world \<Rightarrow> bool" where
  "in_use b gs cs vs w \<longleftrightarrow> referred b (w_db w) \<and> material b gs cs vs w"

lemma other_steps:
  assumes "bf_book_id f \<noteq> str_uuid b"
  shows "material b gs cs vs w \<Longrightarrow> material b gs cs vs (snd (sweep_vectors f w))"
    and "material b gs cs vs w \<Longrightarrow> parse_uuid (bf_book_id f) \<noteq> Some b \<Longrightarrow> material b gs cs vs (snd (sweep_row f w))"
  using assms
  by (auto simp: material_def sweep_vectors_def sweep_row_def delete_vectors_def delete_global_book_def Let_def
      split: sum.split option.split)

lemma ref_count_pos: "library_ref_count i d = 0 \<Longrightarrow> parse_uuid i = Some b \<Longrightarrow> e \<in> set (user_library d) \<Longrightarrow> ul_book_id e \<noteq> b"
  by (auto simp: library_ref_count_def select_where_def filter_empty_conv)

lemma sweep_vectors_spares:
  assumes "in_use b gs cs vs w" shows "in_use b gs cs vs (snd (sweep_vectors f w))"
proof (cases "parse_uuid (bf_book_id f) = Some b")
  case True
  then have "select_where (\<lambda>g. gb_book_id g = b) (global_books (w_db w)) \<noteq> []"
    using assms by (auto simp: in_use_def referred_def select_where_def filter_empty_conv)
  then have "snd (sweep_vectors f w) = w" using True by (simp add: sweep_vectors_def split: sum.split)
  then show ?thesis using assms by simp
next
  case False
  then have other: "bf_book_id f \<noteq> str_uuid b" by auto
  have "w_db (snd (sweep_vectors f w)) = w_db w"
    by (simp add: sweep_vectors_def delete_vectors_def Let_def split: sum.split)
  then show ?thesis using assms other_steps(1) [OF other] by (simp add: in_use_def)
qed

lemma sweep_row_refused:
  assumes "parse_uuid (bf_book_id f) = Some b" "referred b (w_db w)" shows "snd (sweep_row f w) = w"
proof (cases "0 < library_ref_count (bf_book_id f) (w_db w)")
  case False
  then have "b \<notin> ul_book_id ` set (user_library (w_db w))" using ref_count_pos [of "bf_book_id f" "w_db w" b] assms(1) by auto
  then have "select_where (\<lambda>c. chk_book_id c = b) (chunks (w_db w)) \<noteq> []"
    using assms(2) by (auto simp: referred_def select_where_def filter_empty_conv)
  then show ?thesis using assms(1) by (simp add: sweep_row_def)
qed (simp add: sweep_row_def assms(1))

lemma sweep_row_spares:
  assumes "in_use b gs cs vs w" shows "in_use b gs cs vs (snd (sweep_row f w))"
proof (cases "parse_uuid (bf_book_id f) = Some b")
  case True
  then show ?thesis using assms sweep_row_refused [OF True] by (simp add: in_use_def)
next
  case False
  then have other: "bf_book_id f \<noteq> str_uuid b" by auto
  have "referred b (w_db (snd (sweep_row f w)))" using assms False
    by (auto simp: in_use_def referred_def sweep_row_def delete_vectors_def delete_global_book_def Let_def
        split: sum.split option.split)
  then show ?thesis using assms other_steps(2) [OF other _ False] by (simp add: in_use_def)
qed

text \<open>A property the steps and the other processes keep survives the run.\<close>

lemma vectors_loop_keeps:
  assumes "\<And>f w. P w \<Longrightarrow> P (others f w)" "\<And>f w. P w \<Longrightarrow> P (snd (sweep_vectors f w))"
  shows "P w \<Longrightarrow> P (snd (vectors_loop others fs unsafe w))"
proof (induction fs arbitrary: unsafe w)
  case (Cons f fs)
  obtain x w' where step: "sweep_vectors f (others f w) = (x, w')" by fastforce
  have "P (snd (sweep_vectors f (others f w)))" by (intro assms Cons.prems)
  then have "P w'" using step by simp
  then show ?case using Cons.IH by (simp add: step)
qed simp

lemma rows_loop_keeps:
  assumes "\<And>f w. P w \<Longrightarrow> P (others f w)" "\<And>f w. P w \<Longrightarrow> P (snd (sweep_row f w))"
  shows "P w \<Longrightarrow> P (snd (rows_loop others fs w))"
proof (induction fs arbitrary: w)
  case (Cons f fs)
  obtain x w' where step: "sweep_row f (others f w) = (x, w')" by fastforce
  have "P (snd (sweep_row f (others f w)))" by (intro assms Cons.prems)
  then have "P w'" using step by simp
  then show ?case using Cons.IH [of w'] by (simp add: step split: sum.split step_end.split)
qed simp

text \<open>
  The moments of a run: its start, and the world each step finds when it begins, that is after the
  other processes have had their turn.
\<close>

fun vectors_moments :: "interference \<Rightarrow> book_facts list \<Rightarrow> world \<Rightarrow> world list" where
  "vectors_moments others [] w = []"
| "vectors_moments others (f # fs) w = others f w # vectors_moments others fs (snd (sweep_vectors f (others f w)))"

fun rows_moments :: "interference \<Rightarrow> book_facts list \<Rightarrow> world \<Rightarrow> world list" where
  "rows_moments others [] w = []"
| "rows_moments others (f # fs) w = others f w #
     (case sweep_row f (others f w) of
        (Inl _, _) \<Rightarrow> []
      | (Inr Refused, _) \<Rightarrow> []
      | (Inr _, w') \<Rightarrow> rows_moments others fs w')"

definition refused_up_front :: "sweep_plan \<Rightarrow> world \<Rightarrow> bool" where
  "refused_up_front plan w \<longleftrightarrow> (\<exists>f \<in> set (sp_milvus_orphans plan) \<union> set (sp_pg_orphans plan).
     0 < library_ref_count (bf_book_id f) (w_db w))"

lemma execute_sweep_cases:
  "execute_sweep others plan w =
     (if refused_up_front plan w then (Inr EXIT_TENANT_REFUSAL, w)
      else rows_loop others (sp_pg_orphans plan) (snd (vectors_loop others (sp_milvus_orphans plan) [] w)))"
  by (auto simp: execute_sweep_def refused_up_front_def filter_empty_conv case_prod_beta Let_def)

definition moments :: "interference \<Rightarrow> sweep_plan \<Rightarrow> world \<Rightarrow> world list" where
  "moments others plan w = w # (if refused_up_front plan w then [] else vectors_moments others (sp_milvus_orphans plan) w @
       rows_moments others (sp_pg_orphans plan) (snd (vectors_loop others (sp_milvus_orphans plan) [] w)))"

lemma vectors_loop_from:
  assumes "\<And>f w. P w \<Longrightarrow> P (others f w)" "\<And>f w. P w \<Longrightarrow> P (snd (sweep_vectors f w))"
  shows "m \<in> set (vectors_moments others fs w) \<Longrightarrow> P m \<Longrightarrow> P (snd (vectors_loop others fs unsafe w))"
proof (induction fs arbitrary: unsafe w)
  case (Cons f fs)
  obtain x w' where step: "sweep_vectors f (others f w) = (x, w')" by fastforce
  show ?case
  proof (cases "m = others f w")
    case True
    then have "P w'" using assms(2) [of m f] Cons.prems(2) step by simp
    then show ?thesis using vectors_loop_keeps [of P others, OF assms] by (simp add: step)
  next
    case False
    then show ?thesis using Cons by (simp add: step)
  qed
qed simp

lemma rows_loop_from:
  assumes "\<And>f w. P w \<Longrightarrow> P (others f w)" "\<And>f w. P w \<Longrightarrow> P (snd (sweep_row f w))"
  shows "m \<in> set (rows_moments others fs w) \<Longrightarrow> P m \<Longrightarrow> P (snd (rows_loop others fs w))"
proof (induction fs arbitrary: w)
  case (Cons f fs)
  obtain x w' where step: "sweep_row f (others f w) = (x, w')" by fastforce
  show ?case
  proof (cases "m = others f w")
    case True
    then have "P w'" using assms(2) [of m f] Cons.prems(2) step by simp
    then show ?thesis using rows_loop_keeps [of P others, OF assms] by (simp add: step split: sum.split step_end.split)
  next
    case False
    then obtain y where y: "x = Inr y" "y \<noteq> Refused" "m \<in> set (rows_moments others fs w')"
      using Cons.prems(1) step by (cases x) (auto split: step_end.splits)
    then show ?thesis using Cons.IH [OF y(3) Cons.prems(2)] by (simp add: step split: step_end.split)
  qed
qed simp

lemma execute_keeps:
  assumes "\<And>f w. P w \<Longrightarrow> P (others f w)" "\<And>f w. P w \<Longrightarrow> P (snd (sweep_vectors f w))" "\<And>f w. P w \<Longrightarrow> P (snd (sweep_row f w))"
    and "m \<in> set (moments others plan w)" "P m"
  shows "P (snd (execute_sweep others plan w))"
proof (cases "refused_up_front plan w")
  case True
  then show ?thesis using assms(4,5) by (simp add: moments_def execute_sweep_cases)
next
  case False
  let ?w1 = "snd (vectors_loop others (sp_milvus_orphans plan) [] w)"
  have run: "snd (execute_sweep others plan w) = snd (rows_loop others (sp_pg_orphans plan) ?w1)"
    using False by (simp add: execute_sweep_cases)
  consider "m = w" | "m \<in> set (vectors_moments others (sp_milvus_orphans plan) w)"
    | "m \<in> set (rows_moments others (sp_pg_orphans plan) ?w1)"
    using assms(4) False by (auto simp: moments_def)
  moreover have rows: "P (snd (rows_loop others fs u))" if "P u" for fs u
    using rows_loop_keeps [of P others u] assms(1,3) that by blast
  ultimately have "P (snd (rows_loop others (sp_pg_orphans plan) ?w1))"
  proof cases
    case 1
    have "P (snd (vectors_loop others (sp_milvus_orphans plan) [] w))"
      using vectors_loop_keeps [of P others w] assms 1 by blast
    then show ?thesis by (rule rows)
  next
    case 2
    have "P (snd (vectors_loop others (sp_milvus_orphans plan) [] w))"
      using vectors_loop_from [of P others m] assms 2 by blast
    then show ?thesis by (rule rows)
  next
    case 3
    then show ?thesis using rows_loop_from [of P others m] assms by blast
  qed
  then show ?thesis unfolding run .
qed

lemma moments_start [simp]: "w \<in> set (moments others plan w)"
  by (simp add: moments_def)

lemma sweep_keeps:
  assumes "\<And>w. P w \<Longrightarrow> P (before w)" "\<And>f w. P w \<Longrightarrow> P (others f w)"
    "\<And>f w. P w \<Longrightarrow> P (snd (sweep_vectors f w))" "\<And>f w. P w \<Longrightarrow> P (snd (sweep_row f w))" "P w"
  shows "P (snd (sweep before others c x w))"
  using assms(1) [OF assms(5)] assms(5) execute_keeps [of P others, OF assms(2-4) moments_start]
  by (simp add: sweep_def Let_def)

section \<open>Claims\<close>

text \<open>Nobody else works meanwhile.\<close>

definition quiet :: interference where
  "quiet f w = w"

text \<open>A claim is a protection for as long as its row exists.\<close>

definition claimed_vectors :: "uuid \<Rightarrow> vector_row set \<Rightarrow> world \<Rightarrow> bool" where
  "claimed_vectors b vs w \<longleftrightarrow> Some b \<in> ut_book_id ` set (upload_tasks (w_db w)) \<and>
     vs \<subseteq> {v \<in> set (w_vectors w). vr_book_id v = str_uuid b}"

lemma fact_claimed:
  assumes "f \<in> set (gather_facts vs d)" "bf_book_id f = str_uuid b" "Some b \<in> ut_book_id ` set (upload_tasks d)"
  shows "bf_claimed f"
  using assms by (force simp: gather_facts_def fact_of_def claimed_book_ids_def)

text \<open>Whatever is not named by a candidate is kept, if the other processes keep it.\<close>

lemma spared_loops:
  assumes "\<And>f w. P w \<Longrightarrow> P (others f w)" "P w"
  shows "(\<And>f w. f \<in> set fs \<Longrightarrow> P w \<Longrightarrow> P (snd (sweep_vectors f w))) \<Longrightarrow> P (snd (vectors_loop others fs unsafe w))"
    and "(\<And>f w. f \<in> set fs \<Longrightarrow> P w \<Longrightarrow> P (snd (sweep_row f w))) \<Longrightarrow> P (snd (rows_loop others fs w))"
proof -
  show "P (snd (vectors_loop others fs unsafe w))"
    if "\<And>f w. f \<in> set fs \<Longrightarrow> P w \<Longrightarrow> P (snd (sweep_vectors f w))" using assms(2) that
  proof (induction fs arbitrary: unsafe w)
    case (Cons f fs)
    have "P (snd (sweep_vectors f (others f w)))" by (intro assms(1) Cons.prems) simp
    then show ?case using Cons by (simp add: case_prod_beta Let_def)
  qed simp
  show "P (snd (rows_loop others fs w))" if "\<And>f w. f \<in> set fs \<Longrightarrow> P w \<Longrightarrow> P (snd (sweep_row f w))" using assms(2) that
  proof (induction fs arbitrary: w)
    case (Cons f fs)
    obtain x w' where step: "sweep_row f (others f w) = (x, w')" by fastforce
    have "P (snd (sweep_row f (others f w)))" by (intro assms(1) Cons.prems) simp
    then show ?case using Cons by (simp add: step split: sum.split step_end.split)
  qed simp
qed

lemma pg_empty_id: "f \<in> set (gather_facts vs d) \<Longrightarrow> pg_empty f \<Longrightarrow> \<exists>b. bf_book_id f = str_uuid b"
  by (auto simp: gather_facts_def fact_of_def pg_empty_def)

lemma spared_sweep:
  assumes claimed: "Some b \<in> ut_book_id ` set (upload_tasks (w_db w))"
    and keep: "\<And>w. P w \<Longrightarrow> P (before w)" "\<And>f w. P w \<Longrightarrow> P (others f w)" "P w"
    and steps: "\<And>f w. bf_book_id f \<noteq> str_uuid b \<Longrightarrow> P w \<Longrightarrow> P (snd (sweep_vectors f w))"
      "\<And>f w. bf_book_id f \<noteq> str_uuid b \<Longrightarrow> parse_uuid (bf_book_id f) \<noteq> Some b \<Longrightarrow> P w \<Longrightarrow> P (snd (sweep_row f w))"
  shows "P (snd (sweep before others c x w))"
proof -
  let ?plan = "classify (gather_facts (w_vectors w) (w_db w))"
  have other: "bf_book_id f \<noteq> str_uuid b" if "f \<in> set (sp_milvus_orphans ?plan) \<union> set (sp_pg_orphans ?plan)" for f
    using fact_claimed [of f "w_vectors w" "w_db w" b] that claimed by (auto simp: classify_sets unprotected_def)
  have row: "parse_uuid (bf_book_id f) \<noteq> Some b" if "f \<in> set (sp_pg_orphans ?plan)" for f
    using other [of f] pg_empty_id [of f "w_vectors w" "w_db w"] that by (auto simp: classify_sets)
  let ?w1 = "snd (vectors_loop others (sp_milvus_orphans ?plan) [] (before w))"
  have w1: "P ?w1" by (rule spared_loops(1) [of P, OF keep(2)]) (use keep steps(1) other in auto)
  have "P (snd (rows_loop others (sp_pg_orphans ?plan) ?w1))"
    by (rule spared_loops(2) [of P, OF keep(2) w1]) (use steps(2) other row in auto)
  then show ?thesis using keep by (simp add: sweep_def execute_sweep_cases Let_def)
qed

lemma claimed_steps:
  assumes "bf_book_id f \<noteq> str_uuid b"
  shows "claimed_vectors b vs w \<Longrightarrow> claimed_vectors b vs (snd (sweep_vectors f w))"
    and "claimed_vectors b vs w \<Longrightarrow> claimed_vectors b vs (snd (sweep_row f w))"
  using assms
  by (auto simp: claimed_vectors_def sweep_vectors_def sweep_row_def delete_vectors_def delete_global_book_def Let_def
      split: sum.split option.split)

lemma claimed_sweep:
  assumes "claimed_vectors b vs w" shows "claimed_vectors b vs (snd (sweep id quiet c x w))"
proof (rule spared_sweep [of b])
  show "Some b \<in> ut_book_id ` set (upload_tasks (w_db w))" using assms by (simp add: claimed_vectors_def)
qed (use assms claimed_steps in \<open>simp_all add: quiet_def\<close>)

text \<open>
  C37: The debris of a failed upload is never swept. The worker claims the identifier of a book
  before it writes the first vector and nothing ever clears a claim, so once the row of a task that
  failed for good names a book, no number of sweeps removes a single vector of that book.
\<close>

theorem claimed_debris_stays:
  assumes "claimed_vectors b vs w"
  shows "claimed_vectors b vs (((\<lambda>w. snd (sweep id quiet True True w)) ^^ n) w)"
  using assms by (induction n) (auto simp: claimed_sweep)

section \<open>Nothing is left\<close>

text \<open>Identifiers that are UUIDs are spelled canonically, and every identifier passes the allowlist.\<close>

definition tidy_ids :: "world \<Rightarrow> bool" where
  "tidy_ids w \<longleftrightarrow> (\<forall>v \<in> set (w_vectors w). is_ok (book_id_expr (vr_book_id v)) \<and>
     (\<forall>b. parse_uuid (vr_book_id v) = Some b \<longrightarrow> vr_book_id v = str_uuid b))"

lemma str_uuid_safe: "is_ok (book_id_expr (str_uuid b))"
proof -
  have "safe_book_id_char c" if c: "c \<in> set (str_uuid b)" for c
  proof -
    consider "c = CHR ''-''" | d where "d < 16" "c = digit_char d" using set_str_uuid [OF c] by blast
    then show ?thesis by cases (auto simp: safe_book_id_char_def filename_char_def of_char_digit_char Let_def)
  qed
  moreover have "length (str_uuid b) = 36" by (simp add: str_uuid_def Let_def)
  ultimately show ?thesis by (auto simp: book_id_expr_def list_all_iff)
qed

definition has_row :: "db \<Rightarrow> string \<Rightarrow> bool" where
  "has_row d i \<longleftrightarrow> i \<in> (\<lambda>g. str_uuid (gb_book_id g)) ` set (global_books d)"

lemma vectors_loop_result:
  assumes "\<And>f. f \<in> set fs \<Longrightarrow> is_ok (book_id_expr (bf_book_id f)) \<and> \<not> has_row (w_db w) (bf_book_id f) \<and>
      (\<forall>b. parse_uuid (bf_book_id f) = Some b \<longrightarrow> bf_book_id f = str_uuid b)"
  shows "snd (vectors_loop quiet fs unsafe w) =
    w\<lparr>w_vectors := filter (\<lambda>v. vr_book_id v \<notin> bf_book_id ` set fs) (w_vectors w)\<rparr>"
  using assms
proof (induction fs arbitrary: unsafe w)
  case (Cons f fs)
  obtain x where x: "book_id_expr (bf_book_id f) = Inr x"
    using Cons.prems [of f] by (cases "book_id_expr (bf_book_id f)") auto
  have "select_where (\<lambda>g. gb_book_id g = b) (global_books (w_db w)) = []" if "parse_uuid (bf_book_id f) = Some b" for b
    using Cons.prems [of f] that by (auto simp: has_row_def select_where_def filter_empty_conv)
  then have step: "sweep_vectors f w = (Deleted, delete_vectors (bf_book_id f) w)"
    by (simp add: sweep_vectors_def x split: option.split)
  have "snd (vectors_loop quiet (f # fs) unsafe w) =
      snd (vectors_loop quiet fs unsafe (delete_vectors (bf_book_id f) w))" by (simp add: step quiet_def)
  also have "\<dots> = (delete_vectors (bf_book_id f) w)\<lparr>w_vectors :=
      filter (\<lambda>v. vr_book_id v \<notin> bf_book_id ` set fs) (w_vectors (delete_vectors (bf_book_id f) w))\<rparr>"
    using Cons.prems by (intro Cons.IH) (auto simp: delete_vectors_def)
  also have "\<dots> = w\<lparr>w_vectors := filter (\<lambda>v. vr_book_id v \<notin> bf_book_id ` set (f # fs)) (w_vectors w)\<rparr>"
    by (simp add: delete_vectors_def delete_where_def conj_commute)
  finally show ?case .
qed simp

lemma rows_loop_result:
  assumes "\<And>f. f \<in> set fs \<Longrightarrow> \<exists>b. bf_book_id f = str_uuid b \<and> (\<forall>e \<in> set (user_library (w_db w)). ul_book_id e \<noteq> b) \<and>
      (\<forall>c \<in> set (chunks (w_db w)). chk_book_id c \<noteq> b) \<and> (\<forall>v \<in> set (w_vectors w). vr_book_id v \<noteq> str_uuid b)"
  shows "\<exists>w'. rows_loop quiet fs w = (Inr EXIT_OK, w') \<and> w_vectors w' = w_vectors w \<and> w_objects w' = w_objects w \<and>
    global_books (w_db w') = filter (\<lambda>g. str_uuid (gb_book_id g) \<notin> bf_book_id ` set fs) (global_books (w_db w)) \<and>
    chunks (w_db w') = chunks (w_db w) \<and> user_library (w_db w') = user_library (w_db w) \<and>
    upload_tasks (w_db w') = upload_tasks (w_db w)"
  using assms
proof (induction fs arbitrary: w)
  case (Cons f fs)
  obtain b where b: "bf_book_id f = str_uuid b" "(\<forall>e \<in> set (user_library (w_db w)). ul_book_id e \<noteq> b)"
      "(\<forall>c \<in> set (chunks (w_db w)). chk_book_id c \<noteq> b)" "(\<forall>v \<in> set (w_vectors w). vr_book_id v \<noteq> str_uuid b)"
    using Cons.prems [of f] by auto
  obtain x where x: "book_id_expr (str_uuid b) = Inr x"
    using str_uuid_safe [of b] by (cases "book_id_expr (str_uuid b)") auto
  have none: "select_where (\<lambda>e. ul_book_id e = b) (user_library (w_db w)) = []"
    "select_where (\<lambda>c. chk_book_id c = b) (chunks (w_db w)) = []"
    "delete_where (\<lambda>v. vr_book_id v = str_uuid b) (w_vectors w) = w_vectors w"
    "delete_where (\<lambda>c. chk_book_id c = b) (chunks (w_db w)) = chunks (w_db w)"
    using b by (auto simp: select_where_def delete_where_def filter_empty_conv filter_id_conv)
  obtain d where d: "delete_global_book b (w_db w) = Inr d"
      "global_books d = filter (\<lambda>g. gb_book_id g \<noteq> b) (global_books (w_db w))" "chunks d = chunks (w_db w)"
      "user_library d = user_library (w_db w)" "upload_tasks d = upload_tasks (w_db w)"
    by (simp add: delete_global_book_def none delete_where_def [of _ "global_books (w_db w)"])
  have step: "sweep_row f w = (Inr Deleted, w\<lparr>w_db := d\<rparr>)"
    using none d(1) by (simp add: sweep_row_def b(1) library_ref_count_def x delete_vectors_def)
  have run: "rows_loop quiet (f # fs) w = rows_loop quiet fs (w\<lparr>w_db := d\<rparr>)" by (simp add: step quiet_def)
  have more: "\<exists>b. bf_book_id h = str_uuid b \<and> (\<forall>e \<in> set (user_library (w_db (w\<lparr>w_db := d\<rparr>))). ul_book_id e \<noteq> b) \<and>
      (\<forall>c \<in> set (chunks (w_db (w\<lparr>w_db := d\<rparr>))). chk_book_id c \<noteq> b) \<and> (\<forall>v \<in> set (w_vectors (w\<lparr>w_db := d\<rparr>)). vr_book_id v \<noteq> str_uuid b)"
    if "h \<in> set fs" for h using Cons.prems [of h] that d by simp
  obtain w' where w': "rows_loop quiet fs (w\<lparr>w_db := d\<rparr>) = (Inr EXIT_OK, w')" "w_vectors w' = w_vectors w"
      "w_objects w' = w_objects w" "chunks (w_db w') = chunks (w_db w)" "user_library (w_db w') = user_library (w_db w)"
      "upload_tasks (w_db w') = upload_tasks (w_db w)"
      "global_books (w_db w') = filter (\<lambda>g. str_uuid (gb_book_id g) \<notin> bf_book_id ` set fs) (global_books d)"
    using Cons.IH [of "w\<lparr>w_db := d\<rparr>", OF more] d(3-) by auto
  show ?case unfolding run
    by (intro exI [of _ w'] conjI w') (simp add: w'(7) d(2) b(1) conj_commute)
qed (simp add: EXIT_OK_def)

text \<open>The facts in terms of the world.\<close>

definition has_chunk :: "db \<Rightarrow> string \<Rightarrow> bool" where
  "has_chunk d i \<longleftrightarrow> i \<in> (\<lambda>c. str_uuid (chk_book_id c)) ` set (chunks d)"

definition has_ref :: "db \<Rightarrow> string \<Rightarrow> bool" where
  "has_ref d i \<longleftrightarrow> i \<in> (\<lambda>e. str_uuid (ul_book_id e)) ` set (user_library d)"

definition has_vector :: "vector_row list \<Rightarrow> string \<Rightarrow> bool" where
  "has_vector vs i \<longleftrightarrow> i \<in> vr_book_id ` set vs"

lemma select_length: "length (select_where (\<lambda>x. key x = i) t) = 0 \<longleftrightarrow> i \<notin> key ` set t"
  by (auto simp: select_where_def filter_empty_conv)

lemma fact_simps:
  "bf_book_id (fact_of vs d i) = i"
  "milvus_only (fact_of vs d i) \<longleftrightarrow> \<not> has_row d i \<and> has_vector vs i"
  "pg_empty (fact_of vs d i) \<longleftrightarrow> has_row d i \<and> \<not> has_chunk d i \<and> \<not> has_vector vs i"
  "unprotected (fact_of vs d i) \<longleftrightarrow> \<not> has_ref d i \<and> i \<notin> set (claimed_book_ids d)"
  "0 < bf_library_ref_count (fact_of vs d i) \<longleftrightarrow> has_ref d i"
  using select_length [of "\<lambda>c. str_uuid (chk_book_id c)" i "chunks d"] select_length [of vr_book_id i vs]
    select_length [of "\<lambda>e. str_uuid (ul_book_id e)" i "user_library d"]
  by (simp_all add: fact_of_def milvus_only_def pg_empty_def unprotected_def has_row_def has_chunk_def has_ref_def
      has_vector_def)

lemma gather_iff: "f \<in> set (gather_facts vs d) \<longleftrightarrow> (\<exists>i. f = fact_of vs d i \<and> (has_vector vs i \<or> has_row d i))"
  by (auto simp: gather_facts_def has_vector_def has_row_def)

lemma gather_all: "(\<forall>f \<in> set (gather_facts vs d). P f) \<longleftrightarrow> (\<forall>i. has_vector vs i \<or> has_row d i \<longrightarrow> P (fact_of vs d i))"
  by (auto simp: gather_iff)

abbreviation plan_of :: "world \<Rightarrow> sweep_plan" where
  "plan_of w \<equiv> classify (gather_facts (w_vectors w) (w_db w))"

abbreviation stray :: "world \<Rightarrow> string \<Rightarrow> bool" where
  "stray w i \<equiv> \<not> has_row (w_db w) i \<and> has_vector (w_vectors w) i"

abbreviation empty_book :: "world \<Rightarrow> string \<Rightarrow> bool" where
  "empty_book w i \<equiv> has_row (w_db w) i \<and> \<not> has_chunk (w_db w) i \<and> \<not> has_vector (w_vectors w) i"

lemma plan_ids:
  "bf_book_id ` set (sp_milvus_orphans (plan_of w)) =
     {i. stray w i \<and> \<not> has_ref (w_db w) i \<and> i \<notin> set (claimed_book_ids (w_db w))}"
  "bf_book_id ` set (sp_pg_orphans (plan_of w)) =
     {i. empty_book w i \<and> \<not> has_ref (w_db w) i \<and> i \<notin> set (claimed_book_ids (w_db w))}"
  "sp_refusals (plan_of w) = [] \<longleftrightarrow> (\<forall>i. stray w i \<or> empty_book w i \<longrightarrow> \<not> has_ref (w_db w) i)"
proof -
  show "bf_book_id ` set (sp_milvus_orphans (plan_of w)) =
      {i. stray w i \<and> \<not> has_ref (w_db w) i \<and> i \<notin> set (claimed_book_ids (w_db w))}"
    by (auto simp: classify_sets gather_iff fact_simps intro!: image_eqI [where x = "fact_of (w_vectors w) (w_db w) i" for i])
  show "bf_book_id ` set (sp_pg_orphans (plan_of w)) =
      {i. empty_book w i \<and> \<not> has_ref (w_db w) i \<and> i \<notin> set (claimed_book_ids (w_db w))}"
    by (auto simp: classify_sets gather_iff fact_simps intro!: image_eqI [where x = "fact_of (w_vectors w) (w_db w) i" for i])
  have "sp_refusals (plan_of w) = [] \<longleftrightarrow> set (sp_refusals (plan_of w)) = {}" by simp
  also have "\<dots> \<longleftrightarrow> (\<forall>f \<in> set (gather_facts (w_vectors w) (w_db w)).
      \<not> ((milvus_only f \<or> pg_empty f) \<and> 0 < bf_library_ref_count f))"
    unfolding classify_sets by blast
  also have "\<dots> \<longleftrightarrow> (\<forall>i. stray w i \<or> empty_book w i \<longrightarrow> \<not> has_ref (w_db w) i)"
    unfolding gather_all fact_simps by blast
  finally show "sp_refusals (plan_of w) = [] \<longleftrightarrow> (\<forall>i. stray w i \<or> empty_book w i \<longrightarrow> \<not> has_ref (w_db w) i)" .
qed


text \<open>A world without unclaimed debris is left as it is.\<close>

lemma nothing_to_sweep:
  assumes "sp_refusals (plan_of w) = []"
    and "\<forall>i. stray w i \<or> empty_book w i \<longrightarrow> i \<in> set (claimed_book_ids (w_db w))"
  shows "sweep id quiet True True w = (Inr EXIT_OK, w)"
proof -
  have "bf_book_id ` set (sp_milvus_orphans (plan_of w)) = {}" "bf_book_id ` set (sp_pg_orphans (plan_of w)) = {}"
    unfolding plan_ids using assms(2) by auto
  then show ?thesis using assms(1) by (simp add: sweep_def)
qed

lemma tidy_ref_count:
  assumes "i = str_uuid b \<or> parse_uuid i = None" shows "library_ref_count i d = 0 \<longleftrightarrow> parse_uuid i = None \<or> \<not> has_ref d i"
  using assms by (auto simp: library_ref_count_def has_ref_def select_where_def filter_empty_conv)

lemma sweep_executes:
  "sp_refusals (plan_of w) = [] \<Longrightarrow> sweep id quiet True True w = execute_sweep quiet (plan_of w) w"
  by (simp add: sweep_def execute_sweep_def Let_def)

lemma row_id: "has_row d i \<Longrightarrow> \<exists>b. i = str_uuid b"
  by (auto simp: has_row_def)

lemma sweep_run:
  assumes tidy: "tidy_ids w" and none: "sp_refusals (plan_of w) = []"
  shows "\<exists>w'. sweep id quiet True True w = (Inr EXIT_OK, w') \<and>
    w_vectors w' = filter (\<lambda>v. has_row (w_db w) (vr_book_id v) \<or> vr_book_id v \<in> set (claimed_book_ids (w_db w))) (w_vectors w) \<and>
    global_books (w_db w') = filter (\<lambda>g. has_chunk (w_db w) (str_uuid (gb_book_id g)) \<or>
      has_vector (w_vectors w) (str_uuid (gb_book_id g)) \<or> str_uuid (gb_book_id g) \<in> set (claimed_book_ids (w_db w)))
      (global_books (w_db w)) \<and>
    chunks (w_db w') = chunks (w_db w) \<and> user_library (w_db w') = user_library (w_db w) \<and>
    upload_tasks (w_db w') = upload_tasks (w_db w) \<and> w_objects w' = w_objects w"
proof -
  let ?A = "sp_milvus_orphans (plan_of w)" and ?B = "sp_pg_orphans (plan_of w)"
  have refless: "\<not> has_ref (w_db w) i" if "stray w i \<or> empty_book w i" for i using none that unfolding plan_ids by blast
  have A: "stray w (bf_book_id f) \<and> \<not> has_ref (w_db w) (bf_book_id f)" if "f \<in> set ?A" for f
    using that plan_ids(1) [of w] by blast
  have B: "empty_book w (bf_book_id f) \<and> \<not> has_ref (w_db w) (bf_book_id f)" if "f \<in> set ?B" for f
    using that plan_ids(2) [of w] by blast
  have tidyA: "is_ok (book_id_expr (bf_book_id f)) \<and> (\<forall>b. parse_uuid (bf_book_id f) = Some b \<longrightarrow> bf_book_id f = str_uuid b)"
    if "f \<in> set ?A" for f using A [OF that] tidy by (auto simp: has_vector_def tidy_ids_def)
  have "library_ref_count (bf_book_id f) (w_db w) = 0" if "f \<in> set ?A \<union> set ?B" for f
  proof -
    have "(\<exists>b. bf_book_id f = str_uuid b) \<or> parse_uuid (bf_book_id f) = None"
      using that tidyA [of f] B [of f] row_id by (cases "parse_uuid (bf_book_id f)") blast+
    then show ?thesis using that A [of f] B [of f] tidy_ref_count by blast
  qed
  then have recheck: "filter (\<lambda>f. 0 < library_ref_count (bf_book_id f) (w_db w)) (?A @ ?B) = []"
    by (auto simp: filter_empty_conv)
  define w1 where "w1 = w\<lparr>w_vectors := filter (\<lambda>v. vr_book_id v \<notin> bf_book_id ` set ?A) (w_vectors w)\<rparr>"
  have one: "snd (vectors_loop quiet ?A [] w) = w1"
    unfolding w1_def by (rule vectors_loop_result) (use tidyA A in blast)
  have "\<exists>b. bf_book_id f = str_uuid b \<and> (\<forall>e \<in> set (user_library (w_db w1)). ul_book_id e \<noteq> b) \<and>
      (\<forall>c \<in> set (chunks (w_db w1)). chk_book_id c \<noteq> b) \<and> (\<forall>v \<in> set (w_vectors w1). vr_book_id v \<noteq> str_uuid b)"
    if "f \<in> set ?B" for f
    using B [OF that] row_id [of "w_db w" "bf_book_id f"]
    by (fastforce simp: w1_def has_ref_def has_chunk_def has_vector_def image_iff)
  from rows_loop_result [OF this] obtain w' where w': "rows_loop quiet ?B w1 = (Inr EXIT_OK, w')"
      "w_vectors w' = w_vectors w1" "w_objects w' = w_objects w1" "chunks (w_db w') = chunks (w_db w1)"
      "global_books (w_db w') = filter (\<lambda>g. str_uuid (gb_book_id g) \<notin> bf_book_id ` set ?B) (global_books (w_db w1))"
      "user_library (w_db w') = user_library (w_db w1)" "upload_tasks (w_db w') = upload_tasks (w_db w1)" by blast
  have "sweep id quiet True True w = (Inr EXIT_OK, w')"
    unfolding sweep_executes [OF none] execute_sweep_def recheck using w'(1) one by (simp add: case_prod_beta Let_def)
  moreover have "w_vectors w' = filter (\<lambda>v. has_row (w_db w) (vr_book_id v) \<or>
      vr_book_id v \<in> set (claimed_book_ids (w_db w))) (w_vectors w)"
    unfolding w'(2) w1_def plan_ids using refless by (auto simp: has_vector_def intro!: filter_cong)
  moreover have "global_books (w_db w') = filter (\<lambda>g. has_chunk (w_db w) (str_uuid (gb_book_id g)) \<or>
      has_vector (w_vectors w) (str_uuid (gb_book_id g)) \<or> str_uuid (gb_book_id g) \<in> set (claimed_book_ids (w_db w)))
      (global_books (w_db w))"
    unfolding w'(5) w1_def plan_ids using refless by (auto simp: has_row_def intro!: filter_cong)
  ultimately show ?thesis using w'(3,4,6,7) by (auto simp: w1_def)
qed

text \<open>
  With nobody else at work and no reachable candidate, the sweep does exactly what it is for.
  It succeeds; the vectors that go are those of identifiers with neither a row nor a claim, the
  rows that go are those with no chunk, no vector and no claim; libraries, chunks, tasks and stored
  originals are untouched; and a second run finds nothing to do.
\<close>

theorem sweep_exact:
  assumes "tidy_ids w" and "sp_refusals (classify (gather_facts (w_vectors w) (w_db w))) = []"
  shows "\<exists>w'. sweep id quiet True True w = (Inr EXIT_OK, w') \<and>
    w_vectors w' = filter (\<lambda>v. has_row (w_db w) (vr_book_id v) \<or> vr_book_id v \<in> set (claimed_book_ids (w_db w))) (w_vectors w) \<and>
    global_books (w_db w') = filter (\<lambda>g. has_chunk (w_db w) (str_uuid (gb_book_id g)) \<or>
      has_vector (w_vectors w) (str_uuid (gb_book_id g)) \<or> str_uuid (gb_book_id g) \<in> set (claimed_book_ids (w_db w)))
      (global_books (w_db w)) \<and>
    chunks (w_db w') = chunks (w_db w) \<and> user_library (w_db w') = user_library (w_db w) \<and>
    upload_tasks (w_db w') = upload_tasks (w_db w) \<and> w_objects w' = w_objects w \<and>
    sweep id quiet True True w' = (Inr EXIT_OK, w')"
proof -
  obtain w' where w': "sweep id quiet True True w = (Inr EXIT_OK, w')"
      "w_vectors w' = filter (\<lambda>v. has_row (w_db w) (vr_book_id v) \<or> vr_book_id v \<in> set (claimed_book_ids (w_db w))) (w_vectors w)"
      "global_books (w_db w') = filter (\<lambda>g. has_chunk (w_db w) (str_uuid (gb_book_id g)) \<or>
         has_vector (w_vectors w) (str_uuid (gb_book_id g)) \<or> str_uuid (gb_book_id g) \<in> set (claimed_book_ids (w_db w)))
         (global_books (w_db w))"
      "chunks (w_db w') = chunks (w_db w)" "user_library (w_db w') = user_library (w_db w)"
      "upload_tasks (w_db w') = upload_tasks (w_db w)" "w_objects w' = w_objects w"
    using sweep_run [OF assms] by blast
  have same: "has_chunk (w_db w') = has_chunk (w_db w)" "has_ref (w_db w') = has_ref (w_db w)"
    "claimed_book_ids (w_db w') = claimed_book_ids (w_db w)"
    using w'(4-6) by (simp_all add: has_chunk_def has_ref_def claimed_book_ids_def fun_eq_iff)
  have vec: "has_vector (w_vectors w') i \<longleftrightarrow> has_vector (w_vectors w) i \<and>
      (has_row (w_db w) i \<or> i \<in> set (claimed_book_ids (w_db w)))" for i
    using w'(2) by (auto simp: has_vector_def)
  have row: "has_row (w_db w') i \<longleftrightarrow> has_row (w_db w) i \<and> (has_chunk (w_db w) i \<or> has_vector (w_vectors w) i \<or>
      i \<in> set (claimed_book_ids (w_db w)))" for i
    using w'(3) by (auto simp: has_row_def)
  have "sweep id quiet True True w' = (Inr EXIT_OK, w')"
    using assms(2) by (intro nothing_to_sweep) (auto simp: plan_ids same vec row)
  with w' show ?thesis by blast
qed

section \<open>Debris\<close>

definition demo_vector :: "string \<Rightarrow> vector_row" where
  "demo_vector i = \<lparr>vr_vector = [], vr_book_id = i, vr_content_chunk = ''a'', vr_filename = ''f'', vr_chunk_index = 0,
     vr_parent_section = None\<rparr>"

definition demo_entry :: user_library_entry where
  "demo_entry = \<lparr>ul_entry_id = 1, ul_user_id = 1, ul_book_id = 3, ul_category = None, ul_added_at = 0\<rparr>"

definition demo_sweep_book :: global_book where
  "demo_sweep_book = \<lparr>gb_book_id = 3, gb_isbn = None, gb_title = ''t'', gb_author = None, gb_minhash_signature = [],
     gb_text_pointer = None, gb_created_at = 0\<rparr>"

text \<open>A book in a library, a legacy label without a row, the vectors of a claimed upload that failed.\<close>

definition demo_debris :: world where
  "demo_debris = \<lparr>w_db = empty_db\<lparr>global_books := [demo_sweep_book], user_library := [demo_entry],
      upload_tasks := [\<lparr>ut_task_id = 5, ut_user_id = 1, ut_book_id = Some 4, ut_filename = ''f'', ut_created_at = 0\<rparr>]\<rparr>,
     w_vectors = [demo_vector (str_uuid 3), demo_vector ''b_old'', demo_vector (str_uuid 4)], w_objects = [], w_index = None\<rparr>"

lemmas demo_debris_defs = demo_debris_def demo_vector_def demo_entry_def demo_sweep_book_def empty_db_def

lemma b_old: "parse_uuid ''b_old'' = None" "is_ok (book_id_expr ''b_old'')" by code_simp+

lemma b_old_uuid [simp]: "str_uuid b \<noteq> ''b_old''" "''b_old'' \<noteq> str_uuid b"
  using b_old(1) parse_str_uuid by (metis option.distinct(1))+

text \<open>An upload that ends while the sweep runs: the row of the stray vectors lands just before their deletion.\<close>

definition landing_book :: global_book where
  "landing_book = demo_sweep_book\<lparr>gb_book_id := 6\<rparr>"

definition landing :: interference where
  "landing _ w = w\<lparr>w_db := (w_db w)\<lparr>global_books := landing_book # global_books (w_db w),
     user_library := demo_entry\<lparr>ul_book_id := 6\<rparr> # user_library (w_db w)\<rparr>\<rparr>"

definition demo_stale :: sweep_plan where
  "demo_stale = \<lparr>sp_milvus_orphans = [fact_of [demo_vector (str_uuid 6)] empty_db (str_uuid 6)], sp_pg_orphans = [],
     sp_refusals = [], sp_skipped_claims = []\<rparr>"

lemma landing_keeps: "in_use b gs cs vs w \<Longrightarrow> in_use b gs cs vs (landing f w)"
  by (auto simp: in_use_def referred_def material_def landing_def)


theorem claimed_debris_stays_witness:
  "claimed_vectors 4 {demo_vector (str_uuid 4)} (((\<lambda>w. snd (sweep id quiet True True w)) ^^ 10) demo_debris)"
proof -
  have "claimed_vectors 4 {demo_vector (str_uuid 4)} demo_debris" by (simp add: claimed_vectors_def demo_debris_defs)
  then show ?thesis by (rule claimed_debris_stays)
qed

theorem sweep_exact_witness:
  "\<exists>w'. sweep id quiet True True demo_debris = (Inr EXIT_OK, w') \<and>
     w_vectors w' = [demo_vector (str_uuid 3), demo_vector (str_uuid 4)]"
proof -
  have row: "has_row (w_db demo_debris) i \<longleftrightarrow> i = str_uuid 3" for i by (simp add: has_row_def demo_debris_defs)
  have vec: "has_vector (w_vectors demo_debris) i \<longleftrightarrow> i = str_uuid 3 \<or> i = ''b_old'' \<or> i = str_uuid 4" for i
    by (auto simp: has_vector_def demo_debris_defs)
  have ref: "has_ref (w_db demo_debris) i \<longleftrightarrow> i = str_uuid 3" for i by (simp add: has_ref_def demo_debris_defs)
  have claims: "claimed_book_ids (w_db demo_debris) = [str_uuid 4]" by (simp add: claimed_book_ids_def demo_debris_defs)
  have "tidy_ids demo_debris" using str_uuid_safe b_old by (simp add: tidy_ids_def demo_debris_defs)
  moreover have "sp_refusals (plan_of demo_debris) = []" unfolding plan_ids row vec ref by auto
  ultimately show ?thesis using sweep_exact [of demo_debris]
    unfolding row vec claims by (auto simp: demo_debris_def demo_vector_def)
qed

end
