(* ===== verification/Api.thy ===== *)
theory Api
  imports Documents Collections Calendar Summary Editor_Links Reader Uploads Auth
begin

text \<open>
  The api as one machine: a request carries a bearer token and an operation of one of the routers
  \<open>api/main.py\<close> mounts; \<open>get_current_user\<close> turns the token into the caller, and the router serves
  the caller. Each router fulfils the tenant contract on its own, so the whole api does.
\<close>

section \<open>Requests\<close>

record api_env =
  docx_env :: docx_externals
  editor_env :: link_env
  find_env :: search_externals
  llm_reply :: "llm_call \<Rightarrow> string option result"
  llm_cfg :: llm_settings
  stage_env :: upload_env
  token_env :: auth_env

text \<open>
  The limiter's verdict on a summary and the checkout state of the shared vector client are those
  the request meets.
\<close>

datatype api_op =
    DocumentsRequest doc_op
  | CollectionsRequest coll_op
  | CalendarRequest cal_op
  | HistoryRequest hist_op
  | EditorRequest link_op
  | ReaderRequest reader_op
  | SearchRequest search_request "client_id option"
  | SummaryRequest summary_request "unit result" history_externals "client_id option"
  | TaskRequest string

datatype api_out =
    Unauthenticated py_exn
  | DocumentsOut doc_out
  | CollectionsOut coll_out
  | CalendarOut cal_out
  | HistoryOut hist_out
  | EditorOut link_out
  | ReaderOut reader_out
  | SearchOut "search_outcome result \<times> client_id option"
  | SummaryOut "summary_response result \<times> client_id option"
  | TaskOut "task_status_response result"

fun route :: "api_env \<Rightarrow> uuid \<Rightarrow> timestamp \<times> api_op \<Rightarrow> db \<Rightarrow> api_out \<times> db" where
  "route env u (now, DocumentsRequest x) = (\<lambda>d. map_prod DocumentsOut id (doc_step (docx_env env) u (now, x) d))"
| "route env u (now, CollectionsRequest x) = (\<lambda>d. map_prod CollectionsOut id (coll_step u (now, x) d))"
| "route env u (now, CalendarRequest x) = (\<lambda>d. map_prod CalendarOut id (cal_step u (now, x) d))"
| "route env u (now, HistoryRequest x) = (\<lambda>d. map_prod HistoryOut id (hist_step u (now, x) d))"
| "route env u (now, EditorRequest x) = (\<lambda>d. map_prod EditorOut id (link_step (editor_env env) u (now, x) d))"
| "route env u (now, ReaderRequest x) = (\<lambda>d. map_prod ReaderOut id (reader_step u (now, x) d))"
| "route env u (now, SearchRequest p cached) = (\<lambda>d. (SearchOut (search (find_env env) p u d cached), d))"
| "route env u (now, SummaryRequest p limiter hx cached) = (\<lambda>d.
     let (r, d', c) = search_summary (find_env env) (llm_reply env) (llm_cfg env) limiter hx p u d cached
     in (SummaryOut (r, c), d'))"
| "route env u (now, TaskRequest raw) = (\<lambda>d. (TaskOut (get_task_status (stage_env env) raw u d), d))"

text \<open>The caller a token names, and the request of that caller.\<close>

definition token_subject :: "auth_env \<Rightarrow> string option \<Rightarrow> timestamp \<Rightarrow> uuid option" where
  "token_subject env token now =
     (case token of
        None \<Rightarrow> None
      | Some t \<Rightarrow>
          (case jwt_decode env (jwt_secret env) [jwt_algorithm env] (unix_seconds now) t of
             None \<Rightarrow> None
           | Some claims \<Rightarrow> (case map_of claims ''sub'' of Some (JStr sub) \<Rightarrow> parse_uuid sub | _ \<Rightarrow> None)))"

definition api :: "api_env \<Rightarrow> string option \<times> timestamp \<times> api_op \<Rightarrow> db \<Rightarrow> api_out \<times> db" where
  "api env req d = (case req of (token, now, x) \<Rightarrow>
     (case get_current_user (token_env env) token now d of
        Inl e \<Rightarrow> (Unauthenticated e, d)
      | Inr r \<Rightarrow> route env (usr_user_id r) (now, x) d))"

end
