(* ===== verification/Api_Correct.thy ===== *)
theory Api_Correct
  imports Api Editor_Links_Tenancy Documents_Correct Auth_Correct Summary_Correct Uploads_Correct
begin

text \<open>
  The api as a whole fulfils the tenant contract: the invariants of its routers hold together in
  every reachable database, so the histories of different tenants do not interfere, whatever
  tokens they present. The contract of one route comes from the router's own theory.
\<close>

section \<open>The tenant contract\<close>

definition ownership_ok :: "db \<Rightarrow> bool" where
  "ownership_ok d \<longleftrightarrow> coll_wf d \<and> links_owned d"

lemma scoped_strengthen: "scoped_if Q u h \<Longrightarrow> (\<And>d. P d \<Longrightarrow> Q d) \<Longrightarrow> scoped_if P u h"
  by (simp add: scoped_if_def)

lemma run_search_view:
  "run_search ext q n rr u books cols (tenant_view u d) cached = run_search ext q n rr u books cols d cached"
proof -
  have sparse: "sparse_arm ext q ids (tenant_view u d) = sparse_arm ext q ids d" for ids
    by (simp add: sparse_arm_def bm25_search_def bm25_sql_def tenant_simps cong: option.case_cong)
  show ?thesis by (simp only: run_search_def effective_scope_view search_library_view sparse)
qed

lemma record_history_scoped: "scoped u (record_history hx u p r)"
proof (rule scopedI)
  note rec = scopedD [OF record_search_history_scoped [of "\<lambda>_. True"]]
  show "record_history hx u p r (tenant_view u d) = map_prod id (tenant_view u) (record_history hx u p r d)" for d
    by (simp add: record_history_def rec(1) split: option.split prod.split sum.split)
  show "tenant_view w (snd (record_history hx u p r d)) = tenant_view w d" if "u \<noteq> w" for d w
    using save_run_frame [OF _ that] by (simp add: record_history_db split: option.split sum.split)
qed

lemma summary_scoped:
  "scoped_if P u (\<lambda>d. let (r, d', c) = search_summary ext llm cfg limiter hx p u d cached in (SummaryOut (r, c), d'))"
proof (rule scopedI)
  have titles: "resolve_titles ids (tenant_view u d) = resolve_titles ids d" for ids d
    by (simp add: resolve_titles_def tenant_simps)
  have sum: "summarize llm cfg q out (tenant_view u d) = summarize llm cfg q out d" for q out d
    by (simp add: summarize_def titles)
  note rec = scopedD [OF record_history_scoped]
  show "(let (r, d', c) = search_summary ext llm cfg limiter hx p u (tenant_view u d) cached in (SummaryOut (r, c), d')) =
      map_prod id (tenant_view u)
        (let (r, d', c) = search_summary ext llm cfg limiter hx p u d cached in (SummaryOut (r, c), d'))" for d
    by (simp add: search_summary_def run_search_view sum rec(1) Let_def split: sum.split prod.split)
  show "tenant_view w (snd (let (r, d', c) = search_summary ext llm cfg limiter hx p u d cached in (SummaryOut (r, c), d'))) =
      tenant_view w d" if "u \<noteq> w" for d w
    using rec(2) [OF that] by (auto simp: search_summary_def Let_def split: sum.splits prod.splits) (metis snd_conv)+
qed

lemma task_status_view: "get_task_status env raw u (tenant_view u d) = get_task_status env raw u d"
proof -
  have own: "ownership_stmt t u (tenant_view u d) = ownership_stmt t u d" for t
    by (simp add: ownership_stmt_def tenant_simps)
  have "require_owned_task raw u (tenant_view u d) = require_owned_task raw u d"
    by (simp only: require_owned_task_def own)
  then show ?thesis by (simp add: get_task_status_def)
qed

lemma route_scoped: "scoped_if ownership_ok u (route env u op)"
proof -
  obtain now x where op: "op = (now, x)" by (cases op)
  have coll: "scoped_if ownership_ok u (coll_step u y)" for y
    by (rule scoped_strengthen [OF coll_step_scoped]) (simp add: ownership_ok_def coll_wf_members_owned)
  have link: "scoped_if ownership_ok u (link_step e u y)" for e y
    by (rule scoped_strengthen [OF link_step_scoped]) (simp add: ownership_ok_def coll_wf_members_owned)
  have search: "search ext p u (tenant_view u d) c = search ext p u d c" for ext p d c
    by (simp add: search_def run_search_view)
  show ?thesis
    unfolding op
    by (cases x) (simp_all only: route.simps, (rule scoped_out scoped_read summary_scoped coll link
        scoped_weaken [OF doc_step_scoped] scoped_weaken [OF cal_step_scoped] scoped_weaken [OF hist_step_scoped]
        scoped_weaken [OF reader_step_scoped] | simp only: search task_status_view)+)
qed

section \<open>The invariant\<close>

text \<open>The identifiers the database generates are new.\<close>

fun api_fresh :: "api_op \<Rightarrow> db \<Rightarrow> bool" where
  "api_fresh (DocumentsRequest (DocCreate p i)) d = (i \<notin> doc_document_id ` set (documents d))"
| "api_fresh (CollectionsRequest x) d = coll_fresh x d"
| "api_fresh _ d = True"

text \<open>What the invariant reads.\<close>

definition tables :: "db \<Rightarrow> (uuid \<times> uuid) list \<times> (uuid \<times> uuid) list \<times> collection list \<times> collection_book list" where
  "tables d = (doc_keys d, link_keys d, collections d, collection_books d)"

lemma tables_simps [simp]:
  "tables (d\<lparr>sermon_events := a\<rparr>) = tables d" "tables (d\<lparr>search_history := b\<rparr>) = tables d"
  "tables (d\<lparr>reading_positions := c\<rparr>) = tables d" "tables (d\<lparr>sermon_doc_revisions := e\<rparr>) = tables d"
  by (simp_all add: tables_def doc_keys_def link_keys_def)

lemma ownership_tables: "tables d' = tables d \<Longrightarrow> ownership_ok d' = ownership_ok d"
  by (simp add: ownership_ok_def coll_wf_def links_owned_keys tables_def)

lemma cal_step_tables: "tables (snd (cal_step u op d)) = tables d"
  by (cases "(u, op)" rule: cal_step.cases)
     (simp_all add: create_events_def update_event_def delete_event_def event_update_stmt_def event_delete_stmt_def
        Let_def split: option.split sum.split)

lemma reader_step_tables: "tables (snd (reader_step u op d)) = tables d"
  by (cases "(u, op)" rule: reader_step.cases)
     (simp_all add: put_position_def position_upsert_stmt_def Let_def split: sum.split)

lemma save_run_tables: "save_run hf u q books cols res i now d = Inr d' \<Longrightarrow> tables d' = tables d"
  by (auto simp: save_run_def prune_stmt_def Let_def split: option.splits if_splits)

lemma record_search_history_tables: "tables (snd (record_search_history hf u q books cols res i now d)) = tables d"
  by (simp add: record_search_history_db save_run_tables split: sum.split)

lemma hist_step_tables: "tables (snd (hist_step u op d)) = tables d"
  by (cases "(u, op)" rule: hist_step.cases)
     (simp_all add: record_search_history_tables clear_history_def clear_all_stmt_def delete_history_def history_delete_stmt_def
        Let_def split: option.split sum.split)

lemma record_history_tables: "tables (snd (record_history hx u p resp d)) = tables d"
  by (simp add: record_history_db save_run_tables split: option.split sum.split)

lemma search_summary_tables: "tables (fst (snd (search_summary ext llm cfg limiter hx p u d cached))) = tables d"
  using record_history_tables [of hx u p _ d]
  by (auto simp: search_summary_def Let_def split: sum.split prod.split) (metis snd_conv)+

text \<open>The documents router adds at most one key and touches no other table the invariant reads.\<close>

lemma doc_stmts_tables [simp]:
  "tables (snd (doc_update_stmt i u vals now d)) = tables d"
  "tables (revision_insert_stmt r u src j now d) = tables d"
  "tables (snd (doc_delete_stmt i u now d)) = tables d"
  "tables (d\<lparr>documents := update_where q (\<lambda>x. x\<lparr>doc_deleted_at := t\<rparr>) (documents d)\<rparr>) = tables d"
  by (simp_all add: tables_def doc_keys_def link_keys_def doc_update_stmt_def revision_insert_stmt_def doc_delete_stmt_def
      Let_def update_where_def comp_def if_distrib cong: if_cong)

lemma import_body_tables: "tables (snd (import_body ext raw staged u i now d)) = tables d"
  by (simp add: import_body_def snapshot_and_overwrite_def case_prod_beta split: sum.split)

lemma doc_writes_tables:
  "tables (snd (update_document raw p u now d)) = tables d"
  "tables (snd (delete_document raw u now d)) = tables d"
  "tables (snd (restore_document raw u d)) = tables d"
  by (simp_all add: update_document_def patch_write_def delete_document_def restore_document_def case_prod_beta Let_def
      split: sum.split option.split)

lemma import_tables: "tables (snd (snd (import_document_docx ext raw body u s i now (fs, d)))) = tables d"
  by (simp add: import_document_docx_def import_body_tables case_prod_beta Let_def split: sum.split)

text \<open>Each router keeps the invariant.\<close>

lemma create_document_owned:
  assumes "ownership_ok d" "i \<notin> doc_document_id ` set (documents d)"
  shows "ownership_ok (snd (create_document p u now i d))"
proof -
  have "doc_keys (snd (create_document p u now i d)) \<in> {doc_keys d, doc_keys d @ [(i, u)]}"
    "link_keys (snd (create_document p u now i d)) = link_keys d"
    "collections (snd (create_document p u now i d)) = collections d"
    "collection_books (snd (create_document p u now i d)) = collection_books d"
    by (auto simp: create_document_def doc_insert_stmt_def doc_keys_def link_keys_def Let_def split: sum.split)
  moreover have "i \<notin> set (map fst (doc_keys d))" using assms(2) by (auto simp: doc_keys_def)
  ultimately show ?thesis using assms(1) by (auto simp: ownership_ok_def coll_wf_def links_owned_keys)
qed

lemma doc_step_owned:
  assumes "ownership_ok d" "api_fresh (DocumentsRequest op) d"
  shows "ownership_ok (snd (doc_step ext u (now, op) d))"
proof (cases op)
  case (DocCreate p i)
  then show ?thesis using create_document_owned assms by simp
qed (use assms(1) in \<open>simp_all add: ownership_tables [OF doc_writes_tables(1)] ownership_tables [OF doc_writes_tables(2)]
      ownership_tables [OF doc_writes_tables(3)] ownership_tables [OF import_tables]\<close>)

lemma coll_step_keys:
  "doc_keys (snd (coll_step u op d)) = doc_keys d" "link_keys (snd (coll_step u op d)) = link_keys d"
  by (cases "(u, op)" rule: coll_step.cases;
      simp add: create_collection_def update_collection_def delete_collection_def add_books_def remove_books_def
        coll_update_stmt_def coll_delete_stmt_def add_books_stmt_def remove_books_stmt_def doc_keys_def link_keys_def
        Let_def split: option.split sum.split)+

lemma coll_step_owned:
  assumes "ownership_ok d" "coll_fresh op d"
  shows "ownership_ok (snd (coll_step u (now, op) d))"
  using assms coll_step_wf [of d op u now] by (simp add: ownership_ok_def links_owned_keys coll_step_keys)

definition coll_tables :: "db \<Rightarrow> collection list \<times> collection_book list" where
  "coll_tables d = (collections d, collection_books d)"

abbreviation keeps_colls :: "(run, 'a) handler \<Rightarrow> bool" where
  "keeps_colls m \<equiv> (\<forall>t. keeps (\<lambda>s. coll_tables (r_db s) = t) m)"

lemma snapshot_colls:
  "snapshot_and_overwrite r c src u i now d = (Inr x, d') \<Longrightarrow> coll_tables d' = coll_tables d"
  by (auto simp: coll_tables_def dest!: snapshot_and_overwrite_touches)

lemma link_stmts_colls [simp]:
  "coll_tables (persist_access_token_stmt j u ct e now d) = coll_tables d"
  "coll_tables (set_version_stmt j u v now d) = coll_tables d"
  "coll_tables (set_state_stmt j u st now d) = coll_tables d"
  by (simp_all add: coll_tables_def persist_access_token_stmt_def set_version_stmt_def set_state_stmt_def)

lemma link_writes_colls:
  "pull_commit r l c v u i now d = (Inr y, d') \<Longrightarrow> coll_tables d' = coll_tables d"
  "link_insert_stmt i u p f w v n now d = (z, d') \<Longrightarrow> coll_tables d' = coll_tables d"
  by (auto simp: pull_commit_def link_insert_stmt_def dest: snapshot_colls split: prod.splits sum.splits if_splits)
     (simp_all add: coll_tables_def)

lemma link_run_colls: "coll_tables (r_db (snd (link_run env u op s))) = coll_tables (r_db s)"
proof -
  obtain now x where op: "op = (now, x)" by (cases op)
  let ?P = "\<lambda>s'. coll_tables (r_db s') = coll_tables (r_db s)"
  have token: "keeps ?P (get_access_token e c now)" for e c now by (rule get_access_token_keeps) simp_all
  have pull: "keeps ?P (run_pull_overwrite env r l tok u i now)" for env r l tok i now
    unfolding run_pull_overwrite_def by (intro keeps_intros keeps_transact) (auto dest: link_writes_colls)
  have st: "keeps ?P (commit_state l u st now)" for l st now
    unfolding commit_state_def by (rule keeps_transact) auto
  have create: "keeps ?P (link_document env raw u i now)" for raw i
    unfolding link_document_def link_write_def
    by (intro keeps_intros token keeps_transact) (auto dest: link_writes_colls)
  have routes: "keeps ?P (link_status env raw u now)" "keeps ?P (pull_document env raw u i now)"
      "keeps ?P (unlink_document env raw p u i now)" for raw i p
    unfolding link_status_def pull_document_def unlink_document_def pull_failed_def token_for_unlink_def final_pull_def Let_def
    by (intro keeps_intros token pull st)+
  show ?thesis
    using create routes by (cases x) (simp_all add: op keeps_def)
qed

lemma link_step_ownership: "ownership_ok d \<Longrightarrow> ownership_ok (snd (link_step env u op d))"
  using link_run_colls [of env u op "fresh_run d"] link_step_owned [of d env u op]
  by (simp add: ownership_ok_def coll_wf_def coll_tables_def link_step_def) (simp add: fresh_run_def)

lemma route_owned:
  assumes "ownership_ok d" "api_fresh (snd op) d"
  shows "ownership_ok (snd (route env u op d))"
proof -
  obtain now x where op: "op = (now, x)" by (cases op)
  note others = cal_step_tables reader_step_tables hist_step_tables search_summary_tables
  show ?thesis
    using assms doc_step_owned coll_step_owned link_step_ownership others [THEN ownership_tables]
    by (cases x) (simp_all add: op case_prod_beta)
qed

section \<open>Non-interference\<close>

text \<open>The caller a request's token names, and the history of requests served in order.\<close>

definition caller :: "api_env \<Rightarrow> string option \<times> timestamp \<times> api_op \<Rightarrow> uuid option" where
  "caller env req = (case req of (token, now, _) \<Rightarrow> token_subject (token_env env) token now)"

definition tagged :: "api_env \<Rightarrow> (string option \<times> timestamp \<times> api_op) list \<Rightarrow>
    (uuid option \<times> string option \<times> timestamp \<times> api_op) list" where
  "tagged env reqs = map (\<lambda>r. (caller env r, r)) reqs"

definition api_run :: "api_env \<Rightarrow> (string option \<times> timestamp \<times> api_op) list \<Rightarrow> db \<Rightarrow>
    (uuid option \<times> api_out) list \<times> db" where
  "api_run env reqs d = serve (\<lambda>_. api env) (tagged env reqs) d"

definition ids_new :: "api_env \<Rightarrow> (string option \<times> timestamp \<times> api_op) list \<Rightarrow> db \<Rightarrow> bool" where
  "ids_new env reqs d = served_ok (\<lambda>_. api env) (\<lambda>r. api_fresh (snd (snd r))) (tagged env reqs) d"

text \<open>The api as a function of the caller instead of the token.\<close>

definition admitted :: "api_env \<Rightarrow> uuid option \<Rightarrow> string option \<times> timestamp \<times> api_op \<Rightarrow> db \<Rightarrow> api_out \<times> db" where
  "admitted env w req d = (case w of
     None \<Rightarrow> (Unauthenticated unauth, d)
   | Some u \<Rightarrow> if get_user u d = None then (Unauthenticated unauth, d) else route env u (snd req) d)"

lemma get_user_id: "get_user u d = Some r \<Longrightarrow> usr_user_id r = u"
  by (auto simp: get_user_def split: list.splits dest: filter_eq_ConsD)

lemma get_user_view: "get_user u (tenant_view u d) = get_user u d"
  by (simp add: get_user_def tenant_simps owned_rows_def)

lemma api_admitted: "api env req d = admitted env (caller env req) req d"
proof -
  obtain token now x where req: "req = (token, now, x)" by (cases req)
  show ?thesis
    by (auto simp: req api_def admitted_def caller_def token_subject_def get_current_user_def get_user_id
        split: option.split json.split sum.split)
qed

lemma serve_tagged: "serve (\<lambda>_. api env) (tagged env reqs) d = serve (admitted env) (tagged env reqs) d"
  by (induction reqs arbitrary: d) (simp_all add: tagged_def api_admitted)

lemma served_ok_tagged:
  "served_ok (\<lambda>_. api env) ok (tagged env reqs) d = served_ok (admitted env) ok (tagged env reqs) d"
  by (induction reqs arbitrary: d) (simp_all add: tagged_def api_admitted)

lemma only_of_tagged: "only_of w (tagged env reqs) = tagged env (filter (\<lambda>r. caller env r = w) reqs)"
  by (induction reqs) (simp_all add: tagged_def)

text \<open>A request without a caller sees and changes nothing.\<close>

definition seen_by :: "uuid option \<Rightarrow> db \<Rightarrow> db" where
  "seen_by w d = (case w of None \<Rightarrow> empty_db | Some u \<Rightarrow> tenant_view u d)"

lemma seen_by_Some: "seen_by (Some u) = tenant_view u"
  by (rule ext) (simp add: seen_by_def)

interpretation api_tenants: tenant_step seen_by "admitted env" "\<lambda>_. ownership_ok"
proof
  fix w req d assume d: "ownership_ok d"
  show "admitted env w req (seen_by w d) = map_prod id (seen_by w) (admitted env w req d)"
    using scoped_ifD(1) [OF route_scoped d]
    by (cases w) (simp_all add: admitted_def seen_by_def seen_by_Some get_user_view)
  show "seen_by v (snd (admitted env w req d)) = seen_by v d" if "w \<noteq> v" for v
    using scoped_ifD(2) [OF route_scoped d] that
    by (cases w; cases v) (auto simp: admitted_def seen_by_def)
qed

lemma admitted_owned: "ownership_ok d \<Longrightarrow> api_fresh (snd (snd req)) d \<Longrightarrow> ownership_ok (snd (admitted env w req d))"
  by (auto simp: admitted_def route_owned split: option.split)

section \<open>Property\<close>

text \<open>
  C19: tenants do not interfere through the api. Whatever requests of any router arrive, in whatever
  order and with whatever tokens, the answers a user receives and the rows she ends up with are those
  of serving her requests alone on her own rows; the consistency of the tables behind this holds in
  every state on the way, as long as the generated identifiers are new.
\<close>

theorem api_noninterference:
  assumes "ownership_ok d" and "ids_new env reqs d"
  shows "ownership_ok (snd (api_run env reqs d)) \<and>
    api_run env (filter (\<lambda>r. caller env r = Some v) reqs) (tenant_view v d) =
      map_prod (only_of (Some v)) (tenant_view v) (api_run env reqs d)"
proof -
  have "served_ok (admitted env) (\<lambda>r. api_fresh (snd (snd r))) (tagged env reqs) d"
    using assms(2) by (simp add: ids_new_def served_ok_tagged)
  from served_invariant [where I = ownership_ok and step = "admitted env", OF admitted_owned assms(1) this]
  have ok: "served_ok (admitted env) (\<lambda>_. ownership_ok) (tagged env reqs) d"
    and inv: "ownership_ok (snd (serve (admitted env) (tagged env reqs) d))" by simp_all
  show ?thesis
    using inv api_tenants.noninterference [OF ok, of "Some v"]
    by (simp add: api_run_def serve_tagged only_of_tagged seen_by_Some)
qed

text \<open>Two users, each with a token, and a request without one.\<close>

definition demo_api :: api_env where
  "demo_api = \<lparr>docx_env = demo_ext, editor_env = demo_link_env granted,
     find_env = \<lparr>x_embed_query = (\<lambda>_. Inr []), x_make_client = Inr 0, x_store = (\<lambda>_ _ _ _. Inr []), x_budget_expires = False,
       x_rank_of = (\<lambda>_ _. None), x_sparse_fault = None, x_rerank_scores = (\<lambda>_ _. Inr []), x_embed_texts = (\<lambda>_. Inr []),
       x_filter_chunk = 1\<rparr>,
     llm_reply = (\<lambda>_. Inr None), llm_cfg = demo_llm_settings,
     stage_env = demo_upload_env (\<lambda>_. (''PENDING'', ResultOther)),
     token_env = demo_auth\<lparr>jwt_decode := (\<lambda>_ _ _ t. Some [(''sub'', JStr t)])\<rparr>\<rparr>"

definition demo_tenants :: db where
  "demo_tenants = empty_db\<lparr>users := map (\<lambda>u. \<lparr>usr_user_id = u, usr_email = [], usr_password_hash = [], usr_created_at = 0\<rparr>) [1, 2]\<rparr>"

definition demo_requests :: "(string option \<times> timestamp \<times> api_op) list" where
  "demo_requests =
     [(Some (str_uuid 1), 5, CollectionsRequest (CollCreate \<lparr>cc_name = ''Advent'', cc_description = None, cc_extra = []\<rparr> 3)),
      (None, 6, CollectionsRequest CollList),
      (Some (str_uuid 2), 7, CollectionsRequest (CollCreate \<lparr>cc_name = ''Lent'', cc_description = None, cc_extra = []\<rparr> 4)),
      (Some (str_uuid 1), 8, CollectionsRequest CollList)]"

lemma demo_callers: "map (caller demo_api) demo_requests = [Some 1, None, Some 2, Some 1]"
  by (simp add: demo_requests_def caller_def token_subject_def demo_api_def)

lemma demo_ids_new: "ids_new demo_api demo_requests demo_tenants"
proof -
  have tags: "tagged demo_api demo_requests = zip [Some 1, None, Some 2, Some 1] demo_requests"
    using demo_callers by (simp add: tagged_def demo_requests_def)
  have "served_ok (admitted demo_api) (\<lambda>r. api_fresh (snd (snd r))) (tagged demo_api demo_requests) demo_tenants"
    unfolding tags by (simp add: demo_requests_def admitted_def get_user_def demo_tenants_def
        create_collection_def validate_collection_create_def Let_def empty_db_def)
  then show ?thesis by (simp only: ids_new_def served_ok_tagged)
qed

theorem api_noninterference_witness:
  "ownership_ok (snd (api_run demo_api demo_requests demo_tenants)) \<and>
   api_run demo_api [demo_requests ! 0, demo_requests ! 3] (tenant_view 1 demo_tenants) =
     map_prod (only_of (Some 1)) (tenant_view 1) (api_run demo_api demo_requests demo_tenants)"
proof -
  have "ownership_ok demo_tenants"
    by (simp add: ownership_ok_def coll_wf_def links_owned_def demo_tenants_def empty_db_def)
  moreover have "filter (\<lambda>r. caller demo_api r = Some 1) demo_requests = [demo_requests ! 0, demo_requests ! 3]"
    using demo_callers by (simp add: demo_requests_def)
  ultimately show ?thesis
    using api_noninterference [OF _ demo_ids_new, of 1] by simp
qed

end
