(* ===== verification/Inference.thy ===== *)
theory Inference
  imports Search "HOL-Library.Log_Nat"
begin

text \<open>
  \<open>worker/inference.py\<close> (the remote embeddings and rerank transport) and \<open>worker/embedding.py\<close> (the
  chunk and query embedder with its embedding-space guard). The provider, the tokenizer and the
  numerical library are parameters; a provider's replies may depend on how many requests it has
  answered before, so every retry is a fresh reply.
\<close>

section \<open>Settings and errors\<close>

definition MAX_BATCH_ITEMS :: nat where "MAX_BATCH_ITEMS = 256"
definition MAX_CONTENT_TOKENS :: nat where "MAX_CONTENT_TOKENS = 510"
definition RETRY_TOKEN_LIMITS :: "nat list" where "RETRY_TOKEN_LIMITS = [510, 480, 440]"
definition MAX_RETRIES :: nat where "MAX_RETRIES = 5"
definition RERANK_BACKOFF_BASE_SECONDS :: rat where "RERANK_BACKOFF_BASE_SECONDS = 1 / 2"
definition BGE_LARGE_MODEL :: string where "BGE_LARGE_MODEL = ''BAAI/bge-large-en-v1.5''"

text \<open>
  What the openai client hands back after its own retries: rows tagged with their input index, a
  400 with its message, or any other \<open>APIError\<close>. An httpx reply carries a body if it is JSON.
\<close>

datatype embeddings_reply =
    EmbeddingRows "(int \<times> rat list) list"
  | BadRequest string
  | OtherAPIError

datatype rerank_reply =
    RerankTransportError
  | RerankResponse nat "json option"

record inference_env =
  deepinfra_api_key :: "string option"
  embeddings_model :: string
  rerank_base_url :: string
  rerank_model :: string
  tokenizer_encode :: "string \<Rightarrow> nat list"
  tokenizer_decode :: "nat list \<Rightarrow> string"
  embeddings_create :: "nat \<Rightarrow> string \<Rightarrow> string list \<Rightarrow> embeddings_reply"
  rerank_post :: "nat \<Rightarrow> string \<Rightarrow> string list \<Rightarrow> string list \<Rightarrow> rerank_reply"
  unit_row :: "rat list \<Rightarrow> rat list"
  float_of_text :: "string \<Rightarrow> rat"

definition require_key :: "inference_env \<Rightarrow> string result" where
  "require_key env =
     (case deepinfra_api_key env of
        None \<Rightarrow> Inl MissingInferenceKeyError
      | Some key \<Rightarrow> if key = [] then Inl MissingInferenceKeyError else Inr key)"

section \<open>Embeddings\<close>

definition token_count :: "inference_env \<Rightarrow> string \<Rightarrow> nat" where
  "token_count env t = length (tokenizer_encode env t)"

definition truncation_token_limit :: nat where
  "truncation_token_limit = MAX_CONTENT_TOKENS"

definition truncate_to_tokens :: "inference_env \<Rightarrow> string \<Rightarrow> nat \<Rightarrow> string" where
  "truncate_to_tokens env t limit =
     (let ids = tokenizer_encode env t
      in if length ids \<le> limit then t else tokenizer_decode env (take limit ids))"

definition is_token_limit_error :: "string \<Rightarrow> bool" where
  "is_token_limit_error msg =
     (let t = map lower_char msg in contains t ''input tokens'' \<or> contains t ''context length'')"

definition token_limits :: "string \<Rightarrow> nat list" where
  "token_limits model = (if model = BGE_LARGE_MODEL then RETRY_TOKEN_LIMITS else [0])"

definition prepare :: "inference_env \<Rightarrow> string list \<Rightarrow> nat \<Rightarrow> string list" where
  "prepare env batch limit = (if limit \<noteq> 0 then map (\<lambda>t. truncate_to_tokens env t limit) batch else batch)"

text \<open>
  The loop over the limits; \<open>limits\<close> is the whole ladder, the last argument the number of requests
  sent so far, returned updated.
\<close>

fun embed_ladder :: "inference_env \<Rightarrow> string list \<Rightarrow> string \<Rightarrow> nat list \<Rightarrow> nat list \<Rightarrow> nat \<Rightarrow> rat list list result \<times> nat" where
  "embed_ladder env batch model limits [] n = (Inl RemoteInferenceError, n)"
| "embed_ladder env batch model limits (limit # rest) n =
     (let prepared = prepare env batch limit
      in case embeddings_create env n model prepared of
           BadRequest msg \<Rightarrow>
             if is_token_limit_error msg \<and> limit \<noteq> 0 \<and> limit \<noteq> last limits
             then embed_ladder env batch model limits rest (Suc n)
             else (Inl RemoteInferenceError, Suc n)
         | OtherAPIError \<Rightarrow> (Inl RemoteInferenceError, Suc n)
         | EmbeddingRows rows \<Rightarrow>
             if length rows \<noteq> length prepared then (Inl RemoteInferenceError, Suc n)
             else (Inr (map snd (sort_key fst rows)), Suc n))"

definition embed_one_batch :: "inference_env \<Rightarrow> string list \<Rightarrow> string \<Rightarrow> nat \<Rightarrow> rat list list result \<times> nat" where
  "embed_one_batch env batch model n = embed_ladder env batch model (token_limits model) (token_limits model) n"

fun embed_batches :: "inference_env \<Rightarrow> string list list \<Rightarrow> string \<Rightarrow> nat \<Rightarrow> rat list list \<Rightarrow> rat list list result \<times> nat" where
  "embed_batches env [] model n rows = (Inr rows, n)"
| "embed_batches env (b # bs) model n rows =
     (case embed_one_batch env b model n of
        (Inl e, n') \<Rightarrow> (Inl e, n')
      | (Inr rs, n') \<Rightarrow> embed_batches env bs model n' (rows @ rs))"

text \<open>\<open>np.asarray(rows)\<close>: rows of different lengths do not make an array.\<close>

definition asarray :: "rat list list \<Rightarrow> rat list list result" where
  "asarray rows = (if list_all (\<lambda>r. length r = length (hd rows)) rows then Inr rows else Inl ValueError)"

definition embed_texts :: "inference_env \<Rightarrow> string list \<Rightarrow> string \<Rightarrow> nat \<Rightarrow> rat list list result \<times> nat" where
  "embed_texts env texts model n =
     (if texts = [] then (Inr [], n)
      else case require_key env of
        Inl e \<Rightarrow> (Inl e, n)
      | Inr _ \<Rightarrow>
          (case embed_batches env (slices MAX_BATCH_ITEMS texts) model n [] of
             (Inl e, n') \<Rightarrow> (Inl e, n')
           | (Inr rows, n') \<Rightarrow>
               (case asarray rows of
                  Inl e \<Rightarrow> (Inl e, n')
                | Inr arr \<Rightarrow> (Inr (map (unit_row env) arr), n'))))"

section \<open>Rerank\<close>

text \<open>\<open>float(i)\<close>: nearest double, ties to even, \<open>OverflowError\<close> beyond the range.\<close>

definition float_of_int :: "int \<Rightarrow> rat result" where
  "float_of_int i =
     (let k = floorlog 2 (nat \<bar>i\<bar>) - 53;
          q = \<bar>i\<bar> div 2 ^ k;
          r = \<bar>i\<bar> mod 2 ^ k;
          up = (2 * r > 2 ^ k \<or> (2 * r = 2 ^ k \<and> odd q));
          m = (q + (if up then 1 else 0)) * 2 ^ k
      in if 2 ^ 1024 \<le> m then Inl OverflowError else Inr (of_int (sgn i * m)))"

definition score_of :: "inference_env \<Rightarrow> json \<Rightarrow> rat result" where
  "score_of env item =
     (case item of
        JInt i \<Rightarrow> float_of_int i
      | JFloat t \<Rightarrow> Inr (float_of_text env t)
      | _ \<Rightarrow> Inl RemoteInferenceError)"

fun scores_loop :: "inference_env \<Rightarrow> json list \<Rightarrow> rat list \<Rightarrow> rat list result" where
  "scores_loop env [] out = Inr out"
| "scores_loop env (item # items) out =
     (case score_of env item of Inl e \<Rightarrow> Inl e | Inr s \<Rightarrow> scores_loop env items (out @ [s]))"

definition parse_rerank_scores :: "inference_env \<Rightarrow> json option \<Rightarrow> nat \<Rightarrow> rat list result" where
  "parse_rerank_scores env body expected =
     (case body of
        Some (JObj kvs) \<Rightarrow>
          (case map_of kvs ''scores'' of
             Some (JArr items) \<Rightarrow> if length items \<noteq> expected then Inl RemoteInferenceError else scores_loop env items []
           | _ \<Rightarrow> Inl RemoteInferenceError)
      | _ \<Rightarrow> Inl RemoteInferenceError)"

definition rerank_url :: "inference_env \<Rightarrow> string" where
  "rerank_url env = rstrip_by (\<lambda>c. c = CHR ''/'') (rerank_base_url env) @ ''/'' @ rerank_model env"

text \<open>
  The attempts, the requests sent and the seconds slept so far.
\<close>

fun rerank_attempts :: "inference_env \<Rightarrow> string \<Rightarrow> string list \<Rightarrow> nat list \<Rightarrow> rat \<Rightarrow> rat list result \<times> nat \<times> rat" where
  "rerank_attempts env query passages [] slept = (Inl RemoteInferenceError, 0, slept)"
| "rerank_attempts env query passages (attempt # rest) slept =
     (let slept' = (if attempt = 0 then slept else slept + RERANK_BACKOFF_BASE_SECONDS * 2 ^ (attempt - 1));
          retry = (let (res, sent, total_slept) = rerank_attempts env query passages rest slept' in (res, Suc sent, total_slept))
      in case rerank_post env attempt (rerank_url env) (replicate (length passages) query) passages of
           RerankTransportError \<Rightarrow> retry
         | RerankResponse code body \<Rightarrow>
             if 500 \<le> code then retry
             else if 400 \<le> code then (Inl RemoteInferenceError, 1, slept')
             else (parse_rerank_scores env body (length passages), 1, slept'))"

definition rerank_scores :: "inference_env \<Rightarrow> string \<Rightarrow> string list \<Rightarrow> rat list result \<times> nat \<times> rat" where
  "rerank_scores env query passages =
     (if passages = [] then (Inr [], 0, 0)
      else case require_key env of
        Inl e \<Rightarrow> (Inl e, 0, 0)
      | Inr _ \<Rightarrow> rerank_attempts env query passages [0..<1 + MAX_RETRIES] 0)"

section \<open>The embedding space\<close>

definition EMBED_DIM :: nat where "EMBED_DIM = 1024"

text \<open>
  The guard against the \<open>meta\<close> row \<open>embedding_model_id\<close>: the read, then the conditional insert and
  the comparison. A transaction that saw no row takes its own model for the recorded one.
\<close>

definition record_model :: "string \<Rightarrow> string option \<Rightarrow> string option \<Rightarrow> string \<times> string option" where
  "record_model configured row meta =
     (case row of
        None \<Rightarrow> (configured, case meta of None \<Rightarrow> Some configured | Some v \<Rightarrow> Some v)
      | Some v \<Rightarrow> (v, meta))"

text \<open>State: the process's latch and the shared row.\<close>

definition verify_embedding_space :: "string \<Rightarrow> bool \<Rightarrow> string option \<Rightarrow> unit result \<times> bool \<times> string option" where
  "verify_embedding_space configured space_verified meta =
     (if space_verified then (Inr (), True, meta)
      else let (recorded, meta') = record_model configured meta meta
           in if recorded \<noteq> configured then (Inl RuntimeError, False, meta') else (Inr (), True, meta'))"

definition embed_chunks :: "inference_env \<Rightarrow> string list \<Rightarrow> nat \<Rightarrow> bool \<Rightarrow> string option \<Rightarrow>
    rat list list result \<times> nat \<times> bool \<times> string option" where
  "embed_chunks env texts n space_verified meta =
     (if texts = [] then (Inr [], n, space_verified, meta)
      else case verify_embedding_space (embeddings_model env) space_verified meta of
        (Inl e, v, meta') \<Rightarrow> (Inl e, n, v, meta')
      | (Inr _, v, meta') \<Rightarrow>
          (case embed_texts env texts (embeddings_model env) n of
             (Inl e, n') \<Rightarrow> (Inl e, n', v, meta')
           | (Inr arr, n') \<Rightarrow>
               if length arr = length texts \<and> list_all (\<lambda>r. length r = EMBED_DIM) arr
               then (Inr arr, n', v, meta') else (Inl RuntimeError, n', v, meta')))"

end
