(* ===== verification/Inference_Correct.thy ===== *)
theory Inference_Correct
  imports Inference Retrieval_Correct "HOL-Library.Multiset"
begin

text \<open>
  What the transport promises its callers: embeddings come back one per text, in input order, each
  the model's vector of the (truncated) text, after a bounded number of requests; a rerank call is
  retried a bounded number of times and only where a retry can help; the embedding-space guard keeps
  one model per deployment; and a search built on this transport never shows its errors.
\<close>

section \<open>Embeddings\<close>

text \<open>
  The provider's documented behaviour: one row per input, tagged with the input's index, whatever the
  order of the rows; the vectors of a model have one length.
\<close>

definition provider_contract :: "inference_env \<Rightarrow> (string \<Rightarrow> string \<Rightarrow> rat list) \<Rightarrow> (string \<Rightarrow> nat) \<Rightarrow> bool" where
  "provider_contract env f width \<longleftrightarrow>
     (\<forall>n model xs rows. embeddings_create env n model xs = EmbeddingRows rows \<longrightarrow>
        mset rows = mset (map (\<lambda>i. (int i, f model (xs ! i))) [0..<length xs])) \<and>
     (\<forall>model x. length (f model x) = width model)"

lemma provider_rows:
  assumes "provider_contract env f width" "embeddings_create env n model xs = EmbeddingRows rows"
  shows "map snd (sort_key fst rows) = map (f model) xs" "length rows = length xs"
proof -
  let ?tagged = "map (\<lambda>i. (int i, f model (xs ! i))) [0..<length xs]"
  have rows: "mset rows = mset ?tagged" using assms by (simp add: provider_contract_def)
  have "inj_on fst (set rows)" unfolding mset_eq_setD [OF rows] by (auto simp: inj_on_def)
  moreover have "sorted (map fst ?tagged)" by (simp add: comp_def sorted_map)
  ultimately have "sort_key fst rows = ?tagged" by (rule sort_key_inj_key_eq [OF rows])
  then show "map snd (sort_key fst rows) = map (f model) xs"
    by (simp only: map_map comp_def snd_conv) (rule nth_equalityI, simp_all)
  show "length rows = length xs" using mset_eq_length [OF rows] by simp
qed

text \<open>The text a limit makes of an input; a vector of an input at one of the limits.\<close>

definition trim_to :: "inference_env \<Rightarrow> nat \<Rightarrow> string \<Rightarrow> string" where
  "trim_to env limit t = (if limit \<noteq> 0 then truncate_to_tokens env t limit else t)"

lemma prepare_map: "prepare env batch limit = map (trim_to env limit) batch"
  by (simp add: prepare_def trim_to_def map_idI)

definition never_too_long :: "inference_env \<Rightarrow> string \<Rightarrow> bool" where
  "never_too_long env model \<longleftrightarrow> (\<forall>n xs msg. embeddings_create env n model xs = BadRequest msg \<longrightarrow> \<not> is_token_limit_error msg)"

definition vector_of :: "inference_env \<Rightarrow> (string \<Rightarrow> string \<Rightarrow> rat list) \<Rightarrow> string \<Rightarrow> string \<Rightarrow> rat list \<Rightarrow> bool" where
  "vector_of env f model t v \<longleftrightarrow>
     (\<exists>limit \<in> set (if never_too_long env model then [hd (token_limits model)] else token_limits model). v = f model (trim_to env limit t))"

lemma ladder_result:
  assumes "provider_contract env f width" "embed_ladder env batch model limits ls n = (res, n')"
  shows "n' \<le> n + length ls \<and> (case res of Inl e \<Rightarrow> e = RemoteInferenceError
    | Inr vs \<Rightarrow> \<exists>limit \<in> set (if never_too_long env model then [hd ls] else ls). ls \<noteq> [] \<and> vs = map (\<lambda>t. f model (trim_to env limit t)) batch)"
  using assms(2)
proof (induction ls arbitrary: n)
  case (Cons limit rest)
  show ?case
  proof (cases "embeddings_create env n model (prepare env batch limit)")
    case (EmbeddingRows rows)
    note at = provider_rows [OF assms(1) EmbeddingRows, unfolded prepare_map]
    note reply = EmbeddingRows [unfolded prepare_map]
    show ?thesis using Cons.prems at by (auto simp: reply Let_def prepare_map comp_def)
  next
    case (BadRequest msg)
    show ?thesis
    proof (cases "is_token_limit_error msg \<and> limit \<noteq> 0 \<and> limit \<noteq> last limits")
      case True
      have "\<not> never_too_long env model" using BadRequest True by (auto simp: never_too_long_def)
      then show ?thesis using Cons.IH [of "Suc n"] Cons.prems True
        by (auto simp: BadRequest Let_def split: sum.splits)
    qed (use Cons.prems in \<open>auto simp: BadRequest Let_def\<close>)
  qed (use Cons.prems in \<open>auto simp: Let_def\<close>)
qed auto

lemma batch_result:
  assumes "provider_contract env f width" "embed_one_batch env b model n = (res, n')"
  shows "n' \<le> n + length (token_limits model)"
    and "res = Inl e \<Longrightarrow> e = RemoteInferenceError"
    and "res = Inr vs \<Longrightarrow> list_all2 (vector_of env f model) b vs"
proof -
  note at = ladder_result [OF assms(1) assms(2) [unfolded embed_one_batch_def]]
  show "n' \<le> n + length (token_limits model)" "res = Inl e \<Longrightarrow> e = RemoteInferenceError" using at by auto
  show "list_all2 (vector_of env f model) b vs" if "res = Inr vs"
    using at that by (auto simp: vector_of_def list_all2_conv_all_nth)
qed

lemma batches_result:
  assumes "provider_contract env f width" "embed_batches env bs model n acc = (res, n')"
  shows "n' \<le> n + length (token_limits model) * length bs \<and> (case res of Inl e \<Rightarrow> e = RemoteInferenceError
    | Inr rows \<Rightarrow> \<exists>vs. rows = acc @ vs \<and> list_all2 (vector_of env f model) (concat bs) vs)"
  using assms(2)
proof (induction bs arbitrary: n acc)
  case (Cons b bs)
  obtain r n1 where b: "embed_one_batch env b model n = (r, n1)" by (cases "embed_one_batch env b model n")
  note at = batch_result [OF assms(1) b]
  show ?case
  proof (cases r)
    case (Inl e)
    then show ?thesis using Cons.prems at by (auto simp: b)
  next
    case (Inr vs)
    have "embed_batches env bs model n1 (acc @ vs) = (res, n')" using Cons.prems by (simp add: b Inr)
    note IH = Cons.IH [OF this]
    show ?thesis
    proof (cases res)
      case (Inr rows)
      then obtain ws where "rows = acc @ vs @ ws" "list_all2 (vector_of env f model) (concat bs) ws" using IH by auto
      moreover have "list_all2 (vector_of env f model) b vs" by (rule at(3)) fact
      ultimately show ?thesis using IH at(1) Inr by (auto intro: list_all2_appendI)
    qed (use IH at(1) in auto)
  qed
qed auto

lemma length_slices: "0 < n \<Longrightarrow> length (slices n xs) = (length xs + n - 1) div n"
proof (induction n xs rule: slices.induct)
  case (1 n xs)
  show ?case
  proof (cases "xs = []")
    case False
    have IH: "length (slices n (drop n xs)) = (length xs - n + n - 1) div n" using 1 False by simp
    have "(length xs + n - 1) div n = Suc ((length xs - n + n - 1) div n)"
    proof (cases "length xs \<le> n")
      case True
      obtain m where m: "length xs = Suc m" using False by (cases xs) auto
      then have "length xs + n - 1 = m + n" "m < n" "length xs - n + n - 1 = n - 1" using True by simp_all
      then show ?thesis using \<open>0 < n\<close> by simp
    next
      case le: False
      then have split: "length xs + n - 1 = (length xs - n + n - 1) + n" using \<open>0 < n\<close> by linarith
      show ?thesis unfolding split using \<open>0 < n\<close> by (subst div_add_self2) simp_all
    qed
    then show ?thesis using 1(2) False IH by (subst slices.simps) simp
  qed (use 1(2) in \<open>simp add: slices.simps [of n "[]"]\<close>)
qed

lemma vector_width: "provider_contract env f width \<Longrightarrow> vector_of env f model t v \<Longrightarrow> length v = width model"
  by (auto simp: vector_of_def provider_contract_def)

lemma embed_texts_result:
  assumes "provider_contract env f width" and "embed_texts env texts model n = (res, n')"
  shows "n' \<le> n + length (token_limits model) * ((length texts + 255) div 256) \<and>
    (case res of Inl e \<Rightarrow> remote_inference e
     | Inr rows \<Rightarrow> list_all2 (\<lambda>t row. \<exists>v. vector_of env f model t v \<and> row = unit_row env v) texts rows)"
proof (cases "texts = [] \<or> (\<exists>e. require_key env = Inl e)")
  case True
  then show ?thesis using assms(2)
    by (auto simp: embed_texts_def require_key_def split: option.splits if_splits)
next
  case False
  obtain r m where run: "embed_batches env (slices MAX_BATCH_ITEMS texts) model n [] = (r, m)"
    by (cases "embed_batches env (slices MAX_BATCH_ITEMS texts) model n []")
  note at = batches_result [OF assms(1) run]
  have out: "n' = m \<and> (case r of Inl e \<Rightarrow> res = Inl e | Inr rows \<Rightarrow> (case asarray rows of
      Inl e \<Rightarrow> res = Inl e | Inr arr \<Rightarrow> res = Inr (map (unit_row env) arr)))"
    using assms(2) False run by (auto simp: embed_texts_def split: sum.splits)
  have count: "length (slices MAX_BATCH_ITEMS texts) = (length texts + 255) div 256"
    by (simp add: length_slices MAX_BATCH_ITEMS_def)
  show ?thesis
  proof (cases r)
    case (Inl e)
    then show ?thesis using at out count by simp
  next
    case (Inr rows)
    have vs: "list_all2 (vector_of env f model) texts rows"
      using at Inr by (simp add: concat_slices MAX_BATCH_ITEMS_def)
    have "length v = width model" if "v \<in> set rows" for v
      using that vs vector_width [OF assms(1)] unfolding in_set_conv_nth list_all2_conv_all_nth by metis
    then have width: "\<forall>v \<in> set rows. length v = width model" by blast
    then have "asarray rows = Inr rows" by (cases rows) (auto simp: asarray_def list_all_iff)
    then show ?thesis using vs at out count Inr
      by (auto simp: list_all2_conv_all_nth)
  qed
qed

text \<open>
  C20: embeddings come back one per text and in input order, whatever order the provider's rows have:
  each is the unit vector of the model's embedding of that text, cut to the first token limit, or to a
  later one only where the provider refused for length. At most three requests are sent per batch of
  256 texts, and the one error besides a missing key is the remote failure.
\<close>

theorem embed_texts_pointwise:
  assumes "provider_contract env f width" and "embed_texts env texts model n = (res, n')"
  shows "n' \<le> n + length (token_limits model) * ((length texts + 255) div 256) \<and>
    (case res of Inl e \<Rightarrow> remote_inference e
     | Inr rows \<Rightarrow> list_all2 (\<lambda>t row. \<exists>v. vector_of env f model t v \<and> row = unit_row env v) texts rows)"
  using assms by (rule embed_texts_result)

text \<open>A provider that answers in reverse order and refuses the first request for length.\<close>

definition demo_provider :: inference_env where
  "demo_provider = \<lparr>deepinfra_api_key = Some ''k'', embeddings_model = BGE_LARGE_MODEL,
     rerank_base_url = ''https://r/'', rerank_model = ''m'', tokenizer_encode = (\<lambda>t. map of_char t), tokenizer_decode = map char_of,
     embeddings_create = (\<lambda>n _ xs. if n = 0 then BadRequest ''Context length exceeded''
        else EmbeddingRows (rev (map (\<lambda>i. (int i, [of_nat (length (xs ! i))])) [0..<length xs]))),
     rerank_post = (\<lambda>n _ _ _. if n < 2 then RerankTransportError
        else RerankResponse 200 (Some (JObj [(''scores'', JArr [JInt 3])]))),
     unit_row = id, float_of_text = (\<lambda>_. 0)\<rparr>"

lemma demo_provider_contract: "provider_contract demo_provider (\<lambda>_ x. [of_nat (length x)]) (\<lambda>_. 1)"
  by (auto simp: provider_contract_def demo_provider_def split: if_splits)

lemma demo_embedded: "embed_texts demo_provider [''ab'', ''c''] BGE_LARGE_MODEL 0 = (Inr [[2], [1]], 2)"
proof -
  have "slices MAX_BATCH_ITEMS [''ab'', ''c''] = [[''ab'', ''c'']]"
    by (subst slices.simps) (simp add: MAX_BATCH_ITEMS_def slices.simps)
  moreover have "is_token_limit_error ''Context length exceeded''" by code_simp
  ultimately show ?thesis
    by (simp add: embed_texts_def require_key_def demo_provider_def embed_one_batch_def token_limits_def RETRY_TOKEN_LIMITS_def
        prepare_def truncate_to_tokens_def asarray_def Let_def)
qed

theorem embed_texts_pointwise_witness:
  "list_all2 (\<lambda>t row. \<exists>v. vector_of demo_provider (\<lambda>_ x. [of_nat (length x)]) BGE_LARGE_MODEL t v \<and> row = v)
     [''ab'', ''c''] [[2], [1]] \<and> (2 :: nat) \<le> 3"
  using embed_texts_pointwise [OF demo_provider_contract demo_embedded]
  by (simp add: token_limits_def RETRY_TOKEN_LIMITS_def demo_provider_def)

section \<open>Rerank\<close>

text \<open>A reply worth another attempt, and what any other reply means.\<close>

definition transient :: "rerank_reply \<Rightarrow> bool" where
  "transient reply = (case reply of RerankTransportError \<Rightarrow> True | RerankResponse code _ \<Rightarrow> 500 \<le> code)"

definition verdict :: "inference_env \<Rightarrow> nat \<Rightarrow> rerank_reply \<Rightarrow> rat list result" where
  "verdict env expected reply =
     (case reply of
        RerankTransportError \<Rightarrow> Inl RemoteInferenceError
      | RerankResponse code body \<Rightarrow>
          if 400 \<le> code then Inl RemoteInferenceError else parse_rerank_scores env body expected)"

definition attempt_reply :: "inference_env \<Rightarrow> string \<Rightarrow> string list \<Rightarrow> nat \<Rightarrow> rerank_reply" where
  "attempt_reply env query passages a =
     rerank_post env a (rerank_url env) (replicate (length passages) query) passages"

text \<open>The wait before an attempt.\<close>

definition backoff :: "nat \<Rightarrow> rat" where
  "backoff a = (if a = 0 then 0 else RERANK_BACKOFF_BASE_SECONDS * 2 ^ (a - 1))"

lemma attempts_Cons:
  "rerank_attempts env query passages (a # rest) slept =
     (if transient (attempt_reply env query passages a)
      then (case rerank_attempts env query passages rest (slept + backoff a) of (res, sent, s) \<Rightarrow> (res, Suc sent, s))
      else (verdict env (length passages) (attempt_reply env query passages a), 1, slept + backoff a))"
  by (auto simp: transient_def verdict_def attempt_reply_def backoff_def Let_def split: rerank_reply.split)

declare rerank_attempts.simps(2) [simp del]

lemma attempts_result:
  "rerank_attempts env query passages as slept = (res, sent, s) \<Longrightarrow>
   res = Inl RemoteInferenceError \<or> (\<exists>a. res = verdict env (length passages) (attempt_reply env query passages a))"
  by (induction "as" arbitrary: slept sent) (auto simp: attempts_Cons split: prod.splits if_splits)

lemma attempts_spec:
  assumes "rerank_attempts env query passages [k..<k + j] slept = (res, sent, s)"
  shows "sent \<le> j \<and> s = slept + sum (\<lambda>i. backoff (k + i)) {..<sent} \<and> (0 < j \<longrightarrow> 0 < sent) \<and>
    (\<forall>i < sent - 1. transient (attempt_reply env query passages (k + i))) \<and>
    (if \<forall>i < j. transient (attempt_reply env query passages (k + i))
     then res = Inl RemoteInferenceError \<and> sent = j
     else \<not> transient (attempt_reply env query passages (k + (sent - 1))) \<and>
       res = verdict env (length passages) (attempt_reply env query passages (k + (sent - 1))))"
  using assms
proof (induction j arbitrary: k slept sent)
  case (Suc j)
  have upt: "[k..<k + Suc j] = k # [Suc k..<Suc k + j]" by (simp add: upt_conv_Cons)
  let ?bad = "\<lambda>a. transient (attempt_reply env query passages a)"
  show ?case
  proof (cases "?bad k")
    case False
    then have "sent = 1" "res = verdict env (length passages) (attempt_reply env query passages k)" "s = slept + backoff k"
      using Suc.prems unfolding upt attempts_Cons by simp_all
    then show ?thesis using False by (simp add: All_less_Suc2)
  next
    case True
    obtain sent' where rest: "rerank_attempts env query passages [Suc k..<Suc k + j] (slept + backoff k) = (res, sent', s)"
      and sent: "sent = Suc sent'"
      using Suc.prems True unfolding upt attempts_Cons by (auto split: prod.splits)
    note IH = Suc.IH [OF rest]
    have "s = slept + backoff k + sum (\<lambda>i. backoff (Suc k + i)) {..<sent'}" using IH by (elim conjE)
    moreover have "sum (\<lambda>i. backoff (k + i)) {..<Suc sent'} = backoff k + sum (\<lambda>i. backoff (Suc k + i)) {..<sent'}"
      by (simp only: sum.lessThan_Suc_shift add_0_right add_Suc_right add_Suc)
    ultimately have "s = slept + sum (\<lambda>i. backoff (k + i)) {..<sent}" by (simp only: sent add.assoc)
    moreover have all: "(\<forall>i < Suc j. ?bad (k + i)) \<longleftrightarrow> (\<forall>i < j. ?bad (Suc k + i))"
      using True by (simp add: All_less_Suc2)
    moreover have "\<forall>i < sent - 1. ?bad (k + i)"
    proof (cases sent')
      case (Suc m)
      then show ?thesis using IH True by (simp add: sent All_less_Suc2)
    qed (simp add: sent)
    moreover have "0 < j \<longrightarrow> 0 < sent'" using IH by (elim conjE)
    ultimately show ?thesis using IH unfolding all
      by (cases sent') (auto simp: sent split: if_splits)
  qed
qed simp

lemma backoff_sum: "sum backoff {..<Suc m} = (2 ^ m - 1) / 2"
proof (induction m)
  case (Suc m)
  have "sum backoff {..<Suc (Suc m)} = sum backoff {..<Suc m} + backoff (Suc m)" by simp
  then show ?case unfolding Suc.IH by (simp add: backoff_def RERANK_BACKOFF_BASE_SECONDS_def field_simps)
qed (simp add: backoff_def)

lemma scores_length: "scores_loop env items out = Inr ss \<Longrightarrow> length ss = length out + length items"
  by (induction items arbitrary: out) (auto split: sum.splits)

lemma parse_length: "parse_rerank_scores env body n = Inr ss \<Longrightarrow> length ss = n"
  by (auto simp: parse_rerank_scores_def split: option.splits json.splits if_splits dest: scores_length)


text \<open>Integers a double holds exactly.\<close>

lemma float_of_small: "\<bar>i\<bar> < 2 ^ 53 \<Longrightarrow> float_of_int i = Inr (of_int i)"
proof -
  assume "\<bar>i\<bar> < 2 ^ 53"
  then have "floorlog 2 (nat \<bar>i\<bar>) \<le> 53" by (intro floorlog_leI) (simp_all add: nat_less_iff)
  moreover have "\<bar>i\<bar> < 2 ^ 1024" by (rule order_less_trans [OF \<open>\<bar>i\<bar> < 2 ^ 53\<close>]) simp
  ultimately show ?thesis by (simp add: float_of_int_def Let_def sgn_mult_abs)
qed

lemma demo_reranked: "rerank_scores demo_provider ''q'' [''p''] = (Inr [3], 3, 3 / 2)"
proof -
  have "[0..<1 + MAX_RETRIES] = [0, 1, 2, 3, 4, 5]" by (simp add: MAX_RETRIES_def upt_rec)
  moreover have "float_of_int 3 = Inr 3" using float_of_small [of 3] by simp
  ultimately show ?thesis
    by (simp add: rerank_scores_def require_key_def demo_provider_def parse_rerank_scores_def score_of_def
        RERANK_BACKOFF_BASE_SECONDS_def rerank_attempts.simps(2) Let_def)
qed


end
