(* ===== verification/Embedding_Space.thy ===== *)
theory Embedding_Space
  imports Inference
begin

text \<open>
  The embedding-space guard of \<open>worker/embedding.py\<close> between processes: the latch is a process's own,
  the \<open>meta\<close> row is shared, and the read and the conditional insert of one verification are two
  statements that the statements of other processes may separate.
\<close>

section \<open>Processes\<close>

datatype phase = Unverified | Looked "string option" | Verified

text \<open>The row, each process's progress, and the models that embed requests were sent with.\<close>

record cluster =
  cl_meta :: "string option"
  cl_phase :: "nat \<Rightarrow> phase"
  cl_sent :: "string list"

inductive space_step :: "(nat \<Rightarrow> string) \<Rightarrow> cluster \<Rightarrow> cluster \<Rightarrow> bool" for configured where
  look: "cl_phase c p = Unverified \<Longrightarrow>
    space_step configured c (c\<lparr>cl_phase := (cl_phase c)(p := Looked (cl_meta c))\<rparr>)"
| settle: "cl_phase c p = Looked row \<Longrightarrow> record_model (configured p) row (cl_meta c) = (recorded, meta') \<Longrightarrow>
    space_step configured c (c\<lparr>cl_meta := meta',
      cl_phase := (cl_phase c)(p := if recorded = configured p then Verified else Unverified)\<rparr>)"
| send: "cl_phase c p = Verified \<Longrightarrow>
    space_step configured c (c\<lparr>cl_sent := cl_sent c @ [configured p]\<rparr>)"

inductive_cases space_stepE: "space_step configured c c'"

definition launch :: "string option \<Rightarrow> cluster" where
  "launch meta = \<lparr>cl_meta = meta, cl_phase = (\<lambda>_. Unverified), cl_sent = []\<rparr>"

text \<open>One uninterrupted verification is the function of the code.\<close>

lemma verification_is_two_steps:
  assumes "cl_phase c p = Unverified"
    and "verify_embedding_space (configured p) False (cl_meta c) = (res, latch, meta')"
  shows "(space_step configured)\<^sup>*\<^sup>* c (c\<lparr>cl_meta := meta', cl_phase := (cl_phase c)(p := if latch then Verified else Unverified)\<rparr>)"
proof -
  let ?c1 = "c\<lparr>cl_phase := (cl_phase c)(p := Looked (cl_meta c))\<rparr>"
  obtain recorded where r: "record_model (configured p) (cl_meta c) (cl_meta c) = (recorded, meta')"
    and latch: "latch \<longleftrightarrow> recorded = configured p"
    using assms(2) by (auto simp: verify_embedding_space_def split: prod.splits if_splits)
  have "space_step configured c ?c1" using assms(1) by (rule look)
  moreover have "space_step configured ?c1 (?c1\<lparr>cl_meta := meta',
      cl_phase := (cl_phase ?c1)(p := if recorded = configured p then Verified else Unverified)\<rparr>)"
    by (rule settle [where row = "cl_meta c"]) (simp_all add: r)
  ultimately show ?thesis by (simp add: latch)
qed

section \<open>The guard\<close>

text \<open>With a recorded model \<open>m\<close>: whoever saw a row saw \<open>m\<close>, and only processes configured for \<open>m\<close> send.\<close>

definition guarded :: "(nat \<Rightarrow> string) \<Rightarrow> string \<Rightarrow> cluster \<Rightarrow> bool" where
  "guarded configured m c \<longleftrightarrow> cl_meta c = Some m \<and> set (cl_sent c) \<subseteq> {m} \<and>
     (\<forall>p. case cl_phase c p of Unverified \<Rightarrow> True | Looked row \<Rightarrow> row = Some m | Verified \<Rightarrow> configured p = m)"

lemma guarded_step: "space_step configured c c' \<Longrightarrow> guarded configured m c \<Longrightarrow> guarded configured m c'"
proof (induction rule: space_step.induct)
  case (settle c p row recorded meta')
  then have "row = Some m" by (auto simp: guarded_def split: phase.splits)
  then show ?case using settle by (auto simp: guarded_def record_model_def split: phase.splits)
next
  case (send c p)
  then have "configured p = m" by (auto simp: guarded_def split: phase.splits)
  then show ?case using send by (auto simp: guarded_def)
qed (auto simp: guarded_def split: phase.splits)

lemma guarded_steps: "(space_step configured)\<^sup>*\<^sup>* c c' \<Longrightarrow> guarded configured m c \<Longrightarrow> guarded configured m c'"
  by (induction rule: rtranclp_induct) (auto intro: guarded_step)

text \<open>Two first processes with different models, on a database without the row.\<close>

lemma space_race:
  assumes "a \<noteq> b"
  shows "\<exists>c. (space_step (\<lambda>p. if p = 0 then a else b))\<^sup>*\<^sup>* (launch None) c \<and> cl_sent c = [a, b]"
proof -
  let ?cfg = "\<lambda>p :: nat. if p = 0 then a else b"
  define f0 :: "nat \<Rightarrow> phase" where "f0 = (\<lambda>_. Unverified)"
  define f1 where "f1 = f0(0 := Looked None)"
  define f2 where "f2 = f1(1 := Looked None)"
  define f3 where "f3 = f2(0 := Verified)"
  define f4 where "f4 = f3(1 := Verified)"
  let ?at = "\<lambda>m f ms. \<lparr>cl_meta = m, cl_phase = f, cl_sent = ms\<rparr>"
  have "space_step ?cfg (?at None f0 []) (?at None f1 [])"
    using look [of "?at None f0 []" 0 ?cfg] by (simp add: f0_def f1_def)
  moreover have "space_step ?cfg (?at None f1 []) (?at None f2 [])"
    using look [of "?at None f1 []" 1 ?cfg] by (simp add: f0_def f1_def f2_def)
  moreover have "space_step ?cfg (?at None f2 []) (?at (Some a) f3 [])"
    using settle [of "?at None f2 []" 0 None ?cfg a "Some a"] by (simp add: f1_def f2_def f3_def record_model_def)
  moreover have "space_step ?cfg (?at (Some a) f3 []) (?at (Some a) f4 [])"
    using settle [of "?at (Some a) f3 []" 1 None ?cfg b "Some a"] by (simp add: f2_def f3_def f4_def record_model_def)
  moreover have "space_step ?cfg (?at (Some a) f4 []) (?at (Some a) f4 [a])"
    using send [of "?at (Some a) f4 []" 0 ?cfg] by (simp add: f3_def f4_def)
  moreover have "space_step ?cfg (?at (Some a) f4 [a]) (?at (Some a) f4 [a, b])"
    using send [of "?at (Some a) f4 [a]" 1 ?cfg] by (simp add: f4_def)
  ultimately have "(space_step ?cfg)\<^sup>*\<^sup>* (?at None f0 []) (?at (Some a) f4 [a, b])"
    by (meson converse_rtranclp_into_rtranclp rtranclp.rtrancl_refl)
  then show ?thesis by (intro exI [of _ "?at (Some a) f4 [a, b]"]) (simp add: launch_def f0_def)
qed

section \<open>Property\<close>

text \<open>
  C22: where the migration has recorded a model, no schedule of any number of processes sends an embed
  request for another: a process configured differently is refused every time. Without the row
  the guard does not hold: two first processes with different models can both pass it, because the one
  whose insert loses the conflict takes its own model for the recorded one, and the vectors of two
  spaces mix.
\<close>

theorem embedding_space_guard:
  assumes "(space_step configured)\<^sup>*\<^sup>* (launch (Some m)) c"
  shows "set (cl_sent c) \<subseteq> {m} \<and> cl_meta c = Some m \<and> (\<forall>p. cl_phase c p = Verified \<longrightarrow> configured p = m) \<and>
    (\<forall>p. configured p \<noteq> m \<longrightarrow> verify_embedding_space (configured p) False (cl_meta c) = (Inl RuntimeError, False, Some m)) \<and>
    (\<forall>b. b \<noteq> m \<longrightarrow> (\<exists>bad. (space_step (\<lambda>p. if p = 0 then m else b))\<^sup>*\<^sup>* (launch None) bad \<and> cl_sent bad = [m, b]))"
proof -
  have "guarded configured m (launch (Some m))" by (simp add: guarded_def launch_def)
  then have g: "guarded configured m c" by (rule guarded_steps [OF assms])
  moreover have "configured p = m" if "cl_phase c p = Verified" for p
    using g that by (auto simp: guarded_def split: phase.splits)
  ultimately show ?thesis using space_race [of m]
    by (auto simp: guarded_def verify_embedding_space_def record_model_def)
qed

theorem embedding_space_guard_witness:
  "verify_embedding_space ''bge-m3'' False (Some ''bge'') = (Inl RuntimeError, False, Some ''bge'') \<and>
   (\<exists>bad. (space_step (\<lambda>p. if p = 0 then ''bge'' else ''bge-m3''))\<^sup>*\<^sup>* (launch None) bad \<and> cl_sent bad = [''bge'', ''bge-m3''])"
proof -
  have none: "(space_step (\<lambda>_. ''bge-m3''))\<^sup>*\<^sup>* (launch (Some ''bge'')) (launch (Some ''bge''))" by simp
  from embedding_space_guard [OF none] show ?thesis by (simp add: launch_def)
qed

end
