(* ===== verification/Inference_Search.thy ===== *)
theory Inference_Search
  imports Inference_Correct
begin

text \<open>
  The search over the transport: \<open>api/rerank.py\<close> calls \<open>rerank_scores\<close>, \<open>api/highlight.py\<close> calls
  \<open>embed_texts\<close>. The contract search assumes of its two remote models is what the transport promises.
\<close>

section \<open>The contract\<close>

definition HIGHLIGHT_MODEL :: string where "HIGHLIGHT_MODEL = ''BAAI/bge-m3''"

text \<open>The two models of a request that finds the provider after \<open>n\<close> embedding requests.\<close>

definition over_transport :: "inference_env \<Rightarrow> nat \<Rightarrow> search_externals \<Rightarrow> search_externals" where
  "over_transport env n ext = ext\<lparr>
     x_rerank_scores := (\<lambda>q passages. fst (rerank_scores env q passages)),
     x_embed_texts := (\<lambda>texts. fst (embed_texts env texts HIGHLIGHT_MODEL n))\<rparr>"

text \<open>Integer scores fit a double.\<close>

definition scores_fit :: "inference_env \<Rightarrow> bool" where
  "scores_fit env \<longleftrightarrow> (\<forall>a url qs ps code kvs items i. rerank_post env a url qs ps = RerankResponse code (Some (JObj kvs)) \<longrightarrow>
     map_of kvs ''scores'' = Some (JArr items) \<longrightarrow> JInt i \<in> set items \<longrightarrow> \<bar>i\<bar> < 2 ^ 53)"

lemma scores_loop_error:
  "scores_loop env items out = Inl e \<Longrightarrow> (\<And>i. JInt i \<in> set items \<Longrightarrow> \<bar>i\<bar> < 2 ^ 53) \<Longrightarrow> e = RemoteInferenceError"
proof (induction items arbitrary: out)
  case (Cons item items)
  have "e' = RemoteInferenceError" if "score_of env item = Inl e'" for e'
    using that Cons.prems(2) float_of_small by (cases item) (fastforce simp: score_of_def)+
  then show ?case using Cons by (cases "score_of env item") auto
qed simp

lemma verdict_error:
  assumes "scores_fit env" "verdict env n (attempt_reply env q ps a) = Inl e"
  shows "e = RemoteInferenceError"
proof -
  have "e = RemoteInferenceError"
    if "attempt_reply env q ps a = RerankResponse code body" "parse_rerank_scores env body n = Inl e" for code body
    using that assms(1) scores_loop_error
    by (fastforce simp: parse_rerank_scores_def attempt_reply_def scores_fit_def split: option.splits json.splits if_splits)
  then show ?thesis using assms(2) by (auto simp: verdict_def split: rerank_reply.splits if_splits)
qed

lemma verdict_length: "verdict env n reply = Inr ss \<Longrightarrow> length ss = n"
  by (auto simp: verdict_def dest: parse_length split: rerank_reply.splits if_splits)

lemma require_key_error: "require_key env = Inl e \<Longrightarrow> remote_inference e"
  by (auto simp: require_key_def split: option.splits if_splits)

lemma transport_reranks:
  assumes "scores_fit env"
  shows "case fst (rerank_scores env q ps) of Inl e \<Rightarrow> remote_inference e | Inr ss \<Rightarrow> length ss = length ps"
proof (cases "ps = [] \<or> (\<exists>e. require_key env = Inl e)")
  case True
  then show ?thesis using require_key_error by (auto simp: rerank_scores_def)
next
  case False
  then obtain key where key: "require_key env = Inr key" by (cases "require_key env") auto
  obtain res sent s where run: "rerank_scores env q ps = (res, sent, s)" by (cases "rerank_scores env q ps")
  have "rerank_attempts env q ps [0..<1 + MAX_RETRIES] 0 = (res, sent, s)"
    using run False key by (simp add: rerank_scores_def)
  note attempts_result [OF this]
  then show ?thesis
  proof (elim disjE exE)
    fix a assume a: "res = verdict env (length ps) (attempt_reply env q ps a)"
    show ?thesis
    proof (cases res)
      case (Inl e)
      then show ?thesis using verdict_error [OF assms] a by (metis run fst_conv old.sum.simps(5) remote_inference_simps(1))
    next
      case (Inr ss)
      then show ?thesis using verdict_length a by (metis run fst_conv old.sum.simps(6))
    qed
  qed (simp add: run)
qed

lemma transport_contract:
  assumes "provider_contract env f width" "scores_fit env"
  shows "remote_contract (over_transport env n ext)"
proof -
  have "case fst (embed_texts env ts HIGHLIGHT_MODEL n) of Inl e \<Rightarrow> remote_inference e | Inr vs \<Rightarrow> length vs = length ts" for ts
    using embed_texts_result [OF assms(1), where texts = ts and model = HIGHLIGHT_MODEL and n = n]
    by (cases "embed_texts env ts HIGHLIGHT_MODEL n") (auto split: sum.splits dest: list_all2_lengthD)
  then show ?thesis using transport_reranks [OF assms(2)]
    by (auto simp: remote_contract_def over_transport_def)
qed

section \<open>Property\<close>

lemma fuse_and_rank_errors:
  assumes "remote_contract ext" "fuse_and_rank ext q n rr dres sres = Inl e"
  shows "e \<in> {CancelledError, retrieval_unavailable}"
proof (cases "dres = Inl CancelledError \<or> sres = Inl CancelledError")
  case True
  then show ?thesis using assms(2) by (auto simp: fuse_and_rank_def surviving_arm_hits_def split: sum.splits if_splits)
next
  case False
  then show ?thesis using fuse_and_rank_total [OF assms(1), of dres sres q n rr] assms(2) by (auto split: if_splits)
qed

text \<open>
  C23: the errors of the inference provider never reach a search's client, whatever the key, the provider
  and the arms do: the only errors of a search are the validation error, the 404 of a collection, the
  503 of both arms failing, and a cancellation. In particular neither the 502 nor the 503 that
  \<open>api/main.py\<close> registers for inference errors.
\<close>

theorem inference_errors_stay_inside:
  assumes "provider_contract env f width" and "scores_fit env"
    and "search (over_transport env n ext) p u d cached = (Inl e, cached')"
  shows "e \<in> {search_unprocessable, collection_not_found, retrieval_unavailable, CancelledError} \<and> \<not> remote_inference e"
proof -
  let ?ext = "over_transport env n ext"
  note contract = transport_contract [OF assms(1,2), of n ext]
  have scope: "x = collection_not_found" if "effective_scope books cols u d = Inl x" for x books cols
    using that by (auto simp: effective_scope_def Let_def split: option.splits if_splits)
  have "e \<in> {search_unprocessable, collection_not_found, retrieval_unavailable, CancelledError}"
    using assms(3) scope
    by (auto dest!: fuse_and_rank_errors [OF contract] simp: search_def run_search_def Let_def split: if_splits sum.splits list.splits prod.splits)
  then show ?thesis
    by (auto simp: remote_inference_def search_unprocessable_def collection_not_found_def retrieval_unavailable_def)
qed

text \<open>No key, no Milvus and no Postgres: the answer is the 503 of the arms.\<close>

definition keyless :: inference_env where
  "keyless = demo_provider\<lparr>deepinfra_api_key := None, rerank_post := (\<lambda>_ _ _ _. RerankTransportError)\<rparr>"

theorem inference_errors_stay_inside_witness:
  "fst (search (over_transport keyless 1 (milvus_down\<lparr>x_embed_query := (\<lambda>_. Inl MissingInferenceKeyError), x_sparse_fault := Some OSError\<rparr>))
     (demo_search_request\<lparr>sq_rerank := True\<rparr>) 1 demo_search_db None) = Inl retrieval_unavailable \<and>
   \<not> remote_inference retrieval_unavailable"
proof -
  let ?ext = "over_transport keyless 1 (milvus_down\<lparr>x_embed_query := (\<lambda>_. Inl MissingInferenceKeyError), x_sparse_fault := Some OSError\<rparr>)"
  have contract: "provider_contract keyless (\<lambda>_ x. [of_nat (length x)]) (\<lambda>_. 1)" "scores_fit keyless"
    using demo_provider_contract by (simp_all add: keyless_def provider_contract_def scores_fit_def)
  have valid: "validate_search_request (demo_search_request\<lparr>sq_rerank := True\<rparr>)" by code_simp
  have "effective_scope (Some [10, 11]) None 1 demo_search_db = Inr [10]" "search_library 1 demo_search_db = [10]"
    by (simp_all add: effective_scope_def search_library_def demo_search_db_def select_where_def)
  then have run: "search ?ext (demo_search_request\<lparr>sq_rerank := True\<rparr>) 1 demo_search_db None = (Inl retrieval_unavailable, None)"
    using valid by (simp add: search_def run_search_def demo_search_request_def dense_arm_def sparse_arm_def over_transport_def
        milvus_down_def fuse_and_rank_def surviving_arm_hits_def insert_commute)
  show ?thesis using inference_errors_stay_inside [OF contract run] run by simp
qed

end
