(* ===== verification/Clean_Sections.thy ===== *)
theory Clean_Sections
  imports Retrieval "HOL-Library.Multiset"
begin

text \<open>
  \<open>worker/scripts/clean_parent_sections.py\<close>: the maintenance script that rewrites stored section
  headings in both stores. \<open>clean_heading\<close> (an HTML parser) is a parameter. What the script does to the
  stores is a list of durable effects; a run that dies has performed a prefix of it.
\<close>

section \<open>Detection\<close>

definition REWRITE_BATCH :: nat where "REWRITE_BATCH = 500"

text \<open>A row of \<open>library_vectors\<close> with its auto-id and its untyped metadata.\<close>

record milvus_entry =
  me_id :: int
  me_vector :: "rat list"
  me_book_id :: string
  me_content_chunk :: string
  me_metadata :: json

definition target_parent_section :: "(string \<Rightarrow> string) \<Rightarrow> string option \<Rightarrow> string option" where
  "target_parent_section clean raw =
     (case raw of None \<Rightarrow> None | Some s \<Rightarrow> if clean s = [] then None else Some (clean s))"

definition is_dirty :: "(string \<Rightarrow> string) \<Rightarrow> json \<Rightarrow> bool" where
  "is_dirty clean raw = (case raw of JStr s \<Rightarrow> target_parent_section clean (Some s) \<noteq> Some s | _ \<Rightarrow> False)"

definition json_opt :: "string option \<Rightarrow> json" where
  "json_opt x = (case x of None \<Rightarrow> JNull | Some s \<Rightarrow> JStr s)"

definition corrected_milvus_row :: "(string \<Rightarrow> string) \<Rightarrow> milvus_entry \<Rightarrow> milvus_entry option" where
  "corrected_milvus_row clean row =
     (case me_metadata row of
        JObj metadata \<Rightarrow>
          (case map_of metadata ''parent_section'' of
             Some (JStr raw) \<Rightarrow>
               let cleaned = target_parent_section clean (Some raw)
               in if cleaned = Some raw then None
                  else Some (row\<lparr>me_metadata := JObj (AList.update ''parent_section'' (json_opt cleaned) metadata)\<rparr>)
           | _ \<Rightarrow> None)
      | _ \<Rightarrow> None)"

record book_report =
  bk_book_id :: uuid
  bk_pg_dirty :: nat
  bk_milvus_dirty :: nat
  bk_pg_missing_in_milvus :: "int list"
  bk_milvus_missing_in_pg :: "int list"

record stores =
  sto_db :: db
  sto_rows :: "milvus_entry list"
  sto_next_id :: int

definition fetch_book_rows :: "stores \<Rightarrow> uuid \<Rightarrow> milvus_entry list" where
  "fetch_book_rows s book_id = filter (\<lambda>r. me_book_id r = str_uuid book_id) (sto_rows s)"

text \<open>The dict of Postgres updates: a later row of the same index replaces an earlier one.\<close>

definition pg_updates :: "(string \<Rightarrow> string) \<Rightarrow> stores \<Rightarrow> uuid \<Rightarrow> (int \<times> string option) list" where
  "pg_updates clean s book_id = fold (\<lambda>c. AList.update (chk_chunk_index c) (target_parent_section clean (chk_parent_section c)))
     (filter (\<lambda>c. is_dirty clean (json_opt (chk_parent_section c)))
       (select_where (\<lambda>c. chk_book_id c = book_id) (chunks (sto_db s)))) []"

text \<open>The index a vector row claims, where its metadata has one.\<close>

definition row_index :: "milvus_entry \<Rightarrow> int option result" where
  "row_index row =
     (case me_metadata row of
        JObj metadata \<Rightarrow>
          (case map_of metadata ''chunk_index'' of
             None \<Rightarrow> Inr None
           | Some JNull \<Rightarrow> Inr None
           | Some x \<Rightarrow> (case int_of_meta (Some (MJson x)) of Inl e \<Rightarrow> Inl e | Inr i \<Rightarrow> Inr (Some i)))
      | _ \<Rightarrow> Inr None)"

text \<open>The scan of the vector rows: their indexes, the dirty rows with their corrections, the dirty indexes.\<close>

fun scan_rows :: "(string \<Rightarrow> string) \<Rightarrow> milvus_entry list \<Rightarrow> int list \<Rightarrow> (int \<times> milvus_entry) list \<Rightarrow> int list \<Rightarrow>
    (int list \<times> (int \<times> milvus_entry) list \<times> int list) result" where
  "scan_rows clean [] indexes fixes dirty = Inr (indexes, fixes, dirty)"
| "scan_rows clean (row # rows) indexes fixes dirty =
     (case row_index row of
        Inl e \<Rightarrow> Inl e
      | Inr idx \<Rightarrow>
          let indexes' = indexes @ (case idx of None \<Rightarrow> [] | Some i \<Rightarrow> [i])
          in case corrected_milvus_row clean row of
               None \<Rightarrow> scan_rows clean rows indexes' fixes dirty
             | Some fixed \<Rightarrow> scan_rows clean rows indexes' (fixes @ [(me_id row, fixed)])
                  (dirty @ (case idx of None \<Rightarrow> [] | Some i \<Rightarrow> [i])))"

section \<open>Effects\<close>

datatype store_effect =
    UpdatePg uuid "(int \<times> string option) list"
  | DeleteRows "int list"
  | InsertRows "milvus_entry list"

definition update_pg_rows :: "uuid \<Rightarrow> (int \<times> string option) list \<Rightarrow> db \<Rightarrow> db" where
  "update_pg_rows book_id updates d = d\<lparr>chunks := fold (\<lambda>(i, v).
     update_where (\<lambda>c. chk_book_id c = book_id \<and> chk_chunk_index c = i) (\<lambda>c. c\<lparr>chk_parent_section := v\<rparr>))
     (sort_key fst updates) (chunks d)\<rparr>"

text \<open>An insert mints new ids.\<close>

fun number_rows :: "int \<Rightarrow> milvus_entry list \<Rightarrow> milvus_entry list" where
  "number_rows n [] = []"
| "number_rows n (r # rs) = r\<lparr>me_id := n\<rparr> # number_rows (n + 1) rs"

fun perform :: "store_effect \<Rightarrow> stores \<Rightarrow> stores" where
  "perform (UpdatePg b ups) s = s\<lparr>sto_db := update_pg_rows b ups (sto_db s)\<rparr>"
| "perform (DeleteRows ids) s = s\<lparr>sto_rows := filter (\<lambda>r. me_id r \<notin> set ids) (sto_rows s)\<rparr>"
| "perform (InsertRows rows) s = s\<lparr>sto_rows := sto_rows s @ number_rows (sto_next_id s) rows,
     sto_next_id := sto_next_id s + int (length rows)\<rparr>"

definition performed :: "store_effect list \<Rightarrow> stores \<Rightarrow> stores" where
  "performed effs s = fold perform effs s"

text \<open>Each batch's delete is followed by its insert.\<close>

definition rewrite_milvus_rows :: "(int \<times> milvus_entry) list \<Rightarrow> store_effect list" where
  "rewrite_milvus_rows fixes = concat (map (\<lambda>batch. [DeleteRows (map fst batch), InsertRows (map snd batch)])
     (slices REWRITE_BATCH fixes))"

definition clean_book :: "(string \<Rightarrow> string) \<Rightarrow> uuid \<Rightarrow> bool \<Rightarrow> stores \<Rightarrow> (book_report \<times> store_effect list) result" where
  "clean_book clean book_id execute s =
     (let ups = pg_updates clean s book_id;
          pg_indexes = map chk_chunk_index (select_where (\<lambda>c. chk_book_id c = book_id) (chunks (sto_db s)))
      in case scan_rows clean (fetch_book_rows s book_id) [] [] [] of
           Inl e \<Rightarrow> Inl e
         | Inr (milvus_indexes, fixes, dirty_indexes) \<Rightarrow>
             Inr (\<lparr>bk_book_id = book_id, bk_pg_dirty = length ups, bk_milvus_dirty = length fixes,
                 bk_pg_missing_in_milvus = sort (filter (\<lambda>i. i \<notin> set milvus_indexes) (map fst ups)),
                 bk_milvus_missing_in_pg = sort (filter (\<lambda>i. i \<notin> set pg_indexes) dirty_indexes)\<rparr>,
               if \<not> execute then []
               else (if ups = [] then [] else [UpdatePg book_id ups]) @
                    (if fixes = [] then [] else rewrite_milvus_rows fixes)))"

text \<open>The books one after the other, each on the stores the one before left; the totals.\<close>

fun clean_books :: "(string \<Rightarrow> string) \<Rightarrow> bool \<Rightarrow> uuid list \<Rightarrow> nat \<Rightarrow> nat \<Rightarrow> stores \<Rightarrow> (nat \<times> nat) result \<times> stores" where
  "clean_books clean execute [] total_pg total_milvus s = (Inr (total_pg, total_milvus), s)"
| "clean_books clean execute (b # bs) total_pg total_milvus s =
     (case clean_book clean b execute s of
        Inl e \<Rightarrow> (Inl e, s)
      | Inr (report, effs) \<Rightarrow>
          clean_books clean execute bs (total_pg + bk_pg_dirty report) (total_milvus + bk_milvus_dirty report) (performed effs s))"

definition clean_sections :: "(string \<Rightarrow> string) \<Rightarrow> bool \<Rightarrow> uuid option \<Rightarrow> bool \<Rightarrow> stores \<Rightarrow> nat result \<times> (nat \<times> nat) \<times> stores" where
  "clean_sections clean has_collection only_book execute s =
     (if \<not> has_collection then (Inr 2, (0, 0), s)
      else let book_ids = (case only_book of Some b \<Rightarrow> [b] | None \<Rightarrow> map gb_book_id (global_books (sto_db s)))
           in case clean_books clean execute book_ids 0 0 s of
                (Inl e, s') \<Rightarrow> (Inl e, (0, 0), s')
              | (Inr totals, s') \<Rightarrow> (Inr 0, totals, s'))"

end
