(* ===== verification/Clean_Correct.thy ===== *)
theory Clean_Correct
  imports Clean_Sections Retrieval_Correct
begin

text \<open>
  What the heading script does to the stores: a run that finishes rewrites the headings and nothing else;
  a run that dies loses the vectors of one batch at most.
\<close>

section \<open>Vector rows\<close>

lemma mset_map_split: "mset (map g xs) = mset (map g (filter P xs)) + mset (map g (filter (\<lambda>x. \<not> P x) xs))"
  by (induction xs) auto

definition content_of :: "milvus_entry \<Rightarrow> rat list \<times> string \<times> string" where
  "content_of r = (me_vector r, me_book_id r, me_content_chunk r)"

text \<open>A row without its auto-id.\<close>

definition strip_id :: "milvus_entry \<Rightarrow> milvus_entry" where
  "strip_id r = r\<lparr>me_id := 0\<rparr>"

definition rows_ok :: "stores \<Rightarrow> bool" where
  "rows_ok s \<longleftrightarrow> distinct (map me_id (sto_rows s)) \<and> (\<forall>r \<in> set (sto_rows s). me_id r < sto_next_id s)"

text \<open>The fixes still to be made: each names a stored row, with a correction of the same content.\<close>

definition pending :: "stores \<Rightarrow> (int \<times> milvus_entry) list \<Rightarrow> bool" where
  "pending s fixes \<longleftrightarrow> distinct (map fst fixes) \<and>
     (\<forall>(i, f) \<in> set fixes. \<exists>r \<in> set (sto_rows s). me_id r = i \<and> content_of r = content_of f)"

lemma number_rows_props:
  "map strip_id (number_rows n rs) = map strip_id rs"
  "map content_of (number_rows n rs) = map content_of rs"
  "r \<in> set (number_rows n rs) \<Longrightarrow> n \<le> me_id r \<and> me_id r < n + int (length rs)"
  "distinct (map me_id (number_rows n rs))"
  "number_rows n (rs @ qs) = number_rows n rs @ number_rows (n + int (length rs)) qs"
proof -
  show ids: "r \<in> set (number_rows n rs) \<Longrightarrow> n \<le> me_id r \<and> me_id r < n + int (length rs)" for r n rs
    by (induction rs arbitrary: n) fastforce+
  show "distinct (map me_id (number_rows n rs))"
    using ids by (induction rs arbitrary: n) (simp, fastforce)
  show "map strip_id (number_rows n rs) = map strip_id rs" "map content_of (number_rows n rs) = map content_of rs"
    by (induction rs arbitrary: n) (simp_all add: strip_id_def content_of_def)
  show "number_rows n (rs @ qs) = number_rows n rs @ number_rows (n + int (length rs)) qs"
    by (induction rs arbitrary: n) (simp_all add: algebra_simps)
qed

definition after_batch :: "(int \<times> milvus_entry) list \<Rightarrow> stores \<Rightarrow> stores" where
  "after_batch b s = perform (InsertRows (map snd b)) (perform (DeleteRows (map fst b)) s)"

lemma after_batch_rows:
  "sto_rows (after_batch b s) = filter (\<lambda>r. me_id r \<notin> fst ` set b) (sto_rows s) @ number_rows (sto_next_id s) (map snd b)"
  "sto_next_id (after_batch b s) = sto_next_id s + int (length b)" "sto_db (after_batch b s) = sto_db s"
  by (simp_all add: after_batch_def)

lemma rows_ok_after: "rows_ok s \<Longrightarrow> rows_ok (after_batch b s)"
  using number_rows_props(3,4)
  by (fastforce simp: rows_ok_def after_batch_rows distinct_map_filter)

lemma pending_after:
  assumes "rows_ok s" "pending s (b @ fixes)"
  shows "pending (after_batch b s) fixes"
  unfolding pending_def
proof (intro conjI ballI)
  show "distinct (map fst fixes)" using assms(2) by (simp add: pending_def)
  fix x assume x: "x \<in> set fixes"
  obtain i f where f: "x = (i, f)" by (cases x)
  have "(i, f) \<in> set (b @ fixes)" using x f by simp
  then obtain r where r: "r \<in> set (sto_rows s)" "me_id r = i" "content_of r = content_of f"
    using assms(2) unfolding pending_def by blast
  have "i \<in> fst ` set fixes" using x f by force
  then have "i \<notin> fst ` set b" using assms(2) by (auto simp: pending_def)
  then show "case x of (i, f) \<Rightarrow> \<exists>r \<in> set (sto_rows (after_batch b s)). me_id r = i \<and> content_of r = content_of f"
    using r f by (auto simp: after_batch_rows)
qed

text \<open>The rows of a batch, taken out of the store, have the contents of the batch.\<close>

lemma batch_contents:
  assumes ok: "rows_ok s" and p: "pending s b"
  shows "mset (map content_of (filter (\<lambda>r. me_id r \<notin> fst ` set b) (sto_rows s))) + mset (map (content_of \<circ> snd) b) =
    mset (map content_of (sto_rows s))"
proof -
  define row where "row = (\<lambda>i. SOME r. r \<in> set (sto_rows s) \<and> me_id r = i)"
  have uniq: "row (me_id r) = r" if "r \<in> set (sto_rows s)" for r
    unfolding row_def using that ok by (auto simp: rows_ok_def distinct_map inj_on_def intro!: some_equality)
  have at: "row i \<in> set (sto_rows s) \<and> me_id (row i) = i \<and> content_of (row i) = content_of f" if "(i, f) \<in> set b" for i f
    using p that uniq unfolding pending_def by fastforce
  have "mset (filter (\<lambda>r. me_id r \<in> fst ` set b) (sto_rows s)) = mset (map (row \<circ> fst) b)"
  proof (rule set_eq_iff_mset_eq_distinct [THEN iffD1])
    show "distinct (filter (\<lambda>r. me_id r \<in> fst ` set b) (sto_rows s))" using ok by (auto simp: rows_ok_def distinct_map)
    have "me_id (row i) = i" if "i \<in> fst ` set b" for i using at that by auto
    then have "inj_on row (fst ` set b)" by (metis inj_onI)
    then show "distinct (map (row \<circ> fst) b)" using p
      by (simp add: pending_def distinct_map comp_inj_on) 
    show "set (filter (\<lambda>r. me_id r \<in> fst ` set b) (sto_rows s)) = set (map (row \<circ> fst) b)"
    proof (intro set_eqI iffI)
      fix r assume "r \<in> set (filter (\<lambda>r. me_id r \<in> fst ` set b) (sto_rows s))"
      then obtain x where "r \<in> set (sto_rows s)" "x \<in> set b" "me_id r = fst x" by auto
      then show "r \<in> set (map (row \<circ> fst) b)" using uniq [of r] by (auto intro!: image_eqI [of _ _ x])
    next
      fix r assume "r \<in> set (map (row \<circ> fst) b)"
      then obtain i f where "(i, f) \<in> set b" "r = row i" by auto
      then show "r \<in> set (filter (\<lambda>r. me_id r \<in> fst ` set b) (sto_rows s))" using at by force
    qed
  qed
  then have "mset (map content_of (filter (\<lambda>r. me_id r \<in> fst ` set b) (sto_rows s))) = mset (map (content_of \<circ> row \<circ> fst) b)"
    by (metis mset_map list.map_comp comp_assoc)
  moreover have "map (content_of \<circ> row \<circ> fst) b = map (content_of \<circ> snd) b" using at by auto
  moreover have "mset (map content_of (sto_rows s)) = mset (map content_of (filter (\<lambda>r. me_id r \<in> fst ` set b) (sto_rows s))) +
      mset (map content_of (filter (\<lambda>r. me_id r \<notin> fst ` set b) (sto_rows s)))"
    by (rule mset_map_split)
  ultimately show ?thesis by (simp add: ac_simps)
qed

text \<open>A prefix of the effects keeps every content but those of one batch at most.\<close>

definition batch_effects :: "(int \<times> milvus_entry) list list \<Rightarrow> store_effect list" where
  "batch_effects bs = concat (map (\<lambda>batch. [DeleteRows (map fst batch), InsertRows (map snd batch)]) bs)"

lemma batch_effects_run: "performed (batch_effects (b # bs)) s = performed (batch_effects bs) (after_batch b s)"
  by (simp add: batch_effects_def performed_def after_batch_def)

lemma performed_take_batch:
  "performed (take (Suc (Suc k)) (batch_effects (b # bs))) s = performed (take k (batch_effects bs)) (after_batch b s)"
  by (simp add: batch_effects_def performed_def after_batch_def)

lemma after_batch_contents:
  assumes "rows_ok s" "pending s b"
  shows "mset (map content_of (sto_rows (after_batch b s))) = mset (map content_of (sto_rows s))"
  using batch_contents [OF assms] by (simp add: after_batch_rows number_rows_props(2) comp_def)

lemma pending_app: "pending s (b @ fixes) \<Longrightarrow> pending s b"
  by (auto simp: pending_def)

lemma crash_contents:
  assumes "rows_ok s" "pending s (concat bs)" "\<forall>b \<in> set bs. length b \<le> n"
  shows "\<exists>lost. size lost \<le> n \<and> (even k \<or> length (batch_effects bs) \<le> k \<longrightarrow> lost = {#}) \<and>
    mset (map content_of (sto_rows (performed (take k (batch_effects bs)) s))) + lost = mset (map content_of (sto_rows s)) \<and>
    sto_db (performed (take k (batch_effects bs)) s) = sto_db s"
  using assms
proof (induction bs arbitrary: s k)
  case Nil
  then show ?case by (intro exI [of _ "{#}"]) (simp add: batch_effects_def performed_def)
next
  case (Cons b bs)
  have p: "pending s (b @ concat bs)" using Cons.prems(2) by simp
  consider "k = 0" | "k = 1" | j where "k = Suc (Suc j)" by (metis One_nat_def not0_implies_Suc)
  then show ?case
  proof cases
    case 1
    then show ?thesis by (intro exI [of _ "{#}"]) (simp add: performed_def)
  next
    case 2
    have "mset (map content_of (sto_rows (perform (DeleteRows (map fst b)) s))) + mset (map (content_of \<circ> snd) b) =
        mset (map content_of (sto_rows s))"
      using batch_contents [OF Cons.prems(1) pending_app [OF p]] by simp
    then show ?thesis using Cons.prems(3) 2
      by (intro exI [of _ "mset (map (content_of \<circ> snd) b)"]) (simp add: batch_effects_def performed_def)
  next
    case (3 j)
    have ok: "rows_ok (after_batch b s)" by (rule rows_ok_after [OF Cons.prems(1)])
    have p': "pending (after_batch b s) (concat bs)" by (rule pending_after [OF Cons.prems(1) p])
    have n: "\<forall>b \<in> set bs. length b \<le> n" using Cons.prems(3) by simp
    have len: "length (batch_effects (b # bs)) = Suc (Suc (length (batch_effects bs)))" by (simp add: batch_effects_def)
    show ?thesis
      using Cons.IH [OF ok p' n, of j] after_batch_contents [OF Cons.prems(1) pending_app [OF p]]
      unfolding 3 performed_take_batch len by (simp add: after_batch_rows(3))
  qed
qed

text \<open>The scan collects the corrections of the dirty rows, and they are pending.\<close>

definition fixes_of :: "(string \<Rightarrow> string) \<Rightarrow> milvus_entry list \<Rightarrow> (int \<times> milvus_entry) list" where
  "fixes_of clean rows = map (\<lambda>r. (me_id r, the (corrected_milvus_row clean r))) (filter (\<lambda>r. corrected_milvus_row clean r \<noteq> None) rows)"

lemma scan_fixes: "scan_rows clean rows ix fx dx = Inr (ix', fx', dx') \<Longrightarrow> fx' = fx @ fixes_of clean rows"
proof (induction rows arbitrary: ix fx dx)
  case (Cons r rows)
  then show ?case
    by (auto simp: fixes_of_def Let_def split: sum.splits option.splits dest!: Cons.IH)
qed (simp add: fixes_of_def)

lemma corrected_content: "corrected_milvus_row clean r = Some f \<Longrightarrow> content_of f = content_of r"
  by (auto simp: corrected_milvus_row_def content_of_def Let_def split: json.splits option.splits if_splits)

lemma fixes_pending:
  assumes "rows_ok s"
  shows "pending s (fixes_of clean (fetch_book_rows s b))"
proof -
  have "distinct (map fst (fixes_of clean (fetch_book_rows s b)))"
    using assms by (simp add: fixes_of_def fetch_book_rows_def rows_ok_def comp_def distinct_map_filter)
  then show ?thesis using corrected_content
    by (fastforce simp: pending_def fixes_of_def fetch_book_rows_def)
qed

section \<open>Postgres rows\<close>

definition chunk_keys_ok :: "db \<Rightarrow> bool" where
  "chunk_keys_ok d \<longleftrightarrow> distinct (map (\<lambda>c. (chk_book_id c, chk_chunk_index c)) (chunks d))"

lemma update_new: "k \<notin> fst ` set al \<Longrightarrow> AList.update k v al = al @ [(k, v)]"
  by (induction al) auto

lemma dict_of_distinct:
  "distinct (map fst acc @ map k xs) \<Longrightarrow> fold (\<lambda>x. AList.update (k x) (v x)) xs acc = acc @ map (\<lambda>x. (k x, v x)) xs"
  by (induction xs arbitrary: acc) (auto simp: update_new)

text \<open>The dirty chunks of a book, each with the value it should hold.\<close>

definition chunk_dirty :: "(string \<Rightarrow> string) \<Rightarrow> chunk_row \<Rightarrow> bool" where
  "chunk_dirty clean c \<longleftrightarrow> is_dirty clean (json_opt (chk_parent_section c))"

lemma clean_target: "\<not> chunk_dirty clean c \<Longrightarrow> target_parent_section clean (chk_parent_section c) = chk_parent_section c"
  by (auto simp: chunk_dirty_def is_dirty_def json_opt_def target_parent_section_def split: option.splits if_splits)

lemma dirty_target: "chunk_dirty clean c \<Longrightarrow> target_parent_section clean (chk_parent_section c) \<noteq> chk_parent_section c"
  by (auto simp: chunk_dirty_def is_dirty_def json_opt_def split: option.splits)

lemma pg_updates_eq:
  assumes "chunk_keys_ok (sto_db s)"
  shows "pg_updates clean s b = map (\<lambda>c. (chk_chunk_index c, target_parent_section clean (chk_parent_section c)))
    (filter (\<lambda>c. chk_book_id c = b \<and> chunk_dirty clean c) (chunks (sto_db s)))"
proof -
  have "inj_on chk_chunk_index {c \<in> set (chunks (sto_db s)). chk_book_id c = b \<and> chunk_dirty clean c}"
    using assms by (auto simp: chunk_keys_ok_def distinct_map inj_on_def)
  then have "distinct (map chk_chunk_index (filter (\<lambda>c. chk_book_id c = b \<and> chunk_dirty clean c) (chunks (sto_db s))))"
    using assms by (auto simp: chunk_keys_ok_def distinct_map)
  then show ?thesis
    by (simp add: pg_updates_def select_where_def conj_commute flip: chunk_dirty_def) (subst dict_of_distinct, simp_all)
qed

definition put_section :: "uuid \<Rightarrow> (int \<times> string option) list \<Rightarrow> chunk_row \<Rightarrow> chunk_row" where
  "put_section b ups c = (if chk_book_id c = b then (case map_of ups (chk_chunk_index c) of
     None \<Rightarrow> c | Some v \<Rightarrow> c\<lparr>chk_parent_section := v\<rparr>) else c)"

lemma update_fold:
  "distinct (map fst ups) \<Longrightarrow> fold (\<lambda>(i, v). update_where (\<lambda>c. chk_book_id c = b \<and> chk_chunk_index c = i)
     (\<lambda>c. c\<lparr>chk_parent_section := v\<rparr>)) ups cs = map (put_section b ups) cs"
proof (induction ups arbitrary: cs)
  case (Cons u ups)
  obtain i v where u: "u = (i, v)" by (cases u)
  have new: "map_of ups i = None" using Cons.prems by (simp add: u map_of_eq_None_iff)
  have "put_section b ups (if chk_book_id c = b \<and> chk_chunk_index c = i then c\<lparr>chk_parent_section := v\<rparr> else c) =
      put_section b (u # ups) c" for c
    using new by (simp add: put_section_def u)
  then show ?case using Cons by (simp add: u update_where_def)
qed (simp add: put_section_def map_idI)

lemma update_pg_rows_chunks:
  assumes "distinct (map fst ups)"
  shows "chunks (update_pg_rows b ups d) = map (put_section b ups) (chunks d)"
proof -
  have dist: "distinct (map fst (sort_key fst ups))"
    using assms by (metis distinct_map distinct_sort set_sort)
  then have "map_of (sort_key fst ups) = map_of ups"
    using assms by (metis map_of_inject_set set_sort)
  then show ?thesis by (simp add: update_pg_rows_def update_fold [OF dist]) (simp add: put_section_def)
qed

lemma sections_rewritten:
  assumes ok: "chunk_keys_ok (sto_db s)"
  shows "chunks (update_pg_rows b (pg_updates clean s b) (sto_db s)) =
    map (\<lambda>c. if chk_book_id c = b then c\<lparr>chk_parent_section := target_parent_section clean (chk_parent_section c)\<rparr> else c)
      (chunks (sto_db s))"
proof -
  let ?ups = "pg_updates clean s b" and ?cs = "chunks (sto_db s)"
  have dist: "distinct (map fst ?ups)"
    using ok by (auto simp: pg_updates_eq [OF ok] chunk_keys_ok_def distinct_map comp_def inj_on_def)
  have "put_section b ?ups c = (if chk_book_id c = b
      then c\<lparr>chk_parent_section := target_parent_section clean (chk_parent_section c)\<rparr> else c)" if c: "c \<in> set ?cs" for c
  proof (cases "chk_book_id c = b \<and> chunk_dirty clean c")
    case True
    then have "(chk_chunk_index c, target_parent_section clean (chk_parent_section c)) \<in> set ?ups"
      using c by (auto simp: pg_updates_eq [OF ok])
    then have "map_of ?ups (chk_chunk_index c) = Some (target_parent_section clean (chk_parent_section c))"
      using dist by simp
    then show ?thesis using True by (simp add: put_section_def)
  next
    case False
    have "map_of ?ups (chk_chunk_index c) = None" if "chk_book_id c = b"
    proof -
      have "c' = c" if "c' \<in> set ?cs" "chk_book_id c' = b" "chk_chunk_index c' = chk_chunk_index c" for c'
        using that c ok \<open>chk_book_id c = b\<close> by (auto simp: chunk_keys_ok_def distinct_map inj_on_def)
      then show ?thesis using False \<open>chk_book_id c = b\<close> by (force simp: pg_updates_eq [OF ok] map_of_eq_None_iff)
    qed
    then show ?thesis using False clean_target [of clean c] by (auto simp: put_section_def)
  qed
  then show ?thesis by (simp add: update_pg_rows_chunks [OF dist])
qed

section \<open>A whole run\<close>

lemma pending_old: "rows_ok s \<Longrightarrow> pending s fixes \<Longrightarrow> (i, f) \<in> set fixes \<Longrightarrow> i < sto_next_id s"
  by (auto simp: pending_def rows_ok_def)

lemma run_rows:
  assumes "rows_ok s" "pending s (concat bs)"
  shows "sto_rows (performed (batch_effects bs) s) = filter (\<lambda>r. me_id r \<notin> fst ` set (concat bs)) (sto_rows s) @
      number_rows (sto_next_id s) (map snd (concat bs))"
    and "rows_ok (performed (batch_effects bs) s)" and "sto_db (performed (batch_effects bs) s) = sto_db s"
proof -
  have "sto_rows (performed (batch_effects bs) s) = filter (\<lambda>r. me_id r \<notin> fst ` set (concat bs)) (sto_rows s) @
      number_rows (sto_next_id s) (map snd (concat bs)) \<and> rows_ok (performed (batch_effects bs) s) \<and>
      sto_db (performed (batch_effects bs) s) = sto_db s"
    using assms
  proof (induction bs arbitrary: s)
    case (Cons b bs)
    have p: "pending s (b @ concat bs)" using Cons.prems(2) by simp
    have old: "i < sto_next_id s" if "i \<in> fst ` set (concat bs)" for i
      using that pending_old [OF Cons.prems(1) p] by (force simp del: set_concat)
    have "filter (\<lambda>r. me_id r \<notin> fst ` set (concat bs)) (number_rows (sto_next_id s) (map snd b)) =
        number_rows (sto_next_id s) (map snd b)"
      by (rule filter_True) (use old number_rows_props(3) in fastforce)
    then show ?case
      using Cons.IH [OF rows_ok_after [OF Cons.prems(1)] pending_after [OF Cons.prems(1) p]]
      unfolding batch_effects_run
      by (simp add: after_batch_rows number_rows_props(5) conj_commute image_Un)
  qed (simp add: batch_effects_def performed_def)
  then show "sto_rows (performed (batch_effects bs) s) = filter (\<lambda>r. me_id r \<notin> fst ` set (concat bs)) (sto_rows s) @
      number_rows (sto_next_id s) (map snd (concat bs))"
    "rows_ok (performed (batch_effects bs) s)" "sto_db (performed (batch_effects bs) s) = sto_db s" by simp_all
qed

text \<open>The row a run leaves in the place of a row.\<close>

definition rewritten :: "(string \<Rightarrow> string) \<Rightarrow> uuid \<Rightarrow> milvus_entry \<Rightarrow> milvus_entry" where
  "rewritten clean b r = (if me_book_id r = str_uuid b
     then (case corrected_milvus_row clean r of None \<Rightarrow> r | Some f \<Rightarrow> f) else r)"

lemma clean_book_Inr:
  assumes "clean_book clean b True s = Inr (rep, effs)"
  shows "effs = (if pg_updates clean s b = [] then [] else [UpdatePg b (pg_updates clean s b)]) @
      batch_effects (slices REWRITE_BATCH (fixes_of clean (fetch_book_rows s b)))"
    and "bk_pg_dirty rep = length (pg_updates clean s b)"
    and "bk_milvus_dirty rep = length (fixes_of clean (fetch_book_rows s b))"
proof -
  obtain ix fx dx where scan: "scan_rows clean (fetch_book_rows s b) [] [] [] = Inr (ix, fx, dx)"
    using assms by (auto simp: clean_book_def Let_def split: sum.splits)
  have fx: "fx = fixes_of clean (fetch_book_rows s b)" using scan_fixes [OF scan] by simp
  have nil: "slices REWRITE_BATCH [] = []" by (simp add: slices.simps)
  show "effs = (if pg_updates clean s b = [] then [] else [UpdatePg b (pg_updates clean s b)]) @
      batch_effects (slices REWRITE_BATCH (fixes_of clean (fetch_book_rows s b)))"
    "bk_pg_dirty rep = length (pg_updates clean s b)"
    "bk_milvus_dirty rep = length (fixes_of clean (fetch_book_rows s b))"
    using assms scan by (auto simp: clean_book_def Let_def fx rewrite_milvus_rows_def batch_effects_def nil)
qed

lemma perform_pg: "perform (UpdatePg b ups) s = s\<lparr>sto_db := update_pg_rows b ups (sto_db s)\<rparr>"
  by simp

lemma perform_db: "perform e s = s' \<Longrightarrow> e \<in> set (batch_effects bs) \<Longrightarrow> perform e (s\<lparr>sto_db := d\<rparr>) = s'\<lparr>sto_db := d\<rparr>"
  by (auto simp: batch_effects_def)

lemma performed_db:
  "performed (take j (batch_effects bs)) (s\<lparr>sto_db := d\<rparr>) = (performed (take j (batch_effects bs)) s)\<lparr>sto_db := d\<rparr>"
proof -
  have "set es \<subseteq> set (batch_effects bs) \<Longrightarrow> performed es (s\<lparr>sto_db := d\<rparr>) = (performed es s)\<lparr>sto_db := d\<rparr>" for es s
    by (induction es arbitrary: s) (auto simp: performed_def perform_db [OF refl])
  then show ?thesis by (simp add: set_take_subset)
qed

lemma batch_effects_db:
  "performed (batch_effects bs) (s\<lparr>sto_db := d\<rparr>) = (performed (batch_effects bs) s)\<lparr>sto_db := d\<rparr>"
  using performed_db [of "length (batch_effects bs)" bs] by simp

lemma run_db:
  assumes "rows_ok s" "chunk_keys_ok (sto_db s)" "clean_book clean b True s = Inr (rep, effs)"
  shows "sto_rows (performed effs s) = filter (\<lambda>r. me_id r \<notin> fst ` set (fixes_of clean (fetch_book_rows s b))) (sto_rows s) @
      number_rows (sto_next_id s) (map snd (fixes_of clean (fetch_book_rows s b)))"
    and "rows_ok (performed effs s)"
    and "chunks (sto_db (performed effs s)) = map (\<lambda>c. if chk_book_id c = b
      then c\<lparr>chk_parent_section := target_parent_section clean (chk_parent_section c)\<rparr> else c) (chunks (sto_db s))"
proof -
  let ?bs = "slices REWRITE_BATCH (fixes_of clean (fetch_book_rows s b))" and ?ups = "pg_updates clean s b"
  have bs: "concat ?bs = fixes_of clean (fetch_book_rows s b)" by (simp add: concat_slices REWRITE_BATCH_def)
  have p: "pending s (concat ?bs)" unfolding bs by (rule fixes_pending [OF assms(1)])
  note run = run_rows [OF assms(1) p, unfolded bs]
  have none: "?ups = [] \<Longrightarrow> update_pg_rows b ?ups (sto_db s) = sto_db s" by (simp add: update_pg_rows_def)
  have eff: "performed effs s = (performed (batch_effects ?bs) s)\<lparr>sto_db := update_pg_rows b ?ups (sto_db s)\<rparr>"
  proof (cases "?ups = []")
    case True
    then show ?thesis using clean_book_Inr(1) [OF assms(3)] none run(3) by simp
  next
    case False
    then have "performed effs s = performed (batch_effects ?bs) (s\<lparr>sto_db := update_pg_rows b ?ups (sto_db s)\<rparr>)"
      using clean_book_Inr(1) [OF assms(3)] by (simp add: performed_def)
    then show ?thesis by (simp only: batch_effects_db)
  qed
  show "sto_rows (performed effs s) = filter (\<lambda>r. me_id r \<notin> fst ` set (fixes_of clean (fetch_book_rows s b))) (sto_rows s) @
      number_rows (sto_next_id s) (map snd (fixes_of clean (fetch_book_rows s b)))" using run(1) by (simp add: eff)
  show "rows_ok (performed effs s)" using run(2) by (simp add: eff rows_ok_def)
  show "chunks (sto_db (performed effs s)) = map (\<lambda>c. if chk_book_id c = b
      then c\<lparr>chk_parent_section := target_parent_section clean (chk_parent_section c)\<rparr> else c) (chunks (sto_db s))"
    using sections_rewritten [OF assms(2)] by (simp add: eff)
qed

lemma corrected_iff: "corrected_milvus_row clean (r\<lparr>me_id := i\<rparr>) = map_option (\<lambda>f. f\<lparr>me_id := i\<rparr>) (corrected_milvus_row clean r)"
  by (auto simp: corrected_milvus_row_def Let_def split: json.splits option.splits)

lemma corrected_id: "corrected_milvus_row clean r = Some f \<Longrightarrow> me_id f = me_id r"
  by (auto simp: corrected_milvus_row_def Let_def split: json.splits option.splits if_splits)

text \<open>Whether a heading comes out of the cleaning the way it went in.\<close>

definition settled :: "(string \<Rightarrow> string) \<Rightarrow> string option \<Rightarrow> bool" where
  "settled clean x \<longleftrightarrow> target_parent_section clean (target_parent_section clean x) = target_parent_section clean x"

lemma corrected_again:
  assumes "\<And>x. settled clean x" "corrected_milvus_row clean r = Some f"
  shows "corrected_milvus_row clean f = None"
proof -
  obtain kvs raw where r: "me_metadata r = JObj kvs" "map_of kvs ''parent_section'' = Some (JStr raw)"
    and f: "f = r\<lparr>me_metadata := JObj (AList.update ''parent_section'' (json_opt (target_parent_section clean (Some raw))) kvs)\<rparr>"
    using assms(2) by (auto simp: corrected_milvus_row_def Let_def split: json.splits option.splits if_splits)
  show ?thesis
  proof (cases "target_parent_section clean (Some raw)")
    case (Some t)
    have "target_parent_section clean (Some t) = Some t"
      using assms(1) [of "Some raw"] unfolding settled_def by (simp only: Some)
    then show ?thesis by (simp add: corrected_milvus_row_def f update_conv' Some json_opt_def)
  qed (simp add: corrected_milvus_row_def f update_conv' json_opt_def)
qed

section \<open>Properties\<close>

lemma strip_partition:
  assumes ok: "rows_ok s"
  shows "mset (map strip_id (filter (\<lambda>r. me_id r \<notin> fst ` set (fixes_of clean (fetch_book_rows s b))) (sto_rows s))) +
      mset (map (strip_id \<circ> snd) (fixes_of clean (fetch_book_rows s b))) =
    mset (map (strip_id \<circ> rewritten clean b) (sto_rows s))"
proof -
  let ?dirty = "\<lambda>r. me_book_id r = str_uuid b \<and> corrected_milvus_row clean r \<noteq> None"
  let ?rows = "sto_rows s" and ?fixes = "fixes_of clean (fetch_book_rows s b)"
  have ids: "me_id r \<in> fst ` set ?fixes \<longleftrightarrow> ?dirty r" if "r \<in> set ?rows" for r
  proof -
    have "r' = r" if "r' \<in> set ?rows" "me_id r' = me_id r" for r'
      using that \<open>r \<in> set ?rows\<close> ok by (auto simp: rows_ok_def distinct_map inj_on_def)
    then show ?thesis using \<open>r \<in> set ?rows\<close> by (auto simp: fixes_of_def fetch_book_rows_def image_iff)
  qed
  have "filter (\<lambda>r. me_id r \<notin> fst ` set ?fixes) ?rows = filter (\<lambda>r. \<not> ?dirty r) ?rows"
    by (rule filter_cong) (simp_all add: ids)
  moreover have "map strip_id (filter (\<lambda>r. \<not> ?dirty r) ?rows) = map (strip_id \<circ> rewritten clean b) (filter (\<lambda>r. \<not> ?dirty r) ?rows)"
    by (auto simp: rewritten_def)
  moreover have "?fixes = map (\<lambda>r. (me_id r, the (corrected_milvus_row clean r))) (filter ?dirty ?rows)"
    by (simp add: fixes_of_def fetch_book_rows_def conj_commute)
  then have "map (strip_id \<circ> snd) ?fixes = map (strip_id \<circ> rewritten clean b) (filter ?dirty ?rows)"
    by (auto simp: rewritten_def)
  ultimately show ?thesis
    using mset_map_split [of "strip_id \<circ> rewritten clean b" ?rows ?dirty] by (simp only: add.commute)
qed

text \<open>
  C24: a run of the heading script that finishes rewrites the section headings of the book in both stores
  to their cleaned form and changes nothing else: the other columns and books in Postgres, the vectors,
  texts and other metadata in the vector store stay, up to new auto-ids. A second run finds no dirty
  chunk exactly if cleaning the cleaned headings of the book changes none of them, and finds no dirty
  vector row if that holds for every heading.
\<close>

theorem clean_book_rewrites:
  assumes "rows_ok s" and "chunk_keys_ok (sto_db s)" and "clean_book clean b True s = Inr (rep, effs)"
    and "s' = performed effs s"
  shows "chunks (sto_db s') = map (\<lambda>c. if chk_book_id c = b
      then c\<lparr>chk_parent_section := target_parent_section clean (chk_parent_section c)\<rparr> else c) (chunks (sto_db s)) \<and>
    mset (map strip_id (sto_rows s')) = mset (map (strip_id \<circ> rewritten clean b) (sto_rows s)) \<and> rows_ok s' \<and>
    (pg_updates clean s' b = [] \<longleftrightarrow> (\<forall>c \<in> set (chunks (sto_db s)). chk_book_id c = b \<longrightarrow> settled clean (chk_parent_section c))) \<and>
    ((\<forall>x. settled clean x) \<longrightarrow> fixes_of clean (fetch_book_rows s' b) = [])"
proof (intro conjI impI)
  let ?fixes = "fixes_of clean (fetch_book_rows s b)"
  note run = run_db [OF assms(1-3), folded assms(4)]
  show chunks: "chunks (sto_db s') = map (\<lambda>c. if chk_book_id c = b
      then c\<lparr>chk_parent_section := target_parent_section clean (chk_parent_section c)\<rparr> else c) (chunks (sto_db s))" by (rule run(3))
  show rows: "mset (map strip_id (sto_rows s')) = mset (map (strip_id \<circ> rewritten clean b) (sto_rows s))"
    using strip_partition [OF assms(1), of clean b] by (simp add: run(1) number_rows_props(1) comp_def)
  show "rows_ok s'" by (rule run(2))
  have keys: "chunk_keys_ok (sto_db s')" using assms(2) by (simp add: chunk_keys_ok_def chunks comp_def if_distrib cong: if_cong)
  have dirty: "chunk_dirty clean (c\<lparr>chk_parent_section := target_parent_section clean (chk_parent_section c)\<rparr>) \<longleftrightarrow>
      \<not> settled clean (chk_parent_section c)" for c
    using clean_target [of clean "c\<lparr>chk_parent_section := target_parent_section clean (chk_parent_section c)\<rparr>"]
      dirty_target [of clean "c\<lparr>chk_parent_section := target_parent_section clean (chk_parent_section c)\<rparr>"]
    by (auto simp: settled_def)
  show "pg_updates clean s' b = [] \<longleftrightarrow> (\<forall>c \<in> set (chunks (sto_db s)). chk_book_id c = b \<longrightarrow> settled clean (chk_parent_section c))"
    unfolding pg_updates_eq [OF keys] chunks by (auto simp: filter_map comp_def filter_empty_conv dirty)
  assume settled: "\<forall>x. settled clean x"
  have "corrected_milvus_row clean r' = None" if "r' \<in> set (sto_rows s')" "me_book_id r' = str_uuid b" for r'
  proof -
    have "strip_id r' \<in> set (map (strip_id \<circ> rewritten clean b) (sto_rows s))"
      using mset_eq_setD [OF rows] that(1) by auto
    then obtain r where r: "strip_id r' = strip_id (rewritten clean b r)" by auto
    have "me_book_id (rewritten clean b r) = me_book_id r"
      using corrected_content [of clean r] by (auto simp: rewritten_def content_of_def split: option.split)
    then have "me_book_id r = str_uuid b" using arg_cong [OF r, of me_book_id] that(2) by (simp add: strip_id_def)
    then have "corrected_milvus_row clean (rewritten clean b r) = None"
      using corrected_again [of clean r] settled by (auto simp: rewritten_def split: option.splits)
    then have "corrected_milvus_row clean (strip_id r') = None" unfolding r by (simp add: strip_id_def corrected_iff)
    then show ?thesis by (simp add: strip_id_def corrected_iff)
  qed
  then show "fixes_of clean (fetch_book_rows s' b) = []" by (auto simp: fixes_of_def fetch_book_rows_def filter_empty_conv)
qed

text \<open>
  C25: a run of the heading script that dies at any point loses the vectors of at most one batch of 500
  rows, and of none between batches; no vector or text is altered, and Postgres keeps every chunk with
  its text whatever happens.
\<close>

theorem clean_crash_window:
  assumes "rows_ok s" and "chunk_keys_ok (sto_db s)" and "clean_book clean b True s = Inr (rep, effs)"
    and "s' = performed (take k effs) s"
  shows "\<exists>lost. size lost \<le> 500 \<and> (length effs \<le> k \<longrightarrow> lost = {#}) \<and>
      mset (map content_of (sto_rows s')) + lost = mset (map content_of (sto_rows s)) \<and>
      map (\<lambda>c. c\<lparr>chk_parent_section := None\<rparr>) (chunks (sto_db s')) =
        map (\<lambda>c. c\<lparr>chk_parent_section := None\<rparr>) (chunks (sto_db s))"
proof -
  let ?bs = "slices REWRITE_BATCH (fixes_of clean (fetch_book_rows s b))" and ?ups = "pg_updates clean s b"
  let ?bare = "\<lambda>c :: chunk_row. c\<lparr>chk_parent_section := None\<rparr>"
  have p: "pending s (concat ?bs)" using fixes_pending [OF assms(1)] by (simp add: concat_slices REWRITE_BATCH_def)
  have n: "\<forall>x \<in> set ?bs. length x \<le> 500" using slices_bounds by (fastforce simp: REWRITE_BATCH_def)
  have "map ?bare (chunks (update_pg_rows b ?ups (sto_db s))) = map ?bare (chunks (sto_db s))"
    by (simp add: sections_rewritten [OF assms(2)])
  moreover have "\<exists>j d. s' = (performed (take j (batch_effects ?bs)) s)\<lparr>sto_db := d\<rparr> \<and> (length effs \<le> k \<longrightarrow> length (batch_effects ?bs) \<le> j) \<and>
      (d = sto_db s \<or> d = update_pg_rows b ?ups (sto_db s))"
  proof (cases "?ups = [] \<or> k = 0")
    case True
    then have "s' = (performed (take (if k = 0 then 0 else k) (batch_effects ?bs)) s)\<lparr>sto_db := sto_db s\<rparr>"
      using crash_contents [OF assms(1) p n, of k] clean_book_Inr(1) [OF assms(3)] assms(4)
      by (auto simp: performed_def)
    then show ?thesis using True clean_book_Inr(1) [OF assms(3)]
      by (intro exI [of _ k] exI [of _ "sto_db s"]) (auto split: if_splits)
  next
    case False
    then obtain j where k: "k = Suc j" by (cases k) auto
    have take_db: "performed (take j (batch_effects ?bs)) (s\<lparr>sto_db := d\<rparr>) = (performed (take j (batch_effects ?bs)) s)\<lparr>sto_db := d\<rparr>" for d
      by (rule performed_db)
    have "s' = (performed (take j (batch_effects ?bs)) s)\<lparr>sto_db := update_pg_rows b ?ups (sto_db s)\<rparr>"
      using False take_db clean_book_Inr(1) [OF assms(3)] assms(4) by (simp add: k performed_def)
    then show ?thesis using False clean_book_Inr(1) [OF assms(3)] k by auto
  qed
  ultimately obtain j d where s': "s' = (performed (take j (batch_effects ?bs)) s)\<lparr>sto_db := d\<rparr>"
    and j: "length effs \<le> k \<longrightarrow> length (batch_effects ?bs) \<le> j" and d: "map ?bare (chunks d) = map ?bare (chunks (sto_db s))" by metis
  show ?thesis using crash_contents [OF assms(1) p n, of j] j d by (auto simp: s')
qed

section \<open>A run\<close>

text \<open>One chunk and its vector, under the heading \<open><a\<close>; the cleaner drops the angle bracket.\<close>

definition demo_cleaner :: "string \<Rightarrow> string" where
  "demo_cleaner s = filter (\<lambda>c. c \<noteq> CHR ''<'') s"

definition demo_entry :: "string \<Rightarrow> int \<Rightarrow> milvus_entry" where
  "demo_entry heading i = \<lparr>me_id = i, me_vector = [1], me_book_id = str_uuid 3, me_content_chunk = ''t'',
     me_metadata = JObj [(''chunk_index'', JInt 0), (''parent_section'', JStr heading)]\<rparr>"

definition demo_stores :: stores where
  "demo_stores = \<lparr>sto_db = empty_db\<lparr>chunks := [\<lparr>chk_chunk_id = 1, chk_book_id = 3, chk_chunk_index = 0, chk_content = ''t'',
       chk_parent_section = Some ''<a'', chk_filename = ''f'', chk_created_at = 0\<rparr>]\<rparr>,
     sto_rows = [demo_entry ''<a'' 7], sto_next_id = 8\<rparr>"

lemma demo_clean:
  "clean_book demo_cleaner 3 True demo_stores =
     Inr (\<lparr>bk_book_id = 3, bk_pg_dirty = 1, bk_milvus_dirty = 1, bk_pg_missing_in_milvus = [], bk_milvus_missing_in_pg = []\<rparr>,
       [UpdatePg 3 [(0, Some ''a'')], DeleteRows [7], InsertRows [demo_entry ''a'' 7]])"
proof -
  have "slices 500 [x] = [[x]]" for x :: "int \<times> milvus_entry" by (simp add: slices.simps)
  then show ?thesis
    by (simp add: clean_book_def pg_updates_def fetch_book_rows_def demo_stores_def demo_entry_def demo_cleaner_def select_where_def
        is_dirty_def json_opt_def target_parent_section_def row_index_def corrected_milvus_row_def rewrite_milvus_rows_def
        REWRITE_BATCH_def Let_def)
qed

lemma demo_stores_ok: "rows_ok demo_stores" "chunk_keys_ok (sto_db demo_stores)"
  by (simp_all add: rows_ok_def chunk_keys_ok_def demo_stores_def demo_entry_def)

theorem clean_book_rewrites_witness:
  "map chk_parent_section (chunks (sto_db (performed [UpdatePg 3 [(0, Some ''a'')], DeleteRows [7], InsertRows [demo_entry ''a'' 7]] demo_stores))) =
     [Some ''a''] \<and>
   pg_updates demo_cleaner (performed [UpdatePg 3 [(0, Some ''a'')], DeleteRows [7], InsertRows [demo_entry ''a'' 7]] demo_stores) 3 = []"
  using clean_book_rewrites [OF demo_stores_ok demo_clean refl]
  by (simp add: demo_stores_def settled_def target_parent_section_def demo_cleaner_def)

theorem clean_crash_window_witness:
  "sto_rows (performed (take 2 [UpdatePg 3 [(0, Some ''a'')], DeleteRows [7], InsertRows [demo_entry ''a'' 7]]) demo_stores) = [] \<and>
   (\<exists>lost. size lost \<le> 500 \<and> lost = {#content_of (demo_entry ''<a'' 7)#})"
proof -
  have lost: "sto_rows (performed (take 2 [UpdatePg 3 [(0, Some ''a'')], DeleteRows [7], InsertRows [demo_entry ''a'' 7]]) demo_stores) = []"
    by (simp add: performed_def demo_stores_def demo_entry_def)
  show ?thesis
    using clean_crash_window [OF demo_stores_ok demo_clean refl, of 2] lost
    by (auto simp: demo_stores_def content_of_def demo_entry_def)
qed

end
