(* ===== verification/Observability.thy ===== *)
theory Observability
  imports Uploads
begin

text \<open>
  \<open>api/observability.py\<close> and \<open>worker/obs.py\<close>: the deny-list redaction of log lines and Sentry events, the
  correlation id from the request header over the Celery message to the worker's log context, and the
  middleware that times requests. structlog, Sentry and the ASGI application are parameters.
\<close>

section \<open>Redaction\<close>

definition API_DENY_SUBSTRINGS :: "string list" where
  "API_DENY_SUBSTRINGS = [''authorization'', ''token'', ''password'', ''passwd'', ''secret'', ''api_key'', ''apikey'',
     ''dsn'', ''jwt'', ''cookie'', ''set-cookie'', ''refresh_token'', ''access_token'', ''code_verifier'', ''client_secret'']"

definition WORKER_DENY_SUBSTRINGS :: "string list" where
  "WORKER_DENY_SUBSTRINGS = [''authorization'', ''token'', ''password'', ''passwd'', ''secret'', ''api_key'', ''apikey'',
     ''dsn'', ''jwt'', ''cookie'', ''refresh_token'', ''access_token'', ''code_verifier'', ''client_secret'', ''url'', ''uri'']"

definition REDACTED :: json where "REDACTED = JStr ''[REDACTED]''"

definition is_sensitive_key :: "string list \<Rightarrow> string \<Rightarrow> bool" where
  "is_sensitive_key deny key = list_ex (contains (map lower_char key)) deny"

type_synonym event_dict = "(string \<times> json) list"

definition redact_event :: "string list \<Rightarrow> event_dict \<Rightarrow> event_dict" where
  "redact_event deny ev = map (\<lambda>(key, value). (key, if is_sensitive_key deny key then REDACTED else value)) ev"

text \<open>
  structlog's processors: what they do to the event of one log call, whose context variables, level,
  time, extras and exception are those of that call.
\<close>

record structlog =
  merge_contextvars :: "event_dict \<Rightarrow> event_dict"
  add_log_level :: "event_dict \<Rightarrow> event_dict"
  timestamper :: "event_dict \<Rightarrow> event_dict"
  extra_adder :: "event_dict \<Rightarrow> event_dict"
  remove_processors_meta :: "event_dict \<Rightarrow> event_dict"
  format_exc_info :: "event_dict \<Rightarrow> event_dict"

datatype origin = StructlogCall | StdlibCall

definition run_chain :: "(event_dict \<Rightarrow> event_dict) list \<Rightarrow> event_dict \<Rightarrow> event_dict" where
  "run_chain processors ev = fold (\<lambda>p. p) processors ev"

definition shared_processors :: "structlog \<Rightarrow> string list \<Rightarrow> (event_dict \<Rightarrow> event_dict) list" where
  "shared_processors sl deny = [merge_contextvars sl, add_log_level sl, timestamper sl, redact_event deny]"

text \<open>The dictionary the JSON renderer receives, on either side.\<close>

definition api_log_line :: "structlog \<Rightarrow> origin \<Rightarrow> event_dict \<Rightarrow> event_dict" where
  "api_log_line sl origin ev =
     run_chain [remove_processors_meta sl, format_exc_info sl]
       (case origin of
          StructlogCall \<Rightarrow> run_chain (shared_processors sl API_DENY_SUBSTRINGS) ev
        | StdlibCall \<Rightarrow> run_chain [merge_contextvars sl, add_log_level sl, timestamper sl, extra_adder sl,
            redact_event API_DENY_SUBSTRINGS] ev)"

definition worker_log_line :: "structlog \<Rightarrow> origin \<Rightarrow> event_dict \<Rightarrow> event_dict" where
  "worker_log_line sl origin ev =
     run_chain [remove_processors_meta sl] (run_chain (shared_processors sl WORKER_DENY_SUBSTRINGS) ev)"

text \<open>Sentry: the api scrubs the event's own keys, the worker those of two of its sections.\<close>

definition sentry_before_send :: "event_dict \<Rightarrow> event_dict" where
  "sentry_before_send event = redact_event API_DENY_SUBSTRINGS event"

definition scrub_sentry_event :: "event_dict \<Rightarrow> event_dict" where
  "scrub_sentry_event event = map (\<lambda>(key, value).
     (key, case value of
        JObj bag \<Rightarrow> if key \<in> {''extra'', ''tags''} then JObj (redact_event WORKER_DENY_SUBSTRINGS bag) else value
      | _ \<Rightarrow> value)) event"

record sentry_options =
  so_dsn :: string
  so_send_default_pii :: bool
  so_environment :: string
  so_traces_sample_rate :: rat

definition init_sentry :: "string option \<Rightarrow> string \<Rightarrow> rat \<Rightarrow> sentry_options option" where
  "init_sentry dsn posture rate =
     (case dsn of
        None \<Rightarrow> None
      | Some d \<Rightarrow> if d = [] then None
          else Some \<lparr>so_dsn = d, so_send_default_pii = False, so_environment = posture, so_traces_sample_rate = rate\<rparr>)"

definition resolved_dsn :: "string option \<Rightarrow> string option" where
  "resolved_dsn dsn = (case dsn of Some d \<Rightarrow> if py_strip d = [] then None else Some d | None \<Rightarrow> None)"

definition worker_init_sentry :: "string option \<Rightarrow> string \<Rightarrow> sentry_options option" where
  "worker_init_sentry dsn posture =
     (case resolved_dsn dsn of
        None \<Rightarrow> None
      | Some d \<Rightarrow> if d = [] then None
          else Some \<lparr>so_dsn = d, so_send_default_pii = False, so_environment = posture, so_traces_sample_rate = 0\<rparr>)"

section \<open>Correlation ids\<close>

definition CORRELATION_ID_HEADER :: string where "CORRELATION_ID_HEADER = ''X-Correlation-ID''"

text \<open>\<open>str.isprintable\<close> on Latin-1.\<close>

definition printable :: "char \<Rightarrow> bool" where
  "printable c = (let n = of_char c :: nat in (32 \<le> n \<and> n \<le> 126) \<or> (161 \<le> n \<and> n \<noteq> 173))"

text \<open>The first header of that name with an acceptable value; header bytes decode as Latin-1.\<close>

fun inbound_correlation_id :: "string \<Rightarrow> (string \<times> string) list \<Rightarrow> string" where
  "inbound_correlation_id minted [] = minted"
| "inbound_correlation_id minted ((key, raw) # headers) =
     (let value = py_strip raw
      in if map lower_char key = map lower_char CORRELATION_ID_HEADER \<and>
            value \<noteq> [] \<and> length value \<le> 200 \<and> list_all printable value
         then value else inbound_correlation_id minted headers)"

section \<open>The middleware\<close>

text \<open>What the application does with a request: messages it sends, and how it ends.\<close>

datatype asgi_message = ResponseStart "int option" "(string \<times> string) list" | OtherMessage

record asgi_outcome =
  ao_sent :: "asgi_message list"
  ao_route :: "string option"
  ao_raised :: "py_exn option"

definition route_template :: "string option \<Rightarrow> string" where
  "route_template route = (case route of Some t \<Rightarrow> if t = [] then ''__unmatched__'' else t | None \<Rightarrow> ''__unmatched__'')"

record observation =
  obs_route :: string
  obs_method :: string
  obs_status :: int

text \<open>\<open>send_wrapper\<close>: the status seen so far, and the message passed on.\<close>

fun send_wrapper :: "string \<Rightarrow> asgi_message \<Rightarrow> int \<Rightarrow> int \<times> asgi_message" where
  "send_wrapper cid (ResponseStart st headers) status_code =
     ((case st of None \<Rightarrow> 500 | Some n \<Rightarrow> n), ResponseStart st (headers @ [(CORRELATION_ID_HEADER, cid)]))"
| "send_wrapper cid OtherMessage status_code = (status_code, OtherMessage)"

fun send_all :: "string \<Rightarrow> asgi_message list \<Rightarrow> int \<Rightarrow> int \<times> asgi_message list" where
  "send_all cid [] status_code = (status_code, [])"
| "send_all cid (m # ms) status_code =
     (let (st, m') = send_wrapper cid m status_code; (st', ms') = send_all cid ms st in (st', m' # ms'))"

text \<open>
  The messages that leave, the exception that leaves, the histogram's observation, and the context
  afterwards; the application runs with the id bound. A scope that is not HTTP passes through.
\<close>

definition correlation_middleware :: "bool \<Rightarrow> string \<Rightarrow> string option \<Rightarrow> (string \<times> string) list \<Rightarrow> string option \<Rightarrow>
    (string option \<Rightarrow> asgi_outcome) \<Rightarrow>
    asgi_message list \<times> py_exn option \<times> observation option \<times> string option" where
  "correlation_middleware is_http minted meth headers bound app =
     (if \<not> is_http then let out = app bound in (ao_sent out, ao_raised out, None, bound)
      else let correlation_id = inbound_correlation_id minted headers;
               out = app (Some correlation_id);
               (status_code, sent) = send_all correlation_id (ao_sent out) 500
           in (sent, ao_raised out,
               Some \<lparr>obs_route = route_template (ao_route out), obs_method = (case meth of None \<Rightarrow> ''GET'' | Some m \<Rightarrow> m),
                     obs_status = status_code\<rparr>, None))"

section \<open>The worker\<close>

definition CELERY_CORRELATION_KEY :: string where "CELERY_CORRELATION_KEY = ''correlation_id''"

record task_context =
  tc_correlation_id :: string
  tc_task_id :: "string option"
  tc_task_name :: "string option"

text \<open>A task as Celery presents it: its name, and its request's headers if they are a dict.\<close>

record celery_task =
  ct_name :: "string option"
  ct_headers :: "(string \<times> json) list option"

definition bind_correlation :: "string \<Rightarrow> string option \<Rightarrow> celery_task option \<Rightarrow> task_context" where
  "bind_correlation minted task_id task =
     \<lparr>tc_correlation_id = (case task of
        None \<Rightarrow> minted
      | Some t \<Rightarrow> (case ct_headers t of
          None \<Rightarrow> minted
        | Some headers \<Rightarrow> (case map_of headers CELERY_CORRELATION_KEY of
            Some (JStr hdr) \<Rightarrow> if hdr = [] then minted else hdr
          | _ \<Rightarrow> minted))),
      tc_task_id = task_id,
      tc_task_name = (case task of None \<Rightarrow> None | Some t \<Rightarrow> ct_name t)\<rparr>"

text \<open>\<open>log_stage\<close>: the stage's outcome is logged and re-raised.\<close>

definition log_stage :: "string \<Rightarrow> event_dict \<Rightarrow> json \<Rightarrow> 'a result \<Rightarrow> 'a result \<times> event_dict" where
  "log_stage stage extra duration_ms res =
     (res, [(''event'', JStr ''ingest_stage''), (''stage'', JStr stage), (''duration_ms'', duration_ms),
        (''outcome'', JStr (case res of Inl _ \<Rightarrow> ''error'' | Inr _ \<Rightarrow> ''ok''))] @ extra)"

end
