(* ===== verification/Observability_Correct.thy ===== *)
theory Observability_Correct
  imports Observability
begin

text \<open>
  No deny-listed key of a log record reaches a log line unredacted, and one correlation id runs from the
  request to the worker.
\<close>

section \<open>Redaction\<close>

text \<open>structlog's last two processors drop bookkeeping keys, and add the traceback under \<open>exception\<close>.\<close>

definition structlog_contract :: "structlog \<Rightarrow> bool" where
  "structlog_contract sl \<longleftrightarrow> (\<forall>ev. set (remove_processors_meta sl ev) \<subseteq> set ev \<and>
     (\<forall>kv \<in> set (format_exc_info sl ev). kv \<in> set ev \<or> fst kv = ''exception''))"

definition redacted :: "string list \<Rightarrow> event_dict \<Rightarrow> bool" where
  "redacted deny ev \<longleftrightarrow> (\<forall>(key, value) \<in> set ev. is_sensitive_key deny key \<longrightarrow> value = REDACTED)"

lemma redact_event_redacted: "redacted deny (redact_event deny ev)"
  by (auto simp: redacted_def redact_event_def)

lemma redacted_subset: "redacted deny ev \<Longrightarrow> set ev' \<subseteq> set ev \<Longrightarrow> redacted deny ev'"
  by (auto simp: redacted_def)

lemma exception_is_logged: "\<not> is_sensitive_key API_DENY_SUBSTRINGS ''exception''"
  by code_simp

lemma chain_redacted:
  assumes "structlog_contract sl"
  shows "redacted API_DENY_SUBSTRINGS (run_chain [remove_processors_meta sl, format_exc_info sl] (run_chain (ps @ [redact_event API_DENY_SUBSTRINGS]) ev))"
    and "redacted WORKER_DENY_SUBSTRINGS (run_chain [remove_processors_meta sl] (run_chain (ps @ [redact_event WORKER_DENY_SUBSTRINGS]) ev))"
proof -
  have meta: "redacted deny (remove_processors_meta sl (redact_event deny x))" for deny x
    by (rule redacted_subset [OF redact_event_redacted [of deny x]]) (use assms in \<open>simp add: structlog_contract_def\<close>)
  have "redacted API_DENY_SUBSTRINGS (format_exc_info sl x)" if "redacted API_DENY_SUBSTRINGS x" for x
    using that assms exception_is_logged by (fastforce simp: structlog_contract_def redacted_def)
  then show "redacted API_DENY_SUBSTRINGS (run_chain [remove_processors_meta sl, format_exc_info sl] (run_chain (ps @ [redact_event API_DENY_SUBSTRINGS]) ev))"
    "redacted WORKER_DENY_SUBSTRINGS (run_chain [remove_processors_meta sl] (run_chain (ps @ [redact_event WORKER_DENY_SUBSTRINGS]) ev))"
    using meta by (simp_all add: run_chain_def)
qed

lemma contains_suffix: "contains s (a @ b) \<Longrightarrow> contains s b"
proof -
  assume "contains s (a @ b)"
  then obtain i where i: "i \<le> length s" "take (length a + length b) (drop i s) = a @ b"
    by (auto simp: contains_def list_ex_iff startswith_def less_Suc_eq_le simp del: upt_Suc)
  have "take (length b) (drop (i + length a) s) = drop (length a) (take (length a + length b) (drop i s))"
    by (simp add: drop_take add.commute)
  also have "\<dots> = b" by (simp add: i(2))
  finally have "startswith (drop (i + length a) s) b" by (simp add: startswith_def)
  moreover have "i + length a \<le> length s"
    using arg_cong [OF i(2), of length] i(1) by simp
  ultimately show "contains s b"
    by (auto simp: contains_def list_ex_iff simp del: upt_Suc intro!: bexI [of _ "i + length a"])
qed

lemma lists_compared:
  "is_sensitive_key API_DENY_SUBSTRINGS key \<Longrightarrow> is_sensitive_key WORKER_DENY_SUBSTRINGS key"
proof -
  assume "is_sensitive_key API_DENY_SUBSTRINGS key"
  then obtain n where n: "n \<in> set API_DENY_SUBSTRINGS" "contains (map lower_char key) n"
    by (auto simp: is_sensitive_key_def list_ex_iff)
  show ?thesis
  proof (cases "n = ''set-cookie''")
    case False
    then have "n \<in> set WORKER_DENY_SUBSTRINGS" using n(1) by (auto simp: API_DENY_SUBSTRINGS_def WORKER_DENY_SUBSTRINGS_def)
    then show ?thesis using n(2) by (auto simp: is_sensitive_key_def list_ex_iff)
  next
    case True
    have "contains (map lower_char key) (''set-'' @ ''cookie'')" using n(2) True by simp
    then have "contains (map lower_char key) ''cookie''" by (rule contains_suffix)
    then show ?thesis by (auto simp: is_sensitive_key_def list_ex_iff WORKER_DENY_SUBSTRINGS_def)
  qed
qed

text \<open>
  C27: every log line, of the api and of the worker, of structlog's own calls and of the standard
  library's, shows nothing but the marker under a deny-listed key, whatever the context, the extras and
  the time; the correlation id is never hidden. The worker's list covers the api's and more: a connection
  string under \<open>broker_url\<close> is hidden by the worker only. Sentry events are scrubbed unequally: the worker
  hides deny-listed extras, the api's hook hands every \<open>extra\<close> and \<open>tags\<close> section on as it is.
\<close>

theorem log_lines_redacted:
  assumes "structlog_contract sl"
  shows "redacted API_DENY_SUBSTRINGS (api_log_line sl origin ev) \<and> redacted WORKER_DENY_SUBSTRINGS (worker_log_line sl origin ev) \<and>
    redacted API_DENY_SUBSTRINGS (worker_log_line sl origin ev) \<and>
    \<not> is_sensitive_key WORKER_DENY_SUBSTRINGS CELERY_CORRELATION_KEY \<and>
    is_sensitive_key WORKER_DENY_SUBSTRINGS ''broker_url'' \<and> \<not> is_sensitive_key API_DENY_SUBSTRINGS ''broker_url'' \<and>
    (\<forall>section \<in> {''extra'', ''tags''}. \<forall>bag. (section, bag) \<in> set event \<longrightarrow> (section, bag) \<in> set (sentry_before_send event)) \<and>
    (\<forall>section \<in> {''extra'', ''tags''}. \<forall>bag. (section, JObj bag) \<in> set (scrub_sentry_event event) \<longrightarrow> redacted WORKER_DENY_SUBSTRINGS bag)"
proof (intro conjI)
  show api: "redacted API_DENY_SUBSTRINGS (api_log_line sl origin ev)"
    using chain_redacted(1) [OF assms, of "[merge_contextvars sl, add_log_level sl, timestamper sl]" ev]
      chain_redacted(1) [OF assms, of "[merge_contextvars sl, add_log_level sl, timestamper sl, extra_adder sl]" ev]
    by (cases origin) (simp_all add: api_log_line_def shared_processors_def)
  show worker: "redacted WORKER_DENY_SUBSTRINGS (worker_log_line sl origin ev)"
    using chain_redacted(2) [OF assms, of "[merge_contextvars sl, add_log_level sl, timestamper sl]" ev]
    by (simp add: worker_log_line_def shared_processors_def)
  then show "redacted API_DENY_SUBSTRINGS (worker_log_line sl origin ev)"
    using lists_compared by (auto simp: redacted_def)
  show "\<not> is_sensitive_key WORKER_DENY_SUBSTRINGS CELERY_CORRELATION_KEY" by code_simp
  show "is_sensitive_key WORKER_DENY_SUBSTRINGS ''broker_url''" by code_simp
  show "\<not> is_sensitive_key API_DENY_SUBSTRINGS ''broker_url''" by code_simp
  have plain: "\<not> is_sensitive_key API_DENY_SUBSTRINGS ''extra''" "\<not> is_sensitive_key API_DENY_SUBSTRINGS ''tags''" by code_simp+
  show "\<forall>section \<in> {''extra'', ''tags''}. \<forall>bag. (section, bag) \<in> set event \<longrightarrow> (section, bag) \<in> set (sentry_before_send event)"
    using plain by (force simp: sentry_before_send_def redact_event_def)
  show "\<forall>section \<in> {''extra'', ''tags''}. \<forall>bag. (section, JObj bag) \<in> set (scrub_sentry_event event) \<longrightarrow> redacted WORKER_DENY_SUBSTRINGS bag"
    using redact_event_redacted by (auto simp: scrub_sentry_event_def split: json.splits if_splits)
qed

theorem log_lines_redacted_witness:
  "redacted API_DENY_SUBSTRINGS (api_log_line
     \<lparr>merge_contextvars = (\<lambda>ev. (''correlation_id'', JStr ''t'') # ev), add_log_level = id, timestamper = id,
      extra_adder = (\<lambda>ev. ev @ [(''Redis_DSN'', JStr ''redis://:pw@h'')]), remove_processors_meta = id, format_exc_info = id\<rparr>
     StdlibCall [(''event'', JStr ''m'')])"
proof -
  let ?sl = "\<lparr>merge_contextvars = (\<lambda>ev. (''correlation_id'', JStr ''t'') # ev), add_log_level = id, timestamper = id,
      extra_adder = (\<lambda>ev. ev @ [(''Redis_DSN'', JStr ''redis://:pw@h'')]), remove_processors_meta = id, format_exc_info = id\<rparr>"
  have "structlog_contract ?sl" by (simp add: structlog_contract_def)
  from log_lines_redacted [OF this] show ?thesis by blast
qed

section \<open>Correlation\<close>

definition sound_id :: "string \<Rightarrow> bool" where
  "sound_id cid \<longleftrightarrow> cid \<noteq> [] \<and> length cid \<le> 200 \<and> list_all printable cid"

text \<open>An id taken from a header of the request.\<close>

definition header_id :: "(string \<times> string) list \<Rightarrow> string \<Rightarrow> bool" where
  "header_id headers cid \<longleftrightarrow> (\<exists>(key, raw) \<in> set headers.
     map lower_char key = map lower_char CORRELATION_ID_HEADER \<and> cid = py_strip raw)"

lemma inbound_sound:
  "sound_id minted \<Longrightarrow> sound_id (inbound_correlation_id minted headers) \<and>
   (inbound_correlation_id minted headers = minted \<or> header_id headers (inbound_correlation_id minted headers))"
proof (induction headers)
  case (Cons h headers)
  then show ?case by (cases h) (auto simp: sound_id_def header_id_def Let_def)
qed simp

text \<open>What leaves for a message: the response's start with the id appended, anything else as it is.\<close>

definition echoed :: "string \<Rightarrow> asgi_message \<Rightarrow> asgi_message" where
  "echoed cid m = (case m of ResponseStart st headers \<Rightarrow> ResponseStart st (headers @ [(CORRELATION_ID_HEADER, cid)])
     | OtherMessage \<Rightarrow> OtherMessage)"

definition start_status :: "asgi_message list \<Rightarrow> int" where
  "start_status ms = (case rev (List.map_filter (\<lambda>m. case m of ResponseStart st _ \<Rightarrow> Some st | OtherMessage \<Rightarrow> None) ms) of
     Some n # _ \<Rightarrow> n | _ \<Rightarrow> 500)"

lemma send_all_spec:
  "send_all cid ms st = ((if List.map_filter (\<lambda>m. case m of ResponseStart s _ \<Rightarrow> Some s | OtherMessage \<Rightarrow> None) ms = []
     then st else start_status ms), map (echoed cid) ms)"
proof (induction ms arbitrary: st)
  case (Cons m ms)
  then show ?case
    by (cases m) (auto simp: start_status_def map_filter_simps echoed_def split: list.splits option.splits)
qed (simp add: map_filter_simps)

text \<open>What Celery documents of custom message headers: the task sees them in its request.\<close>

definition celery_delivers :: "message \<Rightarrow> celery_task \<Rightarrow> bool" where
  "celery_delivers m t \<longleftrightarrow> (\<exists>headers. ct_headers t = Some headers \<and>
     map_of headers CELERY_CORRELATION_KEY = Some (JStr (msg_correlation_id m)))"

text \<open>
  C26: one id per request, end to end. The id of an HTTP request is its own header's value if that is
  short and printable and a minted one otherwise; the response carries it and is otherwise the
  application's, the exception that leaves too; the request is counted once, under the route's template
  and the status sent (500 if none); nothing stays bound. A task enqueued meanwhile logs under the same id.
\<close>

theorem correlation_end_to_end:
  assumes "sound_id minted" and "cid = inbound_correlation_id minted headers" and "app (Some cid) = out"
  shows "correlation_middleware True minted meth headers bound app =
      (map (echoed cid) (ao_sent out), ao_raised out,
       Some \<lparr>obs_route = route_template (ao_route out), obs_method = (case meth of None \<Rightarrow> ''GET'' | Some m \<Rightarrow> m),
             obs_status = start_status (ao_sent out)\<rparr>, None) \<and>
    sound_id cid \<and> (cid = minted \<or> header_id headers cid) \<and>
    (\<forall>env hex path u i s. \<exists>m. (case enqueue_ingest env (Some cid) hex path u i s of
        (Inl e, s') \<Rightarrow> s' = s
      | (Inr j, s') \<Rightarrow> j = i \<and> sg_queue s' = sg_queue s @ [m] \<and>
          (\<forall>w tid t. celery_delivers m t \<longrightarrow> tc_correlation_id (bind_correlation w tid (Some t)) = cid)))"
proof (intro conjI allI)
  note id = inbound_sound [OF assms(1), of headers, folded assms(2)]
  show "sound_id cid" "cid = minted \<or> header_id headers cid" using id by simp_all
  then obtain c cs where cid: "cid = c # cs" by (cases cid) (auto simp: sound_id_def)
  have "start_status ms = 500" if "List.map_filter (\<lambda>m. case m of ResponseStart s _ \<Rightarrow> Some s | OtherMessage \<Rightarrow> None) ms = []" for ms
    using that by (simp add: start_status_def)
  then show "correlation_middleware True minted meth headers bound app =
      (map (echoed cid) (ao_sent out), ao_raised out,
       Some \<lparr>obs_route = route_template (ao_route out), obs_method = (case meth of None \<Rightarrow> ''GET'' | Some m \<Rightarrow> m),
             obs_status = start_status (ao_sent out)\<rparr>, None)"
    using assms(2,3) by (simp add: correlation_middleware_def send_all_spec Let_def)
  show "\<exists>m. (case enqueue_ingest env (Some cid) hex path u i s of (Inl e, s') \<Rightarrow> s' = s
      | (Inr j, s') \<Rightarrow> j = i \<and> sg_queue s' = sg_queue s @ [m] \<and>
          (\<forall>w tid t. celery_delivers m t \<longrightarrow> tc_correlation_id (bind_correlation w tid (Some t)) = cid))" for env hex path u i s
    by (rule exI [of _ "\<lparr>msg_name = INGEST_TASK_NAME, msg_path = path, msg_user_id = u, msg_task_id = i, msg_correlation_id = cid\<rparr>"])
       (auto simp: enqueue_ingest_def cid celery_delivers_def bind_correlation_def Let_def split: option.split)
qed

theorem correlation_end_to_end_witness:
  "sound_id (inbound_correlation_id ''minted'' [(''x-correlation-id'', [CHR 0x07]), (''X-CORRELATION-ID'', '' trace 1 '')]) \<and>
   fst (correlation_middleware True ''minted'' None [(''x-correlation-id'', [CHR 0x07]), (''X-CORRELATION-ID'', '' trace 1 '')] None
     (\<lambda>_. \<lparr>ao_sent = [ResponseStart (Some 404) []], ao_route = None, ao_raised = None\<rparr>)) =
   [ResponseStart (Some 404) [(''X-Correlation-ID'', ''trace 1'')]]"
proof -
  have cid: "inbound_correlation_id ''minted'' [(''x-correlation-id'', [CHR 0x07]), (''X-CORRELATION-ID'', '' trace 1 '')] = ''trace 1''"
    by code_simp
  have "sound_id ''minted''" by code_simp
  from correlation_end_to_end [OF this cid [symmetric] refl] show ?thesis
    unfolding cid by (simp add: echoed_def CORRELATION_ID_HEADER_def)
qed

end
