(* ===== verification/Spec2Isabelle.thy ===== *)
theory Spec2Isabelle
  imports Documents_Correct Collections Calendar Search_History Summary_Correct Ingest_Correct Chunking_Correct
    Editor_Links_Tenancy Integrations_Correct Upload_Pipeline Ratelimit_Correct Auth_Correct Sweep_Correct Api_Correct
    Inference_Correct Embedding_Space Inference_Search Clean_Correct Observability_Correct
begin

text \<open>
  A verification development for sermon.guide, a sermon-preparation service: a FastAPI backend
  (\<open>src/api\<close>), a Celery worker with its maintenance scripts (\<open>src/worker\<close>), Postgres, a Milvus vector
  store, an object store, Redis, and a TypeScript frontend. The Python of the two backends is what is
  modelled.

  \<^bold>\<open>How the parts interact.\<close> A request carries a bearer token; \<open>get_current_user\<close> makes it a user, and a
  router of \<open>api/main.py\<close> serves the user on the shared tables. An upload is staged on disk, recorded in
  \<open>upload_tasks\<close> and sent to the worker as a message; the worker extracts and chunks the text, embeds it
  over \<open>worker/inference.py\<close>, and writes vectors, chunks and the caller's library entry. Search fuses a dense
  arm (Milvus) and a sparse arm (Postgres), reranks and highlights over the same transport; the summary
  sends the hits to a language model and resolves its citations. Documents, collections, the calendar,
  reading positions and the search history are tables of the user; a document can be linked to Google Docs
  with OAuth tokens kept encrypted. The scripts sweep orphans and repair headings in both stores.

  \<^bold>\<open>Conventions.\<close> A table is a list of records in \<open>Db_Models\<close>, with the columns of \<open>worker/db/models.py\<close>; a
  statement is a function on the database that bears the source's name, with \<open>_stmt\<close>. A handler returns
  \<open>py_exn + 'a\<close> and the new state; \<open>status_of\<close> is the status an exception leaves with. Server-made values
  (identifiers, the clock, nonces) are arguments. Code that is not in the repository (pandoc, Google, the
  language model, Milvus, bcrypt, JWT, AES-GCM, the tokenizer, structlog, ...) is a field of an environment
  record; what a property needs of it is a named hypothesis. Strings are characters below 256.

  \<^bold>\<open>Theories.\<close>
  \<^item> \<open>Prelude\<close> (results, tables, tenant slices of rows), \<open>Py_Base\<close> (str methods, \<open>int\<close>, \<open>uuid.UUID\<close> as
    \<open>128 word\<close>), \<open>Db_Models\<close> (the schema, \<open>tenant_view\<close>), \<open>Handler_Monad\<close> (sequenced fallible calls).
  \<^item> \<open>Tenancy\<close>: the two contracts. \<open>tenant_step\<close>, from which non-interference of whole histories follows, is
    interpreted on every router; \<open>owned_gate\<close>, from which the absence of an existence oracle follows, on
    every per-id gate.
  \<^item> \<open>Doc_Text\<close>, \<open>Documents\<close>, \<open>Documents_Correct\<close>: \<open>api/documents.py\<close>. The text projection against its
    recursive specification, well-formedness under every route, the optimistic-concurrency check and its
    race, the snapshot-first import.
  \<^item> \<open>Collections\<close>, \<open>Calendar\<close>, \<open>Search_History\<close>, \<open>Reader\<close>, \<open>Reader_Correct\<close>: the routes of
    \<open>collections_routes.py\<close>, \<open>calendar_routes.py\<close>, \<open>search_history.py\<close>, \<open>reader.py\<close>, \<open>library.py\<close>, with their
    invariants.
  \<^item> \<open>Retrieval\<close>, \<open>Ranking\<close>, \<open>Search\<close> and \<open>Retrieval_Correct\<close>: \<open>worker/retrieval.py\<close>, \<open>api/rerank.py\<close>,
    \<open>api/highlight.py\<close>, \<open>api/search.py\<close>. Rank fusion, lossless slicing, scopes that never widen, degradation.
  \<^item> \<open>Summary\<close>, \<open>Summary_Correct\<close>: \<open>api/summary.py\<close>. Labels, markers, citation extraction.
  \<^item> \<open>Inference\<close>, \<open>Inference_Correct\<close>, \<open>Embedding_Space\<close>, \<open>Inference_Search\<close>: \<open>worker/inference.py\<close> and
    \<open>worker/embedding.py\<close>. Batches and retries, the guard between processes, and the proof that the contract
    search assumes of its models is what the transport provides.
  \<^item> \<open>Chunking\<close>, \<open>Dedup\<close>, \<open>Ingest\<close> with \<open>Chunking_Correct\<close>, \<open>Ingest_Correct\<close>: the worker's pipeline as a plan
    of durable effects, with every crash point and redelivery.
  \<^item> \<open>Uploads\<close>, \<open>Uploads_Correct\<close>, \<open>Upload_Pipeline\<close>: \<open>api/uploads.py\<close>, \<open>api/tasks_client.py\<close>, and the path from
    an upload over the worker to the reader.
  \<^item> \<open>Auth\<close>, \<open>Auth_Correct\<close>, \<open>Ratelimit\<close>, \<open>Ratelimit_Correct\<close>: \<open>api/auth.py\<close>, the boot guards of
    \<open>api/main.py\<close>, \<open>api/ratelimit.py\<close>.
  \<^item> \<open>Api\<close>, \<open>Api_Correct\<close>: the mounted routers behind the token as one machine, whose tenants do not
    interfere.
  \<^item> \<open>Crypto_Vault\<close>, \<open>Base64url\<close>, \<open>Drive_Client\<close>, \<open>Integrations\<close>, \<open>Integrations_Correct\<close>, \<open>Editor_Links\<close>,
    \<open>Editor_Links_Correct\<close>, \<open>Editor_Links_Tenancy\<close>: OAuth, the token vault, the Drive calls and the link
    life cycle.
  \<^item> \<open>Sweep\<close>, \<open>Sweep_Correct\<close>, \<open>Clean_Sections\<close>, \<open>Clean_Correct\<close>: two destructive maintenance scripts, under
    interference of other processes and under crashes.
  \<^item> \<open>Observability\<close>, \<open>Observability_Correct\<close>: \<open>api/observability.py\<close>, \<open>worker/obs.py\<close>.

  \<^bold>\<open>Bounds.\<close> No definition runs on fuel: loops are structural or have a measure (\<open>slices\<close>, the window search of
  the chunker, the calendar's weekly loop, \<open>replace\<close>), and retries recurse over the list of attempts. Word
  arithmetic occurs in UUIDs only; Python's integers are \<open>int\<close>, 32-bit columns are checked where they bind.

  \<^bold>\<open>Not modelled.\<close> Floating-point rounding (scores, ratios and vectors are rationals; \<open>float(int)\<close> is exact);
  metrics and readiness probes, which only read; the Celery and SQLAlchemy configuration, Alembic migrations
  and environment loading, which have no logic of their own; text extraction and format conversion, which
  shell out to pandoc, Node and PDF libraries; the HTML parser behind \<open>clean_heading\<close> and the sentence
  splitters, which are parameters; transaction isolation between requests beyond the races stated
  explicitly; the TypeScript frontend and the infrastructure files.
\<close>

end
